(* ===== verification/Prelude.thy ===== *)
theory Prelude
  imports Main "HOL-Library.Multiset" "HOL-Library.While_Combinator"
begin

text \<open>
  What every component of the model shares: Go's 32-bit integers with their wrap-around,
  Go maps read with a zero value, the string functions of the standard library that the
  sources use (\<open>strconv.Itoa\<close>, \<open>strconv.Atoi\<close>, \<open>strings.Split\<close>, \<open>strings.TrimSuffix\<close>,
  \<open>html.EscapeString\<close>), the errors of the Kubernetes API, and a generic locale for
  invariants of state machines.
\<close>

named_theorems go_defs \<open>definitions of small helpers that proofs unfold\<close>
named_theorems go_splits \<open>case splits of the model's result types\<close>

section \<open>32-bit integers\<close>

text \<open>Go's \<open>int32\<close> arithmetic wraps around; \<open>int\<close> is read as unbounded.\<close>

definition wrap32 :: "int \<Rightarrow> int" where
  "wrap32 x = (x + 2147483648) mod 4294967296 - 2147483648"

definition is_int32 :: "int \<Rightarrow> bool" where
  "is_int32 x \<longleftrightarrow> - 2147483648 \<le> x \<and> x \<le> 2147483647"

lemma wrap32_id [simp]: "- 2147483648 \<le> x \<Longrightarrow> x \<le> 2147483647 \<Longrightarrow> wrap32 x = x"
  by (simp add: wrap32_def)

lemma wrap32_is_int32 [simp]: "is_int32 (wrap32 x)"
  using pos_mod_bound [of 4294967296 "x + 2147483648"]
    pos_mod_sign [of 4294967296 "x + 2147483648"]
  by (simp add: is_int32_def wrap32_def del: pos_mod_bound pos_mod_sign)

section \<open>Go maps and sets\<close>

text \<open>Reading a missing key of a Go map yields the zero value of its element type.\<close>

definition map_get :: "('k \<rightharpoonup> 'v) \<Rightarrow> 'v \<Rightarrow> 'k \<Rightarrow> 'v" where
  "map_get m z k = (case m k of None \<Rightarrow> z | Some v \<Rightarrow> v)"

lemma map_get_upd [simp]: "map_get (m(k \<mapsto> v)) z k' = (if k' = k then v else map_get m z k')"
  by (simp add: map_get_def)

lemma map_get_empty [simp]: "map_get Map.empty z k = z"
  by (simp add: map_get_def)

lemma map_get_Some [simp]: "m k = Some v \<Longrightarrow> map_get m z k = v"
  by (simp add: map_get_def)

lemma map_get_None [simp]: "m k = None \<Longrightarrow> map_get m z k = z"
  by (simp add: map_get_def)

section \<open>Strings\<close>

definition newline :: char where "newline = CHR 10"
definition carriage_return :: char where "carriage_return = CHR 13"

subsection \<open>strconv.Itoa and strconv.Atoi\<close>

definition digit_char :: "nat \<Rightarrow> char" where
  "digit_char n = char_of (48 + n)"

definition digit_val :: "char \<Rightarrow> nat option" where
  "digit_val c = (let n = of_char c :: nat in if 48 \<le> n \<and> n \<le> 57 then Some (n - 48) else None)"

fun nat_digits :: "nat \<Rightarrow> string" where
  "nat_digits n = (if n < 10 then [digit_char n] else nat_digits (n div 10) @ [digit_char (n mod 10)])"

declare nat_digits.simps [simp del]

definition itoa :: "int \<Rightarrow> string" where
  "itoa i = (if i < 0 then CHR ''-'' # nat_digits (nat (- i)) else nat_digits (nat i))"

fun parse_digits :: "nat \<Rightarrow> string \<Rightarrow> nat option" where
  "parse_digits acc [] = Some acc"
| "parse_digits acc (c # cs) =
     (case digit_val c of None \<Rightarrow> None | Some d \<Rightarrow> parse_digits (10 * acc + d) cs)"

text \<open>\<open>Atoi\<close> accepts one sign, wants at least one digit and rejects values outside 64 bits.\<close>

definition parse_unsigned :: "string \<Rightarrow> nat option" where
  "parse_unsigned s = (if s = [] then None else parse_digits 0 s)"

definition in_int64 :: "int \<Rightarrow> int option" where
  "in_int64 i = (if - 9223372036854775808 \<le> i \<and> i \<le> 9223372036854775807 then Some i else None)"

definition atoi :: "string \<Rightarrow> int option" where
  "atoi s =
     (case s of
        [] \<Rightarrow> None
      | c # cs \<Rightarrow>
          if c = CHR ''-'' then Option.bind (parse_unsigned cs) (\<lambda>n. in_int64 (- int n))
          else if c = CHR ''+'' then Option.bind (parse_unsigned cs) (\<lambda>n. in_int64 (int n))
          else Option.bind (parse_unsigned s) (\<lambda>n. in_int64 (int n)))"

lemma digit_val_char [simp]: "n < 10 \<Longrightarrow> digit_val (digit_char n) = Some n"
  by (simp add: digit_val_def digit_char_def)

lemma parse_digits_append:
  "parse_digits acc (xs @ ys) = Option.bind (parse_digits acc xs) (\<lambda>a. parse_digits a ys)"
  by (induction xs arbitrary: acc) (auto split: option.splits)

lemma parse_nat_digits: "parse_digits 0 (nat_digits n) = Some n"
proof (induction n rule: nat_digits.induct)
  case (1 n)
  show ?case
  proof (cases "n < 10")
    case True
    then show ?thesis by (subst nat_digits.simps) simp
  next
    case False
    with 1 have "parse_digits 0 (nat_digits (n div 10)) = Some (n div 10)" by simp
    with False show ?thesis
      by (subst nat_digits.simps) (simp add: parse_digits_append)
  qed
qed

lemma digit_char_neq:
  assumes "n < 10" and "digit_val c = None"
  shows "digit_char n \<noteq> c"
  using assms by (metis digit_val_char option.distinct(1))

lemma nat_digits_chars: "c \<in> set (nat_digits n) \<Longrightarrow> \<exists>d < 10. c = digit_char d"
proof (induction n rule: nat_digits.induct)
  case (1 n)
  show ?case
  proof (cases "n < 10")
    case True
    with 1 show ?thesis by (subst (asm) nat_digits.simps) auto
  next
    case False
    with 1 have "c \<in> set (nat_digits (n div 10)) \<or> c = digit_char (n mod 10)"
      by (subst (asm) (2) nat_digits.simps) auto
    with 1 False show ?thesis by (auto intro: exI [of _ "n mod 10"])
  qed
qed

lemma nat_digits_nonempty [simp]: "nat_digits n \<noteq> []"
  by (subst nat_digits.simps) simp

lemma nat_digits_no_char: "digit_val c = None \<Longrightarrow> c \<notin> set (nat_digits n)"
  using nat_digits_chars digit_char_neq by blast

lemma itoa_no_char: "digit_val c = None \<Longrightarrow> c \<noteq> CHR ''-'' \<Longrightarrow> c \<notin> set (itoa i)"
  by (simp add: itoa_def nat_digits_no_char)

lemma itoa_no_comma [simp]: "CHR '','' \<notin> set (itoa i)"
  by (rule itoa_no_char) (simp_all add: digit_val_def)

lemma itoa_no_qmark [simp]: "CHR ''?'' \<notin> set (itoa i)"
  by (rule itoa_no_char) (simp_all add: digit_val_def)

lemma itoa_nonempty [simp]: "itoa i \<noteq> []"
  by (simp add: itoa_def)

lemma atoi_itoa:
  assumes "- 9223372036854775808 \<le> i" and "i \<le> 9223372036854775807"
  shows "atoi (itoa i) = Some i"
proof (cases "i < 0")
  case True
  with assms show ?thesis
    by (simp add: itoa_def atoi_def parse_unsigned_def parse_nat_digits in_int64_def)
next
  case False
  obtain c cs where cs: "nat_digits (nat i) = c # cs"
    using nat_digits_nonempty by (cases "nat_digits (nat i)") auto
  have "c \<in> set (nat_digits (nat i))" using cs by simp
  then have "c \<noteq> CHR ''-''" and "c \<noteq> CHR ''+''"
    using nat_digits_no_char [of "CHR ''-''"] nat_digits_no_char [of "CHR ''+''"]
    by (auto simp: digit_val_def)
  moreover have "parse_digits 0 (c # cs) = Some (nat i)"
    using parse_nat_digits [of "nat i"] cs by simp
  ultimately show ?thesis
    using False assms cs by (simp add: itoa_def atoi_def parse_unsigned_def in_int64_def)
qed

subsection \<open>strings.Split, strings.TrimSuffix, strings.Replace\<close>

text \<open>\<open>strings.Split\<close> on a one-character separator; the result is never empty.\<close>

fun split_on :: "char \<Rightarrow> string \<Rightarrow> string list" where
  "split_on c [] = [[]]"
| "split_on c (x # xs) =
     (if x = c then [] # split_on c xs
      else (case split_on c xs of [] \<Rightarrow> [[x]] | w # ws \<Rightarrow> (x # w) # ws))"

lemma split_on_nonempty [simp]: "split_on c s \<noteq> []"
  by (induction s) (auto split: list.splits)

lemma split_on_no_sep: "c \<notin> set s \<Longrightarrow> split_on c s = [s]"
  by (induction s) auto

lemma split_on_sep: "c \<notin> set w \<Longrightarrow> split_on c (w @ c # s) = w # split_on c s"
  by (induction w) auto

text \<open>\<open>strings.TrimSuffix\<close> with a one-character suffix: at most one occurrence is removed.\<close>

definition trim_suffix :: "char \<Rightarrow> string \<Rightarrow> string" where
  "trim_suffix c s = (if s \<noteq> [] \<and> last s = c then butlast s else s)"

lemma trim_suffix_snoc [simp]: "trim_suffix c (s @ [c]) = s"
  by (simp add: trim_suffix_def)

lemma trim_suffix_Nil [simp]: "trim_suffix c [] = []"
  by (simp add: trim_suffix_def)

text \<open>A separated list without the last separator, as the env variables of the operator have it.\<close>

lemma split_trim_concat:
  assumes "\<forall>w \<in> set ws. c \<notin> set w" and "ws \<noteq> []"
  shows "split_on c (trim_suffix c (concat (map (\<lambda>w. w @ [c]) ws))) = ws"
  using assms
proof (induction ws)
  case Nil
  then show ?case by simp
next
  case (Cons w ws)
  show ?case
  proof (cases "ws = []")
    case True
    with Cons.prems show ?thesis by (simp add: split_on_no_sep)
  next
    case False
    obtain v where v: "concat (map (\<lambda>w. w @ [c]) ws) = v @ [c]"
      using False by (cases ws rule: rev_cases) auto
    from Cons.IH Cons.prems False have "split_on c v = ws" by (simp add: v)
    moreover have "trim_suffix c (w @ c # v @ [c]) = w @ c # v"
      using trim_suffix_snoc [of c "w @ c # v"] by simp
    ultimately show ?thesis
      using Cons.prems by (simp add: v split_on_sep)
  qed
qed

text \<open>\<open>strings.Replace(s, c, "", -1)\<close> for a one-character \<open>c\<close>.\<close>

definition remove_char :: "char \<Rightarrow> string \<Rightarrow> string" where
  "remove_char c s = filter (\<lambda>x. x \<noteq> c) s"

subsection \<open>html.EscapeString\<close>

definition escape_char :: "char \<Rightarrow> string" where
  "escape_char c =
     (if c = CHR ''&'' then ''&amp;''
      else if c = CHR 39 then ''&#39;''
      else if c = CHR ''<'' then ''&lt;''
      else if c = CHR ''>'' then ''&gt;''
      else if c = CHR 34 then ''&#34;''
      else [c])"

definition html_escape :: "string \<Rightarrow> string" where
  "html_escape s = concat (map escape_char s)"

lemma html_escape_safe:
  "CHR ''<'' \<notin> set (html_escape s)" "CHR ''>'' \<notin> set (html_escape s)"
  by (auto simp: html_escape_def escape_char_def split: if_splits)

section \<open>Errors of the Kubernetes API\<close>

text \<open>
  What the sources distinguish of an API error: \<open>apierrors.IsNotFound\<close>,
  \<open>apierrors.IsConflict\<close> and the rest. Each carries its text (\<open>err.Error()\<close>).
\<close>

datatype api_error = NotFound string | Conflict string | OtherError string

fun IsNotFound :: "api_error \<Rightarrow> bool" where
  "IsNotFound (NotFound _) = True"
| "IsNotFound _ = False"

fun IsConflict :: "api_error \<Rightarrow> bool" where
  "IsConflict (Conflict _) = True"
| "IsConflict _ = False"

fun err_text :: "api_error \<Rightarrow> string" where
  "err_text (NotFound m) = m"
| "err_text (Conflict m) = m"
| "err_text (OtherError m) = m"

section \<open>State machines\<close>

text \<open>
  The reachable states of a transition relation, and the principle every invariant of the
  development uses: what the initial states satisfy and every step keeps holds in every
  reachable state.
\<close>

inductive reach :: "('s \<Rightarrow> bool) \<Rightarrow> ('s \<Rightarrow> 's \<Rightarrow> bool) \<Rightarrow> 's \<Rightarrow> bool"
  for init :: "'s \<Rightarrow> bool" and step :: "'s \<Rightarrow> 's \<Rightarrow> bool" where
  reach_init: "init s \<Longrightarrow> reach init step s"
| reach_step: "reach init step s \<Longrightarrow> step s t \<Longrightarrow> reach init step t"

locale invariant_system =
  fixes init :: "'s \<Rightarrow> bool"
    and step :: "'s \<Rightarrow> 's \<Rightarrow> bool"
    and inv :: "'s \<Rightarrow> bool"
  assumes inv_init: "init s \<Longrightarrow> inv s"
    and inv_step: "inv s \<Longrightarrow> step s t \<Longrightarrow> inv t"
begin

lemma inv_reach: "reach init step s \<Longrightarrow> inv s"
  by (induction rule: reach.induct) (auto intro: inv_init inv_step)

lemma inv_steps: "step\<^sup>*\<^sup>* s t \<Longrightarrow> inv s \<Longrightarrow> inv t"
  by (induction rule: rtranclp_induct) (auto intro: inv_step)

end

end
