(* ===== verification/Api_Types.thy ===== *)
theory Api_Types
  imports Prelude
begin

text \<open>
  The custom resources of \<open>pkg/operator/api/v1alpha1\<close> (GameServer, GameServerBuild,
  GameServerDetail) and, of the Kubernetes objects, the fields that the sources read or write.
  Go's nil maps are empty maps here: the sources read them as such and allocate them before
  they write. Times are milliseconds, and a pointer is an option.
\<close>

section \<open>Kubernetes objects, as far as the sources use them\<close>

record OwnerReference =
  or_APIVersion :: string
  or_Kind :: string
  or_Name :: string
  or_Controller :: bool

record ObjectMeta =
  om_Name :: string
  om_Namespace :: string
  om_UID :: string
  om_ResourceVersion :: string
  om_OwnerReferences :: "OwnerReference list"
  om_Labels :: "string \<rightharpoonup> string"
  om_Annotations :: "string \<rightharpoonup> string"

record ContainerPort =
  cp_Name :: string
  cp_ContainerPort :: int
  cp_HostPort :: int

record VolumeMount =
  vm_Name :: string
  vm_MountPath :: string

datatype EnvVar =
    EnvValue (env_name: string) string
  | EnvFieldRef (env_name: string) string

record Container =
  c_Name :: string
  c_Image :: string
  c_ImagePullPolicy :: string
  c_Ports :: "ContainerPort list"
  c_Env :: "EnvVar list"
  c_VolumeMounts :: "VolumeMount list"

datatype Volume = EmptyDirVolume string | OtherVolume string

record PodSpec =
  ps_Containers :: "Container list"
  ps_InitContainers :: "Container list"
  ps_Volumes :: "Volume list"
  ps_NodeSelector :: "string \<rightharpoonup> string"
  ps_HostNetwork :: bool
  ps_RestartPolicy :: string
  ps_NodeName :: string

record PodTemplateSpec =
  pt_Labels :: "string \<rightharpoonup> string"
  pt_Annotations :: "string \<rightharpoonup> string"
  pt_Spec :: PodSpec

record ContainerStatus =
  cs_Ready :: bool
  cs_Terminated :: "int option"  \<comment> \<open>the exit code, when the container has terminated\<close>

record Pod =
  pod_Meta :: ObjectMeta
  pod_Spec :: PodSpec
  pod_ContainerStatuses :: "ContainerStatus list"

datatype NodeAddressType = NodeExternalIP | NodeInternalIP | OtherAddress string

datatype NodeConditionType = NodeReady | OtherCondition string

datatype ConditionStatus = ConditionTrue | ConditionFalse | ConditionUnknown

record Node =
  node_Name :: string
  node_Labels :: "string \<rightharpoonup> string"
  node_Unschedulable :: bool
  node_Conditions :: "(NodeConditionType \<times> ConditionStatus) list"
  node_Addresses :: "(NodeAddressType \<times> string) list"
  node_CreationTimestamp :: int

section \<open>GameServer\<close>

type_synonym GameServerHealth = string
type_synonym GameServerState = string

abbreviation GameServerStateInitializing :: GameServerState where
  "GameServerStateInitializing \<equiv> ''Initializing''"
abbreviation GameServerStateStandingBy :: GameServerState where
  "GameServerStateStandingBy \<equiv> ''StandingBy''"
abbreviation GameServerStateActive :: GameServerState where
  "GameServerStateActive \<equiv> ''Active''"
abbreviation GameServerStateCrashed :: GameServerState where
  "GameServerStateCrashed \<equiv> ''Crashed''"
abbreviation GameServerStateGameCompleted :: GameServerState where
  "GameServerStateGameCompleted \<equiv> ''GameCompleted''"
abbreviation GameServerHealthy :: GameServerHealth where
  "GameServerHealthy \<equiv> ''Healthy''"
abbreviation GameServerUnhealthy :: GameServerHealth where
  "GameServerUnhealthy \<equiv> ''Unhealthy''"

text \<open>The values the custom resource definition admits, and the empty (unset) value.\<close>

definition known_states :: "GameServerState list" where
  "known_states =
     [GameServerStateInitializing, GameServerStateStandingBy, GameServerStateActive,
      GameServerStateCrashed, GameServerStateGameCompleted]"

definition known_healths :: "GameServerHealth list" where
  "known_healths = [GameServerHealthy, GameServerUnhealthy]"

record BuildMetadataItem =
  bm_Key :: string
  bm_Value :: string

record GameServerSpec =
  gss_Template :: PodTemplateSpec
  gss_TitleID :: string
  gss_BuildID :: string
  gss_PortsToExpose :: "int list"
  gss_BuildMetadata :: "BuildMetadataItem list"

record GameServerStatus =
  st_Health :: GameServerHealth
  st_State :: GameServerState
  st_PublicIP :: string
  st_Ports :: string
  st_SessionID :: string
  st_SessionCookie :: string
  st_InitialPlayers :: "string list"
  st_NodeAge :: int
  st_NodeName :: string
  st_ReachedInitializingOn :: "int option"
  st_ReachedStandingByOn :: "int option"
  st_ReachedActiveOn :: "int option"

record GameServer =
  gs_Meta :: ObjectMeta
  gs_Spec :: GameServerSpec
  gs_Status :: GameServerStatus

section \<open>GameServerBuild\<close>

type_synonym GameServerBuildHealth = string

abbreviation BuildHealthy :: GameServerBuildHealth where "BuildHealthy \<equiv> ''Healthy''"
abbreviation BuildUnhealthy :: GameServerBuildHealth where "BuildUnhealthy \<equiv> ''Unhealthy''"

record GameServerBuildSpec =
  bs_StandingBy :: int
  bs_Max :: int
  bs_Template :: PodTemplateSpec
  bs_TitleID :: string
  bs_BuildID :: string
  bs_PortsToExpose :: "int list"
  bs_CrashesToMarkUnhealthy :: "int option"
  bs_BuildMetadata :: "BuildMetadataItem list"

record GameServerBuildStatus =
  bst_CurrentPending :: int
  bst_CurrentInitializing :: int
  bst_CurrentStandingBy :: int
  bst_CurrentStandingByReadyDesired :: string
  bst_CurrentActive :: int
  bst_CrashesCount :: int
  bst_Health :: GameServerBuildHealth

record GameServerBuild =
  gsb_Meta :: ObjectMeta
  gsb_Spec :: GameServerBuildSpec
  gsb_Status :: GameServerBuildStatus

section \<open>GameServerDetail\<close>

record GameServerDetailSpec =
  ds_ConnectedPlayersCount :: int
  ds_ConnectedPlayers :: "string list"

record GameServerDetail =
  gsd_Meta :: ObjectMeta
  gsd_Spec :: GameServerDetailSpec

section \<open>Names and zero values\<close>

abbreviation gs_Name :: "GameServer \<Rightarrow> string" where "gs_Name gs \<equiv> om_Name (gs_Meta gs)"
abbreviation gs_Namespace :: "GameServer \<Rightarrow> string" where "gs_Namespace gs \<equiv> om_Namespace (gs_Meta gs)"
abbreviation gs_State :: "GameServer \<Rightarrow> string" where "gs_State gs \<equiv> st_State (gs_Status gs)"
abbreviation gs_Health :: "GameServer \<Rightarrow> string" where "gs_Health gs \<equiv> st_Health (gs_Status gs)"
abbreviation gsb_Name :: "GameServerBuild \<Rightarrow> string" where "gsb_Name b \<equiv> om_Name (gsb_Meta b)"
abbreviation gsb_Namespace :: "GameServerBuild \<Rightarrow> string" where
  "gsb_Namespace b \<equiv> om_Namespace (gsb_Meta b)"

text \<open>The zero value that a Go \<open>var x T\<close> or a composite literal without the field has.\<close>

definition zero_Meta :: ObjectMeta where
  "zero_Meta = \<lparr>om_Name = [], om_Namespace = [], om_UID = [], om_ResourceVersion = [],
     om_OwnerReferences = [], om_Labels = Map.empty, om_Annotations = Map.empty\<rparr>"

definition zero_PodSpec :: PodSpec where
  "zero_PodSpec = \<lparr>ps_Containers = [], ps_InitContainers = [], ps_Volumes = [],
     ps_NodeSelector = Map.empty, ps_HostNetwork = False, ps_RestartPolicy = [], ps_NodeName = []\<rparr>"

definition zero_Template :: PodTemplateSpec where
  "zero_Template = \<lparr>pt_Labels = Map.empty, pt_Annotations = Map.empty, pt_Spec = zero_PodSpec\<rparr>"

definition zero_Status :: GameServerStatus where
  "zero_Status = \<lparr>st_Health = [], st_State = [], st_PublicIP = [], st_Ports = [],
     st_SessionID = [], st_SessionCookie = [], st_InitialPlayers = [], st_NodeAge = 0,
     st_NodeName = [], st_ReachedInitializingOn = None, st_ReachedStandingByOn = None,
     st_ReachedActiveOn = None\<rparr>"

definition zero_GameServer :: GameServer where
  "zero_GameServer = \<lparr>gs_Meta = zero_Meta,
     gs_Spec = \<lparr>gss_Template = zero_Template, gss_TitleID = [], gss_BuildID = [],
       gss_PortsToExpose = [], gss_BuildMetadata = []\<rparr>,
     gs_Status = zero_Status\<rparr>"

definition zero_BuildStatus :: GameServerBuildStatus where
  "zero_BuildStatus = \<lparr>bst_CurrentPending = 0, bst_CurrentInitializing = 0,
     bst_CurrentStandingBy = 0, bst_CurrentStandingByReadyDesired = [], bst_CurrentActive = 0,
     bst_CrashesCount = 0, bst_Health = []\<rparr>"

definition zero_GameServerBuild :: GameServerBuild where
  "zero_GameServerBuild = \<lparr>gsb_Meta = zero_Meta,
     gsb_Spec = \<lparr>bs_StandingBy = 0, bs_Max = 0, bs_Template = zero_Template, bs_TitleID = [],
       bs_BuildID = [], bs_PortsToExpose = [], bs_CrashesToMarkUnhealthy = None,
       bs_BuildMetadata = []\<rparr>,
     gsb_Status = zero_BuildStatus\<rparr>"

lemmas zero_defs = zero_Meta_def zero_PodSpec_def zero_Template_def zero_Status_def
  zero_GameServer_def zero_BuildStatus_def zero_GameServerBuild_def

section \<open>Names with a namespace\<close>

text \<open>\<open>getNamespacedName\<close>: injective on names of Kubernetes objects, which hold no slash.\<close>

definition getNamespacedName :: "string \<Rightarrow> string \<Rightarrow> string" where
  "getNamespacedName namespace name = namespace @ ''/'' @ name"

lemma getNamespacedName_inj:
  assumes "CHR ''/'' \<notin> set ns" and "CHR ''/'' \<notin> set ns'"
    and "getNamespacedName ns n = getNamespacedName ns' n'"
  shows "ns = ns' \<and> n = n'"
  using assms
proof (induction ns arbitrary: ns')
  case Nil
  then show ?case by (cases ns') (auto simp: getNamespacedName_def)
next
  case (Cons c ns)
  then show ?case by (cases ns') (auto simp: getNamespacedName_def)
qed

end
