(* ===== verification/Node_Utils.thy ===== *)
theory Node_Utils
  imports Api_Types
begin

text \<open>
  The functions of \<open>pkg/operator/controllers/controller_utils.go\<close> that read a Node: is it
  ready and schedulable, is it labelled for game servers, and its address and age
  (\<open>GetNodeDetails\<close>, whose API read is a parameter).
\<close>

abbreviation LabelGameServerNode :: string where
  "LabelGameServerNode \<equiv> ''mps.playfab.com/gameservernode''"

definition IsNodeReadyAndSchedulable :: "Node \<Rightarrow> bool" where
  "IsNodeReadyAndSchedulable node =
     (if \<not> node_Unschedulable node
      then list_ex (\<lambda>(t, s). t = NodeReady \<and> s = ConditionTrue) (node_Conditions node)
      else False)"

definition isNodeGameServerNode :: "Node \<Rightarrow> bool" where
  "isNodeGameServerNode node = (node_Labels node LabelGameServerNode = Some ''true'')"

lemma IsNodeReadyAndSchedulable_iff:
  "IsNodeReadyAndSchedulable node \<longleftrightarrow>
     \<not> node_Unschedulable node \<and> (NodeReady, ConditionTrue) \<in> set (node_Conditions node)"
  by (auto simp: IsNodeReadyAndSchedulable_def list_ex_iff)

text \<open>
  \<open>int(time.Since(created).Hours() / 24)\<close>: whole days, truncated towards zero, from
  milliseconds.
\<close>

definition ageInDays :: "int \<Rightarrow> int \<Rightarrow> int" where
  "ageInDays now created =
     (let d = now - created in if d < 0 then - ((- d) div 86400000) else d div 86400000)"

fun find_address :: "NodeAddressType \<Rightarrow> (NodeAddressType \<times> string) list \<Rightarrow> string option" where
  "find_address t [] = None"
| "find_address t ((t', a) # xs) = (if t' = t then Some a else find_address t xs)"

text \<open>
  The result is the error if there is one, and else the node's name, its address and its age.
  (With an error the source also returns a name and zero values, which its caller drops.)
\<close>

definition GetNodeDetails ::
    "int \<Rightarrow> (string \<Rightarrow> api_error + Node) \<Rightarrow> string \<Rightarrow> api_error + string \<times> string \<times> int" where
  "GetNodeDetails now getNode nodeName =
     (case getNode nodeName of
        Inl e \<Rightarrow> Inl e
      | Inr node \<Rightarrow>
          (let age = ageInDays now (node_CreationTimestamp node)
           in case find_address NodeExternalIP (node_Addresses node) of
                Some a \<Rightarrow> Inr (nodeName, a, age)
              | None \<Rightarrow>
                  (case find_address NodeInternalIP (node_Addresses node) of
                     Some a \<Rightarrow> Inr (nodeName, a, age)
                   | None \<Rightarrow> Inl (OtherError
                       (''node '' @ nodeName @ '' does not have a Public or Internal IP'')))))"

lemma find_address_Some: "find_address t xs = Some a \<Longrightarrow> (t, a) \<in> set xs"
  by (induction t xs rule: find_address.induct) (auto split: if_splits)

lemma find_address_None: "find_address t xs = None \<longleftrightarrow> t \<notin> fst ` set xs"
  by (induction t xs rule: find_address.induct) auto

end
