(* ===== verification/Port_Registry.thy ===== *)
theory Port_Registry
  imports Node_Utils
begin

text \<open>
  The port registry of \<open>pkg/operator/controllers/port_registry.go\<close>: how often each host port
  of the range is in use, which ports each GameServer holds, and how many slots are free. Every
  operation of the source is one definition on the record. Each runs under the registry's mutex
  (\<open>Reconcile\<close> takes it for each node), so an execution is a sequence of these operations;
  \<open>port_step\<close> is that relation.
\<close>

section \<open>State and operations\<close>

record PortRegistry =
  HostPortsUsage :: "int \<rightharpoonup> int"
  HostPortsPerGameServer :: "string \<rightharpoonup> int list"
  NodeCount :: int
  MinPort :: int
  MaxPort :: int
  FreePortsCount :: int
  nextPortNumber :: int
  useSpecificNodePool :: bool

datatype port_error =
    NoAvailablePorts
  | NotEnoughFreePorts
  | PortsAlreadyAssigned
  | NegativeLengthPanic  \<comment> \<open>\<open>make([]int32, count)\<close> with a negative count\<close>

abbreviation usage :: "PortRegistry \<Rightarrow> int \<Rightarrow> int" where
  "usage pr \<equiv> map_get (HostPortsUsage pr) 0"

text \<open>\<open>pr.Max-pr.Min+1\<close> on \<open>int32\<close>.\<close>

definition portCount :: "PortRegistry \<Rightarrow> int" where
  "portCount pr = wrap32 (wrap32 (MaxPort pr - MinPort pr) + 1)"

definition takePort :: "PortRegistry \<Rightarrow> PortRegistry" where
  "takePort pr = pr\<lparr>HostPortsUsage := (HostPortsUsage pr)(nextPortNumber pr \<mapsto> usage pr (nextPortNumber pr) + 1),
     FreePortsCount := FreePortsCount pr - 1\<rparr>"

definition nextPort :: "int \<Rightarrow> int \<Rightarrow> int \<Rightarrow> int" where
  "nextPort lo hi p = (let n = wrap32 (p + 1) in if hi < n then lo else n)"

definition advancePort :: "PortRegistry \<Rightarrow> PortRegistry" where
  "advancePort pr = pr\<lparr>nextPortNumber := nextPort (MinPort pr) (MaxPort pr) (nextPortNumber pr)\<rparr>"

text \<open>The inner loop of \<open>GetNewPorts\<close>, with the iterations that are left.\<close>

fun findPort :: "nat \<Rightarrow> PortRegistry \<Rightarrow> PortRegistry \<times> int option" where
  "findPort 0 pr = (pr, None)"
| "findPort (Suc k) pr =
     (if usage pr (nextPortNumber pr) < NodeCount pr
      then (advancePort (takePort pr), Some (nextPortNumber pr))
      else findPort k (advancePort pr))"

text \<open>The outer loop: the ports found so far, and the ports still to find.\<close>

fun allocPorts :: "nat \<Rightarrow> int list \<Rightarrow> PortRegistry \<Rightarrow> PortRegistry \<times> int list option" where
  "allocPorts 0 acc pr = (pr, Some acc)"
| "allocPorts (Suc n) acc pr =
     (case findPort (nat (portCount pr)) pr of
        (pr', None) \<Rightarrow> (pr', None)
      | (pr', Some p) \<Rightarrow> allocPorts n (acc @ [p]) pr')"

definition GetNewPorts ::
    "PortRegistry \<Rightarrow> string \<Rightarrow> string \<Rightarrow> int \<Rightarrow> PortRegistry \<times> (port_error + int list)" where
  "GetNewPorts pr namespace name cnt =
     (let namespacedName = getNamespacedName namespace name
      in if FreePortsCount pr < cnt then (pr, Inl NotEnoughFreePorts)
         else if HostPortsPerGameServer pr namespacedName \<noteq> None then (pr, Inl PortsAlreadyAssigned)
         else if cnt < 0 then (pr, Inl NegativeLengthPanic)
         else case allocPorts (nat cnt) [] pr of
                (pr', None) \<Rightarrow> (pr', Inl NoAvailablePorts)
              | (pr', Some ports) \<Rightarrow>
                  (pr'\<lparr>HostPortsPerGameServer := (HostPortsPerGameServer pr')(namespacedName \<mapsto> ports)\<rparr>,
                   Inr ports))"

definition deregisterPort :: "PortRegistry \<Rightarrow> int \<Rightarrow> PortRegistry" where
  "deregisterPort pr p =
     (if 0 < usage pr p
      then pr\<lparr>HostPortsUsage := (HostPortsUsage pr)(p \<mapsto> usage pr p - 1),
              FreePortsCount := FreePortsCount pr + 1\<rparr>
      else pr)"

text \<open>The returned ports are \<open>None\<close> for Go's nil slice. The error is always nil.\<close>

definition DeregisterPorts :: "PortRegistry \<Rightarrow> string \<Rightarrow> string \<Rightarrow> PortRegistry \<times> int list option" where
  "DeregisterPorts pr namespace name =
     (let namespacedName = getNamespacedName namespace name
      in case HostPortsPerGameServer pr namespacedName of
           None \<Rightarrow> (pr, None)
         | Some ports \<Rightarrow>
             (let pr' = foldl deregisterPort pr ports
              in (pr'\<lparr>HostPortsPerGameServer := (HostPortsPerGameServer pr')(namespacedName := None)\<rparr>,
                  Some ports)))"

definition assignRegisteredPort :: "PortRegistry \<Rightarrow> int \<Rightarrow> PortRegistry" where
  "assignRegisteredPort pr p =
     pr\<lparr>HostPortsUsage := (HostPortsUsage pr)(p \<mapsto> usage pr p + 1),
        FreePortsCount := FreePortsCount pr - 1\<rparr>"

definition assignRegisteredPorts :: "PortRegistry \<Rightarrow> int list \<Rightarrow> PortRegistry" where
  "assignRegisteredPorts pr ports = foldl assignRegisteredPort pr ports"

definition onNodeAdded :: "PortRegistry \<Rightarrow> PortRegistry" where
  "onNodeAdded pr = pr\<lparr>NodeCount := NodeCount pr + 1, FreePortsCount := FreePortsCount pr + portCount pr\<rparr>"

definition onNodeRemoved :: "PortRegistry \<Rightarrow> PortRegistry" where
  "onNodeRemoved pr = pr\<lparr>NodeCount := NodeCount pr - 1, FreePortsCount := FreePortsCount pr - portCount pr\<rparr>"

subsection \<open>NewPortRegistry\<close>

text \<open>
  The slice \<open>portsExposed\<close> has one slot per container port; the host ports that are not zero
  fill it from the left, and the slots of those that are zero keep their zero.
\<close>

fun fillPorts :: "int list \<Rightarrow> nat \<Rightarrow> ContainerPort list \<Rightarrow> int list" where
  "fillPorts slots i [] = slots"
| "fillPorts slots i (p # ps) =
     (if cp_HostPort p = 0 then fillPorts slots i ps
      else fillPorts (slots[i := cp_HostPort p]) (Suc i) ps)"

definition portsExposed :: "Container \<Rightarrow> int list" where
  "portsExposed c = fillPorts (replicate (length (c_Ports c)) 0) 0 (c_Ports c)"

definition registerGameServer :: "PortRegistry \<Rightarrow> GameServer \<Rightarrow> PortRegistry" where
  "registerGameServer pr gs =
     (let cs = ps_Containers (pt_Spec (gss_Template (gs_Spec gs)))
      in if cs = [] then pr else foldl (\<lambda>pr c. assignRegisteredPorts pr (portsExposed c)) pr cs)"

text \<open>
  \<open>for port := pr.Min; port <= pr.Max; port++\<close>. On \<open>int32\<close> the loop does not end when the
  maximum is the largest \<open>int32\<close>, which is the value \<open>None\<close>.
\<close>

definition initUsage :: "int \<Rightarrow> int \<Rightarrow> (int \<rightharpoonup> int) option" where
  "initUsage lo hi =
     map_option snd
       (while_option (\<lambda>(port, m). port \<le> hi) (\<lambda>(port, m). (wrap32 (port + 1), m(port \<mapsto> 0)))
          (lo, Map.empty))"

definition NewPortRegistry ::
    "GameServer list \<Rightarrow> int \<Rightarrow> int \<Rightarrow> int \<Rightarrow> bool \<Rightarrow> (string + PortRegistry) option" where
  "NewPortRegistry gameServers lo hi nodeCount useSpecific =
     (if hi < lo then Some (Inl ''min port cannot be greater than max port'')
      else map_option
        (\<lambda>m. Inr (foldl registerGameServer
           \<lparr>HostPortsUsage = m, HostPortsPerGameServer = Map.empty, NodeCount = nodeCount,
            MinPort = lo, MaxPort = hi, FreePortsCount = nodeCount * wrap32 (wrap32 (hi - lo) + 1),
            nextPortNumber = lo, useSpecificNodePool = useSpecific\<rparr> gameServers))
        (initUsage lo hi))"

subsection \<open>Reconcile and the watch filters\<close>

definition schedulableCount :: "Node list \<Rightarrow> int" where
  "schedulableCount nodes = int (length (filter IsNodeReadyAndSchedulable nodes))"

text \<open>
  The cluster's nodes are read through \<open>listNodes\<close>, which gets the label selector, if any.
\<close>

definition Reconcile ::
    "PortRegistry \<Rightarrow> ((string \<times> string) option \<Rightarrow> api_error + Node list) \<Rightarrow>
     PortRegistry \<times> api_error option" where
  "Reconcile pr listNodes =
     (case listNodes (if useSpecificNodePool pr then Some (LabelGameServerNode, ''true'') else None) of
        Inl e \<Rightarrow> (pr, Some e)
      | Inr nodes \<Rightarrow>
          (let n = schedulableCount nodes
           in (if n < NodeCount pr then (onNodeRemoved ^^ nat (NodeCount pr - n)) pr
               else if NodeCount pr < n then (onNodeAdded ^^ nat (n - NodeCount pr)) pr
               else pr,
               None)))"

definition createFilter :: "PortRegistry \<Rightarrow> Node \<Rightarrow> bool" where
  "createFilter pr node =
     (if useSpecificNodePool pr \<and> \<not> isNodeGameServerNode node then False
      else IsNodeReadyAndSchedulable node)"

definition deleteFilter :: "PortRegistry \<Rightarrow> Node \<Rightarrow> bool" where
  "deleteFilter pr node = (if useSpecificNodePool pr \<and> \<not> isNodeGameServerNode node then False else True)"

definition updateFilter :: "PortRegistry \<Rightarrow> Node \<Rightarrow> Node \<Rightarrow> bool" where
  "updateFilter pr oldNode newNode =
     (if useSpecificNodePool pr \<and> \<not> isNodeGameServerNode newNode then False
      else IsNodeReadyAndSchedulable oldNode \<noteq> IsNodeReadyAndSchedulable newNode)"

section \<open>Accounting\<close>

text \<open>
  The range is one of ports (the largest \<open>int32\<close> is excluded), the next port lies in it, and
  the free count is the sum of what is left on every port of the range, less the registrations
  outside the range (\<open>lost\<close>), which only \<open>NewPortRegistry\<close> makes.
\<close>

definition range_ok :: "PortRegistry \<Rightarrow> bool" where
  "range_ok pr \<longleftrightarrow> 0 \<le> MinPort pr \<and> MinPort pr \<le> MaxPort pr \<and> MaxPort pr < 2147483647"

definition portRange :: "PortRegistry \<Rightarrow> int set" where
  "portRange pr = {MinPort pr..MaxPort pr}"

definition capacityLeft :: "PortRegistry \<Rightarrow> int" where
  "capacityLeft pr = (\<Sum>p\<in>portRange pr. NodeCount pr - usage pr p)"

definition acct :: "int \<Rightarrow> PortRegistry \<Rightarrow> bool" where
  "acct lost pr \<longleftrightarrow>
     range_ok pr \<and> nextPortNumber pr \<in> portRange pr \<and> 0 \<le> lost \<and>
     FreePortsCount pr = capacityLeft pr - lost"

text \<open>
  The ledger: a port's use is what was found at start (\<open>base\<close>) and what the GameServers of
  the map hold.
\<close>

definition heldBy :: "(string \<rightharpoonup> int list) \<Rightarrow> int \<Rightarrow> int" where
  "heldBy m p = (\<Sum>k\<in>dom m. int (count_list (the (m k)) p))"

definition pr_inv :: "(int \<Rightarrow> int) \<Rightarrow> int \<Rightarrow> PortRegistry \<Rightarrow> bool" where
  "pr_inv base lost pr \<longleftrightarrow>
     acct lost pr \<and> finite (dom (HostPortsPerGameServer pr)) \<and> (\<forall>p. 0 \<le> base p) \<and>
     (\<forall>p. usage pr p = base p + heldBy (HostPortsPerGameServer pr) p) \<and>
     (\<forall>ports \<in> ran (HostPortsPerGameServer pr). set ports \<subseteq> portRange pr)"

lemma finite_portRange [simp]: "finite (portRange pr)"
  by (simp add: portRange_def)

lemma portCount_eq [simp]: "range_ok pr \<Longrightarrow> portCount pr = MaxPort pr - MinPort pr + 1"
  by (simp add: portCount_def range_ok_def)

lemma nextPort_eq:
  "0 \<le> lo \<Longrightarrow> lo \<le> p \<Longrightarrow> p \<le> hi \<Longrightarrow> hi < 2147483647 \<Longrightarrow>
   nextPort lo hi p = (if p = hi then lo else p + 1)"
  by (simp add: nextPort_def Let_def)

lemma nextPort_mod:
  assumes "0 \<le> lo" "lo \<le> p" "p \<le> hi" "hi < 2147483647"
  shows "(nextPort lo hi ^^ i) p = lo + (p - lo + int i) mod (hi - lo + 1)"
proof (induction i)
  case 0
  then show ?case using assms by (simp add: mod_pos_pos_trivial)
next
  case (Suc i)
  let ?r = "hi - lo + 1" and ?x = "p - lo + int i"
  have r: "0 < ?r" using assms by simp
  have b: "0 \<le> ?x mod ?r" "?x mod ?r < ?r"
    using pos_mod_sign [OF r] pos_mod_bound [OF r] by blast+
  have "nextPort lo hi (lo + ?x mod ?r) = lo + (?x mod ?r + 1) mod ?r"
    using b assms by (cases "?x mod ?r = hi - lo") (auto simp: nextPort_eq mod_pos_pos_trivial)
  also have "(?x mod ?r + 1) mod ?r = (?x + 1) mod ?r" by (simp add: mod_add_left_eq)
  finally show ?case using Suc by (simp add: ac_simps)
qed

text \<open>Starting anywhere, as many steps as the range has ports visit every port.\<close>

lemma nextPort_covers:
  assumes "0 \<le> lo" "lo \<le> p" "p \<le> hi" "hi < 2147483647" and q: "lo \<le> q" "q \<le> hi"
  shows "\<exists>i < nat (hi - lo + 1). (nextPort lo hi ^^ i) p = q"
proof -
  let ?r = "hi - lo + 1"
  define i where "i = (q - p) mod ?r"
  have r: "0 < ?r" using assms by simp
  then have i: "0 \<le> i" "i < ?r"
    using pos_mod_sign pos_mod_bound unfolding i_def by blast+
  have "(p - lo + i) mod ?r = (p - lo + (q - p)) mod ?r"
    unfolding i_def by (rule mod_add_right_eq)
  also have "\<dots> = q - lo" using q by (simp add: mod_pos_pos_trivial)
  finally have "(nextPort lo hi ^^ nat i) p = q"
    using nextPort_mod [OF assms(1-4)] i by simp
  then show ?thesis using i by (intro exI [of _ "nat i"]) auto
qed

lemma nextPort_in: "range_ok pr \<Longrightarrow> p \<in> portRange pr \<Longrightarrow> nextPort (MinPort pr) (MaxPort pr) p \<in> portRange pr"
  by (auto simp: range_ok_def portRange_def nextPort_eq)


section \<open>Finding one port\<close>

lemma acct_next: "acct lost pr \<Longrightarrow> nextPortNumber pr \<in> portRange pr"
  and acct_range: "acct lost pr \<Longrightarrow> range_ok pr"
  by (auto simp: acct_def)

lemma advancePort_simps [simp]:
  "HostPortsUsage (advancePort pr) = HostPortsUsage pr"
  "HostPortsPerGameServer (advancePort pr) = HostPortsPerGameServer pr"
  "NodeCount (advancePort pr) = NodeCount pr" "FreePortsCount (advancePort pr) = FreePortsCount pr"
  "MinPort (advancePort pr) = MinPort pr" "MaxPort (advancePort pr) = MaxPort pr"
  "nextPortNumber (advancePort pr) = nextPort (MinPort pr) (MaxPort pr) (nextPortNumber pr)"
  "portRange (advancePort pr) = portRange pr" "range_ok (advancePort pr) = range_ok pr"
  by (simp_all add: advancePort_def portRange_def range_ok_def)

lemma takePort_simps [simp]:
  "HostPortsPerGameServer (takePort pr) = HostPortsPerGameServer pr"
  "NodeCount (takePort pr) = NodeCount pr" "FreePortsCount (takePort pr) = FreePortsCount pr - 1"
  "MinPort (takePort pr) = MinPort pr" "MaxPort (takePort pr) = MaxPort pr"
  "nextPortNumber (takePort pr) = nextPortNumber pr"
  "portRange (takePort pr) = portRange pr" "range_ok (takePort pr) = range_ok pr"
  "usage (takePort pr) p = usage pr p + (if p = nextPortNumber pr then 1 else 0)"
  by (simp_all add: takePort_def portRange_def range_ok_def)

text \<open>The search fails only after it has seen that many ports in use on every node.\<close>

lemma findPort_None:
  "findPort k pr = (pr', None) \<Longrightarrow> i < k \<Longrightarrow>
   NodeCount pr \<le> usage pr ((nextPort (MinPort pr) (MaxPort pr) ^^ i) (nextPortNumber pr))"
proof (induction k arbitrary: pr i)
  case 0
  then show ?case by simp
next
  case (Suc k)
  have IH: "findPort k (advancePort pr) = (pr', None) \<Longrightarrow> j < k \<Longrightarrow> NodeCount pr \<le> usage pr
      ((nextPort (MinPort pr) (MaxPort pr) ^^ j) (nextPort (MinPort pr) (MaxPort pr) (nextPortNumber pr)))" for j
    using Suc.IH [of "advancePort pr" j] by simp
  show ?case
    using Suc.prems IH
    by (cases i) (auto simp: funpow_Suc_right simp del: funpow.simps split: if_splits)
qed

text \<open>What a successful search did.\<close>

lemma findPort_Some:
  "findPort k pr = (pr', Some p) \<Longrightarrow> range_ok pr \<Longrightarrow> nextPortNumber pr \<in> portRange pr \<Longrightarrow>
   p \<in> portRange pr \<and> usage pr p < NodeCount pr \<and>
   (\<forall>q. usage pr' q = usage pr q + (if q = p then 1 else 0)) \<and>
   FreePortsCount pr' = FreePortsCount pr - 1 \<and> NodeCount pr' = NodeCount pr \<and>
   HostPortsPerGameServer pr' = HostPortsPerGameServer pr \<and>
   MinPort pr' = MinPort pr \<and> MaxPort pr' = MaxPort pr \<and> nextPortNumber pr' \<in> portRange pr"
proof (induction k arbitrary: pr)
  case 0
  then show ?case by simp
next
  case (Suc k)
  show ?case
  proof (cases "usage pr (nextPortNumber pr) < NodeCount pr")
    case True
    with Suc.prems show ?thesis by (auto simp: nextPort_in)
  next
    case False
    with Suc.prems have "findPort k (advancePort pr) = (pr', Some p)" by simp
    from Suc.IH [OF this] Suc.prems show ?thesis by (simp add: nextPort_in)
  qed
qed

lemma findPort_progress:
  assumes "acct lost pr" and "0 < FreePortsCount pr"
  shows "\<exists>pr' p. findPort (nat (portCount pr)) pr = (pr', Some p)"
proof (rule ccontr)
  assume none: "\<nexists>pr' p. findPort (nat (portCount pr)) pr = (pr', Some p)"
  obtain pr' r where r: "findPort (nat (portCount pr)) pr = (pr', r)" by (cases "findPort (nat (portCount pr)) pr")
  with none have r': "findPort (nat (portCount pr)) pr = (pr', None)" by (cases r) auto
  have "NodeCount pr \<le> usage pr q" if q: "q \<in> portRange pr" for q
  proof -
    have "\<exists>i < nat (MaxPort pr - MinPort pr + 1).
        (nextPort (MinPort pr) (MaxPort pr) ^^ i) (nextPortNumber pr) = q"
      using assms(1) q by (intro nextPort_covers) (auto simp: acct_def range_ok_def portRange_def)
    then show ?thesis using findPort_None [OF r'] assms(1) by (auto simp: acct_def)
  qed
  then have "capacityLeft pr \<le> 0" unfolding capacityLeft_def by (intro sum_nonpos) auto
  with assms show False by (auto simp: acct_def)
qed

lemma sum_point: "finite A \<Longrightarrow> p \<in> A \<Longrightarrow> (\<Sum>q\<in>A. f q - (if q = p then 1 else 0)) = sum f A - (1::int)"
  by (simp add: sum_subtractf)

lemma sum_add_const: "(\<Sum>q\<in>A. f q + c) = sum f A + c * int (card A)" for c :: int
  by (simp add: sum.distrib)

lemma capacityLeft_point:
  assumes "portRange pr' = portRange pr" "NodeCount pr' = NodeCount pr" "p \<in> portRange pr"
    and "\<And>q. usage pr' q = usage pr q + (if q = p then 1 else 0)"
  shows "capacityLeft pr' = capacityLeft pr - 1"
proof -
  have "capacityLeft pr' = (\<Sum>q\<in>portRange pr. (NodeCount pr - usage pr q) - (if q = p then 1 else 0))"
    unfolding capacityLeft_def using assms by (intro sum.cong) auto
  with assms(3) show ?thesis by (simp only: sum_point finite_portRange capacityLeft_def)
qed

section \<open>Allocating ports\<close>

lemma allocPorts_spec:
  assumes "acct lost pr" and "int n \<le> FreePortsCount pr"
    and "\<forall>p \<in> set acc. usage pr p \<le> NodeCount pr"
  shows "\<exists>pr' ps. allocPorts n acc pr = (pr', Some (acc @ ps)) \<and> length ps = n \<and>
    set ps \<subseteq> portRange pr \<and> acct lost pr' \<and>
    (\<forall>q. usage pr' q = usage pr q + int (count_list ps q)) \<and>
    (\<forall>q \<in> set (acc @ ps). usage pr' q \<le> NodeCount pr) \<and>
    FreePortsCount pr' = FreePortsCount pr - int n \<and> NodeCount pr' = NodeCount pr \<and>
    HostPortsPerGameServer pr' = HostPortsPerGameServer pr \<and>
    MinPort pr' = MinPort pr \<and> MaxPort pr' = MaxPort pr"
  using assms
proof (induction n arbitrary: acc pr)
  case 0
  then show ?case by auto
next
  case (Suc n)
  obtain pr1 p where f: "findPort (nat (portCount pr)) pr = (pr1, Some p)"
    using findPort_progress [OF Suc.prems(1)] Suc.prems(2) by auto
  note F = findPort_Some [OF f acct_range [OF Suc.prems(1)] acct_next [OF Suc.prems(1)]]
  have rng: "portRange pr1 = portRange pr" using F by (simp add: portRange_def)
  have "capacityLeft pr1 = capacityLeft pr - 1" using F rng by (intro capacityLeft_point) auto
  then have a1: "acct lost pr1"
    using Suc.prems(1) F rng by (auto simp: acct_def range_ok_def)
  have "\<forall>q \<in> set (acc @ [p]). usage pr1 q \<le> NodeCount pr1"
    using Suc.prems(3) F by auto
  from Suc.IH [OF a1 _ this] Suc.prems(2) F obtain pr' ps where
    IH: "allocPorts n (acc @ [p]) pr1 = (pr', Some ((acc @ [p]) @ ps))" "length ps = n"
      "set ps \<subseteq> portRange pr1" "acct lost pr'"
      "\<forall>q. usage pr' q = usage pr1 q + int (count_list ps q)"
      "\<forall>q \<in> set ((acc @ [p]) @ ps). usage pr' q \<le> NodeCount pr1"
      "FreePortsCount pr' = FreePortsCount pr1 - int n" "NodeCount pr' = NodeCount pr1"
      "HostPortsPerGameServer pr' = HostPortsPerGameServer pr1"
      "MinPort pr' = MinPort pr1" "MaxPort pr' = MaxPort pr1"
    by auto
  show ?case
    using IH F f rng by (intro exI [of _ pr'] exI [of _ "p # ps"]) auto
qed

text \<open>
  Under the accounting alone, every outcome of \<open>GetNewPorts\<close>: in particular the error
  \<open>NoAvailablePorts\<close>, after which the source has no way to give back the ports it took, does
  not occur.
\<close>

lemma GetNewPorts_cases:
  assumes "acct lost pr" and "GetNewPorts pr ns n cnt = (pr', r)"
  shows "(FreePortsCount pr < cnt \<and> r = Inl NotEnoughFreePorts \<and> pr' = pr) \<or>
    (cnt \<le> FreePortsCount pr \<and> HostPortsPerGameServer pr (getNamespacedName ns n) \<noteq> None \<and>
      r = Inl PortsAlreadyAssigned \<and> pr' = pr) \<or>
    (cnt \<le> FreePortsCount pr \<and> HostPortsPerGameServer pr (getNamespacedName ns n) = None \<and> cnt < 0 \<and>
      r = Inl NegativeLengthPanic \<and> pr' = pr) \<or>
    (cnt \<le> FreePortsCount pr \<and> HostPortsPerGameServer pr (getNamespacedName ns n) = None \<and> 0 \<le> cnt \<and>
      (\<exists>ps. r = Inr ps \<and> int (length ps) = cnt \<and> set ps \<subseteq> portRange pr \<and> acct lost pr' \<and>
        (\<forall>q. usage pr' q = usage pr q + int (count_list ps q)) \<and>
        (\<forall>q \<in> set ps. usage pr' q \<le> NodeCount pr) \<and>
        FreePortsCount pr' = FreePortsCount pr - cnt \<and> NodeCount pr' = NodeCount pr \<and>
        MinPort pr' = MinPort pr \<and> MaxPort pr' = MaxPort pr \<and>
        HostPortsPerGameServer pr' = (HostPortsPerGameServer pr)(getNamespacedName ns n \<mapsto> ps)))"
proof (cases "FreePortsCount pr < cnt \<or> HostPortsPerGameServer pr (getNamespacedName ns n) \<noteq> None \<or> cnt < 0")
  case True
  with assms(2) show ?thesis by (auto simp: GetNewPorts_def Let_def split: if_splits)
next
  case False
  then obtain pr1 ps where A: "allocPorts (nat cnt) [] pr = (pr1, Some ([] @ ps))" "length ps = nat cnt"
      "set ps \<subseteq> portRange pr" "acct lost pr1" "\<forall>q. usage pr1 q = usage pr q + int (count_list ps q)"
      "\<forall>q \<in> set ([] @ ps). usage pr1 q \<le> NodeCount pr"
      "FreePortsCount pr1 = FreePortsCount pr - int (nat cnt)" "NodeCount pr1 = NodeCount pr"
      "HostPortsPerGameServer pr1 = HostPortsPerGameServer pr"
      "MinPort pr1 = MinPort pr" "MaxPort pr1 = MaxPort pr"
    using allocPorts_spec [OF assms(1), of "nat cnt" "[]"] by auto
  have frame: "acct lost (pr1\<lparr>HostPortsPerGameServer := m\<rparr>) = acct lost pr1" for m
    by (simp add: acct_def range_ok_def portRange_def capacityLeft_def)
  show ?thesis
    using False assms(2) A by (auto simp: GetNewPorts_def Let_def frame)
qed


section \<open>The ledger\<close>

lemma heldBy_upd:
  assumes "finite (dom m)" "k \<notin> dom m"
  shows "heldBy (m(k \<mapsto> ps)) p = heldBy m p + int (count_list ps p)"
proof -
  have "(\<Sum>j\<in>dom m. int (count_list (the ((m(k \<mapsto> ps)) j)) p)) = heldBy m p"
    unfolding heldBy_def using assms(2) by (intro sum.cong) auto
  with assms show ?thesis by (simp add: heldBy_def del: fun_upd_apply) (simp add: heldBy_def)
qed

lemma heldBy_remove:
  assumes "finite (dom m)" "m k = Some ps"
  shows "heldBy (m(k := None)) p = heldBy m p - int (count_list ps p)"
proof -
  have "m = (m(k := None))(k \<mapsto> ps)" using assms(2) by auto
  then have "heldBy m p = heldBy (m(k := None)) p + int (count_list ps p)"
    using heldBy_upd [of "m(k := None)" k ps p] assms by simp
  then show ?thesis by simp
qed

lemma heldBy_nonneg [simp]: "0 \<le> heldBy m p"
  by (simp add: heldBy_def sum_nonneg)

lemma heldBy_ge: "finite (dom m) \<Longrightarrow> m k = Some ps \<Longrightarrow> int (count_list ps p) \<le> heldBy m p"
  using heldBy_remove [of m k ps p] heldBy_nonneg [of "m(k := None)" p] by simp

lemma heldBy_empty [simp]: "heldBy Map.empty p = 0"
  by (simp add: heldBy_def)

lemma pr_inv_acct: "pr_inv base lost pr \<Longrightarrow> acct lost pr"
  by (simp add: pr_inv_def)

lemma pr_inv_finite: "pr_inv base lost pr \<Longrightarrow> finite (dom (HostPortsPerGameServer pr))"
  by (simp add: pr_inv_def)

lemma pr_inv_ports: "pr_inv base lost pr \<Longrightarrow> HostPortsPerGameServer pr k = Some ps \<Longrightarrow> set ps \<subseteq> portRange pr"
  by (auto simp: pr_inv_def ran_def)

lemma GetNewPorts_inv:
  assumes inv: "pr_inv base lost pr" and get: "GetNewPorts pr ns n cnt = (pr', r)"
  shows "pr_inv base lost pr'"
proof (cases r)
  case (Inl e)
  then have "pr' = pr" using GetNewPorts_cases [OF pr_inv_acct [OF inv] get] by auto
  with inv show ?thesis by simp
next
  case (Inr ps)
  let ?k = "getNamespacedName ns n"
  have G: "HostPortsPerGameServer pr ?k = None" "set ps \<subseteq> portRange pr" "acct lost pr'"
      "\<forall>q. usage pr' q = usage pr q + int (count_list ps q)" "MinPort pr' = MinPort pr" "MaxPort pr' = MaxPort pr"
      "HostPortsPerGameServer pr' = (HostPortsPerGameServer pr)(?k \<mapsto> ps)"
    using GetNewPorts_cases [OF pr_inv_acct [OF inv] get] Inr by auto
  have ran: "ran (HostPortsPerGameServer pr') = insert ps (ran (HostPortsPerGameServer pr))"
    using G(1,7) by (simp add: ran_map_upd)
  have "usage pr' p = base p + heldBy (HostPortsPerGameServer pr') p" for p
    using inv G(1,4,7) heldBy_upd [OF pr_inv_finite [OF inv], of ?k ps p]
    by (simp add: pr_inv_def domIff del: fun_upd_apply)
  then show ?thesis
    using inv G ran by (auto simp: pr_inv_def portRange_def)
qed

section \<open>Giving ports back\<close>

lemma deregisterPort_simps [simp]:
  "HostPortsPerGameServer (deregisterPort pr p) = HostPortsPerGameServer pr"
  "NodeCount (deregisterPort pr p) = NodeCount pr" "MinPort (deregisterPort pr p) = MinPort pr"
  "MaxPort (deregisterPort pr p) = MaxPort pr" "nextPortNumber (deregisterPort pr p) = nextPortNumber pr"
  by (simp_all add: deregisterPort_def)

lemma foldl_deregister_frame [simp]:
  "HostPortsPerGameServer (foldl deregisterPort pr ps) = HostPortsPerGameServer pr"
  "NodeCount (foldl deregisterPort pr ps) = NodeCount pr" "MinPort (foldl deregisterPort pr ps) = MinPort pr"
  "MaxPort (foldl deregisterPort pr ps) = MaxPort pr"
  "nextPortNumber (foldl deregisterPort pr ps) = nextPortNumber pr"
  by (induction ps arbitrary: pr) simp_all

lemma foldl_deregister:
  "(\<forall>q. int (count_list ps q) \<le> usage pr q) \<Longrightarrow>
   (\<forall>q. usage (foldl deregisterPort pr ps) q = usage pr q - int (count_list ps q)) \<and>
   FreePortsCount (foldl deregisterPort pr ps) = FreePortsCount pr + int (length ps)"
proof (induction ps arbitrary: pr)
  case Nil
  then show ?case by simp
next
  case (Cons p ps)
  have "0 < usage pr p" using Cons.prems by (auto dest: spec [of _ p])
  then have U: "usage (deregisterPort pr p) q = usage pr q - (if q = p then 1 else 0)"
    and F: "FreePortsCount (deregisterPort pr p) = FreePortsCount pr + 1" for q
    by (auto simp: deregisterPort_def)
  have "int (count_list ps q) \<le> usage (deregisterPort pr p) q" for q
    using Cons.prems [THEN spec, of q] by (auto simp: U)
  from Cons.IH [OF allI, OF this] show ?case by (auto simp: U F)
qed

lemma count_list_outside: "set ps \<subseteq> A \<Longrightarrow> q \<notin> A \<Longrightarrow> count_list ps q = 0"
  by (meson count_notin subsetD)

lemma sum_count_list: "finite A \<Longrightarrow> (\<Sum>q\<in>A. count_list ps q) = length (filter (\<lambda>p. p \<in> A) ps)"
proof (induction ps)
  case Nil
  then show ?case by simp
next
  case (Cons p ps)
  have "count_list (p # ps) q = count_list ps q + (if p = q then 1 else 0)" for q by simp
  then have "(\<Sum>q\<in>A. count_list (p # ps) q) = (\<Sum>q\<in>A. count_list ps q) + (\<Sum>q\<in>A. if p = q then 1 else 0)"
    by (simp only: sum.distrib)
  with Cons show ?case by (simp add: sum.delta')
qed

lemma DeregisterPorts_spec:
  assumes inv: "pr_inv base lost pr"
    and own: "HostPortsPerGameServer pr (getNamespacedName ns n) = Some ps"
    and de: "DeregisterPorts pr ns n = (pr', r)"
  shows "r = Some ps \<and> pr_inv base lost pr' \<and>
    (\<forall>q. usage pr' q = usage pr q - int (count_list ps q)) \<and>
    FreePortsCount pr' = FreePortsCount pr + int (length ps) \<and> NodeCount pr' = NodeCount pr \<and>
    HostPortsPerGameServer pr' = (HostPortsPerGameServer pr)(getNamespacedName ns n := None)"
proof -
  let ?k = "getNamespacedName ns n" and ?f = "foldl deregisterPort pr ps"
  have pr': "pr' = ?f\<lparr>HostPortsPerGameServer := (HostPortsPerGameServer pr)(?k := None)\<rparr>" and r: "r = Some ps"
    using de own by (auto simp: DeregisterPorts_def Let_def)
  note fin = pr_inv_finite [OF inv]
  have U: "usage pr q = base q + heldBy (HostPortsPerGameServer pr) q" and b: "0 \<le> base q" for q
    using inv by (auto simp: pr_inv_def)
  have "int (count_list ps q) \<le> usage pr q" for q
    using heldBy_ge [OF fin own, of q] U [of q] b [of q] by simp
  then have D: "\<forall>q. usage ?f q = usage pr q - int (count_list ps q)"
    "FreePortsCount ?f = FreePortsCount pr + int (length ps)"
    using foldl_deregister [of ps pr] by auto
  have rng: "portRange pr' = portRange pr" by (simp add: pr' portRange_def)
  have sub: "set ps \<subseteq> portRange pr" by (rule pr_inv_ports [OF inv own])
  have "capacityLeft pr' = (\<Sum>q\<in>portRange pr. (NodeCount pr - usage pr q) + int (count_list ps q))"
    unfolding capacityLeft_def rng by (intro sum.cong) (auto simp: pr' D(1))
  also have "\<dots> = capacityLeft pr + int (length ps)"
    using sub by (simp add: sum.distrib capacityLeft_def sum_count_list filter_id_conv subset_iff
        flip: of_nat_sum)
  finally have "acct lost pr'"
    using pr_inv_acct [OF inv] rng D(2) by (simp add: acct_def pr' range_ok_def)
  moreover have "usage pr' p = base p + heldBy (HostPortsPerGameServer pr') p" for p
    using heldBy_remove [OF fin own, of p] U [of p] D(1) by (simp add: pr')
  moreover have "ran (HostPortsPerGameServer pr') \<subseteq> ran (HostPortsPerGameServer pr)"
    by (auto simp: pr' ran_def split: if_splits)
  ultimately have "pr_inv base lost pr'"
    using inv rng by (auto simp: pr_inv_def pr')
  then show ?thesis using r D by (simp add: pr')
qed

lemma DeregisterPorts_absent:
  "HostPortsPerGameServer pr (getNamespacedName ns n) = None \<Longrightarrow> DeregisterPorts pr ns n = (pr, None)"
  by (simp add: DeregisterPorts_def Let_def)

lemma DeregisterPorts_inv:
  "pr_inv base lost pr \<Longrightarrow> DeregisterPorts pr ns n = (pr', r) \<Longrightarrow> pr_inv base lost pr'"
  using DeregisterPorts_spec [of base lost pr ns n _ pr' r] DeregisterPorts_absent [of pr ns n]
  by (cases "HostPortsPerGameServer pr (getNamespacedName ns n)") auto

section \<open>Nodes that come and go\<close>

lemma node_inv:
  assumes "pr_inv base lost pr"
  shows "pr_inv base lost (onNodeAdded pr)" "pr_inv base lost (onNodeRemoved pr)"
proof -
  have r: "range_ok pr" using acct_range [OF pr_inv_acct [OF assms]] .
  have card: "int (card (portRange pr)) = portCount pr"
    using r by (simp add: portRange_def range_ok_def portCount_eq [OF r])
  have "capacityLeft (onNodeAdded pr) = (\<Sum>p\<in>portRange pr. (NodeCount pr - usage pr p) + 1)"
    unfolding capacityLeft_def by (intro sum.cong) (auto simp: onNodeAdded_def portRange_def)
  also have "\<dots> = capacityLeft pr + portCount pr" using card by (simp add: sum.distrib capacityLeft_def)
  finally have A: "capacityLeft (onNodeAdded pr) = capacityLeft pr + portCount pr" .
  have "capacityLeft (onNodeRemoved pr) = (\<Sum>p\<in>portRange pr. (NodeCount pr - usage pr p) - 1)"
    unfolding capacityLeft_def by (intro sum.cong) (auto simp: onNodeRemoved_def portRange_def)
  also have "\<dots> = capacityLeft pr - portCount pr" using card by (simp add: sum_subtractf capacityLeft_def)
  finally have R: "capacityLeft (onNodeRemoved pr) = capacityLeft pr - portCount pr" .
  show "pr_inv base lost (onNodeAdded pr)" "pr_inv base lost (onNodeRemoved pr)"
    using assms A R
    by (auto simp: pr_inv_def acct_def onNodeAdded_def onNodeRemoved_def range_ok_def portRange_def)
qed

lemma nodes_inv:
  assumes "pr_inv base lost pr"
  shows "pr_inv base lost ((onNodeAdded ^^ k) pr)" "pr_inv base lost ((onNodeRemoved ^^ k) pr)"
  using assms by (induction k) (auto intro: node_inv)

lemma nodes_count:
  "NodeCount ((onNodeAdded ^^ k) pr) = NodeCount pr + int k"
  "NodeCount ((onNodeRemoved ^^ k) pr) = NodeCount pr - int k"
  by (induction k) (auto simp: onNodeAdded_def onNodeRemoved_def)

lemma nodes_frame:
  "HostPortsUsage ((onNodeAdded ^^ k) pr) = HostPortsUsage pr"
  "HostPortsPerGameServer ((onNodeAdded ^^ k) pr) = HostPortsPerGameServer pr"
  "HostPortsUsage ((onNodeRemoved ^^ k) pr) = HostPortsUsage pr"
  "HostPortsPerGameServer ((onNodeRemoved ^^ k) pr) = HostPortsPerGameServer pr"
  by (induction k) (auto simp: onNodeAdded_def onNodeRemoved_def)

lemma Reconcile_inv:
  "pr_inv base lost pr \<Longrightarrow> Reconcile pr ln = (pr', e) \<Longrightarrow> pr_inv base lost pr'"
  by (auto simp: Reconcile_def Let_def nodes_inv split: sum.splits if_splits)

lemma Reconcile_count:
  "Reconcile pr ln = (pr', None) \<Longrightarrow>
   (\<exists>nodes. ln (if useSpecificNodePool pr then Some (LabelGameServerNode, ''true'') else None) = Inr nodes \<and>
     NodeCount pr' = schedulableCount nodes \<and> HostPortsUsage pr' = HostPortsUsage pr \<and>
     HostPortsPerGameServer pr' = HostPortsPerGameServer pr)"
  by (auto simp: Reconcile_def Let_def nodes_count nodes_frame split: sum.splits if_splits)


section \<open>Start of the controller\<close>

abbreviation gs_Containers :: "GameServer \<Rightarrow> Container list" where
  "gs_Containers gs \<equiv> ps_Containers (pt_Spec (gss_Template (gs_Spec gs)))"

text \<open>The slots that the existing GameServers register, in order.\<close>

definition startupPorts :: "GameServer list \<Rightarrow> int list" where
  "startupPorts gss = concat (map (\<lambda>gs. concat (map portsExposed (gs_Containers gs))) gss)"

lemma assignRegisteredPorts_append:
  "assignRegisteredPorts pr (xs @ ys) = assignRegisteredPorts (assignRegisteredPorts pr xs) ys"
  by (simp add: assignRegisteredPorts_def)

lemma assignRegisteredPorts_Nil [simp]: "assignRegisteredPorts pr [] = pr"
  by (simp add: assignRegisteredPorts_def)

lemma registerGameServer_eq:
  "registerGameServer pr gs = assignRegisteredPorts pr (concat (map portsExposed (gs_Containers gs)))"
proof -
  have "foldl (\<lambda>pr c. assignRegisteredPorts pr (portsExposed c)) pr cs =
      assignRegisteredPorts pr (concat (map portsExposed cs))" for cs
    by (induction cs arbitrary: pr) (auto simp: assignRegisteredPorts_append)
  then show ?thesis by (simp add: registerGameServer_def Let_def)
qed

lemma foldl_registerGameServer:
  "foldl registerGameServer pr gss = assignRegisteredPorts pr (startupPorts gss)"
  by (induction gss arbitrary: pr)
    (auto simp: startupPorts_def registerGameServer_eq assignRegisteredPorts_append)

lemma assignRegisteredPorts_spec:
  "(\<forall>q. usage (assignRegisteredPorts pr ps) q = usage pr q + int (count_list ps q)) \<and>
   FreePortsCount (assignRegisteredPorts pr ps) = FreePortsCount pr - int (length ps) \<and>
   HostPortsPerGameServer (assignRegisteredPorts pr ps) = HostPortsPerGameServer pr \<and>
   NodeCount (assignRegisteredPorts pr ps) = NodeCount pr \<and>
   MinPort (assignRegisteredPorts pr ps) = MinPort pr \<and> MaxPort (assignRegisteredPorts pr ps) = MaxPort pr \<and>
   nextPortNumber (assignRegisteredPorts pr ps) = nextPortNumber pr"
  unfolding assignRegisteredPorts_def
  by (induction ps arbitrary: pr) (auto simp: assignRegisteredPort_def)

text \<open>The slots of one container: its non-zero host ports, then one zero for each zero host port.\<close>

lemma fillPorts_eq:
  "length slots = i + length ps \<Longrightarrow> (\<forall>j. i \<le> j \<longrightarrow> j < length slots \<longrightarrow> slots ! j = 0) \<Longrightarrow>
   fillPorts slots i ps = take i slots @ filter (\<lambda>p. p \<noteq> 0) (map cp_HostPort ps) @
     replicate (length (filter (\<lambda>p. p = 0) (map cp_HostPort ps))) 0"
proof (induction ps arbitrary: slots i)
  case Nil
  then show ?case by simp
next
  case (Cons p ps)
  show ?case
  proof (cases "cp_HostPort p = 0")
    case True
    have "fillPorts slots i ps = fillPorts (butlast slots) i ps @ [0]"
    proof -
      have "fillPorts (s @ [0]) j qs = fillPorts s j qs @ [0]"
        if "j + length qs \<le> length s" for s j qs
        using that by (induction qs arbitrary: s j) (auto simp: list_update_append1)
      moreover have "slots = butlast slots @ [0]"
        using Cons.prems by (cases slots rule: rev_cases) (auto simp: nth_append dest: spec [of _ "i + length ps"])
      moreover have "i + length ps \<le> length (butlast slots)" using Cons.prems by simp
      ultimately show ?thesis by (metis (no_types))
    qed
    also have "fillPorts (butlast slots) i ps = take i (butlast slots) @
        filter (\<lambda>p. p \<noteq> 0) (map cp_HostPort ps) @ replicate (length (filter (\<lambda>p. p = 0) (map cp_HostPort ps))) 0"
      using Cons.prems by (intro Cons.IH) (auto simp: nth_butlast)
    finally show ?thesis
      using True Cons.prems by (simp add: take_butlast replicate_append_same)
  next
    case False
    have "fillPorts (slots[i := cp_HostPort p]) (Suc i) ps =
        take (Suc i) (slots[i := cp_HostPort p]) @ filter (\<lambda>p. p \<noteq> 0) (map cp_HostPort ps) @
        replicate (length (filter (\<lambda>p. p = 0) (map cp_HostPort ps))) 0"
      using Cons.prems by (intro Cons.IH) auto
    then show ?thesis
      using False Cons.prems by (simp add: take_Suc_conv_app_nth)
  qed
qed

lemma portsExposed_eq:
  "portsExposed c = filter (\<lambda>p. p \<noteq> 0) (map cp_HostPort (c_Ports c)) @
     replicate (length (filter (\<lambda>p. p = 0) (map cp_HostPort (c_Ports c)))) 0"
  using fillPorts_eq [of "replicate (length (c_Ports c)) 0" 0 "c_Ports c"]
  by (simp add: portsExposed_def)

text \<open>The initialisation loop: it ends for every maximum below the largest \<open>int32\<close>.\<close>

lemma initUsage_loop:
  assumes "- 2147483648 \<le> lo" and "lo \<le> hi + 1" and "hi < 2147483647"
  shows "while_option (\<lambda>(port, m). port \<le> hi) (\<lambda>(port, m). (wrap32 (port + 1), m(port \<mapsto> (0::int)))) (lo, m) =
    Some (hi + 1, \<lambda>p. if lo \<le> p \<and> p \<le> hi then Some 0 else m p)"
  using assms
proof (induction "nat (hi + 1 - lo)" arbitrary: lo m)
  case 0
  then have "lo = hi + 1" by simp
  then show ?case by (subst while_option_unfold) (auto intro!: ext)
next
  case (Suc k)
  then have le: "lo \<le> hi" by simp
  have "while_option (\<lambda>(port, m). port \<le> hi) (\<lambda>(port, m). (wrap32 (port + 1), m(port \<mapsto> (0::int))))
      (lo + 1, m(lo \<mapsto> 0)) = Some (hi + 1, \<lambda>p. if lo + 1 \<le> p \<and> p \<le> hi then Some 0 else (m(lo \<mapsto> 0)) p)"
    using Suc.prems Suc.hyps(2) le by (intro Suc.hyps(1)) auto
  moreover have "(\<lambda>p. if lo + 1 \<le> p \<and> p \<le> hi then Some 0 else (m(lo \<mapsto> 0)) p) =
      (\<lambda>p. if lo \<le> p \<and> p \<le> hi then Some (0::int) else m p)"
    using le by auto
  ultimately show ?case
    using le Suc.prems by (subst while_option_unfold) simp
qed

lemma initUsage_Some:
  "- 2147483648 \<le> lo \<Longrightarrow> lo \<le> hi \<Longrightarrow> hi < 2147483647 \<Longrightarrow>
   initUsage lo hi = Some (\<lambda>p. if lo \<le> p \<and> p \<le> hi then Some 0 else None)"
  by (simp add: initUsage_def initUsage_loop)

lemma initUsage_diverges:
  assumes "is_int32 lo"
  shows "initUsage lo 2147483647 = None"
proof -
  let ?c = "\<lambda>(port, m). (wrap32 (port + 1), m(port \<mapsto> (0::int)))"
  have "is_int32 (fst ((?c ^^ k) (lo, Map.empty)))" for k
    using assms by (cases k) (auto simp: split_beta)
  then have "fst ((?c ^^ k) (lo, Map.empty)) \<le> 2147483647" for k
    by (simp add: is_int32_def)
  then show ?thesis
    by (simp add: initUsage_def while_option_def split_beta)
qed

lemma NewPortRegistry_inv:
  assumes "0 \<le> lo" "lo \<le> hi" "hi < 2147483647"
  obtains pr where "NewPortRegistry gss lo hi nodes u = Some (Inr pr)"
    and "pr_inv (\<lambda>p. int (count_list (startupPorts gss) p))
           (int (length (filter (\<lambda>p. p < lo \<or> hi < p) (startupPorts gss)))) pr"
    and "NodeCount pr = nodes" and "MinPort pr = lo" and "MaxPort pr = hi"
    and "HostPortsPerGameServer pr = Map.empty"
    and "useSpecificNodePool pr = u"
proof -
  let ?ps = "startupPorts gss"
  let ?start = "\<lparr>HostPortsUsage = (\<lambda>p. if lo \<le> p \<and> p \<le> hi then Some 0 else None), HostPortsPerGameServer = Map.empty,
    NodeCount = nodes, MinPort = lo, MaxPort = hi, FreePortsCount = nodes * wrap32 (wrap32 (hi - lo) + 1),
    nextPortNumber = lo, useSpecificNodePool = u\<rparr>"
  let ?pr = "assignRegisteredPorts ?start ?ps"
  have new: "NewPortRegistry gss lo hi nodes u = Some (Inr ?pr)"
    using assms by (simp add: NewPortRegistry_def initUsage_Some foldl_registerGameServer)
  note S = assignRegisteredPorts_spec [of ?start ?ps]
  have "usage ?start q = 0" for q by (simp add: map_get_def)
  then have U: "usage ?pr q = int (count_list ?ps q)" for q using S by simp
  have rng: "portRange ?pr = {lo..hi}" using S by (simp add: portRange_def)
  have "(\<Sum>p\<in>{lo..hi}. int (count_list ?ps p)) = int (length (filter (\<lambda>p. p \<in> {lo..hi}) ?ps))"
    by (simp add: sum_count_list flip: of_nat_sum)
  moreover have "length (filter (\<lambda>p. p \<in> {lo..hi}) ?ps) + length (filter (\<lambda>p. p < lo \<or> hi < p) ?ps) = length ?ps"
  proof -
    have "(\<lambda>p. p < lo \<or> hi < p) = (\<lambda>p. \<not> p \<in> {lo..hi})" by auto
    then show ?thesis using sum_length_filter_compl [of "\<lambda>p. p \<in> {lo..hi}" ?ps] by simp
  qed
  moreover have "capacityLeft ?pr = nodes * (hi - lo + 1) - (\<Sum>p\<in>{lo..hi}. int (count_list ?ps p))"
    unfolding capacityLeft_def rng using S assms by (simp add: U sum_subtractf)
  ultimately have "acct (int (length (filter (\<lambda>p. p < lo \<or> hi < p) ?ps))) ?pr"
    using S assms rng by (auto simp: acct_def range_ok_def)
  then have "pr_inv (\<lambda>p. int (count_list ?ps p)) (int (length (filter (\<lambda>p. p < lo \<or> hi < p) ?ps))) ?pr"
    using S U by (simp add: pr_inv_def)
  moreover have "useSpecificNodePool (assignRegisteredPorts p xs) = useSpecificNodePool p" for p xs
    unfolding assignRegisteredPorts_def by (induction xs arbitrary: p) (auto simp: assignRegisteredPort_def)
  ultimately show ?thesis using that [OF new] S by simp
qed


section \<open>The registry as an allocator\<close>

text \<open>
  What the controllers rely on: a successful \<open>get\<close> records its ports under the GameServer's
  name and counts them as used, a failed one changes nothing, and \<open>dereg\<close> undoes the \<open>get\<close>
  of the same name and nothing else.
\<close>

locale port_allocator =
  fixes get :: "'s \<Rightarrow> string \<Rightarrow> string \<Rightarrow> int \<Rightarrow> 's \<times> ('e + int list)"
    and dereg :: "'s \<Rightarrow> string \<Rightarrow> string \<Rightarrow> 's \<times> int list option"
    and owned :: "'s \<Rightarrow> string \<rightharpoonup> int list"
    and used :: "'s \<Rightarrow> int \<Rightarrow> int"
    and free :: "'s \<Rightarrow> int"
    and inv :: "'s \<Rightarrow> bool"
  assumes get_inv: "inv s \<Longrightarrow> get s ns n c = (s', r) \<Longrightarrow> inv s'"
    and get_fail: "inv s \<Longrightarrow> get s ns n c = (s', Inl e) \<Longrightarrow> s' = s"
    and get_ok: "inv s \<Longrightarrow> get s ns n c = (s', Inr ps) \<Longrightarrow>
      owned s (getNamespacedName ns n) = None \<and> int (length ps) = c \<and>
      owned s' = (owned s)(getNamespacedName ns n \<mapsto> ps) \<and>
      (\<forall>p. used s' p = used s p + int (count_list ps p)) \<and> free s' = free s - c"
    and dereg_inv: "inv s \<Longrightarrow> dereg s ns n = (s', q) \<Longrightarrow> inv s'"
    and dereg_owned: "inv s \<Longrightarrow> owned s (getNamespacedName ns n) = Some ps \<Longrightarrow> dereg s ns n = (s', q) \<Longrightarrow>
      q = Some ps \<and> owned s' = (owned s)(getNamespacedName ns n := None) \<and>
      (\<forall>p. used s' p = used s p - int (count_list ps p)) \<and> free s' = free s + int (length ps)"
    and dereg_none: "owned s (getNamespacedName ns n) = None \<Longrightarrow> dereg s ns n = (s, None)"
begin

lemma get_dereg:
  assumes "inv s" and get: "get s ns n c = (s1, Inr ps)" and de: "dereg s1 ns n = (s2, q)"
  shows "q = Some ps \<and> owned s2 = owned s \<and> used s2 = used s \<and> free s2 = free s \<and> inv s2"
proof -
  note G = get_ok [OF assms(1) get]
  note i1 = get_inv [OF assms(1) get]
  have "owned s1 (getNamespacedName ns n) = Some ps" using G by simp
  note D = dereg_owned [OF i1 this de]
  show ?thesis using G D dereg_inv [OF i1 de] by (auto intro!: ext)
qed

lemma dereg_idem:
  assumes "inv s" and "dereg s ns n = (s1, q)"
  shows "dereg s1 ns n = (s1, None)"
proof (cases "owned s (getNamespacedName ns n)")
  case None
  then show ?thesis using assms dereg_none by auto
next
  case (Some ps)
  from dereg_owned [OF assms(1) this assms(2)] show ?thesis by (intro dereg_none) simp
qed

text \<open>What one GameServer holds is not touched by the operations of another.\<close>

lemma get_other:
  "inv s \<Longrightarrow> get s ns n c = (s', r) \<Longrightarrow> k \<noteq> getNamespacedName ns n \<Longrightarrow> owned s' k = owned s k"
  by (cases r) (auto dest: get_fail get_ok)

lemma dereg_other:
  "inv s \<Longrightarrow> dereg s ns n = (s', q) \<Longrightarrow> k \<noteq> getNamespacedName ns n \<Longrightarrow> owned s' k = owned s k"
  by (cases "owned s (getNamespacedName ns n)") (auto dest: dereg_owned simp: dereg_none)

end

interpretation registry: port_allocator GetNewPorts DeregisterPorts HostPortsPerGameServer usage
    FreePortsCount "pr_inv base lost" for base lost
proof (unfold_locales, goal_cases)
  case (1 s ns n c s' r)
  then show ?case by (rule GetNewPorts_inv)
next
  case (2 s ns n c s' e)
  then show ?case using GetNewPorts_cases [OF pr_inv_acct [OF 2(1)] 2(2)] by auto
next
  case (3 s ns n c s' ps)
  then show ?case using GetNewPorts_cases [OF pr_inv_acct [OF 3(1)] 3(2)] by auto
next
  case (4 s ns n s' q)
  then show ?case by (rule DeregisterPorts_inv)
next
  case (5 s ns n ps s' q)
  then show ?case using DeregisterPorts_spec by blast
next
  case (6 s ns n)
  then show ?case by (rule DeregisterPorts_absent)
qed

section \<open>Executions\<close>

text \<open>The controllers call the registry in any order, with any arguments and any node lists.\<close>

inductive port_step :: "PortRegistry \<Rightarrow> PortRegistry \<Rightarrow> bool" where
  step_get: "GetNewPorts pr ns n cnt = (pr', r) \<Longrightarrow> port_step pr pr'"
| step_deregister: "DeregisterPorts pr ns n = (pr', q) \<Longrightarrow> port_step pr pr'"
| step_reconcile: "Reconcile pr listNodes = (pr', e) \<Longrightarrow> port_step pr pr'"

definition port_start :: "GameServer list \<Rightarrow> int \<Rightarrow> int \<Rightarrow> int \<Rightarrow> bool \<Rightarrow> PortRegistry \<Rightarrow> bool" where
  "port_start gss lo hi nodes u pr \<longleftrightarrow>
     0 \<le> lo \<and> hi < 2147483647 \<and> NewPortRegistry gss lo hi nodes u = Some (Inr pr)"

abbreviation strayPorts :: "GameServer list \<Rightarrow> int \<Rightarrow> int \<Rightarrow> int list" where
  "strayPorts gss lo hi \<equiv> filter (\<lambda>p. p < lo \<or> hi < p) (startupPorts gss)"

lemma port_start_inv:
  assumes "port_start gss lo hi nodes u pr"
  shows "pr_inv (\<lambda>p. int (count_list (startupPorts gss) p)) (int (length (strayPorts gss lo hi))) pr \<and>
    MinPort pr = lo \<and> MaxPort pr = hi \<and> HostPortsPerGameServer pr = Map.empty"
proof -
  have "lo \<le> hi"
    using assms by (auto simp: port_start_def NewPortRegistry_def split: if_splits)
  with assms show ?thesis
    by (auto simp: port_start_def intro: NewPortRegistry_inv [of lo hi gss nodes u])
qed

lemma port_step_inv: "pr_inv base lost pr \<Longrightarrow> port_step pr pr' \<Longrightarrow> pr_inv base lost pr'"
  by (auto elim!: port_step.cases intro: GetNewPorts_inv DeregisterPorts_inv Reconcile_inv)

interpretation port_system: invariant_system "port_start gss lo hi nodes u" port_step
    "pr_inv (\<lambda>p. int (count_list (startupPorts gss) p)) (int (length (strayPorts gss lo hi)))"
  for gss lo hi nodes u
  by unfold_locales (auto dest: port_start_inv intro: port_step_inv)


section \<open>A concrete registry\<close>

text \<open>Three ports, one node, no GameServers yet: the state the witnesses start from.\<close>

definition small_registry :: PortRegistry where
  "small_registry = \<lparr>HostPortsUsage = (\<lambda>p. if 10000 \<le> p \<and> p \<le> 10002 then Some 0 else None),
     HostPortsPerGameServer = Map.empty, NodeCount = 1, MinPort = 10000, MaxPort = 10002,
     FreePortsCount = 3, nextPortNumber = 10000, useSpecificNodePool = False\<rparr>"

lemma small_registry_start: "port_start [] 10000 10002 1 False small_registry"
  by (simp add: port_start_def NewPortRegistry_def initUsage_Some small_registry_def)

lemma small_registry_inv: "pr_inv (\<lambda>p. 0) 0 small_registry"
  using port_start_inv [OF small_registry_start] by (simp add: startupPorts_def)

lemma small_registry_reach: "reach (port_start [] 10000 10002 1 False) port_step small_registry"
  by (rule reach_init) (rule small_registry_start)

lemmas registry_eval = GetNewPorts_def DeregisterPorts_def Let_def small_registry_def getNamespacedName_def
  portCount_def takePort_def advancePort_def nextPort_def deregisterPort_def map_get_def eval_nat_numeral
  onNodeAdded_def onNodeRemoved_def

section \<open>Properties\<close>

text \<open>
  C11: every outcome of \<open>GetNewPorts\<close>. The request succeeds exactly when it is not negative, fits
  in the free count and the GameServer holds no ports yet. Then it returns that many ports of
  the range, each of which is in use on at most as many GameServers as there are nodes, charges
  the free count and records the ports under the GameServer's name. Otherwise the registry is
  unchanged. The accounting holds again in every case.
\<close>

theorem GetNewPorts_correct:
  assumes "pr_inv base lost pr" and "GetNewPorts pr ns n cnt = (pr', r)"
  shows "pr_inv base lost pr' \<and>
    (case r of
       Inl e \<Rightarrow> pr' = pr \<and>
         e = (if FreePortsCount pr < cnt then NotEnoughFreePorts
              else if HostPortsPerGameServer pr (getNamespacedName ns n) \<noteq> None then PortsAlreadyAssigned
              else NegativeLengthPanic)
     | Inr ps \<Rightarrow> int (length ps) = cnt \<and> set ps \<subseteq> {MinPort pr..MaxPort pr} \<and>
         (\<forall>p. usage pr' p = usage pr p + int (count_list ps p)) \<and>
         (\<forall>p \<in> set ps. usage pr' p \<le> NodeCount pr) \<and>
         FreePortsCount pr' = FreePortsCount pr - cnt \<and>
         HostPortsPerGameServer pr' = (HostPortsPerGameServer pr)(getNamespacedName ns n \<mapsto> ps)) \<and>
    (isl r = (FreePortsCount pr < cnt \<or> cnt < 0 \<or>
       HostPortsPerGameServer pr (getNamespacedName ns n) \<noteq> None))"
  using GetNewPorts_cases [OF pr_inv_acct [OF assms(1)] assms(2)] GetNewPorts_inv [OF assms]
  by (auto simp: portRange_def)

theorem GetNewPorts_correct_witness:
  "\<exists>pr'. GetNewPorts small_registry ''default'' ''gs-a'' 2 = (pr', Inr [10000, 10001]) \<and>
     FreePortsCount pr' = 1 \<and> usage pr' 10001 = 1"
proof -
  obtain pr' where g: "GetNewPorts small_registry ''default'' ''gs-a'' 2 = (pr', Inr [10000, 10001])"
    by (simp add: registry_eval)
  from GetNewPorts_correct [OF small_registry_inv g] show ?thesis
    using g by (simp add: small_registry_def map_get_def)
qed

text \<open>
  C4: in every state the operator can bring the registry to, the accounting holds: the use of
  each port is what was found at start plus what the GameServers of the map hold, all held ports
  lie in the range, the next port lies in the range, and the free count is the capacity left on
  the range less the slots that were registered outside the range at start.
\<close>

theorem registry_reachable_inv:
  assumes "reach (port_start gss lo hi nodes u) port_step pr"
  shows "pr_inv (\<lambda>p. int (count_list (startupPorts gss) p)) (int (length (strayPorts gss lo hi))) pr"
  using assms by (rule port_system.inv_reach)

theorem registry_reachable_inv_witness:
  "\<exists>pr. GetNewPorts small_registry ''default'' ''gs-a'' 2 = (pr, Inr [10000, 10001]) \<and>
     pr_inv (\<lambda>p. 0) 0 pr"
proof -
  obtain pr where g: "GetNewPorts small_registry ''default'' ''gs-a'' 2 = (pr, Inr [10000, 10001])"
    by (simp add: registry_eval)
  have "reach (port_start [] 10000 10002 1 False) port_step pr"
    by (rule reach_step [OF small_registry_reach]) (rule step_get [OF g])
  from registry_reachable_inv [OF this] g show ?thesis by (auto simp: startupPorts_def)
qed

text \<open>
  The error "No available ports", which the source returns half way without giving back the
  ports it already took, never occurs in a reachable state: the check of the free count at the
  top is enough.
\<close>

lemma GetNewPorts_never_exhausts:
  assumes "reach (port_start gss lo hi nodes u) port_step pr"
  shows "snd (GetNewPorts pr ns n cnt) \<noteq> Inl NoAvailablePorts"
  using GetNewPorts_cases [OF pr_inv_acct [OF port_system.inv_reach [OF assms]], of ns n cnt]
  by (cases "GetNewPorts pr ns n cnt") fastforce

lemma GetNewPorts_never_exhausts_witness:
  "snd (GetNewPorts small_registry ''default'' ''gs-a'' 4) \<noteq> Inl NoAvailablePorts \<and>
   snd (GetNewPorts small_registry ''default'' ''gs-a'' 4) = Inl NotEnoughFreePorts"
proof
  show "snd (GetNewPorts small_registry ''default'' ''gs-a'' 4) \<noteq> Inl NoAvailablePorts"
    by (rule GetNewPorts_never_exhausts [OF small_registry_reach])
  show "snd (GetNewPorts small_registry ''default'' ''gs-a'' 4) = Inl NotEnoughFreePorts"
    by (simp add: GetNewPorts_def small_registry_def)
qed

text \<open>
  \<open>DeregisterPorts\<close> undoes \<open>GetNewPorts\<close>: it returns the ports that were handed out, and the
  use of every port, the free count and the map of holders are what they were before. A second
  call changes nothing and returns nil.
\<close>

lemma GetNewPorts_Deregister_roundtrip:
  assumes "pr_inv base lost pr" and "GetNewPorts pr ns n cnt = (pr1, Inr ps)"
    and "DeregisterPorts pr1 ns n = (pr2, q)"
  shows "q = Some ps \<and> usage pr2 = usage pr \<and> FreePortsCount pr2 = FreePortsCount pr \<and>
    HostPortsPerGameServer pr2 = HostPortsPerGameServer pr \<and> DeregisterPorts pr2 ns n = (pr2, None)"
  using registry.get_dereg [OF assms] registry.dereg_idem [OF registry.get_inv [OF assms(1,2)] assms(3)]
  by simp

lemma GetNewPorts_Deregister_roundtrip_witness:
  "\<exists>pr1 pr2. GetNewPorts small_registry ''default'' ''gs-a'' 2 = (pr1, Inr [10000, 10001]) \<and>
     DeregisterPorts pr1 ''default'' ''gs-a'' = (pr2, Some [10000, 10001]) \<and> FreePortsCount pr2 = 3"
proof -
  obtain pr1 where g: "GetNewPorts small_registry ''default'' ''gs-a'' 2 = (pr1, Inr [10000, 10001])"
    by (simp add: registry_eval)
  obtain pr2 q where d: "DeregisterPorts pr1 ''default'' ''gs-a'' = (pr2, q)"
    by (cases "DeregisterPorts pr1 ''default'' ''gs-a''")
  from GetNewPorts_Deregister_roundtrip [OF small_registry_inv g d] g d show ?thesis
    by (auto simp: small_registry_def)
qed

text \<open>
  After a \<open>Reconcile\<close> whose listing succeeds, the node count is the number of listed nodes
  that are ready and schedulable, no port changed hands, and the accounting holds for the new
  count; when the listing fails the registry is unchanged and the error is returned.
\<close>

lemma Reconcile_tracks_nodes:
  assumes "pr_inv base lost pr" and "Reconcile pr listNodes = (pr', e)"
  shows "pr_inv base lost pr' \<and> HostPortsPerGameServer pr' = HostPortsPerGameServer pr \<and>
    usage pr' = usage pr \<and>
    (case listNodes (if useSpecificNodePool pr then Some (LabelGameServerNode, ''true'') else None) of
       Inl err \<Rightarrow> pr' = pr \<and> e = Some err
     | Inr nodes \<Rightarrow> e = None \<and> NodeCount pr' = schedulableCount nodes \<and>
         FreePortsCount pr' = FreePortsCount pr +
           (schedulableCount nodes - NodeCount pr) * (MaxPort pr - MinPort pr + 1))"
proof -
  have inv': "pr_inv base lost pr'" by (rule Reconcile_inv [OF assms])
  show ?thesis
  proof (cases "listNodes (if useSpecificNodePool pr then Some (LabelGameServerNode, ''true'') else None)")
    case (Inl err)
    with assms inv' show ?thesis by (simp add: Reconcile_def)
  next
    case (Inr nodes)
    then have e: "e = None" using assms(2) by (simp add: Reconcile_def Let_def)
    note R = Reconcile_count [OF assms(2) [unfolded e]]
    have "MinPort ((onNodeAdded ^^ k) p) = MinPort p \<and> MaxPort ((onNodeAdded ^^ k) p) = MaxPort p \<and>
        MinPort ((onNodeRemoved ^^ k) p) = MinPort p \<and> MaxPort ((onNodeRemoved ^^ k) p) = MaxPort p" for k p
      by (induction k) (auto simp: onNodeAdded_def onNodeRemoved_def)
    then have rng: "MinPort pr' = MinPort pr \<and> MaxPort pr' = MaxPort pr"
      using assms(2) Inr by (auto simp: Reconcile_def Let_def split: if_splits)
    then have pr': "portRange pr' = portRange pr" by (simp add: portRange_def)
    have usage: "usage pr' = usage pr" using R by auto
    have "capacityLeft pr' = (\<Sum>p\<in>portRange pr. (NodeCount pr - usage pr p) + (NodeCount pr' - NodeCount pr))"
      unfolding capacityLeft_def pr' usage by (intro sum.cong) auto
    also have "\<dots> = capacityLeft pr + (NodeCount pr' - NodeCount pr) * (MaxPort pr - MinPort pr + 1)"
      using acct_range [OF pr_inv_acct [OF assms(1)]]
      by (simp only: sum_add_const capacityLeft_def) (simp add: portRange_def range_ok_def)
    finally have "FreePortsCount pr' = FreePortsCount pr +
        (NodeCount pr' - NodeCount pr) * (MaxPort pr - MinPort pr + 1)"
      using pr_inv_acct [OF inv'] pr_inv_acct [OF assms(1)] by (simp add: acct_def)
    then show ?thesis using inv' R usage e Inr by auto
  qed
qed

theorem Reconcile_tracks_nodes_witness:
  "\<exists>pr'. Reconcile small_registry (\<lambda>_. Inr []) = (pr', None) \<and> NodeCount pr' = 0 \<and> FreePortsCount pr' = 0"
proof -
  obtain pr' e where r: "Reconcile small_registry (\<lambda>_. Inr []) = (pr', e)"
    by (cases "Reconcile small_registry (\<lambda>_. Inr [])")
  from Reconcile_tracks_nodes [OF small_registry_inv r] r show ?thesis
    by (auto simp: small_registry_def schedulableCount_def)
qed

text \<open>
  C37: \<open>NewPortRegistry\<close> returns for every range of \<open>int32\<close> ports except one that ends at the
  largest \<open>int32\<close>, for which its loop counter wraps around and the loop never ends.
\<close>

theorem NewPortRegistry_returns:
  assumes "is_int32 lo" and "is_int32 hi" and "lo \<le> hi"
  shows "NewPortRegistry gss lo hi nodes u \<noteq> None \<longleftrightarrow> hi \<noteq> 2147483647"
proof (cases "hi = 2147483647")
  case True
  with assms show ?thesis by (simp add: NewPortRegistry_def initUsage_diverges)
next
  case False
  with assms have "initUsage lo hi \<noteq> None" by (simp add: initUsage_Some is_int32_def)
  with assms False show ?thesis by (simp add: NewPortRegistry_def)
qed

theorem NewPortRegistry_returns_witness:
  "NewPortRegistry [] 10000 12000 3 False \<noteq> None \<and> NewPortRegistry [] 10000 2147483647 3 False = None"
  using NewPortRegistry_returns [of 10000 12000 "[]" 3 False]
    NewPortRegistry_returns [of 10000 2147483647 "[]" 3 False]
  by (simp add: is_int32_def)

text \<open>
  The ports of the GameServers that exist when the operator starts are never released.
  \<open>NewPortRegistry\<close> counts them as used but does not record who holds them, so
  \<open>DeregisterPorts\<close> does nothing for those GameServers, and in every later state each port is
  still in use at least as often as it was at start.
\<close>

lemma startup_ports_never_released:
  assumes "port_start gss lo hi nodes u pr0" and "reach (port_start gss lo hi nodes u) port_step pr"
  shows "DeregisterPorts pr0 ns n = (pr0, None) \<and> int (count_list (startupPorts gss) p) \<le> usage pr p"
proof
  show "DeregisterPorts pr0 ns n = (pr0, None)"
    using port_start_inv [OF assms(1)] by (intro DeregisterPorts_absent) simp
  show "int (count_list (startupPorts gss) p) \<le> usage pr p"
    using port_system.inv_reach [OF assms(2)] by (auto simp: pr_inv_def)
qed

definition one_port_server :: "int \<Rightarrow> GameServer" where
  "one_port_server hostPort = zero_GameServer\<lparr>gs_Spec := (gs_Spec zero_GameServer)\<lparr>gss_Template :=
     zero_Template\<lparr>pt_Spec := zero_PodSpec\<lparr>ps_Containers :=
       [\<lparr>c_Name = ''game'', c_Image = ''img'', c_ImagePullPolicy = [],
         c_Ports = [\<lparr>cp_Name = ''p'', cp_ContainerPort = 80, cp_HostPort = hostPort\<rparr>],
         c_Env = [], c_VolumeMounts = []\<rparr>]\<rparr>\<rparr>\<rparr>\<rparr>"

lemma startupPorts_one_port_server: "startupPorts [one_port_server h] = [h]"
  by (simp add: startupPorts_def one_port_server_def zero_defs portsExposed_eq)

theorem startup_ports_never_released_witness:
  "\<exists>pr0. port_start [one_port_server 10001] 10000 10002 1 False pr0 \<and>
     DeregisterPorts pr0 ''default'' ''gs-old'' = (pr0, None) \<and> 1 \<le> usage pr0 10001"
proof -
  obtain pr0 where s: "port_start [one_port_server 10001] 10000 10002 1 False pr0"
    using NewPortRegistry_inv [of 10000 10002 "[one_port_server 10001]" 1 False]
    by (auto simp: port_start_def)
  have r: "reach (port_start [one_port_server 10001] 10000 10002 1 False) port_step pr0"
    by (rule reach_init) (rule s)
  from startup_ports_never_released [OF s r, of "''default''" "''gs-old''" 10001] s
  show ?thesis by (auto simp: startupPorts_one_port_server)
qed

text \<open>
  A container port whose host port is zero, which \<open>NewPortRegistry\<close> says it ignores, still
  costs one free slot: the slice has a slot for it, and the zero in the slot is registered. With
  one node, three ports and a single GameServer that has no host port, only two of the three
  free ports can be handed out.
\<close>

lemma zero_host_port_costs_a_slot:
  "\<exists>pr. NewPortRegistry [one_port_server 0] 10000 10002 1 False = Some (Inr pr) \<and>
     capacityLeft pr = 3 \<and> FreePortsCount pr = 2 \<and>
     snd (GetNewPorts pr ns n 3) = Inl NotEnoughFreePorts"
proof -
  obtain pr where new: "NewPortRegistry [one_port_server 0] 10000 10002 1 False = Some (Inr pr)"
    and inv: "pr_inv (\<lambda>p. int (count_list [0] p)) 1 pr"
    and fr: "NodeCount pr = 1" "MinPort pr = 10000" "MaxPort pr = 10002"
      "HostPortsPerGameServer pr = Map.empty"
    by (rule NewPortRegistry_inv [of 10000 10002 "[one_port_server 0]" 1 False])
      (simp_all add: startupPorts_one_port_server)
  have "usage pr p = (if p = 0 then 1 else 0)" for p
    using inv fr by (simp add: pr_inv_def)
  then have "capacityLeft pr = (\<Sum>p\<in>{10000..10002::int}. 1)"
    unfolding capacityLeft_def portRange_def using fr by (intro sum.cong) auto
  then have c: "capacityLeft pr = 3" by simp
  moreover have "FreePortsCount pr = 2" using inv c by (simp add: pr_inv_def acct_def)
  ultimately show ?thesis using new by (simp add: GetNewPorts_def)
qed

end
