(* ===== verification/Expectations.thy ===== *)
theory Expectations
  imports Api_Types
begin

text \<open>
  The expectations of \<open>pkg/operator/controllers/gameserver_expectations.go\<close>: per build (by name)
  the GameServers that were created or deleted but that the cache may not show yet. A
  \<open>MutexMap\<close> is the set of its keys. Go visits the keys of a map in an arbitrary order, which is
  the parameter \<open>order\<close>; the cache is read through \<open>getGS\<close> with a namespace and a name.
\<close>

record GameServerExpectations =
  gameServersUnderCreation :: "string \<rightharpoonup> string set"
  gameServersUnderDeletion :: "string \<rightharpoonup> string set"

type_synonym gs_reader = "string \<Rightarrow> string \<Rightarrow> api_error + GameServer"
type_synonym key_order = "string set \<Rightarrow> string list"

definition order_ok :: "key_order \<Rightarrow> string set \<Rightarrow> bool" where
  "order_ok order S \<longleftrightarrow> set (order S) = S \<and> distinct (order S)"

definition NewGameServerExpectations :: GameServerExpectations where
  "NewGameServerExpectations =
     \<lparr>gameServersUnderCreation = Map.empty, gameServersUnderDeletion = Map.empty\<rparr>"

definition addGameServerToUnderDeletionMap ::
    "string \<Rightarrow> string \<Rightarrow> GameServerExpectations \<Rightarrow> GameServerExpectations" where
  "addGameServerToUnderDeletionMap build gs g =
     g\<lparr>gameServersUnderDeletion := (gameServersUnderDeletion g)
       (build \<mapsto> insert gs (map_get (gameServersUnderDeletion g) {} build))\<rparr>"

definition addGameServerToUnderCreationMap ::
    "string \<Rightarrow> string \<Rightarrow> GameServerExpectations \<Rightarrow> GameServerExpectations" where
  "addGameServerToUnderCreationMap build gs g =
     g\<lparr>gameServersUnderCreation := (gameServersUnderCreation g)
       (build \<mapsto> insert gs (map_get (gameServersUnderCreation g) {} build))\<rparr>"

text \<open>
  The loop over the names under deletion, with what is left in the map; an error other than
  NotFound ends it.
\<close>

fun deletionLoop ::
    "gs_reader \<Rightarrow> string \<Rightarrow> string list \<Rightarrow> string set \<Rightarrow> string set \<times> api_error option" where
  "deletionLoop getGS ns [] data = (data, None)"
| "deletionLoop getGS ns (k # ks) data =
     (case getGS ns k of
        Inr _ \<Rightarrow> deletionLoop getGS ns ks data
      | Inl err \<Rightarrow>
          if IsNotFound err then deletionLoop getGS ns ks (data - {k}) else (data, Some err))"

definition gameServersUnderDeletionWereDeleted ::
    "gs_reader \<Rightarrow> key_order \<Rightarrow> GameServerBuild \<Rightarrow> GameServerExpectations \<Rightarrow>
     GameServerExpectations \<times> (api_error + bool)" where
  "gameServersUnderDeletionWereDeleted getGS order gsb g =
     (case gameServersUnderDeletion g (gsb_Name gsb) of
        None \<Rightarrow> (g, Inr True)
      | Some data \<Rightarrow>
          (case deletionLoop getGS (gsb_Namespace gsb) (order data) data of
             (data', Some err) \<Rightarrow>
               (g\<lparr>gameServersUnderDeletion := (gameServersUnderDeletion g)(gsb_Name gsb \<mapsto> data')\<rparr>, Inl err)
           | (data', None) \<Rightarrow>
               if data' = {}
               then (g\<lparr>gameServersUnderDeletion := (gameServersUnderDeletion g)(gsb_Name gsb := None)\<rparr>, Inr True)
               else (g\<lparr>gameServersUnderDeletion := (gameServersUnderDeletion g)(gsb_Name gsb \<mapsto> data')\<rparr>,
                     Inr False)))"

text \<open>The loop over the names under creation: the first one that is missing ends it.\<close>

fun creationLoop ::
    "gs_reader \<Rightarrow> string \<Rightarrow> string list \<Rightarrow> string set \<Rightarrow> string set \<times> (api_error + bool) option" where
  "creationLoop getGS ns [] data = (data, None)"
| "creationLoop getGS ns (k # ks) data =
     (case getGS ns k of
        Inr _ \<Rightarrow> creationLoop getGS ns ks (data - {k})
      | Inl err \<Rightarrow> (data, Some (if IsNotFound err then Inr False else Inl err)))"

definition gameServersUnderCreationWereCreated ::
    "gs_reader \<Rightarrow> key_order \<Rightarrow> GameServerBuild \<Rightarrow> GameServerExpectations \<Rightarrow>
     GameServerExpectations \<times> (api_error + bool)" where
  "gameServersUnderCreationWereCreated getGS order gsb g =
     (case gameServersUnderCreation g (gsb_Name gsb) of
        None \<Rightarrow> (g, Inr True)
      | Some data \<Rightarrow>
          (case creationLoop getGS (gsb_Namespace gsb) (order data) data of
             (data', Some r) \<Rightarrow>
               (g\<lparr>gameServersUnderCreation := (gameServersUnderCreation g)(gsb_Name gsb \<mapsto> data')\<rparr>, r)
           | (data', None) \<Rightarrow>
               if data' = {}
               then (g\<lparr>gameServersUnderCreation := (gameServersUnderCreation g)(gsb_Name gsb := None)\<rparr>, Inr True)
               else (g\<lparr>gameServersUnderCreation := (gameServersUnderCreation g)(gsb_Name gsb \<mapsto> data')\<rparr>,
                     Inr False)))"

section \<open>What the checks find out\<close>

definition gone :: "gs_reader \<Rightarrow> string \<Rightarrow> string \<Rightarrow> bool" where
  "gone getGS ns k \<longleftrightarrow> (\<exists>e. getGS ns k = Inl e \<and> IsNotFound e)"

definition present :: "gs_reader \<Rightarrow> string \<Rightarrow> string \<Rightarrow> bool" where
  "present getGS ns k \<longleftrightarrow> (\<exists>gs. getGS ns k = Inr gs)"

text \<open>The cache answers: every read finds the object or says that it is not there.\<close>

definition cache_up :: "gs_reader \<Rightarrow> string \<Rightarrow> string set \<Rightarrow> bool" where
  "cache_up getGS ns S \<longleftrightarrow> (\<forall>k \<in> S. present getGS ns k \<or> gone getGS ns k)"

lemma gone_not_present: "gone getGS ns k \<Longrightarrow> \<not> present getGS ns k"
  by (auto simp: gone_def present_def)

lemma deletionLoop_up:
  "cache_up getGS ns (set ks) \<Longrightarrow>
   deletionLoop getGS ns ks data = (data - {k \<in> set ks. gone getGS ns k}, None)"
  by (induction getGS ns ks data rule: deletionLoop.induct)
    (auto simp: cache_up_def gone_def present_def)

lemma deletionLoop_sub:
  "deletionLoop getGS ns ks data = (data', e) \<Longrightarrow>
   data' \<subseteq> data \<and> (\<forall>k \<in> data - data'. gone getGS ns k)"
proof (induction getGS ns ks data rule: deletionLoop.induct)
  case (2 getGS ns k ks data)
  show ?case
  proof (cases "getGS ns k")
    case (Inl err)
    show ?thesis
    proof (cases "IsNotFound err")
      case True
      with 2 Inl have "data' \<subseteq> data - {k}" "\<forall>j \<in> data - {k} - data'. gone getGS ns j" by auto
      moreover have "gone getGS ns k" using Inl True by (auto simp: gone_def)
      ultimately show ?thesis by auto
    next
      case False
      with 2 Inl show ?thesis by simp
    qed
  next
    case (Inr gs)
    with 2 show ?thesis by simp
  qed
qed simp

lemma creationLoop_sub:
  "creationLoop getGS ns ks data = (data', r) \<Longrightarrow>
   data' \<subseteq> data \<and> (\<forall>k \<in> data - data'. present getGS ns k) \<and>
   (r = None \<longrightarrow> data' = data - set ks \<and> (\<forall>k \<in> set ks. present getGS ns k)) \<and>
   (r = Some (Inr b) \<longrightarrow> b = False \<and> (\<exists>k \<in> set ks. gone getGS ns k)) \<and>
   (r = Some (Inl e) \<longrightarrow> (\<exists>k \<in> set ks. getGS ns k = Inl e \<and> \<not> IsNotFound e))"
proof (induction getGS ns ks data rule: creationLoop.induct)
  case (2 getGS ns k ks data)
  show ?case
  proof (cases "getGS ns k")
    case (Inl err)
    with 2 show ?thesis by (auto simp: gone_def split: if_splits)
  next
    case (Inr gs)
    then have p: "present getGS ns k" by (auto simp: present_def)
    have "creationLoop getGS ns ks (data - {k}) = (data', r)" using 2(2) Inr by simp
    from 2(1) [OF Inr this] p show ?thesis by auto
  qed
qed simp

lemma creationLoop_error:
  "creationLoop getGS ns ks data = (data', Some (Inl e)) \<Longrightarrow> \<exists>k \<in> set ks. getGS ns k = Inl e"
  using creationLoop_sub [of getGS ns ks data data' "Some (Inl e)" False e] by auto

section \<open>Properties\<close>

text \<open>
  Whatever the order in which the map is visited, the check of the deletions answers yes
  exactly when none of the GameServers that were deleted is in the cache any more. It then
  drops the build's entry; otherwise the entry keeps exactly those that are still there.
\<close>

lemma deletions_completed:
  assumes "order_ok order S" and "gameServersUnderDeletion g (gsb_Name gsb) = Some S"
    and "cache_up getGS (gsb_Namespace gsb) S"
  defines "left \<equiv> {k \<in> S. present getGS (gsb_Namespace gsb) k}"
  shows "gameServersUnderDeletionWereDeleted getGS order gsb g =
    (g\<lparr>gameServersUnderDeletion := (gameServersUnderDeletion g)
        (gsb_Name gsb := if left = {} then None else Some left)\<rparr>,
     Inr (left = {}))"
proof -
  have ks: "set (order S) = S" using assms(1) by (simp add: order_ok_def)
  have "S - {k \<in> S. gone getGS (gsb_Namespace gsb) k} = left"
    using assms(3) gone_not_present by (auto simp: left_def cache_up_def)
  then have "deletionLoop getGS (gsb_Namespace gsb) (order S) S = (left, None)"
    using deletionLoop_up [of getGS "gsb_Namespace gsb" "order S" S] assms(3) ks by simp
  then show ?thesis
    by (simp add: gameServersUnderDeletionWereDeleted_def assms(2))
qed

text \<open>
  The check of the creations answers yes only when every GameServer that was created is in
  the cache, and yes whenever they all are; as long as it does not, every one that the cache does not show stays
  expected, so the reconciler cannot create a surplus from an old cache.
\<close>

lemma creations_completed:
  assumes "order_ok order S" and "gameServersUnderCreation g (gsb_Name gsb) = Some S"
    and "gameServersUnderCreationWereCreated getGS order gsb g = (g', r)"
  shows "(r = Inr True \<longleftrightarrow> (\<forall>k \<in> S. present getGS (gsb_Namespace gsb) k)) \<and>
    (r = Inr True \<longrightarrow> gameServersUnderCreation g' (gsb_Name gsb) = None) \<and>
    (r \<noteq> Inr True \<longrightarrow> (\<exists>S'. gameServersUnderCreation g' (gsb_Name gsb) = Some S' \<and> S' \<subseteq> S \<and>
       {k \<in> S. \<not> present getGS (gsb_Namespace gsb) k} \<subseteq> S'))"
proof -
  have ks: "set (order S) = S" using assms(1) by (simp add: order_ok_def)
  obtain data q where l: "creationLoop getGS (gsb_Namespace gsb) (order S) S = (data, q)"
    by (cases "creationLoop getGS (gsb_Namespace gsb) (order S) S")
  have sub: "data \<subseteq> S" "\<forall>k \<in> S - data. present getGS (gsb_Namespace gsb) k"
    using creationLoop_sub [OF l] by auto
  show ?thesis
  proof (cases q)
    case None
    with creationLoop_sub [OF l] ks have all: "data = {}" "\<forall>k \<in> S. present getGS (gsb_Namespace gsb) k" by auto
    with assms(3) l None have "r = Inr True" "gameServersUnderCreation g' (gsb_Name gsb) = None"
      by (auto simp: gameServersUnderCreationWereCreated_def assms(2))
    with all show ?thesis by simp
  next
    case (Some p)
    with assms(3) l have r: "r = p" "gameServersUnderCreation g' (gsb_Name gsb) = Some data"
      by (auto simp: gameServersUnderCreationWereCreated_def assms(2))
    have "p \<noteq> Inr True \<and> (\<exists>k \<in> S. \<not> present getGS (gsb_Namespace gsb) k)"
    proof (cases p)
      case (Inl e)
      obtain k where "k \<in> S" "getGS (gsb_Namespace gsb) k = Inl e"
        using creationLoop_error [OF l [unfolded Some Inl]] ks by auto
      then have "k \<in> S" "\<not> present getGS (gsb_Namespace gsb) k" by (simp_all add: present_def)
      with Inl show ?thesis by blast
    next
      case (Inr b)
      with creationLoop_sub [OF l, of b] Some ks show ?thesis by (auto dest: gone_not_present)
    qed
    with r sub show ?thesis by auto
  qed
qed

text \<open>A cache with one GameServer, for the witnesses.\<close>

definition one_gs_cache :: gs_reader where
  "one_gs_cache ns n = (if n = ''gs-a'' then Inr zero_GameServer else Inl (NotFound ''not found''))"

definition expecting :: GameServerExpectations where
  "expecting = \<lparr>gameServersUnderCreation = [''build'' \<mapsto> {''gs-a'', ''gs-b''}],
     gameServersUnderDeletion = [''build'' \<mapsto> {''gs-a'', ''gs-b''}]\<rparr>"

definition named_build :: "string \<Rightarrow> string \<Rightarrow> GameServerBuild" where
  "named_build ns n = zero_GameServerBuild\<lparr>gsb_Meta := zero_Meta\<lparr>om_Name := n, om_Namespace := ns\<rparr>\<rparr>"

lemma named_build_simps [simp]: "gsb_Name (named_build ns n) = n" "gsb_Namespace (named_build ns n) = ns"
  by (simp_all add: named_build_def)

definition two_order :: key_order where
  "two_order S = [''gs-b'', ''gs-a'']"

lemma two_order_ok: "order_ok two_order {''gs-a'', ''gs-b''}"
  by (auto simp: order_ok_def two_order_def)

theorem deletions_completed_witness:
  "gameServersUnderDeletion (fst (gameServersUnderDeletionWereDeleted one_gs_cache two_order
       (named_build ''default'' ''build'') expecting)) ''build'' = Some {''gs-a''}"
proof -
  have up: "cache_up one_gs_cache (gsb_Namespace (named_build ''default'' ''build'')) {''gs-a'', ''gs-b''}"
    by (simp add: cache_up_def present_def gone_def one_gs_cache_def)
  have left: "{k \<in> {''gs-a'', ''gs-b''}. present one_gs_cache ''default'' k} = {''gs-a''}"
    by (auto simp: present_def one_gs_cache_def)
  have "gameServersUnderDeletion expecting (gsb_Name (named_build ''default'' ''build'')) = Some {''gs-a'', ''gs-b''}"
    by (simp add: expecting_def)
  from deletions_completed [OF two_order_ok this up] show ?thesis
    by (simp only: named_build_simps left) simp
qed

lemma creations_completed_witness:
  "snd (gameServersUnderCreationWereCreated one_gs_cache two_order
     (named_build ''default'' ''build'') expecting) \<noteq> Inr True"
proof -
  obtain g' r where c: "gameServersUnderCreationWereCreated one_gs_cache two_order
      (named_build ''default'' ''build'') expecting = (g', r)"
    by (cases "gameServersUnderCreationWereCreated one_gs_cache two_order (named_build ''default'' ''build'') expecting")
  have "\<not> present one_gs_cache ''default'' ''gs-b''" by (simp add: present_def one_gs_cache_def)
  with creations_completed [OF two_order_ok _ c] c show ?thesis by (simp add: expecting_def)
qed

end
