(* ===== verification/Controller_Utils.thy ===== *)
theory Controller_Utils
  imports Port_Registry
begin

text \<open>
  The constructors and helpers of \<open>pkg/operator/controllers/controller_utils.go\<close>: the names of
  GameServers, the GameServer of a build with its host ports, the pod of a GameServer with the
  volume, environment and init container that the operator adds, and the order in which
  GameServers are deleted. (The functions on nodes are in \<open>Node_Utils\<close>.)
\<close>

section \<open>Constants\<close>

abbreviation InitContainerName :: string where "InitContainerName \<equiv> ''initcontainer''"
abbreviation GameServerKind :: string where "GameServerKind \<equiv> ''GameServer''"
abbreviation GameServerBuildKind :: string where "GameServerBuildKind \<equiv> ''GameServerBuild''"
abbreviation DataVolumeName :: string where "DataVolumeName \<equiv> ''gsdkdata''"
abbreviation LabelBuildID :: string where "LabelBuildID \<equiv> ''BuildID''"
abbreviation LabelBuildName :: string where "LabelBuildName \<equiv> ''BuildName''"
abbreviation LabelOwningGameServer :: string where
  "LabelOwningGameServer \<equiv> ''mps.playfab.com/OwningGameServer''"
abbreviation LabelOwningOperator :: string where
  "LabelOwningOperator \<equiv> ''mps.playfab.com/OwningOperator''"
abbreviation LabelNodeName :: string where "LabelNodeName \<equiv> ''NodeName''"
abbreviation apiGVStr :: string where "apiGVStr \<equiv> ''mps.playfab.com/v1alpha1''"
abbreviation RandStringSize :: nat where "RandStringSize \<equiv> 5"
abbreviation DaemonSetPort :: int where "DaemonSetPort \<equiv> 56001"

definition backslash :: string where "backslash = [CHR 92]"

definition DataVolumeMountPath :: "bool \<Rightarrow> string" where
  "DataVolumeMountPath isWindows = (if isWindows then ''c:'' @ backslash @ ''gsdkdata'' else ''/gsdkdata'')"

definition GsdkConfigFile :: "bool \<Rightarrow> string" where
  "GsdkConfigFile isWindows =
     (if isWindows
      then DataVolumeMountPath True @ backslash @ ''Config'' @ backslash @ ''gsdkConfig.json''
      else DataVolumeMountPath False @ ''/Config/gsdkConfig.json'')"

definition LogDirectory :: "bool \<Rightarrow> string" where
  "LogDirectory isWindows =
     (if isWindows then DataVolumeMountPath True @ backslash @ ''GameLogs'' @ backslash
      else DataVolumeMountPath False @ ''/GameLogs/'')"

definition CertificatesDirectory :: "bool \<Rightarrow> string" where
  "CertificatesDirectory isWindows =
     DataVolumeMountPath isWindows @ (if isWindows then backslash else ''/'') @ ''GameCertificates''"

definition GameSharedContentDirectory :: "bool \<Rightarrow> string" where
  "GameSharedContentDirectory isWindows =
     DataVolumeMountPath isWindows @ (if isWindows then backslash else ''/'') @ ''GameSharedContent''"

section \<open>Names\<close>

text \<open>
  \<open>rng k n\<close> is what the \<open>k\<close>-th call of \<open>rand.Intn(n)\<close> returns; it is documented to lie in
  \<open>[0, n)\<close>.
\<close>

definition rng_ok :: "(nat \<Rightarrow> nat \<Rightarrow> nat) \<Rightarrow> bool" where
  "rng_ok rng \<longleftrightarrow> (\<forall>k n. 0 < n \<longrightarrow> rng k n < n)"

definition letters :: string where
  "letters = ''abcdefghijklmnopqrstuvwxyz0123456789''"

definition randString :: "(nat \<Rightarrow> nat \<Rightarrow> nat) \<Rightarrow> nat \<Rightarrow> string" where
  "randString rng n = map (\<lambda>k. letters ! rng k (length letters)) [0..<n]"

definition generateName :: "(nat \<Rightarrow> nat \<Rightarrow> nat) \<Rightarrow> string \<Rightarrow> string" where
  "generateName rng prefix = prefix @ ''-'' @ randString rng RandStringSize"

lemma letters_nonempty [simp]: "0 < length letters"
  by (simp add: letters_def)

lemma set_randString: "rng_ok rng \<Longrightarrow> set (randString rng n) \<subseteq> set letters"
  by (auto simp only: randString_def rng_ok_def set_map letters_nonempty intro!: nth_mem)

lemma length_generateName [simp]: "length (generateName rng p) = length p + 6"
  by (simp add: generateName_def randString_def)

text \<open>A generated name stays clear of the separators of the operator's encodings.\<close>

lemma generateName_clean:
  assumes "rng_ok rng" and "c \<notin> set p" and "c \<noteq> CHR ''-''" and "c \<notin> set letters"
  shows "c \<notin> set (generateName rng p)"
  using assms set_randString [OF assms(1), of RandStringSize] by (auto simp: generateName_def)

section \<open>Small helpers\<close>

fun sliceContainsPortToExpose :: "int list \<Rightarrow> int \<Rightarrow> bool" where
  "sliceContainsPortToExpose [] port = False"
| "sliceContainsPortToExpose (item # items) port =
     (if item = port then True else sliceContainsPortToExpose items port)"

fun containsString :: "string list \<Rightarrow> string \<Rightarrow> bool" where
  "containsString [] s = False"
| "containsString (item # items) s = (if item = s then True else containsString items s)"

lemma sliceContainsPortToExpose_iff [simp]: "sliceContainsPortToExpose ps p \<longleftrightarrow> p \<in> set ps"
  by (induction ps) auto

lemma containsString_iff [simp]: "containsString xs s \<longleftrightarrow> s \<in> set xs"
  by (induction xs) auto

definition portTuple :: "ContainerPort \<Rightarrow> string" where
  "portTuple p = itoa (cp_ContainerPort p) @ '':'' @ itoa (cp_HostPort p)"

definition getContainerHostPortTuples :: "Pod \<Rightarrow> string" where
  "getContainerHostPortTuples pod =
     trim_suffix (CHR '','')
       (concat (map (\<lambda>c. concat (map (\<lambda>p. portTuple p @ '','') (c_Ports c)))
          (ps_Containers (pod_Spec pod))))"

text \<open>The order of deletion: unset state first, then Initializing, StandingBy, the rest.\<close>

definition getValueByState :: "GameServer \<Rightarrow> int" where
  "getValueByState gs =
     (if gs_State gs = '''' then 0
      else if gs_State gs = GameServerStateInitializing then 1
      else if gs_State gs = GameServerStateStandingBy then 2
      else 3)"

definition ByState_Less :: "GameServer \<Rightarrow> GameServer \<Rightarrow> bool" where
  "ByState_Less x y = (getValueByState x < getValueByState y)"

section \<open>The GameServer of a build\<close>

text \<open>\<open>metav1.NewControllerRef\<close>: the controller reference to the owner.\<close>

definition NewControllerRef :: "ObjectMeta \<Rightarrow> string \<Rightarrow> OwnerReference" where
  "NewControllerRef owner kind =
     \<lparr>or_APIVersion = apiGVStr, or_Kind = kind, or_Name = om_Name owner, or_Controller = True\<rparr>"

datatype new_gs_error =
    PortError port_error
  | HostPortIndexPanic  \<comment> \<open>\<open>hostPorts[j]\<close> out of range\<close>

text \<open>
  The loops over the containers and their ports, with the host ports that are left. The
  container is copied by value but its \<open>Ports\<close> slice is shared with the template, so the
  writes reach the GameServer.
\<close>

fun assignHostPorts ::
    "int list \<Rightarrow> bool \<Rightarrow> int list \<Rightarrow> ContainerPort list \<Rightarrow> (ContainerPort list \<times> int list) option" where
  "assignHostPorts expose hostNetwork hs [] = Some ([], hs)"
| "assignHostPorts expose hostNetwork hs (p # ps) =
     (if sliceContainsPortToExpose expose (cp_ContainerPort p)
      then (case hs of
              [] \<Rightarrow> None
            | h # hs' \<Rightarrow>
                let p1 = p\<lparr>cp_HostPort := h\<rparr>;
                    p2 = (if hostNetwork then p1\<lparr>cp_ContainerPort := h\<rparr> else p1)
                in map_option (\<lambda>(qs, r). (p2 # qs, r)) (assignHostPorts expose hostNetwork hs' ps))
      else map_option (\<lambda>(qs, r). (p # qs, r)) (assignHostPorts expose hostNetwork hs ps))"

fun assignContainers ::
    "int list \<Rightarrow> bool \<Rightarrow> int list \<Rightarrow> Container list \<Rightarrow> (Container list \<times> int list) option" where
  "assignContainers expose hostNetwork hs [] = Some ([], hs)"
| "assignContainers expose hostNetwork hs (c # cs) =
     (case assignHostPorts expose hostNetwork hs (c_Ports c) of
        None \<Rightarrow> None
      | Some (ps, hs') \<Rightarrow>
          map_option (\<lambda>(ds, r). (c\<lparr>c_Ports := ps\<rparr> # ds, r)) (assignContainers expose hostNetwork hs' cs))"

definition gameServerSkeleton :: "string \<Rightarrow> GameServerBuild \<Rightarrow> GameServer" where
  "gameServerSkeleton name gsb =
     \<lparr>gs_Meta = zero_Meta\<lparr>om_Name := name, om_Namespace := gsb_Namespace gsb,
        om_OwnerReferences := [NewControllerRef (gsb_Meta gsb) GameServerBuildKind],
        om_Labels := [LabelBuildID \<mapsto> bs_BuildID (gsb_Spec gsb), LabelBuildName \<mapsto> gsb_Name gsb]\<rparr>,
      gs_Spec = \<lparr>gss_Template = bs_Template (gsb_Spec gsb), gss_TitleID = bs_TitleID (gsb_Spec gsb),
        gss_BuildID = bs_BuildID (gsb_Spec gsb), gss_PortsToExpose = bs_PortsToExpose (gsb_Spec gsb),
        gss_BuildMetadata = bs_BuildMetadata (gsb_Spec gsb)\<rparr>,
      gs_Status = zero_Status\<rparr>"

abbreviation gs_PodSpec :: "GameServer \<Rightarrow> PodSpec" where
  "gs_PodSpec gs \<equiv> pt_Spec (gss_Template (gs_Spec gs))"

definition setContainers :: "GameServer \<Rightarrow> Container list \<Rightarrow> GameServer" where
  "setContainers gs cs =
     gs\<lparr>gs_Spec := (gs_Spec gs)\<lparr>gss_Template := (gss_Template (gs_Spec gs))
       \<lparr>pt_Spec := (gs_PodSpec gs)\<lparr>ps_Containers := cs\<rparr>\<rparr>\<rparr>\<rparr>"

definition NewGameServerForGameServerBuild ::
    "(nat \<Rightarrow> nat \<Rightarrow> nat) \<Rightarrow> GameServerBuild \<Rightarrow> PortRegistry \<Rightarrow> PortRegistry \<times> (new_gs_error + GameServer)" where
  "NewGameServerForGameServerBuild rng gsb pr =
     (let gs = gameServerSkeleton (generateName rng (gsb_Name gsb)) gsb;
          expose = bs_PortsToExpose (gsb_Spec gsb)
      in case GetNewPorts pr (gs_Namespace gs) (gs_Name gs) (int (length expose)) of
           (pr', Inl e) \<Rightarrow> (pr', Inl (PortError e))
         | (pr', Inr hostPorts) \<Rightarrow>
             (case assignContainers expose (ps_HostNetwork (gs_PodSpec gs)) hostPorts
                     (ps_Containers (gs_PodSpec gs)) of
                None \<Rightarrow> (pr', Inl HostPortIndexPanic)
              | Some (cs, _) \<Rightarrow> (pr', Inr (setContainers gs cs))))"

section \<open>The pod of a GameServer\<close>

definition setPodRestartPolicyToNever :: "Pod \<Rightarrow> Pod" where
  "setPodRestartPolicyToNever pod =
     pod\<lparr>pod_Spec := (pod_Spec pod)\<lparr>ps_RestartPolicy := ''Never''\<rparr>\<rparr>"

definition createDataVolumeOnPod :: "Pod \<Rightarrow> Pod" where
  "createDataVolumeOnPod pod =
     pod\<lparr>pod_Spec := (pod_Spec pod)
       \<lparr>ps_Volumes := ps_Volumes (pod_Spec pod) @ [EmptyDirVolume DataVolumeName]\<rparr>\<rparr>"

definition dataVolumeMount :: "bool \<Rightarrow> VolumeMount" where
  "dataVolumeMount isWindows =
     \<lparr>vm_Name = DataVolumeName, vm_MountPath = DataVolumeMountPath isWindows\<rparr>"

definition attachDataVolumeOnContainer :: "bool \<Rightarrow> Container \<Rightarrow> Container" where
  "attachDataVolumeOnContainer isWindows c =
     c\<lparr>c_VolumeMounts := c_VolumeMounts c @ [dataVolumeMount isWindows]\<rparr>"

definition encodePort :: "ContainerPort \<Rightarrow> string" where
  "encodePort p = cp_Name p @ '','' @ itoa (cp_ContainerPort p) @ '','' @ itoa (cp_HostPort p)"

definition encodeMetadata :: "BuildMetadataItem \<Rightarrow> string" where
  "encodeMetadata m = bm_Key m @ '','' @ bm_Value m"

definition joinEntries :: "string list \<Rightarrow> string" where
  "joinEntries ws = trim_suffix (CHR ''?'') (concat (map (\<lambda>w. w @ ''?'') ws))"

definition exposedPorts :: "GameServer \<Rightarrow> ContainerPort list" where
  "exposedPorts gs = filter (\<lambda>p. 0 < cp_HostPort p) (concat (map c_Ports (ps_Containers (gs_PodSpec gs))))"

definition getInitContainerEnvVariables :: "GameServer \<Rightarrow> bool \<Rightarrow> EnvVar list" where
  "getInitContainerEnvVariables gs isWindows =
     [EnvValue ''HEARTBEAT_ENDPOINT_PORT'' (itoa DaemonSetPort),
      EnvValue ''GSDK_CONFIG_FILE'' (GsdkConfigFile isWindows),
      EnvValue ''PF_SHARED_CONTENT_FOLDER'' (GameSharedContentDirectory isWindows),
      EnvValue ''CERTIFICATE_FOLDER'' (CertificatesDirectory isWindows),
      EnvValue ''PF_SERVER_LOG_DIRECTORY'' (LogDirectory isWindows),
      EnvFieldRef ''PF_VM_ID'' ''spec.nodeName'',
      EnvFieldRef ''PF_NODE_INTERNAL_IP'' ''status.hostIP'',
      EnvValue ''PF_GAMESERVER_NAME'' (gs_Name gs),
      EnvValue ''PF_GAMESERVER_NAMESPACE'' (gs_Namespace gs),
      EnvValue ''PF_GAMESERVER_PORTS'' (joinEntries (map encodePort (exposedPorts gs))),
      EnvValue ''PF_GAMESERVER_BUILD_METADATA''
        (joinEntries (map encodeMetadata (gss_BuildMetadata (gs_Spec gs))))]"

definition getGameServerEnvVariables :: "GameServer \<Rightarrow> bool \<Rightarrow> EnvVar list" where
  "getGameServerEnvVariables gs isWindows =
     [EnvValue ''PF_GAMESERVER_NAME'' (gs_Name gs),
      EnvValue ''GSDK_CONFIG_FILE'' (GsdkConfigFile isWindows),
      EnvValue ''PF_GAMESERVER_NAMESPACE'' (gs_Namespace gs),
      EnvValue ''PF_BUILD_ID'' (gss_BuildID (gs_Spec gs)),
      EnvValue ''PF_TITLE_ID'' (gss_TitleID (gs_Spec gs)),
      EnvValue ''PF_SERVER_LOG_DIRECTORY'' (LogDirectory isWindows)]"

definition attachInitContainer :: "GameServer \<Rightarrow> string \<Rightarrow> bool \<Rightarrow> Pod \<Rightarrow> Pod" where
  "attachInitContainer gs initContainerImage isWindows pod =
     pod\<lparr>pod_Spec := (pod_Spec pod)
       \<lparr>ps_InitContainers := ps_InitContainers (pod_Spec pod) @
          [\<lparr>c_Name = InitContainerName, c_Image = initContainerImage,
            c_ImagePullPolicy = ''IfNotPresent'', c_Ports = [],
            c_Env = getInitContainerEnvVariables gs isWindows,
            c_VolumeMounts = [dataVolumeMount isWindows]\<rparr>]\<rparr>\<rparr>"

definition attachToContainers :: "GameServer \<Rightarrow> bool \<Rightarrow> Pod \<Rightarrow> Pod" where
  "attachToContainers gs isWindows pod =
     pod\<lparr>pod_Spec := (pod_Spec pod)
       \<lparr>ps_Containers := map
          (\<lambda>c. let c' = attachDataVolumeOnContainer isWindows c
               in c'\<lparr>c_Env := c_Env c' @ getGameServerEnvVariables gs isWindows\<rparr>)
          (ps_Containers (pod_Spec pod))\<rparr>\<rparr>"

text \<open>
  The pod shares its containers and labels with the template of the GameServer it is made from.
  The GameServer is a copy that its caller does not write back, so only the pod is returned.
\<close>

definition podSkeleton :: "GameServer \<Rightarrow> Pod" where
  "podSkeleton gs =
     \<lparr>pod_Meta = zero_Meta\<lparr>om_Name := gs_Name gs, om_Namespace := gs_Namespace gs,
        om_OwnerReferences := [NewControllerRef (gs_Meta gs) GameServerKind],
        om_Annotations := pt_Annotations (gss_Template (gs_Spec gs)),
        om_Labels := (pt_Labels (gss_Template (gs_Spec gs)))
          (LabelBuildID \<mapsto> gss_BuildID (gs_Spec gs),
           LabelBuildName \<mapsto> map_get (om_Labels (gs_Meta gs)) [] LabelBuildName,
           LabelOwningGameServer \<mapsto> gs_Name gs,
           LabelOwningOperator \<mapsto> ''thundernetes'')\<rparr>,
      pod_Spec = gs_PodSpec gs,
      pod_ContainerStatuses = []\<rparr>"

definition NewPodForGameServer :: "GameServer \<Rightarrow> string \<Rightarrow> string \<Rightarrow> Pod" where
  "NewPodForGameServer gs imageLinux imageWin =
     (let pod = podSkeleton gs;
          isWindows = (map_get (ps_NodeSelector (pod_Spec pod)) [] ''kubernetes.io/os'' = ''windows'');
          pod1 = createDataVolumeOnPod (setPodRestartPolicyToNever pod);
          pod2 = attachToContainers gs isWindows pod1
      in attachInitContainer gs (if isWindows then imageWin else imageLinux) isWindows pod2)"

section \<open>Host ports of a new GameServer\<close>

definition allPorts :: "Container list \<Rightarrow> ContainerPort list" where
  "allPorts cs = concat (map c_Ports cs)"

definition matchingPorts :: "int list \<Rightarrow> ContainerPort list \<Rightarrow> ContainerPort list" where
  "matchingPorts expose ps = filter (\<lambda>p. cp_ContainerPort p \<in> set expose) ps"

text \<open>
  What the assignment did to the ports \<open>ps\<close>: the ports \<open>qs\<close> have the host ports \<open>hs\<close> in turn at
  the positions that are exposed, and are the old ports elsewhere.
\<close>

fun portsAssigned :: "int list \<Rightarrow> bool \<Rightarrow> int list \<Rightarrow> ContainerPort list \<Rightarrow> ContainerPort list \<Rightarrow> bool" where
  "portsAssigned expose hn hs [] qs = (hs = [] \<and> qs = [])"
| "portsAssigned expose hn hs (p # ps) qs =
     (case qs of
        [] \<Rightarrow> False
      | q # qs' \<Rightarrow>
          if cp_ContainerPort p \<in> set expose
          then hs \<noteq> [] \<and> cp_HostPort q = hd hs \<and> cp_Name q = cp_Name p \<and>
            cp_ContainerPort q = (if hn then hd hs else cp_ContainerPort p) \<and>
            portsAssigned expose hn (tl hs) ps qs'
          else q = p \<and> portsAssigned expose hn hs ps qs')"

lemma portsAssigned_append:
  "portsAssigned expose hn hs ps qs \<Longrightarrow> portsAssigned expose hn hs' ps' qs' \<Longrightarrow>
   portsAssigned expose hn (hs @ hs') (ps @ ps') (qs @ qs')"
  by (induction expose hn hs ps qs rule: portsAssigned.induct) (auto split: list.splits)

lemma assignHostPorts_None:
  "assignHostPorts expose hn hs ps = None \<longleftrightarrow> length hs < length (matchingPorts expose ps)"
  by (induction expose hn hs ps rule: assignHostPorts.induct)
    (auto simp: matchingPorts_def Let_def split: list.splits)

lemma assignHostPorts_Some:
  "assignHostPorts expose hn hs ps = Some (qs, r) \<Longrightarrow>
   r = drop (length (matchingPorts expose ps)) hs \<and>
   portsAssigned expose hn (take (length (matchingPorts expose ps)) hs) ps qs"
proof (induction ps arbitrary: hs qs)
  case Nil
  then show ?case by (simp add: matchingPorts_def)
next
  case (Cons p ps)
  show ?case
  proof (cases "cp_ContainerPort p \<in> set expose")
    case True
    with Cons.prems obtain h hs' qs' where e: "hs = h # hs'"
      "assignHostPorts expose hn hs' ps = Some (qs', r)"
      "qs = (if hn then p\<lparr>cp_HostPort := h, cp_ContainerPort := h\<rparr> else p\<lparr>cp_HostPort := h\<rparr>) # qs'"
      by (auto simp: Let_def split: list.splits if_splits)
    from Cons.IH [OF e(2)] True show ?thesis by (simp add: e matchingPorts_def)
  next
    case False
    with Cons.prems obtain qs' where e: "assignHostPorts expose hn hs ps = Some (qs', r)" "qs = p # qs'"
      by auto
    from Cons.IH [OF e(1)] False show ?thesis by (simp add: e matchingPorts_def)
  qed
qed

lemma matchingPorts_append [simp]:
  "matchingPorts expose (ps @ qs) = matchingPorts expose ps @ matchingPorts expose qs"
  by (simp add: matchingPorts_def)

lemma allPorts_simps [simp]: "allPorts [] = []" "allPorts (c # cs) = c_Ports c @ allPorts cs"
  by (simp_all add: allPorts_def)

lemma matchingPorts_Nil [simp]: "matchingPorts expose [] = []"
  by (simp add: matchingPorts_def)

lemma assignContainers_None:
  "assignContainers expose hn hs cs = None \<longleftrightarrow> length hs < length (matchingPorts expose (allPorts cs))"
proof (induction cs arbitrary: hs)
  case (Cons c cs)
  show ?case
  proof (cases "assignHostPorts expose hn hs (c_Ports c)")
    case None
    then show ?thesis using assignHostPorts_None [of expose hn hs "c_Ports c"] by simp
  next
    case (Some a)
    then obtain ps r where a: "assignHostPorts expose hn hs (c_Ports c) = Some (ps, r)"
      by (cases a) auto
    have "\<not> length hs < length (matchingPorts expose (c_Ports c))"
      using a assignHostPorts_None [of expose hn hs "c_Ports c"] by simp
    with Cons [of r] a assignHostPorts_Some [OF a] show ?thesis by auto
  qed
qed simp

lemma assignContainers_Some:
  "assignContainers expose hn hs cs = Some (ds, r) \<Longrightarrow>
   portsAssigned expose hn (take (length (matchingPorts expose (allPorts cs))) hs)
     (allPorts cs) (allPorts ds) \<and> length ds = length cs"
proof (induction cs arbitrary: hs ds)
  case Nil
  then show ?case by simp
next
  case (Cons c cs)
  then obtain ps hs' ds' where e: "assignHostPorts expose hn hs (c_Ports c) = Some (ps, hs')"
    "assignContainers expose hn hs' cs = Some (ds', r)" "ds = c\<lparr>c_Ports := ps\<rparr> # ds'"
    by (auto split: option.splits)
  let ?m = "length (matchingPorts expose (c_Ports c))" and ?k = "length (matchingPorts expose (allPorts cs))"
  note h = assignHostPorts_Some [OF e(1)]
  have "take (?m + ?k) hs = take ?m hs @ take ?k hs'" using h by (simp add: take_add)
  then show ?case
    using portsAssigned_append [OF conjunct2 [OF h], of "take ?k hs'" "allPorts cs" "allPorts ds'"]
      Cons.IH [OF e(2)] by (simp add: e)
qed

lemma setContainers_simps [simp]:
  "gs_Meta (setContainers gs cs) = gs_Meta gs" "gs_Status (setContainers gs cs) = gs_Status gs"
  "ps_Containers (gs_PodSpec (setContainers gs cs)) = cs"
  "gss_BuildID (gs_Spec (setContainers gs cs)) = gss_BuildID (gs_Spec gs)"
  "gss_PortsToExpose (gs_Spec (setContainers gs cs)) = gss_PortsToExpose (gs_Spec gs)"
  "gss_BuildMetadata (gs_Spec (setContainers gs cs)) = gss_BuildMetadata (gs_Spec gs)"
  by (simp_all add: setContainers_def)

lemma gameServerSkeleton_simps [simp]:
  "gs_Name (gameServerSkeleton n gsb) = n"
  "gs_Namespace (gameServerSkeleton n gsb) = gsb_Namespace gsb"
  "gs_PodSpec (gameServerSkeleton n gsb) = pt_Spec (bs_Template (gsb_Spec gsb))"
  "om_Labels (gs_Meta (gameServerSkeleton n gsb)) =
     [LabelBuildID \<mapsto> bs_BuildID (gsb_Spec gsb), LabelBuildName \<mapsto> gsb_Name gsb]"
  "gs_Status (gameServerSkeleton n gsb) = zero_Status"
  "om_OwnerReferences (gs_Meta (gameServerSkeleton n gsb)) =
     [NewControllerRef (gsb_Meta gsb) GameServerBuildKind]"
  "gss_BuildID (gs_Spec (gameServerSkeleton n gsb)) = bs_BuildID (gsb_Spec gsb)"
  "gss_PortsToExpose (gs_Spec (gameServerSkeleton n gsb)) = bs_PortsToExpose (gsb_Spec gsb)"
  "gss_BuildMetadata (gs_Spec (gameServerSkeleton n gsb)) = bs_BuildMetadata (gsb_Spec gsb)"
  by (simp_all add: gameServerSkeleton_def)

lemma new_gameserver_Inr:
  assumes "NewGameServerForGameServerBuild rng gsb pr = (pr', Inr gs)"
  obtains hs cs rest where
    "GetNewPorts pr (gsb_Namespace gsb) (generateName rng (gsb_Name gsb))
       (int (length (bs_PortsToExpose (gsb_Spec gsb)))) = (pr', Inr hs)"
    and "assignContainers (bs_PortsToExpose (gsb_Spec gsb)) (ps_HostNetwork (pt_Spec (bs_Template (gsb_Spec gsb))))
       hs (ps_Containers (pt_Spec (bs_Template (gsb_Spec gsb)))) = Some (cs, rest)"
    and "gs = setContainers (gameServerSkeleton (generateName rng (gsb_Name gsb)) gsb) cs"
  using assms
  by (auto simp: NewGameServerForGameServerBuild_def Let_def split: prod.splits sum.splits option.splits)

section \<open>A concrete build\<close>

definition game_port :: "string \<Rightarrow> int \<Rightarrow> ContainerPort" where
  "game_port name p = \<lparr>cp_Name = name, cp_ContainerPort = p, cp_HostPort = 0\<rparr>"

definition game_container :: "string \<Rightarrow> ContainerPort list \<Rightarrow> Container" where
  "game_container name ps = \<lparr>c_Name = name, c_Image = ''game'', c_ImagePullPolicy = [], c_Ports = ps,
     c_Env = [], c_VolumeMounts = []\<rparr>"

definition build_with :: "int list \<Rightarrow> Container list \<Rightarrow> GameServerBuild" where
  "build_with expose cs = zero_GameServerBuild
     \<lparr>gsb_Meta := zero_Meta\<lparr>om_Name := ''build'', om_Namespace := ''default''\<rparr>,
      gsb_Spec := (gsb_Spec zero_GameServerBuild)
        \<lparr>bs_StandingBy := 2, bs_Max := 4, bs_PortsToExpose := expose, bs_BuildID := ''id'',
         bs_Template := zero_Template\<lparr>pt_Spec := zero_PodSpec\<lparr>ps_Containers := cs\<rparr>\<rparr>\<rparr>\<rparr>"

definition rng0 :: "nat \<Rightarrow> nat \<Rightarrow> nat" where
  "rng0 k n = 0"

lemma rng0_ok: "rng_ok rng0"
  by (simp add: rng_ok_def rng0_def)

lemma generateName_rng0: "generateName rng0 ''build'' = ''build-aaaaa''"
  by (simp add: generateName_def randString_def rng0_def letters_def eval_nat_numeral)

lemma build_with_simps [simp]:
  "gsb_Name (build_with expose cs) = ''build''" "gsb_Namespace (build_with expose cs) = ''default''"
  "bs_PortsToExpose (gsb_Spec (build_with expose cs)) = expose"
  "bs_BuildID (gsb_Spec (build_with expose cs)) = ''id''"
  "bs_StandingBy (gsb_Spec (build_with expose cs)) = 2" "bs_Max (gsb_Spec (build_with expose cs)) = 4"
  "pt_Spec (bs_Template (gsb_Spec (build_with expose cs))) = zero_PodSpec\<lparr>ps_Containers := cs\<rparr>"
  by (simp_all add: build_with_def)

lemma game_simps [simp]:
  "c_Ports (game_container name ps) = ps" "cp_Name (game_port name p) = name"
  "cp_ContainerPort (game_port name p) = p" "cp_HostPort (game_port name p) = 0"
  by (simp_all add: game_container_def game_port_def)

lemma small_registry_one_port:
  "\<exists>pr'. GetNewPorts small_registry ''default'' ''build-aaaaa'' 1 = (pr', Inr [10000]) \<and>
     HostPortsPerGameServer pr' ''default/build-aaaaa'' = Some [10000]"
  by (simp add: registry_eval)

section \<open>Properties\<close>

text \<open>
  What \<open>NewGameServerForGameServerBuild\<close> does with host ports. When it returns a GameServer,
  the registry holds for it as many ports as the build exposes, the container ports to expose got
  these ports in order and every other port is as in the template. An error of the registry
  leaves the registry as it was. The index into the host ports is out of range exactly when the
  template has more matching container ports than the build exposes; the ports are then taken.
\<close>

lemma new_gameserver_ports:
  assumes "pr_inv base lost pr" and "NewGameServerForGameServerBuild rng gsb pr = (pr', r)"
  defines "expose \<equiv> bs_PortsToExpose (gsb_Spec gsb)"
    and "spec \<equiv> pt_Spec (bs_Template (gsb_Spec gsb))"
    and "key \<equiv> getNamespacedName (gsb_Namespace gsb) (generateName rng (gsb_Name gsb))"
  shows "pr_inv base lost pr' \<and>
    (case r of
       Inl (PortError e) \<Rightarrow> pr' = pr
     | Inl HostPortIndexPanic \<Rightarrow>
         length expose < length (matchingPorts expose (allPorts (ps_Containers spec))) \<and>
         (\<exists>hs. HostPortsPerGameServer pr' key = Some hs \<and> length hs = length expose)
     | Inr gs \<Rightarrow>
         gs_Name gs = generateName rng (gsb_Name gsb) \<and> gs_Namespace gs = gsb_Namespace gsb \<and>
         gs_Status gs = zero_Status \<and>
         (\<exists>hs. HostPortsPerGameServer pr' key = Some hs \<and> length hs = length expose \<and>
            length (matchingPorts expose (allPorts (ps_Containers spec))) \<le> length hs \<and>
            portsAssigned expose (ps_HostNetwork spec)
              (take (length (matchingPorts expose (allPorts (ps_Containers spec)))) hs)
              (allPorts (ps_Containers spec)) (allPorts (ps_Containers (gs_PodSpec gs)))))"
proof -
  obtain pr1 q where g: "GetNewPorts pr (gsb_Namespace gsb) (generateName rng (gsb_Name gsb))
      (int (length expose)) = (pr1, q)"
    by (cases "GetNewPorts pr (gsb_Namespace gsb) (generateName rng (gsb_Name gsb)) (int (length expose))")
  note inv = registry.get_inv [OF assms(1) g]
  show ?thesis
  proof (cases q)
    case (Inl e)
    with assms(2) g registry.get_fail [OF assms(1) g [unfolded Inl]] assms(1) show ?thesis
      by (auto simp: NewGameServerForGameServerBuild_def Let_def expose_def)
  next
    case (Inr hs)
    note ok = registry.get_ok [OF assms(1) g [unfolded Inr]]
    then have hs: "HostPortsPerGameServer pr1 key = Some hs" "length hs = length expose"
      by (auto simp: key_def)
    show ?thesis
    proof (cases "assignContainers expose (ps_HostNetwork spec) hs (ps_Containers spec)")
      case None
      with assms(2) g Inr inv hs show ?thesis
        using assignContainers_None [of expose "ps_HostNetwork spec" hs "ps_Containers spec"]
        by (auto simp: NewGameServerForGameServerBuild_def Let_def expose_def spec_def)
    next
      case (Some a)
      then obtain cs rest where a: "assignContainers expose (ps_HostNetwork spec) hs (ps_Containers spec) =
          Some (cs, rest)" by (cases a) auto
      have m: "\<not> length hs < length (matchingPorts expose (allPorts (ps_Containers spec)))"
        using a assignContainers_None [of expose "ps_HostNetwork spec" hs "ps_Containers spec"] by simp
      from a g Inr assms(2) have r: "pr' = pr1"
        "r = Inr (setContainers (gameServerSkeleton (generateName rng (gsb_Name gsb)) gsb) cs)"
        by (auto simp: NewGameServerForGameServerBuild_def Let_def expose_def spec_def)
      show ?thesis
        using inv hs m assignContainers_Some [OF a] by (auto simp: r not_less)
    qed
  qed
qed

theorem new_gameserver_ports_witness:
  "\<exists>pr' gs. NewGameServerForGameServerBuild rng0
       (build_with [80] [game_container ''game'' [game_port ''gp'' 80, game_port ''ssh'' 22]])
       small_registry = (pr', Inr gs) \<and>
     HostPortsPerGameServer pr' ''default/build-aaaaa'' = Some [10000] \<and>
     map cp_HostPort (allPorts (ps_Containers (gs_PodSpec gs))) = [10000, 0]"
proof -
  let ?b = "build_with [80] [game_container ''game'' [game_port ''gp'' 80, game_port ''ssh'' 22]]"
  obtain pr' where g: "GetNewPorts small_registry ''default'' ''build-aaaaa'' 1 = (pr', Inr [10000])"
    "HostPortsPerGameServer pr' ''default/build-aaaaa'' = Some [10000]"
    using small_registry_one_port by blast
  then obtain gs where n: "NewGameServerForGameServerBuild rng0 ?b small_registry = (pr', Inr gs)"
    by (simp add: NewGameServerForGameServerBuild_def generateName_rng0 zero_PodSpec_def)
  from new_gameserver_ports [OF small_registry_inv n] g(2) n show ?thesis
    by (auto simp: getNamespacedName_def generateName_rng0 matchingPorts_def zero_PodSpec_def
        split: list.splits if_splits)
qed

text \<open>
  A build that exposes a port which two of its containers have makes the operator panic: the
  first container port takes the only host port, and the second indexes past the end. The host
  port stays registered under a GameServer that was never created.
\<close>

lemma duplicate_container_port_panics:
  assumes "pr_inv base lost pr" and "1 \<le> FreePortsCount pr"
    and "HostPortsPerGameServer pr (getNamespacedName ''default'' (generateName rng ''build'')) = None"
  shows "\<exists>pr' h. NewGameServerForGameServerBuild rng
       (build_with [p] [game_container ''a'' [game_port ''x'' p], game_container ''b'' [game_port ''y'' p]]) pr =
       (pr', Inl HostPortIndexPanic) \<and>
     HostPortsPerGameServer pr' (getNamespacedName ''default'' (generateName rng ''build'')) = Some [h]"
proof -
  obtain pr' q where g: "GetNewPorts pr ''default'' (generateName rng ''build'') 1 = (pr', q)"
    by (cases "GetNewPorts pr ''default'' (generateName rng ''build'') 1")
  from GetNewPorts_cases [OF pr_inv_acct [OF assms(1)] g] assms(2,3)
  obtain hs where hs: "q = Inr hs" "int (length hs) = 1"
    "HostPortsPerGameServer pr' (getNamespacedName ''default'' (generateName rng ''build'')) = Some hs"
    by auto
  then obtain h where "hs = [h]" by (cases hs) auto
  with hs g show ?thesis
    by (simp add: NewGameServerForGameServerBuild_def zero_PodSpec_def)
qed

end
