(* ===== verification/Metrics.thy ===== *)
theory Metrics
  imports Prelude
begin

text \<open>
  The Prometheus metrics of \<open>pkg/operator/controllers/metrics.go\<close> and the observable effects
  (metric updates, Kubernetes events) that the handlers of the model append to their trace.
\<close>

datatype metric =
    GameServersCreatedCounter
  | GameServersSessionEndedCounter
  | GameServersCrashedCounter
  | GameServersUnhealthyCounter
  | GameServersDeletedCounter
  | CurrentGameServerGauge
  | AllocationsCounter
  | AllocationsTimeTakenDuration
  | AllocationsRetriesCounter
  | Allocations429ErrorsCounter
  | Allocations404ErrorsCounter
  | Allocations500ErrorsCounter
  | Allocations409ErrorsCounter
  | GameServerReconcileDuration
  | GameServerBuildReconcileDuration

definition all_metrics :: "metric list" where
  "all_metrics =
     [GameServersCreatedCounter, GameServersSessionEndedCounter, GameServersCrashedCounter,
      GameServersUnhealthyCounter, GameServersDeletedCounter, CurrentGameServerGauge,
      AllocationsCounter, AllocationsTimeTakenDuration, AllocationsRetriesCounter,
      Allocations429ErrorsCounter, Allocations404ErrorsCounter, Allocations500ErrorsCounter,
      Allocations409ErrorsCounter, GameServerReconcileDuration, GameServerBuildReconcileDuration]"

fun metric_name :: "metric \<Rightarrow> string" where
  "metric_name GameServersCreatedCounter = ''gameservers_created_total''"
| "metric_name GameServersSessionEndedCounter = ''gameservers_sessionended_total''"
| "metric_name GameServersCrashedCounter = ''gameservers_crashed_total''"
| "metric_name GameServersUnhealthyCounter = ''gameservers_unhealthy_total''"
| "metric_name GameServersDeletedCounter = ''gameservers_deleted_total''"
| "metric_name CurrentGameServerGauge = ''gameservers_current_state_per_build''"
| "metric_name AllocationsCounter = ''allocations_total''"
| "metric_name AllocationsTimeTakenDuration = ''allocations_time_taken_duration''"
| "metric_name AllocationsRetriesCounter = ''allocations_retried''"
| "metric_name Allocations429ErrorsCounter = ''allocations_429''"
| "metric_name Allocations404ErrorsCounter = ''allocations_404''"
| "metric_name Allocations500ErrorsCounter = ''allocations_500''"
| "metric_name Allocations409ErrorsCounter = ''allocations_409''"
| "metric_name GameServerReconcileDuration = ''gameserver_reconcile_duration_seconds''"
| "metric_name GameServerBuildReconcileDuration = ''gameserverbuild_reconcile_duration_seconds''"

text \<open>The label names each metric vector is declared with; an update gives one value per label.\<close>

fun metric_labels :: "metric \<Rightarrow> string list" where
  "metric_labels CurrentGameServerGauge = [''BuildName'', ''state'']"
| "metric_labels GameServerReconcileDuration = []"
| "metric_labels _ = [''BuildName'']"

abbreviation ActiveServerStatus :: string where "ActiveServerStatus \<equiv> ''active''"
abbreviation StandingByServerStatus :: string where "StandingByServerStatus \<equiv> ''standingby''"
abbreviation InitializingServerStatus :: string where "InitializingServerStatus \<equiv> ''initializing''"
abbreviation PendingServerStatus :: string where "PendingServerStatus \<equiv> ''pending''"

datatype effect =
    Inc metric "string list"
  | SetGauge metric "string list" int
  | Event string string  \<comment> \<open>reason, message\<close>

text \<open>
  \<open>WithLabelValues\<close> panics when the number of values differs from the number of labels.
\<close>

fun effect_ok :: "effect \<Rightarrow> bool" where
  "effect_ok (Inc m ls) = (length ls = length (metric_labels m))"
| "effect_ok (SetGauge m ls _) = (length ls = length (metric_labels m))"
| "effect_ok (Event _ _) = True"

lemma all_metrics_complete: "m \<in> set all_metrics"
  by (cases m) (simp_all add: all_metrics_def)

end
