(* ===== verification/Build_Controller.thy ===== *)
theory Build_Controller
  imports Expectations Controller_Utils Metrics
begin

text \<open>
  The GameServerBuild reconciler of \<open>pkg/operator/controllers/gameserverbuild_controller.go\<close>: it
  counts the GameServers of a build by state, deletes those that ended, crashed or are too many,
  creates those that are missing and updates the build's status. The API server is a parameter
  over an abstract world; every call that changes it is also recorded in a trace. The goroutines
  that delete and create are run one after the other here, the deletions in an order that is a
  parameter; \<open>Build_Goroutines\<close> has them in any interleaving. \<open>math.Min\<close> on \<open>float64\<close> is the minimum of the integers, which are far below
  \<open>2\<^sup>5\<^sup>3\<close>.
\<close>

section \<open>Parameters and state\<close>

record Config =
  MaxNumberOfGameServersToAdd :: int
  MaxNumberOfGameServersToDelete :: int

datatype api_call =
    CallDelete GameServer "string option"  \<comment> \<open>with the precondition on the version, if any\<close>
  | CallCreate GameServer
  | CallPatchStatus GameServerBuild

datatype build_error = ApiErr api_error | PortErr port_error

datatype reconcile_result = RDone | RError build_error | RCrash

record 'w build_api =
  ba_getBuild :: "'w \<Rightarrow> string \<Rightarrow> string \<Rightarrow> api_error + GameServerBuild"
  ba_getGS :: "'w \<Rightarrow> gs_reader"
  ba_listOwned :: "'w \<Rightarrow> string \<Rightarrow> string \<Rightarrow> api_error + GameServer list"
  ba_delete :: "'w \<Rightarrow> GameServer \<Rightarrow> string option \<Rightarrow> 'w \<times> api_error option"
  ba_create :: "'w \<Rightarrow> GameServer \<Rightarrow> 'w \<times> api_error option"
  ba_patchStatus :: "'w \<Rightarrow> GameServerBuild \<Rightarrow> GameServerBuild \<Rightarrow> 'w \<times> api_error option"
  ba_order :: key_order
  ba_sort :: "GameServer list \<Rightarrow> GameServer list"
  ba_schedule :: "GameServer list \<Rightarrow> GameServer list"
  ba_rng :: "nat \<Rightarrow> nat \<Rightarrow> nat \<Rightarrow> nat"  \<comment> \<open>the draws of the \<open>i\<close>-th creation\<close>

record 'w build_state =
  b_world :: 'w
  b_expectations :: GameServerExpectations
  b_crashes :: "string \<rightharpoonup> int"
  b_ports :: PortRegistry
  b_effects :: "effect list"
  b_calls :: "api_call list"

definition log_effects :: "effect list \<Rightarrow> 'w build_state \<Rightarrow> 'w build_state" where
  "log_effects es s = s\<lparr>b_effects := b_effects s @ es\<rparr>"

definition call_delete ::
    "'w build_api \<Rightarrow> GameServer \<Rightarrow> string option \<Rightarrow> 'w build_state \<Rightarrow> 'w build_state \<times> api_error option" where
  "call_delete api gs rv s =
     (let (w, e) = ba_delete api (b_world s) gs rv
      in (s\<lparr>b_world := w, b_calls := b_calls s @ [CallDelete gs rv]\<rparr>, e))"

definition expectDeletion :: "string \<Rightarrow> string \<Rightarrow> 'w build_state \<Rightarrow> 'w build_state" where
  "expectDeletion build gs s =
     s\<lparr>b_expectations := addGameServerToUnderDeletionMap build gs (b_expectations s)\<rparr>"

definition expectCreation :: "string \<Rightarrow> string \<Rightarrow> 'w build_state \<Rightarrow> 'w build_state" where
  "expectCreation build gs s =
     s\<lparr>b_expectations := addGameServerToUnderCreationMap build gs (b_expectations s)\<rparr>"

section \<open>Counting\<close>

text \<open>The branches of the chain of conditions; \<open>GsOther\<close> is a GameServer none of them applies to.\<close>

datatype gs_class =
  GsPending | GsInitializing | GsStandingBy | GsActive | GsCompleted | GsCrashed | GsUnhealthy | GsOther

definition classify :: "GameServer \<Rightarrow> gs_class" where
  "classify gs =
     (if gs_State gs = '''' \<and> gs_Health gs \<noteq> GameServerUnhealthy then GsPending
      else if gs_State gs = GameServerStateInitializing \<and> gs_Health gs = GameServerHealthy then GsInitializing
      else if gs_State gs = GameServerStateStandingBy \<and> gs_Health gs = GameServerHealthy then GsStandingBy
      else if gs_State gs = GameServerStateActive \<and> gs_Health gs = GameServerHealthy then GsActive
      else if gs_State gs = GameServerStateGameCompleted \<and> gs_Health gs = GameServerHealthy then GsCompleted
      else if gs_State gs = GameServerStateCrashed then GsCrashed
      else if gs_Health gs = GameServerUnhealthy then GsUnhealthy
      else GsOther)"

record counts =
  c_active :: int
  c_standingBy :: int
  c_crashes :: int
  c_initializing :: int
  c_pending :: int

definition zero_counts :: counts where
  "zero_counts = \<lparr>c_active = 0, c_standingBy = 0, c_crashes = 0, c_initializing = 0, c_pending = 0\<rparr>"

definition countGameServer :: "gs_class \<Rightarrow> counts \<Rightarrow> counts" where
  "countGameServer k c =
     (case k of
        GsPending \<Rightarrow> c\<lparr>c_pending := c_pending c + 1\<rparr>
      | GsInitializing \<Rightarrow> c\<lparr>c_initializing := c_initializing c + 1\<rparr>
      | GsStandingBy \<Rightarrow> c\<lparr>c_standingBy := c_standingBy c + 1\<rparr>
      | GsActive \<Rightarrow> c\<lparr>c_active := c_active c + 1\<rparr>
      | GsCrashed \<Rightarrow> c\<lparr>c_crashes := c_crashes c + 1\<rparr>
      | GsUnhealthy \<Rightarrow> c\<lparr>c_crashes := c_crashes c + 1\<rparr>
      | _ \<Rightarrow> c)"

definition ended :: "gs_class \<Rightarrow> bool" where
  "ended k \<longleftrightarrow> k = GsCompleted \<or> k = GsCrashed \<or> k = GsUnhealthy"

definition stateAndHealth :: "GameServer \<Rightarrow> string" where
  "stateAndHealth gs = '', state: '' @ gs_State gs @ '', health: '' @ gs_Health gs"

definition endEffects :: "string \<Rightarrow> GameServer \<Rightarrow> gs_class \<Rightarrow> effect list" where
  "endEffects build gs k =
     (case k of
        GsCompleted \<Rightarrow>
          [Inc GameServersSessionEndedCounter [build],
           Event ''Exited'' (''GameServer '' @ gs_Name gs @ '' session completed'')]
      | GsCrashed \<Rightarrow>
          [Inc GameServersCrashedCounter [build],
           Event ''Unhealthy'' (''GameServer '' @ gs_Name gs @
             '' was deleted because it became unhealthy'' @ stateAndHealth gs)]
      | GsUnhealthy \<Rightarrow>
          [Inc GameServersUnhealthyCounter [build],
           Event ''Crashed'' (''GameServer '' @ gs_Name gs @
             '' was deleted because it crashed'' @ stateAndHealth gs)]
      | _ \<Rightarrow> [])"

fun countLoop ::
    "'w build_api \<Rightarrow> string \<Rightarrow> GameServer list \<Rightarrow> counts \<Rightarrow> 'w build_state \<Rightarrow>
     'w build_state \<times> (api_error + counts)" where
  "countLoop api build [] c s = (s, Inr c)"
| "countLoop api build (gs # gss) c s =
     (let k = classify gs; c' = countGameServer k c
      in if ended k
         then (case call_delete api gs None s of
                 (s1, Some e) \<Rightarrow> (s1, Inl e)
               | (s1, None) \<Rightarrow>
                   countLoop api build gss c'
                     (log_effects (endEffects build gs k) (expectDeletion build (gs_Name gs) s1)))
         else countLoop api build gss c' s)"

definition nonActive :: "counts \<Rightarrow> int" where
  "nonActive c = c_standingBy c + c_initializing c + c_pending c"

section \<open>Deleting\<close>

definition deletionAmount :: "Config \<Rightarrow> GameServerBuildSpec \<Rightarrow> counts \<Rightarrow> int" where
  "deletionAmount cfg spec c =
     (let n1 = (if bs_StandingBy spec < nonActive c
                then min (nonActive c - bs_StandingBy spec) (MaxNumberOfGameServersToDelete cfg) else 0)
      in if bs_Max spec < nonActive c + c_active c
         then n1 + min (n1 + (nonActive c + c_active c - bs_Max spec)) (MaxNumberOfGameServersToDelete cfg)
         else n1)"

text \<open>The loop over the sorted GameServers: the first \<open>amount\<close> that are not Active.\<close>

definition deletable :: "GameServer \<Rightarrow> bool" where
  "deletable gs \<longleftrightarrow> gs_State gs = '''' \<or> gs_State gs = GameServerStateInitializing \<or>
     gs_State gs = GameServerStateStandingBy"

fun pickDeletions :: "int \<Rightarrow> GameServer list \<Rightarrow> GameServer list" where
  "pickDeletions amount [] = []"
| "pickDeletions amount (gs # gss) =
     (if amount \<le> 0 then []
      else if deletable gs then gs # pickDeletions (amount - 1) gss
      else pickDeletions amount gss)"

definition deleteGameServer ::
    "'w build_api \<Rightarrow> GameServer \<Rightarrow> 'w build_state \<Rightarrow> 'w build_state \<times> api_error option" where
  "deleteGameServer api gs s = call_delete api gs (Some (om_ResourceVersion (gs_Meta gs))) s"

text \<open>The goroutines, with the errors they wrote to the channel.\<close>

fun deleteAll ::
    "'w build_api \<Rightarrow> string \<Rightarrow> GameServer list \<Rightarrow> 'w build_state \<Rightarrow> 'w build_state \<times> api_error list" where
  "deleteAll api build [] s = (s, [])"
| "deleteAll api build (gs # gss) s =
     (case deleteGameServer api gs s of
        (s1, Some e) \<Rightarrow>
          (let (s2, es) = deleteAll api build gss s1 in (s2, if IsConflict e then es else e # es))
      | (s1, None) \<Rightarrow>
          deleteAll api build gss
            (log_effects [Inc GameServersDeletedCounter [build],
                Event ''GameServer deleted'' (''GameServer '' @ gs_Name gs @ '' deleted'')]
              (expectDeletion build (gs_Name gs) s1)))"

definition deleteNonActiveGameServers ::
    "'w build_api \<Rightarrow> string \<Rightarrow> GameServer list \<Rightarrow> int \<Rightarrow> 'w build_state \<Rightarrow> 'w build_state \<times> api_error option" where
  "deleteNonActiveGameServers api build gss amount s =
     (let (s', es) = deleteAll api build (ba_schedule api (pickDeletions amount (ba_sort api gss))) s
      in (s', case es of [] \<Rightarrow> None | e # _ \<Rightarrow> Some e))"

section \<open>Creating\<close>

text \<open>\<open>None\<close> is the panic of a goroutine, which ends the operator's process.\<close>

definition createOne ::
    "'w build_api \<Rightarrow> GameServerBuild \<Rightarrow> nat \<Rightarrow> 'w build_state \<Rightarrow> ('w build_state \<times> build_error list) option" where
  "createOne api gsb i s =
     (case NewGameServerForGameServerBuild (ba_rng api i) gsb (b_ports s) of
        (pr, Inl (PortError e)) \<Rightarrow> Some (s\<lparr>b_ports := pr\<rparr>, [PortErr e])
      | (pr, Inl HostPortIndexPanic) \<Rightarrow> None
      | (pr, Inr gs) \<Rightarrow>
          (case ba_create api (b_world s) gs of
             (w, Some e) \<Rightarrow>
               Some (s\<lparr>b_ports := pr, b_world := w, b_calls := b_calls s @ [CallCreate gs]\<rparr>, [ApiErr e])
           | (w, None) \<Rightarrow>
               Some (log_effects [Inc GameServersCreatedCounter [gsb_Name gsb],
                   Event ''Creating'' (''Creating GameServer '' @ gs_Name gs)]
                 (expectCreation (gsb_Name gsb) (gs_Name gs)
                   (s\<lparr>b_ports := pr, b_world := w, b_calls := b_calls s @ [CallCreate gs]\<rparr>)), [])))"

definition createCond :: "Config \<Rightarrow> GameServerBuildSpec \<Rightarrow> counts \<Rightarrow> nat \<Rightarrow> bool" where
  "createCond cfg spec c i \<longleftrightarrow>
     int i < bs_StandingBy spec - nonActive c \<and>
     int i + nonActive c + c_active c < bs_Max spec \<and>
     int i < MaxNumberOfGameServersToAdd cfg"

function createLoop ::
    "'w build_api \<Rightarrow> Config \<Rightarrow> GameServerBuild \<Rightarrow> counts \<Rightarrow> nat \<Rightarrow> 'w build_state \<Rightarrow>
     ('w build_state \<times> build_error list) option" where
  "createLoop api cfg gsb c i s =
     (if createCond cfg (gsb_Spec gsb) c i
      then (case createOne api gsb i s of
              None \<Rightarrow> None
            | Some (s1, es) \<Rightarrow>
                map_option (\<lambda>(s2, es'). (s2, es @ es')) (createLoop api cfg gsb c (Suc i) s1))
      else Some (s, []))"
  by pat_completeness auto
termination
  by (relation "measure (\<lambda>(api, cfg, gsb, c, i, s). nat (MaxNumberOfGameServersToAdd cfg - int i))")
    (auto simp: createCond_def)

declare createLoop.simps [simp del]

text \<open>The channel for the errors is made first; a negative size panics.\<close>

definition createMissing ::
    "'w build_api \<Rightarrow> Config \<Rightarrow> GameServerBuild \<Rightarrow> counts \<Rightarrow> 'w build_state \<Rightarrow>
     ('w build_state \<times> build_error list) option" where
  "createMissing api cfg gsb c s =
     (if MaxNumberOfGameServersToAdd cfg < 0 then None else createLoop api cfg gsb c 0 s)"

lemma createMissing_Some: "createMissing api cfg gsb c s = Some p \<Longrightarrow> createLoop api cfg gsb c 0 s = Some p"
  by (simp add: createMissing_def split: if_splits)

section \<open>Status\<close>

definition getKeyForCrashesPerBuildMap :: "GameServerBuild \<Rightarrow> string" where
  "getKeyForCrashesPerBuildMap gsb = gsb_Namespace gsb @ ''/'' @ gsb_Name gsb"

definition getExistingCrashes :: "GameServerBuild \<Rightarrow> int \<Rightarrow> (string \<rightharpoonup> int) \<Rightarrow> (string \<rightharpoonup> int) \<times> int" where
  "getExistingCrashes gsb newCrashesCount m =
     (let key = getKeyForCrashesPerBuildMap gsb
      in case m key of
           None \<Rightarrow> (m(key \<mapsto> newCrashesCount), 0)
         | Some existing \<Rightarrow> (m(key \<mapsto> newCrashesCount + existing), existing))"

definition newStatus :: "GameServerBuild \<Rightarrow> counts \<Rightarrow> int \<Rightarrow> GameServerBuildStatus" where
  "newStatus gsb c crashes =
     (gsb_Status gsb)
       \<lparr>bst_CurrentPending := c_pending c, bst_CurrentInitializing := c_initializing c,
        bst_CurrentActive := c_active c, bst_CurrentStandingBy := c_standingBy c,
        bst_CrashesCount := crashes,
        bst_CurrentStandingByReadyDesired :=
          itoa (c_standingBy c) @ ''/'' @ itoa (bs_StandingBy (gsb_Spec gsb)),
        bst_Health :=
          (case bs_CrashesToMarkUnhealthy (gsb_Spec gsb) of
             None \<Rightarrow> BuildHealthy
           | Some n \<Rightarrow> if n \<le> crashes then BuildUnhealthy else BuildHealthy)\<rparr>"

definition statusChanged :: "GameServerBuild \<Rightarrow> counts \<Rightarrow> bool" where
  "statusChanged gsb c \<longleftrightarrow>
     bst_CurrentPending (gsb_Status gsb) \<noteq> c_pending c \<or>
     bst_CurrentInitializing (gsb_Status gsb) \<noteq> c_initializing c \<or>
     bst_CurrentActive (gsb_Status gsb) \<noteq> c_active c \<or>
     bst_CurrentStandingBy (gsb_Status gsb) \<noteq> c_standingBy c \<or> 0 < c_crashes c"

definition stateGauges :: "GameServerBuild \<Rightarrow> counts \<Rightarrow> effect list" where
  "stateGauges gsb c =
     [SetGauge CurrentGameServerGauge [gsb_Name gsb, PendingServerStatus] (c_pending c),
      SetGauge CurrentGameServerGauge [gsb_Name gsb, InitializingServerStatus] (c_initializing c),
      SetGauge CurrentGameServerGauge [gsb_Name gsb, StandingByServerStatus] (c_standingBy c),
      SetGauge CurrentGameServerGauge [gsb_Name gsb, ActiveServerStatus] (c_active c)]"

definition updateStatus ::
    "'w build_api \<Rightarrow> GameServerBuild \<Rightarrow> counts \<Rightarrow> 'w build_state \<Rightarrow> 'w build_state \<times> reconcile_result" where
  "updateStatus api gsb c s =
     (if statusChanged gsb c
      then (let (m, existing) = getExistingCrashes gsb (c_crashes c) (b_crashes s);
                gsb' = gsb\<lparr>gsb_Status := newStatus gsb c (existing + c_crashes c)\<rparr>;
                (w, e) = ba_patchStatus api (b_world s) gsb gsb';
                s1 = s\<lparr>b_crashes := m, b_world := w, b_calls := b_calls s @ [CallPatchStatus gsb']\<rparr>
            in case e of
                 Some err \<Rightarrow> (s1, RError (ApiErr err))
               | None \<Rightarrow> (log_effects (stateGauges gsb c) s1, RDone))
      else (log_effects (stateGauges gsb c) s, RDone))"

section \<open>Reconcile\<close>

definition stopsReconciling :: "GameServerBuild \<Rightarrow> bool" where
  "stopsReconciling gsb \<longleftrightarrow>
     bst_Health (gsb_Status gsb) = BuildUnhealthy \<and>
     (case bs_CrashesToMarkUnhealthy (gsb_Spec gsb) of
        None \<Rightarrow> False
      | Some n \<Rightarrow> n \<le> bst_CrashesCount (gsb_Status gsb))"

text \<open>The part that follows the count.\<close>

definition scale ::
    "'w build_api \<Rightarrow> Config \<Rightarrow> GameServerBuild \<Rightarrow> GameServer list \<Rightarrow> counts \<Rightarrow> 'w build_state \<Rightarrow>
     'w build_state \<times> reconcile_result" where
  "scale api cfg gsb gss c s =
     (let amount = deletionAmount cfg (gsb_Spec gsb) c;
          (s1, e) = (if 0 < amount then deleteNonActiveGameServers api (gsb_Name gsb) gss amount s else (s, None))
      in case e of
           Some err \<Rightarrow> (s1, RError (ApiErr err))
         | None \<Rightarrow>
             (case createMissing api cfg gsb c s1 of
                None \<Rightarrow> (s1, RCrash)
              | Some (s2, err # _) \<Rightarrow> (s2, RError err)
              | Some (s2, []) \<Rightarrow> updateStatus api gsb c s2))"

definition checkExpectations ::
    "'w build_api \<Rightarrow> GameServerBuild \<Rightarrow> 'w build_state \<Rightarrow> 'w build_state \<times> (api_error + bool)" where
  "checkExpectations api gsb s =
     (case gameServersUnderDeletionWereDeleted (ba_getGS api (b_world s)) (ba_order api) gsb (b_expectations s) of
        (g1, Inl e) \<Rightarrow> (s\<lparr>b_expectations := g1\<rparr>, Inl e)
      | (g1, Inr False) \<Rightarrow> (s\<lparr>b_expectations := g1\<rparr>, Inr False)
      | (g1, Inr True) \<Rightarrow>
          (let (g2, r) = gameServersUnderCreationWereCreated (ba_getGS api (b_world s)) (ba_order api) gsb g1
           in (s\<lparr>b_expectations := g2\<rparr>, r)))"

definition build_Reconcile ::
    "'w build_api \<Rightarrow> Config \<Rightarrow> string \<Rightarrow> string \<Rightarrow> 'w build_state \<Rightarrow> 'w build_state \<times> reconcile_result" where
  "build_Reconcile api cfg namespace name s =
     (case ba_getBuild api (b_world s) namespace name of
        Inl e \<Rightarrow>
          if IsNotFound e
          then (s\<lparr>b_crashes := (b_crashes s)(getKeyForCrashesPerBuildMap zero_GameServerBuild := None)\<rparr>, RDone)
          else (s, RError (ApiErr e))
      | Inr gsb \<Rightarrow>
          if stopsReconciling gsb
          then (log_effects [Event ''Unhealthy Build'' ''GameServerBuild is Unhealthy, stopping reconciliation''] s, RDone)
          else (case checkExpectations api gsb s of
                  (s1, Inl e) \<Rightarrow> (s1, RError (ApiErr e))
                | (s1, Inr False) \<Rightarrow> (s1, RDone)
                | (s1, Inr True) \<Rightarrow>
                    (case ba_listOwned api (b_world s1) namespace name of
                       Inl e \<Rightarrow> (s1, RError (ApiErr e))
                     | Inr gss \<Rightarrow>
                         (case countLoop api (gsb_Name gsb) gss zero_counts s1 of
                            (s2, Inl e) \<Rightarrow> (s2, RError (ApiErr e))
                          | (s2, Inr c) \<Rightarrow> scale api cfg gsb gss c s2))))"

text \<open>
  The field index by owner that the listing uses; the controlling owner of an object is a
  parameter (\<open>metav1.GetControllerOf\<close>).
\<close>

definition ownerIndex :: "(GameServer \<Rightarrow> OwnerReference option) \<Rightarrow> GameServer \<Rightarrow> string list" where
  "ownerIndex GetControllerOf gs =
     (case GetControllerOf gs of
        None \<Rightarrow> []
      | Some owner \<Rightarrow>
          if or_APIVersion owner \<noteq> apiGVStr \<or> or_Kind owner \<noteq> GameServerBuildKind then []
          else [or_Name owner])"

section \<open>The trace of calls\<close>

text \<open>An operation extends the trace, by calls that satisfy \<open>P\<close>.\<close>

definition extends :: "(api_call \<Rightarrow> bool) \<Rightarrow> 'w build_state \<Rightarrow> 'w build_state \<Rightarrow> bool" where
  "extends P s s' \<longleftrightarrow> (\<exists>cs. b_calls s' = b_calls s @ cs \<and> (\<forall>x \<in> set cs. P x))"

lemma extends_refl [intro]: "b_calls s' = b_calls s \<Longrightarrow> extends P s s'"
  by (auto simp: extends_def)

lemma extends_trans [trans]: "extends P s s1 \<Longrightarrow> extends P s1 s2 \<Longrightarrow> extends P s s2"
  unfolding extends_def by (metis Un_iff append.assoc set_append)

lemma extends_mono: "extends P s s' \<Longrightarrow> (\<And>x. P x \<Longrightarrow> Q x) \<Longrightarrow> extends Q s s'"
  unfolding extends_def by blast

lemma b_calls_simps [simp]:
  "b_calls (log_effects es s) = b_calls s" "b_calls (expectDeletion b g s) = b_calls s"
  "b_calls (expectCreation b g s) = b_calls s"
  by (simp_all add: log_effects_def expectDeletion_def expectCreation_def)

lemma call_delete_calls:
  "call_delete api gs rv s = (s1, e) \<Longrightarrow> b_calls s1 = b_calls s @ [CallDelete gs rv]"
  by (auto simp: call_delete_def Let_def split: prod.splits)

definition classCount :: "gs_class \<Rightarrow> GameServer list \<Rightarrow> int" where
  "classCount k gss = int (length (filter (\<lambda>g. classify g = k) gss))"

definition countsOf :: "GameServer list \<Rightarrow> counts" where
  "countsOf gss =
     \<lparr>c_active = classCount GsActive gss, c_standingBy = classCount GsStandingBy gss,
      c_crashes = classCount GsCrashed gss + classCount GsUnhealthy gss,
      c_initializing = classCount GsInitializing gss, c_pending = classCount GsPending gss\<rparr>"

definition addCounts :: "counts \<Rightarrow> counts \<Rightarrow> counts" where
  "addCounts x y =
     \<lparr>c_active = c_active x + c_active y, c_standingBy = c_standingBy x + c_standingBy y,
      c_crashes = c_crashes x + c_crashes y, c_initializing = c_initializing x + c_initializing y,
      c_pending = c_pending x + c_pending y\<rparr>"

lemma addCounts_step: "addCounts (countGameServer (classify gs) c) (countsOf gss) = addCounts c (countsOf (gs # gss))"
  by (cases "classify gs") (simp_all add: addCounts_def countGameServer_def countsOf_def classCount_def)

lemma addCounts_simps [simp]: "addCounts c (countsOf []) = c" "addCounts zero_counts c = c"
  by (simp_all add: addCounts_def countsOf_def classCount_def zero_counts_def)

definition endedDelete :: "GameServer list \<Rightarrow> api_call \<Rightarrow> bool" where
  "endedDelete gss x \<longleftrightarrow> (\<exists>g \<in> set gss. x = CallDelete g None \<and> ended (classify g))"

lemma countLoop_extends:
  "countLoop api build gss c s = (s', r) \<Longrightarrow> extends (endedDelete gss) s s'"
proof (induction gss arbitrary: c s)
  case Nil
  then show ?case by auto
next
  case (Cons gs gss)
  have weak: "endedDelete (gs # gss) x" if "endedDelete gss x" for x
    using that by (auto simp: endedDelete_def)
  show ?case
  proof (cases "ended (classify gs)")
    case False
    then have "countLoop api build gss (countGameServer (classify gs) c) s = (s', r)"
      using Cons.prems by (simp add: Let_def)
    from extends_mono [OF Cons.IH [OF this] weak] show ?thesis .
  next
    case True
    obtain s1 e where d: "call_delete api gs None s = (s1, e)" by (cases "call_delete api gs None s")
    have one: "extends (endedDelete (gs # gss)) s s1"
      using call_delete_calls [OF d] True by (auto simp: extends_def endedDelete_def)
    show ?thesis
    proof (cases e)
      case None
      let ?s2 = "log_effects (endEffects build gs (classify gs)) (expectDeletion build (gs_Name gs) s1)"
      have "countLoop api build gss (countGameServer (classify gs) c) ?s2 = (s', r)"
        using Cons.prems True d None by (simp add: Let_def)
      from extends_mono [OF Cons.IH [OF this] weak] have "extends (endedDelete (gs # gss)) ?s2 s'" .
      moreover have "extends (endedDelete (gs # gss)) s1 ?s2" by auto
      ultimately show ?thesis using one by (blast intro: extends_trans)
    next
      case (Some err)
      with Cons.prems True d one show ?thesis by (simp add: Let_def)
    qed
  qed
qed

lemma countLoop_ok:
  "countLoop api build gss c s = (s', Inr c') \<Longrightarrow>
   c' = addCounts c (countsOf gss) \<and>
   b_calls s' = b_calls s @ map (\<lambda>g. CallDelete g None) (filter (\<lambda>g. ended (classify g)) gss) \<and>
   b_ports s' = b_ports s \<and> b_crashes s' = b_crashes s"
proof (induction gss arbitrary: c s)
  case Nil
  then show ?case by simp
next
  case (Cons gs gss)
  show ?case
  proof (cases "ended (classify gs)")
    case False
    then have "countLoop api build gss (countGameServer (classify gs) c) s = (s', Inr c')"
      using Cons.prems by (simp add: Let_def)
    from Cons.IH [OF this] False show ?thesis by (simp add: addCounts_step)
  next
    case True
    obtain s1 e where d: "call_delete api gs None s = (s1, e)" by (cases "call_delete api gs None s")
    with Cons.prems True have e: "e = None" by (cases e) (simp_all add: Let_def)
    let ?s2 = "log_effects (endEffects build gs (classify gs)) (expectDeletion build (gs_Name gs) s1)"
    have "countLoop api build gss (countGameServer (classify gs) c) ?s2 = (s', Inr c')"
      using Cons.prems True d e by (simp add: Let_def)
    from Cons.IH [OF this] True call_delete_calls [OF d] show ?thesis
      using d by (auto simp: addCounts_step log_effects_def expectDeletion_def call_delete_def Let_def
          split: prod.splits)
  qed
qed

section \<open>Deletions\<close>

lemma pickDeletions_eq: "pickDeletions n gss = take (nat n) (filter deletable gss)"
proof (induction gss arbitrary: n)
  case (Cons gs gss)
  show ?case
  proof (cases "n \<le> 0")
    case True
    then show ?thesis by simp
  next
    case False
    then have "nat n = Suc (nat (n - 1))" by simp
    with False Cons show ?thesis by simp
  qed
qed simp

lemma deleteAll_calls:
  "deleteAll api build gss s = (s', es) \<Longrightarrow>
   b_calls s' = b_calls s @ map (\<lambda>g. CallDelete g (Some (om_ResourceVersion (gs_Meta g)))) gss \<and>
   b_ports s' = b_ports s \<and> b_crashes s' = b_crashes s"
proof (induction gss arbitrary: s es)
  case Nil
  then show ?case by simp
next
  case (Cons gs gss)
  obtain s1 e where d: "deleteGameServer api gs s = (s1, e)" by (cases "deleteGameServer api gs s")
  then have c: "b_calls s1 = b_calls s @ [CallDelete gs (Some (om_ResourceVersion (gs_Meta gs)))]"
    "b_ports s1 = b_ports s" "b_crashes s1 = b_crashes s"
    by (auto simp: deleteGameServer_def call_delete_def Let_def split: prod.splits)
  show ?case
  proof (cases e)
    case None
    with Cons.prems d Cons.IH c show ?thesis
      by (fastforce simp: log_effects_def expectDeletion_def)
  next
    case (Some err)
    obtain es2 where r: "deleteAll api build gss s1 = (s', es2)"
      using Cons.prems d Some by (auto simp: Let_def split: prod.splits)
    with Cons.IH [OF r] c show ?thesis by simp
  qed
qed

text \<open>What \<open>sort.Sort\<close> and the scheduler do to a list: they permute it; the sort orders it by state.\<close>

definition permutes_lists :: "(GameServer list \<Rightarrow> GameServer list) \<Rightarrow> bool" where
  "permutes_lists f \<longleftrightarrow> (\<forall>xs. mset (f xs) = mset xs)"

definition sorts_by_state :: "(GameServer list \<Rightarrow> GameServer list) \<Rightarrow> bool" where
  "sorts_by_state f \<longleftrightarrow> permutes_lists f \<and> (\<forall>xs. sorted (map getValueByState (f xs)))"

lemma sorts_permutes: "sorts_by_state f \<Longrightarrow> permutes_lists f"
  by (simp add: sorts_by_state_def)

lemma permutes_set: "permutes_lists f \<Longrightarrow> set (f xs) = set xs"
  unfolding permutes_lists_def by (blast dest: mset_eq_setD)

lemma permutes_length: "permutes_lists f \<Longrightarrow> length (f xs) = length xs"
  unfolding permutes_lists_def by (blast dest: mset_eq_length)

lemma deletable_value: "deletable gs \<longleftrightarrow> getValueByState gs < 3"
  by (simp add: deletable_def getValueByState_def)

text \<open>A deletion takes the GameServers of the lowest states: none that is left is in a lower one.\<close>

definition lowest_first :: "GameServer list \<Rightarrow> GameServer list \<Rightarrow> bool" where
  "lowest_first gss ds \<longleftrightarrow> mset ds \<subseteq># mset (filter deletable gss) \<and>
     (\<forall>g \<in> set ds. \<forall>h \<in># mset (filter deletable gss) - mset ds. getValueByState g \<le> getValueByState h)"

lemma lowest_first_Nil [simp]: "lowest_first gss []"
  by (simp add: lowest_first_def)

lemma pickDeletions_lowest:
  assumes "sorts_by_state (ba_sort api)" and "permutes_lists (ba_schedule api)"
  shows "lowest_first gss (ba_schedule api (pickDeletions n (ba_sort api gss)))"
proof -
  define xs where "xs = filter deletable (ba_sort api gss)"
  have xs: "mset xs = mset (filter deletable gss)"
    using assms(1) by (simp add: xs_def sorts_by_state_def permutes_lists_def)
  have ds: "mset (ba_schedule api (pickDeletions n (ba_sort api gss))) = mset (take (nat n) xs)"
    using assms(2) by (simp add: xs_def permutes_lists_def pickDeletions_eq)
  have all: "mset (filter deletable gss) = mset (take (nat n) xs) + mset (drop (nat n) xs)"
    unfolding xs [symmetric] mset_append [symmetric] by simp
  have "sorted (map getValueByState (take (nat n) xs @ drop (nat n) xs))"
    using assms(1) by (simp add: xs_def sorts_by_state_def sorted_filter)
  then have "getValueByState g \<le> getValueByState h" if "g \<in> set (take (nat n) xs)" "h \<in> set (drop (nat n) xs)" for g h
    using that unfolding map_append sorted_append by simp
  then show ?thesis
    unfolding lowest_first_def all ds set_mset_mset [symmetric] by (simp add: ds)
qed

definition scaleDelete :: "GameServer list \<Rightarrow> api_call \<Rightarrow> bool" where
  "scaleDelete gss x \<longleftrightarrow>
     (\<exists>g \<in> set gss. x = CallDelete g (Some (om_ResourceVersion (gs_Meta g))) \<and> deletable g)"

lemma deleteNonActive_calls:
  assumes "permutes_lists (ba_sort api)" "permutes_lists (ba_schedule api)"
    and "deleteNonActiveGameServers api build gss n s = (s', e)"
  obtains ds where "b_calls s' = b_calls s @ map (\<lambda>g. CallDelete g (Some (om_ResourceVersion (gs_Meta g)))) ds"
    "set ds \<subseteq> {g \<in> set gss. deletable g}"
    "length ds = min (nat n) (length (filter deletable gss))"
    "b_ports s' = b_ports s" "b_crashes s' = b_crashes s"
    "ds = ba_schedule api (pickDeletions n (ba_sort api gss))"
proof
  let ?ds = "ba_schedule api (pickDeletions n (ba_sort api gss))"
  obtain es where d: "deleteAll api build ?ds s = (s', es)"
    using assms(3) by (auto simp: deleteNonActiveGameServers_def Let_def split: prod.splits)
  show "b_calls s' = b_calls s @ map (\<lambda>g. CallDelete g (Some (om_ResourceVersion (gs_Meta g)))) ?ds"
    "b_ports s' = b_ports s" "b_crashes s' = b_crashes s"
    using deleteAll_calls [OF d] by auto
  show "set ?ds \<subseteq> {g \<in> set gss. deletable g}"
    using permutes_set [OF assms(1)] permutes_set [OF assms(2)]
    by (auto simp: pickDeletions_eq dest: in_set_takeD)
  have "mset (filter deletable (ba_sort api gss)) = mset (filter deletable gss)"
    using assms(1) by (simp add: permutes_lists_def)
  then have "length (filter deletable (ba_sort api gss)) = length (filter deletable gss)" by (metis size_mset)
  then show "length ?ds = min (nat n) (length (filter deletable gss))"
    using permutes_length [OF assms(2)] by (simp add: pickDeletions_eq)
qed simp


section \<open>Creations\<close>

definition creationCount :: "Config \<Rightarrow> GameServerBuildSpec \<Rightarrow> counts \<Rightarrow> nat" where
  "creationCount cfg spec c =
     nat (min (min (bs_StandingBy spec - nonActive c) (bs_Max spec - nonActive c - c_active c))
       (MaxNumberOfGameServersToAdd cfg))"

lemma createCond_iff: "createCond cfg spec c i \<longleftrightarrow> i < creationCount cfg spec c"
  by (auto simp: createCond_def creationCount_def)

definition createdFrom :: "GameServerBuild \<Rightarrow> GameServer \<Rightarrow> bool" where
  "createdFrom gsb g \<longleftrightarrow>
     (\<exists>rng pr pr'. NewGameServerForGameServerBuild rng gsb pr = (pr', Inr g))"

definition isCreate :: "GameServerBuild \<Rightarrow> api_call \<Rightarrow> bool" where
  "isCreate gsb x \<longleftrightarrow> (\<exists>g. x = CallCreate g \<and> createdFrom gsb g)"

lemma createOne_calls:
  assumes "createOne api gsb i s = Some (s1, es)"
  shows "extends (isCreate gsb) s s1 \<and> b_crashes s1 = b_crashes s \<and>
    (es = [] \<longrightarrow> (\<exists>g. createdFrom gsb g \<and> b_calls s1 = b_calls s @ [CallCreate g]))"
proof -
  obtain pr r where n: "NewGameServerForGameServerBuild (ba_rng api i) gsb (b_ports s) = (pr, r)"
    by (cases "NewGameServerForGameServerBuild (ba_rng api i) gsb (b_ports s)")
  show ?thesis
  proof (cases r)
    case (Inl e)
    with assms n show ?thesis by (cases e) (auto simp: createOne_def)
  next
    case (Inr g)
    then have cf: "createdFrom gsb g" using n by (auto simp: createdFrom_def)
    obtain w e where "ba_create api (b_world s) g = (w, e)" by (cases "ba_create api (b_world s) g")
    with assms n Inr have "b_calls s1 = b_calls s @ [CallCreate g] \<and> b_crashes s1 = b_crashes s"
      by (cases e) (auto simp: createOne_def log_effects_def expectCreation_def)
    with cf show ?thesis by (auto simp: extends_def isCreate_def)
  qed
qed

lemma createLoop_calls:
  "createLoop api cfg gsb c i s = Some (s', es) \<Longrightarrow>
   extends (isCreate gsb) s s' \<and> b_crashes s' = b_crashes s \<and>
   (es = [] \<longrightarrow> (\<exists>gs. b_calls s' = b_calls s @ map CallCreate gs \<and> list_all (createdFrom gsb) gs \<and>
      length gs = creationCount cfg (gsb_Spec gsb) c - i))"
proof (induction api cfg gsb c i s arbitrary: es rule: createLoop.induct)
  case (1 api cfg gsb c i s)
  show ?case
  proof (cases "createCond cfg (gsb_Spec gsb) c i")
    case False
    with 1(2) have "s' = s" "es = []" by (auto simp: createLoop.simps)
    with False show ?thesis
      by (auto simp: createCond_iff intro!: exI [of _ "[]"])
  next
    case True
    with 1(2) obtain s1 es1 es2 where o: "createOne api gsb i s = Some (s1, es1)"
      and l: "createLoop api cfg gsb c (Suc i) s1 = Some (s', es2)" and es: "es = es1 @ es2"
      by (subst (asm) createLoop.simps) (auto split: option.splits)
    note C = createOne_calls [OF o] and L = 1(1) [OF True o refl l]
    have "extends (isCreate gsb) s s'" using C L by (blast intro: extends_trans)
    moreover have "\<exists>gs. b_calls s' = b_calls s @ map CallCreate gs \<and> list_all (createdFrom gsb) gs \<and>
      length gs = creationCount cfg (gsb_Spec gsb) c - i" if "es = []"
    proof -
      from that es C obtain g where g: "createdFrom gsb g" "b_calls s1 = b_calls s @ [CallCreate g]" by auto
      from that es L obtain gs where gs: "b_calls s' = b_calls s1 @ map CallCreate gs"
        "list_all (createdFrom gsb) gs" "length gs = creationCount cfg (gsb_Spec gsb) c - Suc i" by auto
      with g True show ?thesis by (intro exI [of _ "g # gs"]) (auto simp: createCond_iff)
    qed
    ultimately show ?thesis using C L by simp
  qed
qed

section \<open>A whole reconciliation\<close>

definition allowedCall :: "GameServerBuild \<Rightarrow> GameServer list \<Rightarrow> api_call \<Rightarrow> bool" where
  "allowedCall gsb gss x \<longleftrightarrow>
     endedDelete gss x \<or> scaleDelete gss x \<or> isCreate gsb x \<or> (\<exists>b. x = CallPatchStatus b)"

lemma updateStatus_extends:
  "updateStatus api gsb c s = (s', r) \<Longrightarrow> extends (\<lambda>x. \<exists>b. x = CallPatchStatus b) s s' \<and> r \<noteq> RCrash"
  by (auto simp: updateStatus_def extends_def Let_def split: if_splits prod.splits option.splits)

lemma scale_deletions:
  assumes "permutes_lists (ba_sort api)" "permutes_lists (ba_schedule api)"
    and "(if 0 < n then deleteNonActiveGameServers api build gss n s else (s, None)) = (s1, e)"
  obtains ds where "b_calls s1 = b_calls s @ map (\<lambda>g. CallDelete g (Some (om_ResourceVersion (gs_Meta g)))) ds"
    "set ds \<subseteq> {g \<in> set gss. deletable g}" "length ds = min (nat n) (length (filter deletable gss))"
    "b_crashes s1 = b_crashes s" "sorts_by_state (ba_sort api) \<longrightarrow> lowest_first gss ds"
proof (cases "0 < n")
  case True
  with assms(3) have "deleteNonActiveGameServers api build gss n s = (s1, e)" by simp
  then show ?thesis
    by (rule deleteNonActive_calls [OF assms(1,2)]) (auto intro: that simp: pickDeletions_lowest assms(2))
next
  case False
  with assms(3) that [of "[]"] show ?thesis by simp
qed

lemma scaleDelete_extends:
  "b_calls s1 = b_calls s @ map (\<lambda>g. CallDelete g (Some (om_ResourceVersion (gs_Meta g)))) ds \<Longrightarrow>
   set ds \<subseteq> {g \<in> set gss. deletable g} \<Longrightarrow> extends (scaleDelete gss) s s1"
  by (auto simp: extends_def scaleDelete_def)

lemma scale_extends:
  assumes "permutes_lists (ba_sort api)" "permutes_lists (ba_schedule api)"
    and "scale api cfg gsb gss c s = (s', r)"
  shows "extends (allowedCall gsb gss) s s'"
proof -
  let ?n = "deletionAmount cfg (gsb_Spec gsb) c"
  obtain s1 e where d: "(if 0 < ?n then deleteNonActiveGameServers api (gsb_Name gsb) gss ?n s else (s, None)) = (s1, e)"
    by fastforce
  have "extends (scaleDelete gss) s s1"
    by (rule scale_deletions [OF assms(1,2) d]) (rule scaleDelete_extends)
  then have E1: "extends (allowedCall gsb gss) s s1"
    by (rule extends_mono) (simp add: allowedCall_def)
  show ?thesis
  proof (cases e)
    case (Some err)
    with assms(3) d E1 show ?thesis by (simp add: scale_def Let_def)
  next
    case None
    show ?thesis
    proof (cases "createMissing api cfg gsb c s1")
      case None
      with assms(3) d E1 \<open>e = None\<close> show ?thesis by (simp add: scale_def Let_def)
    next
      case (Some p)
      obtain s2 es where l: "createMissing api cfg gsb c s1 = Some (s2, es)" using Some by (cases p) auto
      from createLoop_calls [OF createMissing_Some [OF l]] have "extends (isCreate gsb) s1 s2" by blast
      then have "extends (allowedCall gsb gss) s1 s2" by (rule extends_mono) (simp add: allowedCall_def)
      with E1 have E2: "extends (allowedCall gsb gss) s s2" by (rule extends_trans)
      show ?thesis
      proof (cases es)
        case Nil
        with assms(3) d \<open>e = None\<close> l have "updateStatus api gsb c s2 = (s', r)" by (simp add: scale_def Let_def)
        from conjunct1 [OF updateStatus_extends [OF this]]
        have "extends (allowedCall gsb gss) s2 s'" by (rule extends_mono) (auto simp: allowedCall_def)
        with E2 show ?thesis by (rule extends_trans)
      next
        case (Cons err es')
        with assms(3) d \<open>e = None\<close> l E2 show ?thesis by (simp add: scale_def Let_def)
      qed
    qed
  qed
qed

lemma checkExpectations_same:
  "checkExpectations api gsb s = (s1, r) \<Longrightarrow>
   b_calls s1 = b_calls s \<and> b_world s1 = b_world s \<and> b_crashes s1 = b_crashes s \<and> b_ports s1 = b_ports s"
  by (auto simp: checkExpectations_def Let_def split: prod.splits sum.splits bool.splits)


lemma build_Reconcile_cases:
  assumes "build_Reconcile api cfg ns n s = (s', r)"
  obtains (early) "b_calls s' = b_calls s" "r \<noteq> RCrash"
  | (listed) gsb s1 gss s2 q where "ba_getBuild api (b_world s) ns n = Inr gsb"
    "checkExpectations api gsb s = (s1, Inr True)" "ba_listOwned api (b_world s) ns n = Inr gss"
    "countLoop api (gsb_Name gsb) gss zero_counts s1 = (s2, q)"
    "case q of Inl e \<Rightarrow> s' = s2 \<and> r = RError (ApiErr e) | Inr c \<Rightarrow> scale api cfg gsb gss c s2 = (s', r)"
    "\<not> stopsReconciling gsb"
proof (cases "ba_getBuild api (b_world s) ns n")
  case (Inl e)
  with assms show ?thesis by (intro early) (auto simp: build_Reconcile_def split: if_splits)
next
  case gsb: (Inr gsb)
  show ?thesis
  proof (cases "stopsReconciling gsb")
    case True
    with assms gsb show ?thesis by (intro early) (auto simp: build_Reconcile_def)
  next
    case go: False
    obtain s1 x where x: "checkExpectations api gsb s = (s1, x)" by (cases "checkExpectations api gsb s")
    note same = checkExpectations_same [OF x]
    show ?thesis
    proof (cases "x = Inr True")
      case False
      with assms gsb go x same show ?thesis
        by (intro early) (auto simp: build_Reconcile_def split: sum.splits bool.splits)
    next
      case True
      show ?thesis
      proof (cases "ba_listOwned api (b_world s) ns n")
        case (Inl e)
        with assms gsb go x True same show ?thesis by (intro early) (auto simp: build_Reconcile_def)
      next
        case (Inr gss)
        obtain s2 q where q: "countLoop api (gsb_Name gsb) gss zero_counts s1 = (s2, q)"
          by (cases "countLoop api (gsb_Name gsb) gss zero_counts s1")
        from assms gsb go x True same Inr q
        have "case q of Inl e \<Rightarrow> s' = s2 \<and> r = RError (ApiErr e) | Inr c \<Rightarrow> scale api cfg gsb gss c s2 = (s', r)"
          by (cases q) (simp_all add: build_Reconcile_def)
        with gsb go x True Inr q show ?thesis by (intro listed) auto
      qed
    qed
  qed
qed

text \<open>What a successful scaling did, in the trace.\<close>

lemma scale_done:
  assumes "permutes_lists (ba_sort api)" "permutes_lists (ba_schedule api)"
    and "scale api cfg gsb gss c s = (s', RDone)"
  obtains ds gs ps s2 where
    "b_calls s' = b_calls s @ map (\<lambda>g. CallDelete g (Some (om_ResourceVersion (gs_Meta g)))) ds @
       map CallCreate gs @ map CallPatchStatus ps"
    and "set ds \<subseteq> {g \<in> set gss. deletable g}"
    and "length ds = min (nat (deletionAmount cfg (gsb_Spec gsb) c)) (length (filter deletable gss))"
    and "list_all (createdFrom gsb) gs" and "length gs = creationCount cfg (gsb_Spec gsb) c"
    and "b_crashes s2 = b_crashes s" and "updateStatus api gsb c s2 = (s', RDone)"
    and "b_calls s' = b_calls s2 @ map CallPatchStatus ps"
    and "sorts_by_state (ba_sort api) \<longrightarrow> lowest_first gss ds"
proof -
  let ?n = "deletionAmount cfg (gsb_Spec gsb) c"
  obtain s1 e where d: "(if 0 < ?n then deleteNonActiveGameServers api (gsb_Name gsb) gss ?n s else (s, None)) = (s1, e)"
    by fastforce
  with assms(3) have e: "e = None" by (cases e) (simp_all add: scale_def Let_def)
  with assms(3) d obtain s2 es where l: "createMissing api cfg gsb c s1 = Some (s2, es)"
    by (cases "createMissing api cfg gsb c s1") (auto simp: scale_def Let_def)
  with assms(3) d e have es: "es = []" by (cases es) (simp_all add: scale_def Let_def)
  with assms(3) d e l have u: "updateStatus api gsb c s2 = (s', RDone)" by (simp add: scale_def Let_def)
  obtain ds where ds: "b_calls s1 = b_calls s @ map (\<lambda>g. CallDelete g (Some (om_ResourceVersion (gs_Meta g)))) ds"
    "set ds \<subseteq> {g \<in> set gss. deletable g}" "length ds = min (nat ?n) (length (filter deletable gss))"
    "b_crashes s1 = b_crashes s" "sorts_by_state (ba_sort api) \<longrightarrow> lowest_first gss ds"
    by (rule scale_deletions [OF assms(1,2) d])
  from createLoop_calls [OF createMissing_Some [OF l]] es obtain gs where gs: "b_calls s2 = b_calls s1 @ map CallCreate gs"
    "list_all (createdFrom gsb) gs" "length gs = creationCount cfg (gsb_Spec gsb) c" "b_crashes s2 = b_crashes s1"
    by auto
  from updateStatus_extends [OF u] obtain cs where cs: "b_calls s' = b_calls s2 @ cs" "\<forall>x \<in> set cs. \<exists>b. x = CallPatchStatus b"
    by (auto simp: extends_def)
  then have "\<exists>ps. cs = map CallPatchStatus ps" by (simp add: ex_map_conv)
  then obtain ps where ps: "cs = map CallPatchStatus ps" by blast
  show ?thesis
  proof (rule that)
    show "b_calls s' = b_calls s @ map (\<lambda>g. CallDelete g (Some (om_ResourceVersion (gs_Meta g)))) ds @
       map CallCreate gs @ map CallPatchStatus ps" using ds(1) gs(1) cs(1) ps by simp
    show "b_crashes s2 = b_crashes s" using ds(4) gs(4) by simp
    show "b_calls s' = b_calls s2 @ map CallPatchStatus ps" using cs(1) ps by simp
  qed (use ds(2,3,5) gs(2,3) u in auto)
qed

lemma deletable_not_ended_active:
  "classify g = GsActive \<Longrightarrow> \<not> deletable g \<and> \<not> ended (classify g)"
  by (auto simp: classify_def deletable_def ended_def split: if_splits)

section \<open>Completed reconciliations\<close>

definition targetCount :: "Config \<Rightarrow> GameServerBuildSpec \<Rightarrow> counts \<Rightarrow> int" where
  "targetCount cfg spec c =
     max 0 (min (min (bs_StandingBy spec - nonActive c) (bs_Max spec - nonActive c - c_active c))
       (MaxNumberOfGameServersToAdd cfg))"

lemma creationCount_target: "int (creationCount cfg spec c) = targetCount cfg spec c"
  unfolding creationCount_def targetCount_def int_nat_eq max_def by simp

lemma targetCount_bounds:
  "(0 < targetCount cfg spec c \<longrightarrow> nonActive c + targetCount cfg spec c \<le> bs_StandingBy spec \<and>
       nonActive c + c_active c + targetCount cfg spec c \<le> bs_Max spec) \<and>
   (nonActive c < bs_StandingBy spec \<and> nonActive c + c_active c < bs_Max spec \<and>
       0 < MaxNumberOfGameServersToAdd cfg \<longrightarrow> 0 < targetCount cfg spec c)"
  by (simp add: targetCount_def max_def min_def split: if_splits)

text \<open>The trace and the crash counts that a completed reconciliation leaves.\<close>

lemma reconcile_done:
  assumes "permutes_lists (ba_sort api)" "permutes_lists (ba_schedule api)"
    and "ba_getBuild api (b_world s) ns n = Inr gsb" and "\<not> stopsReconciling gsb"
    and "checkExpectations api gsb s = (s1, Inr True)"
    and "ba_listOwned api (b_world s) ns n = Inr gss"
    and "build_Reconcile api cfg ns n s = (s', RDone)"
  obtains ds gs ps s3 where
    "b_calls s' = b_calls s @
      map (\<lambda>g. CallDelete g None) (filter (\<lambda>g. ended (classify g)) gss) @
      map (\<lambda>g. CallDelete g (Some (om_ResourceVersion (gs_Meta g)))) ds @
      map CallCreate gs @ map CallPatchStatus ps"
    and "set ds \<subseteq> {g \<in> set gss. deletable g}"
    and "length ds = min (nat (deletionAmount cfg (gsb_Spec gsb) (countsOf gss))) (length (filter deletable gss))"
    and "list_all (createdFrom gsb) gs"
    and "int (length gs) = targetCount cfg (gsb_Spec gsb) (countsOf gss)"
    and "b_crashes s3 = b_crashes s" and "updateStatus api gsb (countsOf gss) s3 = (s', RDone)"
    and "b_calls s' = b_calls s3 @ map CallPatchStatus ps"
    and "sorts_by_state (ba_sort api) \<longrightarrow> lowest_first gss ds"
proof -
  obtain s2 q where q: "countLoop api (gsb_Name gsb) gss zero_counts s1 = (s2, q)"
    by (cases "countLoop api (gsb_Name gsb) gss zero_counts s1")
  note same = checkExpectations_same [OF assms(5)]
  obtain c' where c': "q = Inr c'"
    using assms(7) by (cases q) (simp_all add: build_Reconcile_def assms(3-6) same q)
  then have sc: "scale api cfg gsb gss c' s2 = (s', RDone)"
    using assms(7) by (simp add: build_Reconcile_def assms(3-6) same q)
  from countLoop_ok [OF q [unfolded c']] have cc: "c' = countsOf gss" and cr: "b_crashes s2 = b_crashes s"
    and c2: "b_calls s2 = b_calls s @ map (\<lambda>g. CallDelete g None) (filter (\<lambda>g. ended (classify g)) gss)"
    using same by simp_all
  show ?thesis
  proof (rule scale_done [OF assms(1,2) sc])
    fix ds gs ps s3
    assume t: "b_calls s' = b_calls s2 @ map (\<lambda>g. CallDelete g (Some (om_ResourceVersion (gs_Meta g)))) ds @
       map CallCreate gs @ map CallPatchStatus ps"
      and ds: "set ds \<subseteq> {g \<in> set gss. deletable g}"
        "length ds = min (nat (deletionAmount cfg (gsb_Spec gsb) c')) (length (filter deletable gss))"
      and gs: "list_all (createdFrom gsb) gs" "length gs = creationCount cfg (gsb_Spec gsb) c'"
      and s3: "b_crashes s3 = b_crashes s2" "updateStatus api gsb c' s3 = (s', RDone)"
        "b_calls s' = b_calls s3 @ map CallPatchStatus ps"
      and low: "sorts_by_state (ba_sort api) \<longrightarrow> lowest_first gss ds"
    show ?thesis
      by (rule that [OF t [unfolded c2 append.assoc] ds [unfolded cc] gs(1) _ s3(1) [unfolded cr] s3(2,3) [unfolded cc] low])
        (simp_all add: gs(2) cc creationCount_target)
  qed
qed

section \<open>What a round should do\<close>

text \<open>
  The kinds of GameServers by the values of their state and health, and what a round should make of a build that has
  \<open>N\<close> GameServers that are not yet active and \<open>A\<close> active ones: delete those that ended, shrink it, grow it.
\<close>

definition has_ended :: "GameServer \<Rightarrow> bool" where
  "has_ended g \<longleftrightarrow> gs_State g = ''GameCompleted'' \<and> gs_Health g = ''Healthy'' \<or> gs_State g = ''Crashed'' \<or> gs_Health g = ''Unhealthy''"

definition has_crashed :: "GameServer \<Rightarrow> bool" where
  "has_crashed g \<longleftrightarrow> gs_State g = ''Crashed'' \<or> gs_Health g = ''Unhealthy''"

definition is_active :: "GameServer \<Rightarrow> bool" where
  "is_active g \<longleftrightarrow> gs_State g = ''Active'' \<and> gs_Health g = ''Healthy''"

definition not_active :: "GameServer \<Rightarrow> bool" where
  "not_active g \<longleftrightarrow> gs_State g = [] \<and> gs_Health g \<noteq> ''Unhealthy'' \<or>
     (gs_State g = ''Initializing'' \<or> gs_State g = ''StandingBy'') \<and> gs_Health g = ''Healthy''"

definition waiting_state :: "GameServer \<Rightarrow> bool" where
  "waiting_state g \<longleftrightarrow> gs_State g = [] \<or> gs_State g = ''Initializing'' \<or> gs_State g = ''StandingBy''"

definition number :: "(GameServer \<Rightarrow> bool) \<Rightarrow> GameServer list \<Rightarrow> int" where
  "number P gss = int (length (filter P gss))"

definition takes_lowest :: "GameServer list \<Rightarrow> GameServer list \<Rightarrow> bool" where
  "takes_lowest gss ds \<longleftrightarrow> mset ds \<subseteq># mset (filter waiting_state gss) \<and>
     (\<forall>g \<in> set ds. \<forall>h \<in># mset (filter waiting_state gss) - mset ds.
        (gs_State h = [] \<longrightarrow> gs_State g = []) \<and> (gs_State h = ''Initializing'' \<longrightarrow> gs_State g \<noteq> ''StandingBy''))"

definition shrinks :: "Config \<Rightarrow> GameServerBuildSpec \<Rightarrow> GameServer list \<Rightarrow> GameServer list \<Rightarrow> bool" where
  "shrinks cfg spec gss ds \<longleftrightarrow>
     (let N = number not_active gss; A = number is_active gss; SB = bs_StandingBy spec; M = bs_Max spec;
          D = MaxNumberOfGameServersToDelete cfg; L = length (filter waiting_state gss)
      in takes_lowest gss ds \<and>
        (N \<le> SB \<and> N + A \<le> M \<longrightarrow> ds = []) \<and>
        (SB < N \<and> N + A \<le> M \<longrightarrow> length ds = min (nat (min (N - SB) D)) L) \<and>
        (N \<le> SB \<and> M < N + A \<longrightarrow> length ds = min (nat (min (N + A - M) D)) L) \<and>
        (SB < N \<and> M < N + A \<longrightarrow>
           length ds = min (nat (min (N - SB) D + min (min (N - SB) D + (N + A - M)) D)) L))"

definition grows :: "Config \<Rightarrow> GameServerBuild \<Rightarrow> GameServer list \<Rightarrow> GameServer list \<Rightarrow> bool" where
  "grows cfg gsb gss gs \<longleftrightarrow>
     (let N = number not_active gss; A = number is_active gss; SB = bs_StandingBy (gsb_Spec gsb); M = bs_Max (gsb_Spec gsb)
      in list_all (createdFrom gsb) gs \<and>
        int (length gs) = max 0 (min (min (SB - N) (M - N - A)) (MaxNumberOfGameServersToAdd cfg)))"

definition round_calls :: "GameServer list \<Rightarrow> GameServer list \<Rightarrow> GameServer list \<Rightarrow> GameServerBuild list \<Rightarrow> api_call list" where
  "round_calls gss ds gs ps = map (\<lambda>g. CallDelete g None) (filter has_ended gss) @
     map (\<lambda>g. CallDelete g (Some (om_ResourceVersion (gs_Meta g)))) ds @ map CallCreate gs @ map CallPatchStatus ps"

lemma classify_kinds:
  "ended (classify g) = has_ended g" "classify g \<in> {GsCrashed, GsUnhealthy} \<longleftrightarrow> has_crashed g"
  "classify g = GsActive \<longleftrightarrow> is_active g" "deletable g = waiting_state g"
  by (auto simp: classify_def ended_def has_ended_def has_crashed_def is_active_def deletable_def waiting_state_def)

lemma countsOf_kinds:
  "nonActive (countsOf gss) = number not_active gss" "c_active (countsOf gss) = number is_active gss"
  "c_crashes (countsOf gss) = number has_crashed gss"
proof -
  have n: "classify g = GsPending \<or> classify g = GsInitializing \<or> classify g = GsStandingBy \<longleftrightarrow> not_active g" for g
    by (simp add: classify_def not_active_def) blast
  have "nonActive (countsOf gss) =
      int (length (filter (\<lambda>g. classify g = GsPending \<or> classify g = GsInitializing \<or> classify g = GsStandingBy) gss))"
    by (induction gss) (auto simp: countsOf_def classCount_def nonActive_def)
  then show "nonActive (countsOf gss) = number not_active gss" unfolding n number_def .
  show "c_active (countsOf gss) = number is_active gss"
    by (simp add: countsOf_def classCount_def number_def classify_kinds(3))
  have "c_crashes (countsOf gss) = int (length (filter (\<lambda>g. classify g \<in> {GsCrashed, GsUnhealthy}) gss))"
    by (induction gss) (auto simp: countsOf_def classCount_def)
  then show "c_crashes (countsOf gss) = number has_crashed gss" unfolding classify_kinds(2) number_def .
qed

lemma lowest_first_takes: "lowest_first gss ds \<Longrightarrow> takes_lowest gss ds"
proof -
  assume l: "lowest_first gss ds"
  have f: "filter deletable gss = filter waiting_state gss" by (rule filter_cong) (simp_all only: classify_kinds(4))
  have "(gs_State h = [] \<longrightarrow> gs_State g = []) \<and> (gs_State h = ''Initializing'' \<longrightarrow> gs_State g \<noteq> ''StandingBy'')"
    if "g \<in> set ds" "h \<in># mset (filter waiting_state gss) - mset ds" for g h
  proof -
    have "getValueByState g \<le> getValueByState h" using l that unfolding lowest_first_def f by blast
    then show ?thesis by (auto simp: getValueByState_def split: if_splits)
  qed
  with l show ?thesis unfolding lowest_first_def takes_lowest_def f by blast
qed

lemma shrinksI:
  assumes "lowest_first gss ds"
    and "length ds = min (nat (deletionAmount cfg spec (countsOf gss))) (length (filter deletable gss))"
  shows "shrinks cfg spec gss ds"
proof -
  define N A SB M D where "N = number not_active gss" and "A = number is_active gss" and "SB = bs_StandingBy spec"
    and "M = bs_Max spec" and "D = MaxNumberOfGameServersToDelete cfg"
  have f: "filter deletable gss = filter waiting_state gss" by (rule filter_cong) (simp_all only: classify_kinds(4))
  define n1 where "n1 = (if SB < N then min (N - SB) D else 0)"
  have d: "deletionAmount cfg spec (countsOf gss) = (if M < N + A then n1 + min (n1 + (N + A - M)) D else n1)"
    unfolding deletionAmount_def countsOf_kinds Let_def n1_def N_def A_def SB_def M_def D_def ..
  have l: "length ds = min (nat (deletionAmount cfg spec (countsOf gss))) (length (filter waiting_state gss))"
    using assms(2) unfolding f .
  have "ds = []" if "N \<le> SB \<and> N + A \<le> M" using l that unfolding d by (simp add: n1_def)
  moreover have "length ds = min (nat (min (N - SB) D)) (length (filter waiting_state gss))" if "SB < N \<and> N + A \<le> M"
    unfolding l using that unfolding d n1_def by simp
  moreover have "length ds = min (nat (min (N + A - M) D)) (length (filter waiting_state gss))" if "N \<le> SB \<and> M < N + A"
    unfolding l using that unfolding d n1_def by simp
  moreover have "length ds = min (nat (min (N - SB) D + min (min (N - SB) D + (N + A - M)) D)) (length (filter waiting_state gss))"
    if "SB < N \<and> M < N + A"
    unfolding l using that unfolding d n1_def by simp
  ultimately show ?thesis
    unfolding shrinks_def Let_def N_def [symmetric] A_def [symmetric] SB_def [symmetric] M_def [symmetric] D_def [symmetric]
    using lowest_first_takes [OF assms(1)] by blast
qed

lemma growsI:
  "list_all (createdFrom gsb) gs \<Longrightarrow> int (length gs) = targetCount cfg (gsb_Spec gsb) (countsOf gss) \<Longrightarrow> grows cfg gsb gss gs"
  by (simp add: grows_def targetCount_def countsOf_kinds Let_def)

section \<open>Properties\<close>

text \<open>
  C5: the build reconciler never deletes a GameServer that is Active and healthy. Whatever the
  outcome of a reconciliation, every deletion it asked for is of a GameServer that was listed for
  the build and either had ended, crashed or become unhealthy, or was pending, Initializing or
  StandingBy; in the second case the deletion is conditional on the version that was listed, so
  a GameServer that was allocated in the meantime is not deleted.
\<close>

theorem reconcile_spares_active:
  assumes "permutes_lists (ba_sort api)" "permutes_lists (ba_schedule api)"
    and "build_Reconcile api cfg ns n s = (s', r)"
  shows "\<exists>cs. b_calls s' = b_calls s @ cs \<and>
    (\<forall>g rv. CallDelete g rv \<in> set cs \<longrightarrow>
       (\<exists>gss. ba_listOwned api (b_world s) ns n = Inr gss \<and> g \<in> set gss) \<and> classify g \<noteq> GsActive \<and>
       \<not> (gs_State g = ''Active'' \<and> gs_Health g = ''Healthy'') \<and>
       (rv = None \<and> classify g \<in> {GsCompleted, GsCrashed, GsUnhealthy} \<and> has_ended g \<or>
        rv = Some (om_ResourceVersion (gs_Meta g)) \<and>
          gs_State g \<in> {'''', GameServerStateInitializing, GameServerStateStandingBy}))"
  using assms(3)
proof (cases rule: build_Reconcile_cases)
  case early
  then show ?thesis by (intro exI [of _ "[]"]) simp
next
  case (listed gsb s1 gss s2 q)
  have c1: "b_calls s1 = b_calls s" using checkExpectations_same [OF listed(2)] by simp
  from countLoop_extends [OF listed(4)] have E: "extends (allowedCall gsb gss) s1 s2"
    by (rule extends_mono) (simp add: allowedCall_def)
  have "extends (allowedCall gsb gss) s1 s'"
  proof (cases q)
    case (Inl e)
    with listed(5) E show ?thesis by simp
  next
    case (Inr c)
    with listed(5) have "extends (allowedCall gsb gss) s2 s'" using scale_extends [OF assms(1,2)] by simp
    with E show ?thesis by (rule extends_trans)
  qed
  then obtain cs where cs: "b_calls s' = b_calls s @ cs" "\<forall>x \<in> set cs. allowedCall gsb gss x"
    using c1 by (auto simp: extends_def)
  have "(\<exists>gss. ba_listOwned api (b_world s) ns n = Inr gss \<and> g \<in> set gss) \<and> classify g \<noteq> GsActive \<and>
       \<not> (gs_State g = ''Active'' \<and> gs_Health g = ''Healthy'') \<and>
       (rv = None \<and> classify g \<in> {GsCompleted, GsCrashed, GsUnhealthy} \<and> has_ended g \<or>
        rv = Some (om_ResourceVersion (gs_Meta g)) \<and>
          gs_State g \<in> {'''', GameServerStateInitializing, GameServerStateStandingBy})"
    if "CallDelete g rv \<in> set cs" for g rv
  proof -
    have "(\<exists>gss. ba_listOwned api (b_world s) ns n = Inr gss \<and> g \<in> set gss) \<and> classify g \<noteq> GsActive \<and>
       (rv = None \<and> classify g \<in> {GsCompleted, GsCrashed, GsUnhealthy} \<or>
        rv = Some (om_ResourceVersion (gs_Meta g)) \<and>
          gs_State g \<in> {'''', GameServerStateInitializing, GameServerStateStandingBy})"
      using bspec [OF cs(2) that] listed(3) deletable_not_ended_active [of g]
      by (auto simp: allowedCall_def endedDelete_def scaleDelete_def isCreate_def ended_def deletable_def)
    moreover have "classify g \<in> {GsCompleted, GsCrashed, GsUnhealthy} \<Longrightarrow> has_ended g"
      unfolding classify_kinds(1) [symmetric] ended_def by blast
    moreover have "classify g \<noteq> GsActive \<longleftrightarrow> \<not> (gs_State g = ''Active'' \<and> gs_Health g = ''Healthy'')"
      unfolding classify_kinds(3) is_active_def ..
    ultimately show ?thesis by blast
  qed
  with cs(1) show ?thesis by blast
qed


text \<open>
  C6: how a reconciliation scales a build, when it completes. With N listed GameServers without a state, Initializing or
  StandingBy (and not unhealthy) and A Active ones, it deletes first those that completed, crashed or are unhealthy. Then, when N exceeds StandingBy, it
  deletes the excess, when N + A exceeds Max, that excess, each limited by the most that one reconciliation may delete, and when both do, the first
  excess twice and the second once; of the states they are in, the lowest first (none, Initializing, StandingBy), each with the version that was listed,
  and never more than there are. And it creates
  exactly as many GameServers from the build as are missing, as fit under the maximum and as one
  reconciliation may add. So the build is never filled beyond its maximum or its StandingBy
  number, and at least one GameServer is created whenever one is missing and fits.
\<close>

theorem reconcile_scales:
  assumes "sorts_by_state (ba_sort api)" "permutes_lists (ba_schedule api)"
    and "ba_getBuild api (b_world s) ns n = Inr gsb" and "\<not> stopsReconciling gsb"
    and "checkExpectations api gsb s = (s1, Inr True)"
    and "ba_listOwned api (b_world s) ns n = Inr gss"
    and "build_Reconcile api cfg ns n s = (s', RDone)"
  defines "N \<equiv> number not_active gss" and "A \<equiv> number is_active gss" and "spec \<equiv> gsb_Spec gsb"
  shows "\<exists>ds gs ps. b_calls s' = b_calls s @ round_calls gss ds gs ps \<and>
    shrinks cfg spec gss ds \<and> grows cfg gsb gss gs \<and>
    (gs \<noteq> [] \<longrightarrow> N + int (length gs) \<le> bs_StandingBy spec \<and> N + A + int (length gs) \<le> bs_Max spec) \<and>
    (N < bs_StandingBy spec \<and> N + A < bs_Max spec \<and> 0 < MaxNumberOfGameServersToAdd cfg \<longrightarrow> gs \<noteq> [])"
proof (rule reconcile_done [OF sorts_permutes [OF assms(1)] assms(2-7)])
  fix ds gs ps
  assume t: "b_calls s' = b_calls s @
      map (\<lambda>g. CallDelete g None) (filter (\<lambda>g. ended (classify g)) gss) @
      map (\<lambda>g. CallDelete g (Some (om_ResourceVersion (gs_Meta g)))) ds @
      map CallCreate gs @ map CallPatchStatus ps"
    and ds: "length ds = min (nat (deletionAmount cfg (gsb_Spec gsb) (countsOf gss))) (length (filter deletable gss))"
    and gs: "list_all (createdFrom gsb) gs" "int (length gs) = targetCount cfg (gsb_Spec gsb) (countsOf gss)"
    and low: "sorts_by_state (ba_sort api) \<longrightarrow> lowest_first gss ds"
  note b = targetCount_bounds [of cfg "gsb_Spec gsb" "countsOf gss", folded gs(2),
      unfolded of_nat_0_less_iff length_greater_0_conv countsOf_kinds]
  have calls: "b_calls s' = b_calls s @ round_calls gss ds gs ps" using t by (simp add: round_calls_def classify_kinds(1))
  show ?thesis unfolding N_def A_def spec_def
    by (rule exI [of _ ds], rule exI [of _ gs], rule exI [of _ ps])
      (intro conjI calls shrinksI [OF mp [OF low assms(1)] ds] growsI [OF gs] b [THEN conjunct1] b [THEN conjunct2])
qed

section \<open>An in-memory API server, for the witnesses\<close>

text \<open>
  The world is the list of the GameServers; creating and deleting succeed at once, and a
  status patch does not change a GameServer.
\<close>

definition mem_build_api :: "GameServerBuild \<Rightarrow> GameServer list build_api" where
  "mem_build_api gsb =
     \<lparr>ba_getBuild = (\<lambda>w ns n. if ns = gsb_Namespace gsb \<and> n = gsb_Name gsb then Inr gsb else Inl (NotFound ''not found'')),
      ba_getGS = (\<lambda>w ns n. case find (\<lambda>g. gs_Namespace g = ns \<and> gs_Name g = n) w of
                             Some g \<Rightarrow> Inr g | None \<Rightarrow> Inl (NotFound ''not found'')),
      ba_listOwned = (\<lambda>w ns n. Inr (filter (\<lambda>g. gs_Namespace g = ns) w)),
      ba_delete = (\<lambda>w g rv. (filter (\<lambda>h. gs_Name h \<noteq> gs_Name g) w, None)),
      ba_create = (\<lambda>w g. (w @ [g], None)),
      ba_patchStatus = (\<lambda>w a b. (w, None)),
      ba_order = (\<lambda>S. []), ba_sort = sort_key getValueByState, ba_schedule = id, ba_rng = (\<lambda>i k n. 0)\<rparr>"

definition mem_state :: "GameServer list \<Rightarrow> GameServer list build_state" where
  "mem_state gss =
     \<lparr>b_world = gss, b_expectations = NewGameServerExpectations, b_crashes = Map.empty,
      b_ports = small_registry, b_effects = [], b_calls = []\<rparr>"

definition mem_gs :: "string \<Rightarrow> string \<Rightarrow> string \<Rightarrow> GameServer" where
  "mem_gs name state health = zero_GameServer
     \<lparr>gs_Meta := zero_Meta\<lparr>om_Name := name, om_Namespace := ''default'', om_ResourceVersion := ''7''\<rparr>,
      gs_Status := zero_Status\<lparr>st_State := state, st_Health := health\<rparr>\<rparr>"

definition mem_build :: GameServerBuild where
  "mem_build = build_with [80] [game_container ''game'' [game_port ''gp'' 80]]"

definition mem_config :: Config where
  "mem_config = \<lparr>MaxNumberOfGameServersToAdd = 1, MaxNumberOfGameServersToDelete = 5\<rparr>"

lemma mem_build_simps [simp]:
  "gsb_Name mem_build = ''build''" "gsb_Namespace mem_build = ''default''"
  "bs_StandingBy (gsb_Spec mem_build) = 2" "bs_Max (gsb_Spec mem_build) = 4"
  "\<not> stopsReconciling mem_build"
  by (simp_all add: mem_build_def) (simp add: stopsReconciling_def build_with_def zero_GameServerBuild_def zero_BuildStatus_def)

lemma mem_gs_simps [simp]:
  "gs_Name (mem_gs n st h) = n" "gs_Namespace (mem_gs n st h) = ''default''" "gs_State (mem_gs n st h) = st"
  "gs_Health (mem_gs n st h) = h"
  by (simp_all add: mem_gs_def zero_GameServer_def zero_Meta_def zero_Status_def)

lemma mem_api_simps [simp]:
  "ba_getBuild (mem_build_api mem_build) w ''default'' ''build'' = Inr mem_build"
  "ba_listOwned (mem_build_api b) w ''default'' n = Inr (filter (\<lambda>g. gs_Namespace g = ''default'') w)"
  "permutes_lists (ba_sort (mem_build_api b))" "permutes_lists (ba_schedule (mem_build_api b))"
  "sorts_by_state (ba_sort (mem_build_api b))"
  "b_calls (mem_state gss) = []" "b_world (mem_state gss) = gss"
  by (simp_all add: mem_build_api_def permutes_lists_def sorts_by_state_def mem_state_def)

lemma mem_checkExpectations:
  "checkExpectations (mem_build_api b) b' (mem_state gss) = (mem_state gss, Inr True)"
  by (simp add: checkExpectations_def mem_state_def NewGameServerExpectations_def
      gameServersUnderDeletionWereDeleted_def gameServersUnderCreationWereCreated_def)

definition mem_gss :: "GameServer list" where
  "mem_gss = [mem_gs ''gs-a'' GameServerStateCrashed GameServerHealthy,
     mem_gs ''gs-b'' GameServerStateActive GameServerHealthy,
     mem_gs ''gs-c'' GameServerStateStandingBy GameServerHealthy]"

lemma mem_createOne:
  assumes "b_ports s = small_registry"
  shows "\<exists>s1. createOne (mem_build_api b) mem_build 0 s = Some (s1, [])"
proof -
  obtain pr' where g: "GetNewPorts small_registry ''default'' ''build-aaaaa'' 1 = (pr', Inr [10000])"
    using small_registry_one_port by blast
  then obtain gs where "NewGameServerForGameServerBuild rng0 mem_build small_registry = (pr', Inr gs)"
    by (simp add: NewGameServerForGameServerBuild_def generateName_rng0 zero_PodSpec_def mem_build_def)
  moreover have "ba_rng (mem_build_api b) 0 = rng0" by (simp add: mem_build_api_def rng0_def fun_eq_iff)
  moreover have "ba_create (mem_build_api b) w gs = (w @ [gs], None)" for w by (simp add: mem_build_api_def)
  ultimately show ?thesis by (simp add: createOne_def assms)
qed

lemma mem_call_delete:
  "call_delete (mem_build_api b) g rv s =
   (s\<lparr>b_world := filter (\<lambda>h. gs_Name h \<noteq> gs_Name g) (b_world s), b_calls := b_calls s @ [CallDelete g rv]\<rparr>, None)"
  by (simp add: call_delete_def mem_build_api_def)

lemma mem_classify:
  "classify (mem_gs n GameServerStateCrashed h) = GsCrashed"
  "classify (mem_gs n GameServerStateActive GameServerHealthy) = GsActive"
  "classify (mem_gs n GameServerStateStandingBy GameServerHealthy) = GsStandingBy"
  by (simp_all add: classify_def)

lemma mem_updateStatus: "snd (updateStatus (mem_build_api b) gsb c s) = RDone"
  by (simp add: updateStatus_def mem_build_api_def Let_def split: prod.split)

lemma mem_reconcile:
  "\<exists>s'. build_Reconcile (mem_build_api mem_build) mem_config ''default'' ''build'' (mem_state mem_gss) = (s', RDone)"
proof -
  let ?api = "mem_build_api mem_build"
  obtain s2 c where l: "countLoop ?api ''build'' mem_gss zero_counts (mem_state mem_gss) = (s2, Inr c)"
    and c: "c_active c = 1" "nonActive c = 1" and p: "b_ports s2 = small_registry"
    by (simp add: mem_gss_def mem_classify ended_def countGameServer_def zero_counts_def nonActive_def mem_call_delete
        log_effects_def expectDeletion_def mem_state_def)
  obtain s3 where o: "createOne ?api mem_build 0 s2 = Some (s3, [])" using mem_createOne [OF p] by blast
  have "createMissing ?api mem_config mem_build c s2 = Some (s3, [])"
    unfolding createMissing_def by (subst createLoop.simps) (simp add: createLoop.simps [of _ _ _ _ "Suc 0"] createCond_def c o mem_config_def)
  moreover have "deletionAmount mem_config (gsb_Spec mem_build) c = 0" by (simp add: deletionAmount_def c)
  ultimately have "scale ?api mem_config mem_build mem_gss c s2 = updateStatus ?api mem_build c s3"
    by (simp add: scale_def Let_def)
  with mem_updateStatus [of mem_build mem_build c s3]
  have "\<exists>s'. scale ?api mem_config mem_build mem_gss c s2 = (s', RDone)" by (metis prod.collapse)
  moreover have "filter (\<lambda>g. gs_Namespace g = ''default'') mem_gss = mem_gss" by (simp add: mem_gss_def)
  ultimately show ?thesis by (simp add: build_Reconcile_def mem_checkExpectations l)
qed

theorem reconcile_spares_active_witness:
  "\<exists>s' r. build_Reconcile (mem_build_api mem_build) mem_config ''default'' ''build'' (mem_state mem_gss) = (s', r) \<and>
     CallDelete (mem_gs ''gs-b'' GameServerStateActive GameServerHealthy) None \<notin> set (b_calls s')"
proof -
  obtain s' where r: "build_Reconcile (mem_build_api mem_build) mem_config ''default'' ''build'' (mem_state mem_gss) = (s', RDone)"
    using mem_reconcile by blast
  from reconcile_spares_active [OF mem_api_simps(3,4) r] have
    "CallDelete (mem_gs ''gs-b'' GameServerStateActive GameServerHealthy) None \<notin> set (b_calls s')"
    using mem_classify(2) [of "''gs-b''"] by simp blast
  with r show ?thesis by blast
qed

theorem reconcile_scales_witness:
  "\<exists>s' g ps. build_Reconcile (mem_build_api mem_build) mem_config ''default'' ''build'' (mem_state mem_gss) = (s', RDone) \<and>
     b_calls s' = CallDelete (mem_gs ''gs-a'' GameServerStateCrashed GameServerHealthy) None # CallCreate g # map CallPatchStatus ps"
proof -
  obtain s' where r: "build_Reconcile (mem_build_api mem_build) mem_config ''default'' ''build'' (mem_state mem_gss) = (s', RDone)"
    using mem_reconcile by blast
  have l: "ba_listOwned (mem_build_api mem_build) (b_world (mem_state mem_gss)) ''default'' ''build'' = Inr mem_gss"
    by (simp add: mem_gss_def)
  have b: "ba_getBuild (mem_build_api mem_build) (b_world (mem_state mem_gss)) ''default'' ''build'' = Inr mem_build" by simp
  have c: "number not_active mem_gss = 1" "number is_active mem_gss = 1"
    by (simp_all add: number_def not_active_def is_active_def mem_gss_def)
  have e: "filter has_ended mem_gss = [mem_gs ''gs-a'' GameServerStateCrashed GameServerHealthy]"
    by (simp add: mem_gss_def has_ended_def)
  obtain ds gs ps where R: "b_calls s' = b_calls (mem_state mem_gss) @ round_calls mem_gss ds gs ps"
    "shrinks mem_config (gsb_Spec mem_build) mem_gss ds" "grows mem_config mem_build mem_gss gs"
    using reconcile_scales [OF mem_api_simps(5,4) b mem_build_simps(5) mem_checkExpectations l r] by blast
  have "ds = []" using R(2) by (simp add: shrinks_def c Let_def)
  moreover have "length gs = 1" using R(3) by (simp add: grows_def c Let_def mem_config_def)
  then obtain g where "gs = [g]" by (cases gs) auto
  ultimately show ?thesis using r R(1) by (auto simp: round_calls_def e)
qed

end
