(* ===== verification/Cert_Watcher.thy ===== *)
theory Cert_Watcher
  imports Prelude
begin

text \<open>
  The certificate watcher of \<open>pkg/operator/controllers/cert_watcher.go\<close>, which gives the TLS
  server of the allocation service its certificate and reloads it when the files change. The parsing
  of a key pair and of a pool of certificates is a parameter, as is what each look at the disk
  finds: a rotation may happen between any two of them.
\<close>

section \<open>Parameters and state\<close>

record ('c, 'p) x509 =
  X509KeyPair :: "string \<Rightarrow> string \<Rightarrow> string + 'c"
  certPool :: "string \<Rightarrow> 'p"  \<comment> \<open>\<open>NewCertPool\<close>, then \<open>AppendCertsFromPEM\<close>\<close>

record ('c, 'p) CertificateWatcher =
  currentCert :: "'c option"
  caCertPool :: "'p option"
  certPath :: string
  keyPath :: string
  pollInterval :: int

text \<open>30 seconds, in nanoseconds.\<close>

definition defaultCertPollInterval :: int where
  "defaultCertPollInterval = 30 * 1000000000"

definition NewCertificateWatcher :: "string \<Rightarrow> string \<Rightarrow> ('c, 'p) CertificateWatcher" where
  "NewCertificateWatcher cert key =
     \<lparr>currentCert = None, caCertPool = None, certPath = cert, keyPath = key,
      pollInterval = defaultCertPollInterval\<rparr>"

definition SetPollInterval :: "int \<Rightarrow> ('c, 'p) CertificateWatcher \<Rightarrow> ('c, 'p) CertificateWatcher" where
  "SetPollInterval d cw = cw\<lparr>pollInterval := d\<rparr>"

section \<open>Loading\<close>

text \<open>What a read of a file gives: the text of its error, or its bytes.\<close>

type_synonym file_read = "string + string"

definition LoadCertificate ::
    "('c, 'p) x509 \<Rightarrow> file_read \<Rightarrow> file_read \<Rightarrow> ('c, 'p) CertificateWatcher \<Rightarrow> ('c, 'p) CertificateWatcher \<times> string option" where
  "LoadCertificate lib readCert readKey cw =
     (case readCert of
        Inl e \<Rightarrow> (cw, Some (''reading certificate file '' @ certPath cw @ '': '' @ e))
      | Inr certPEM \<Rightarrow>
          (case readKey of
             Inl e \<Rightarrow> (cw, Some (''reading key file '' @ keyPath cw @ '': '' @ e))
           | Inr keyPEM \<Rightarrow>
               (case X509KeyPair lib certPEM keyPEM of
                  Inl e \<Rightarrow> (cw, Some (''parsing TLS key pair: '' @ e))
                | Inr cert \<Rightarrow> (cw\<lparr>currentCert := Some cert, caCertPool := Some (certPool lib certPEM)\<rparr>, None))))"

section \<open>The callbacks of the TLS server\<close>

definition GetCertificate :: "('c, 'p) CertificateWatcher \<Rightarrow> string + 'c" where
  "GetCertificate cw =
     (case currentCert cw of None \<Rightarrow> Inl ''no certificate loaded'' | Some c \<Rightarrow> Inr c)"

text \<open>
  The configuration for one client. Its certificate callback is the method of the same watcher, so
  it reads the watcher again when it is called.
\<close>

datatype ClientAuthType = NoClientCert | RequireAndVerifyClientCert

record ('c, 'p) tls_config =
  ClientCAs :: "'p option"
  ClientAuth :: ClientAuthType
  GetCertificate_callback :: "('c, 'p) CertificateWatcher \<Rightarrow> string + 'c"
  hasConfigForClient :: bool

definition GetConfigForClient :: "('c, 'p) CertificateWatcher \<Rightarrow> string + ('c, 'p) tls_config" where
  "GetConfigForClient cw =
     (case caCertPool cw of
        None \<Rightarrow> Inl ''no CA certificate pool loaded''
      | Some pool \<Rightarrow>
          Inr \<lparr>ClientCAs = Some pool, ClientAuth = RequireAndVerifyClientCert,
               GetCertificate_callback = GetCertificate, hasConfigForClient = False\<rparr>)"

section \<open>Polling\<close>

text \<open>
  The watcher's goroutine: the watcher with the modification times it saw last, at first the zero
  time. A look at a file's time is \<open>None\<close> when \<open>os.Stat\<close> fails.
\<close>

record ('c, 'p) watch =
  watcher :: "('c, 'p) CertificateWatcher"
  lastCertModTime :: int
  lastKeyModTime :: int

definition zeroModTime :: int where
  "zeroModTime = - 62135596800 * 1000000000"

definition watch_Start :: "int option \<Rightarrow> int option \<Rightarrow> ('c, 'p) CertificateWatcher \<Rightarrow> ('c, 'p) watch" where
  "watch_Start statCert statKey cw =
     \<lparr>watcher = cw,
      lastCertModTime = (case statCert of Some t \<Rightarrow> t | None \<Rightarrow> zeroModTime),
      lastKeyModTime = (case statKey of Some t \<Rightarrow> t | None \<Rightarrow> zeroModTime)\<rparr>"

text \<open>The time to remember, and whether it changed.\<close>

definition modTimeChange :: "int option \<Rightarrow> int \<Rightarrow> int \<times> bool" where
  "modTimeChange stat t =
     (case stat of None \<Rightarrow> (t, False) | Some t' \<Rightarrow> if t' \<noteq> t then (t', True) else (t, False))"

text \<open>What one tick sees: two times and, when one has changed, two reads.\<close>

record looks =
  statCert :: "int option"
  statKey :: "int option"
  readCert :: file_read
  readKey :: file_read

definition watch_tick :: "('c, 'p) x509 \<Rightarrow> looks \<Rightarrow> ('c, 'p) watch \<Rightarrow> ('c, 'p) watch" where
  "watch_tick lib seen st =
     (let (certTime, certChanged) = modTimeChange (statCert seen) (lastCertModTime st);
          (keyTime, keyChanged) = modTimeChange (statKey seen) (lastKeyModTime st);
          st' = st\<lparr>lastCertModTime := certTime, lastKeyModTime := keyTime\<rparr>
      in if certChanged \<or> keyChanged
         then st'\<lparr>watcher := fst (LoadCertificate lib (readCert seen) (readKey seen) (watcher st))\<rparr>
         else st')"

text \<open>\<open>Start\<close> until the context is done: a tick for each element of the list.\<close>

definition watch_run :: "('c, 'p) x509 \<Rightarrow> looks list \<Rightarrow> ('c, 'p) watch \<Rightarrow> ('c, 'p) watch" where
  "watch_run lib looks st = foldl (\<lambda>st seen. watch_tick lib seen st) st looks"

section \<open>Basic facts\<close>

lemma modTimeChange_simps [simp]:
  "modTimeChange None t = (t, False)" "modTimeChange (Some t) t = (t, False)"
  "t' \<noteq> t \<Longrightarrow> modTimeChange (Some t') t = (t', True)"
  by (simp_all add: modTimeChange_def)

lemma LoadCertificate_valid [simp]:
  "X509KeyPair lib c k = Inr x \<Longrightarrow>
     LoadCertificate lib (Inr c) (Inr k) cw = (cw\<lparr>currentCert := Some x, caCertPool := Some (certPool lib c)\<rparr>, None)"
  by (simp add: LoadCertificate_def)

lemma watch_run_Nil [simp]: "watch_run lib [] st = st"
  and watch_run_snoc [simp]: "watch_run lib (looks @ [seen]) st = watch_tick lib seen (watch_run lib looks st)"
  by (simp_all add: watch_run_def)

text \<open>A watcher holds nothing, or a certificate and the pool of the same file; no reload loses it.\<close>

definition cw_ok :: "('c, 'p) x509 \<Rightarrow> ('c, 'p) CertificateWatcher \<Rightarrow> bool" where
  "cw_ok lib cw \<longleftrightarrow>
     currentCert cw = None \<and> caCertPool cw = None \<or>
     (\<exists>c k x. X509KeyPair lib c k = Inr x \<and> currentCert cw = Some x \<and> caCertPool cw = Some (certPool lib c))"

lemma LoadCertificate_cases:
  assumes "LoadCertificate lib rc rk cw = (cw', e)"
  obtains (failed) m where "cw' = cw" "e = Some m"
  | (loaded) c k x where "rc = Inr c" "rk = Inr k" "X509KeyPair lib c k = Inr x" "e = None"
      "cw' = cw\<lparr>currentCert := Some x, caCertPool := Some (certPool lib c)\<rparr>"
  using assms by (auto simp: LoadCertificate_def split: sum.splits)

lemma LoadCertificate_ok: "cw_ok lib cw \<Longrightarrow> LoadCertificate lib rc rk cw = (cw', e) \<Longrightarrow> cw_ok lib cw'"
  by (erule LoadCertificate_cases) (auto simp: cw_ok_def)

lemma LoadCertificate_keeps:
  assumes "currentCert cw = Some x"
  shows "\<exists>y. currentCert (fst (LoadCertificate lib rc rk cw)) = Some y"
proof -
  obtain cw' e where L: "LoadCertificate lib rc rk cw = (cw', e)" by fastforce
  from L assms show ?thesis by (cases rule: LoadCertificate_cases) (auto simp: L)
qed

lemma watch_tick_cases:
  obtains (unchanged) "statCert seen \<in> {None, Some (lastCertModTime st)}"
      "statKey seen \<in> {None, Some (lastKeyModTime st)}" "watch_tick lib seen st = st"
  | (changed) "watcher (watch_tick lib seen st) = fst (LoadCertificate lib (readCert seen) (readKey seen) (watcher st))"
proof (cases "statCert seen \<in> {None, Some (lastCertModTime st)} \<and> statKey seen \<in> {None, Some (lastKeyModTime st)}")
  case True
  then show ?thesis by (intro unchanged) (auto simp: watch_tick_def)
next
  case False
  then show ?thesis
    by (intro changed) (auto simp: watch_tick_def modTimeChange_def Let_def split: option.splits)
qed

lemma watch_tick_times [simp]:
  "lastCertModTime (watch_tick lib seen st) = (case statCert seen of Some t \<Rightarrow> t | None \<Rightarrow> lastCertModTime st)"
  "lastKeyModTime (watch_tick lib seen st) = (case statKey seen of Some t \<Rightarrow> t | None \<Rightarrow> lastKeyModTime st)"
  by (auto simp: watch_tick_def modTimeChange_def Let_def split: option.splits)

lemma watch_tick_ok: "cw_ok lib (watcher st) \<Longrightarrow> cw_ok lib (watcher (watch_tick lib seen st))"
  by (cases rule: watch_tick_cases [of seen st lib]) (metis LoadCertificate_ok prod.collapse)+

lemma watch_tick_keeps:
  "currentCert (watcher st) = Some x \<Longrightarrow> \<exists>y. currentCert (watcher (watch_tick lib seen st)) = Some y"
  by (cases rule: watch_tick_cases [of seen st lib]) (simp_all add: LoadCertificate_keeps)

interpretation watching: invariant_system "\<lambda>st. st = watch_Start c k cw \<and> cw_ok lib cw"
    "\<lambda>st st'. \<exists>seen. st' = watch_tick lib seen st" "\<lambda>st. cw_ok lib (watcher st)"
  for c k cw lib
  by unfold_locales (auto simp: watch_Start_def intro: watch_tick_ok)

section \<open>A rotation\<close>

text \<open>
  A Secret volume is rotated by one swap, which replaces both files at a moment between two looks.
  The initial load makes the looks 0 and 1, \<open>Start\<close> the looks 2 and 3, and a tick the next four.
\<close>

record disk =
  certTime :: int
  keyTime :: int
  certFile :: string
  keyFile :: string

definition swapAt :: "nat \<Rightarrow> disk \<Rightarrow> disk \<Rightarrow> nat \<Rightarrow> disk" where
  "swapAt n old new i = (if i < n then old else new)"

definition looksAt :: "(nat \<Rightarrow> disk) \<Rightarrow> nat \<Rightarrow> looks" where
  "looksAt at j =
     \<lparr>statCert = Some (certTime (at (4 * j + 4))), statKey = Some (keyTime (at (4 * j + 5))),
      readCert = Inr (certFile (at (4 * j + 6))), readKey = Inr (keyFile (at (4 * j + 7)))\<rparr>"

definition watching_disk ::
    "('c, 'p) x509 \<Rightarrow> (nat \<Rightarrow> disk) \<Rightarrow> nat \<Rightarrow> ('c, 'p) CertificateWatcher \<Rightarrow> ('c, 'p) watch" where
  "watching_disk lib at ticks cw =
     watch_run lib (map (looksAt at) [0..<ticks])
       (watch_Start (Some (certTime (at 2))) (Some (keyTime (at 3)))
          (fst (LoadCertificate lib (Inr (certFile (at 0))) (Inr (keyFile (at 1))) cw)))"

lemma watching_disk_Suc [simp]:
  "watching_disk lib at (Suc k) cw = watch_tick lib (looksAt at k) (watching_disk lib at k cw)"
  by (simp add: watching_disk_def)

definition serves :: "('c, 'p) x509 \<Rightarrow> disk \<Rightarrow> 'c \<Rightarrow> ('c, 'p) CertificateWatcher \<Rightarrow> bool" where
  "serves lib d x cw \<longleftrightarrow> GetCertificate cw = Inr x \<and> caCertPool cw = Some (certPool lib (certFile d))"

text \<open>The times of the new files are remembered only together with their certificate.\<close>

definition caughtUp :: "('c, 'p) x509 \<Rightarrow> disk \<Rightarrow> 'c \<Rightarrow> ('c, 'p) watch \<Rightarrow> bool" where
  "caughtUp lib new x st \<longleftrightarrow>
     (lastCertModTime st = certTime new \<and> lastKeyModTime st = keyTime new \<longrightarrow> serves lib new x (watcher st))"

lemma caughtUp_tick:
  assumes "X509KeyPair lib (certFile new) (keyFile new) = Inr x"
    and "certTime new \<noteq> certTime old \<or> keyTime new \<noteq> keyTime old"
    and "caughtUp lib new x st"
  shows "caughtUp lib new x (watch_tick lib (looksAt (swapAt n old new) j) st)"
proof (cases rule: watch_tick_cases [of "looksAt (swapAt n old new) j" st lib])
  case unchanged
  with assms(3) show ?thesis by simp
next
  case changed
  show ?thesis
  proof (cases "4 * j + 5 < n")
    case True
    with assms(2) show ?thesis by (auto simp: caughtUp_def looksAt_def swapAt_def)
  next
    case False
    then have "serves lib new x (watcher (watch_tick lib (looksAt (swapAt n old new) j) st))"
      using changed assms(1) by (simp add: looksAt_def swapAt_def serves_def GetCertificate_def)
    then show ?thesis by (simp add: caughtUp_def)
  qed
qed

lemma caughtUp_run:
  assumes "X509KeyPair lib (certFile new) (keyFile new) = Inr x"
    and "certTime new \<noteq> certTime old \<or> keyTime new \<noteq> keyTime old" and "4 \<le> n"
  shows "caughtUp lib new x (watching_disk lib (swapAt n old new) k cw)"
proof (induction k)
  case 0
  from assms(2,3) show ?case by (auto simp: watching_disk_def caughtUp_def watch_Start_def swapAt_def)
qed (simp add: caughtUp_tick [OF assms(1,2)])

lemma swapped_times:
  assumes "n \<le> 4 * k + 4"
  shows "lastCertModTime (watching_disk lib (swapAt n old new) (Suc k) cw) = certTime new \<and>
    lastKeyModTime (watching_disk lib (swapAt n old new) (Suc k) cw) = keyTime new"
  using assms by (simp add: looksAt_def swapAt_def)

text \<open>Times that were remembered at the start never make the watcher read.\<close>

lemma missed_swap:
  "watching_disk lib (swapAt 2 old new) k cw =
    \<lparr>watcher = fst (LoadCertificate lib (Inr (certFile old)) (Inr (keyFile old)) cw),
     lastCertModTime = certTime new, lastKeyModTime = keyTime new\<rparr>"
  by (induction k) (simp_all add: watching_disk_def watch_Start_def swapAt_def watch_tick_def looksAt_def)

section \<open>Properties\<close>

text \<open>
  C27: when a rotation is served. The files are swapped once, at any moment between two looks of
  the watcher, for a valid pair with at least one new modification time. When the swap comes after
  \<open>Start\<close> took its first times, the watcher serves the new certificate and verifies clients
  against the new pool after every tick that began after the swap, also when the swap fell in the
  middle of an earlier tick. When it comes between the initial load of \<open>main\<close> and \<open>Start\<close>, the old
  certificate is served for ever.
\<close>

theorem rotation_served:
  assumes "X509KeyPair lib (certFile old) (keyFile old) = Inr a"
    and "X509KeyPair lib (certFile new) (keyFile new) = Inr b"
    and "certTime new \<noteq> certTime old \<or> keyTime new \<noteq> keyTime old"
  shows "(4 \<le> n \<and> n \<le> 4 * k + 4 \<longrightarrow>
      serves lib new b (watcher (watching_disk lib (swapAt n old new) (Suc k) (NewCertificateWatcher c p)))) \<and>
    (n = 2 \<longrightarrow>
      serves lib old a (watcher (watching_disk lib (swapAt n old new) (Suc k) (NewCertificateWatcher c p))))"
proof (intro conjI impI)
  assume n: "4 \<le> n \<and> n \<le> 4 * k + 4"
  then have "caughtUp lib new b (watching_disk lib (swapAt n old new) (Suc k) (NewCertificateWatcher c p))"
    by (intro caughtUp_run [OF assms(2,3)]) simp
  then show "serves lib new b (watcher (watching_disk lib (swapAt n old new) (Suc k) (NewCertificateWatcher c p)))"
    using swapped_times [OF n [THEN conjunct2], of lib old new "NewCertificateWatcher c p"]
    by (simp add: caughtUp_def del: watching_disk_Suc)
next
  assume "n = 2"
  then show "serves lib old a (watcher (watching_disk lib (swapAt n old new) (Suc k) (NewCertificateWatcher c p)))"
    using assms(1) by (simp add: missed_swap serves_def GetCertificate_def del: watching_disk_Suc)
qed

text \<open>A key pair is valid when the key names its certificate.\<close>

definition plain_x509 :: "(string, string) x509" where
  "plain_x509 = \<lparr>X509KeyPair = (\<lambda>c k. if k = ''key of '' @ c then Inr c else Inl ''mismatch''), certPool = id\<rparr>"

definition disk_of :: "string \<Rightarrow> int \<Rightarrow> disk" where
  "disk_of c t = \<lparr>certTime = t, keyTime = t, certFile = c, keyFile = ''key of '' @ c\<rparr>"

theorem rotation_served_witness:
  "serves plain_x509 (disk_of ''B'' 2) ''B'' (watcher (watching_disk plain_x509
      (swapAt 6 (disk_of ''A'' 1) (disk_of ''B'' 2)) (Suc 1) (NewCertificateWatcher [] []))) \<and>
   serves plain_x509 (disk_of ''A'' 1) ''A'' (watcher (watching_disk plain_x509
      (swapAt 2 (disk_of ''A'' 1) (disk_of ''B'' 2)) (Suc 8) (NewCertificateWatcher [] [])))"
proof -
  have v: "X509KeyPair plain_x509 (certFile (disk_of c t)) (keyFile (disk_of c t)) = Inr c" for c t
    by (simp add: plain_x509_def disk_of_def)
  have t: "certTime (disk_of ''B'' 2) \<noteq> certTime (disk_of ''A'' 1) \<or> keyTime (disk_of ''B'' 2) \<noteq> keyTime (disk_of ''A'' 1)"
    by (simp add: disk_of_def)
  show ?thesis
    using rotation_served [OF v v t, of 6 1 "[]" "[]"] rotation_served [OF v v t, of 2 8 "[]" "[]"]
    by (simp del: watching_disk_Suc)
qed

end
