(* ===== verification/Operator_Main.thy ===== *)
theory Operator_Main
  imports Port_Registry Build_Controller Cert_Watcher
begin

text \<open>
  The operator's start: \<open>main.go\<close> and \<open>config.go\<close> of \<open>pkg/operator\<close>, and the start of the allocation
  server. The configuration library, the manager and the HTTP server are parameters; the parts that
  \<open>main\<close> builds and the order of its steps are the model's.
\<close>

section \<open>Configuration\<close>

record OperatorConfig = Config +
  ApiServiceSecurity :: string
  TlsSecretName :: string
  TlsSecretNamespace :: string
  TlsCertificateName :: string
  TlsPrivateKeyFilename :: string
  TlsCertDir :: string
  PortRegistryExclusivelyGameServerNodes :: bool
  LogLevel :: string
  cfg_MinPort :: int
  cfg_MaxPort :: int
  AllocationApiSvcPort :: int
  InitContainerImageLinux :: string
  InitContainerImageWin :: string

text \<open>What \<open>env.Parse\<close> makes of an environment without any of the variables.\<close>

definition envDefaults :: OperatorConfig where
  "envDefaults =
     \<lparr>MaxNumberOfGameServersToAdd = 20, MaxNumberOfGameServersToDelete = 20,
      ApiServiceSecurity = ''none'', TlsSecretName = ''tls-secret'',
      TlsSecretNamespace = ''thundernetes-system'', TlsCertificateName = ''tls.crt'',
      TlsPrivateKeyFilename = ''tls.key'', TlsCertDir = ''/tmp/alloc-api-serving-certs'',
      PortRegistryExclusivelyGameServerNodes = False, LogLevel = ''info'',
      cfg_MinPort = 10000, cfg_MaxPort = 12000, AllocationApiSvcPort = 5000,
      InitContainerImageLinux = ''ghcr.io/playfab/thundernetes-initcontainer:0.6.0'',
      InitContainerImageWin = ''ghcr.io/playfab/thundernetes-initcontainer-win:0.6.0''\<rparr>"

datatype Level = DebugLevel | InfoLevel | WarnLevel | ErrorLevel | FatalLevel | PanicLevel

definition getLogLevel :: "string \<Rightarrow> Level" where
  "getLogLevel logLevel =
     (if logLevel = ''debug'' then DebugLevel
      else if logLevel = ''info'' then InfoLevel
      else if logLevel = ''warn'' then WarnLevel
      else if logLevel = ''error'' then ErrorLevel
      else if logLevel = ''fatal'' then FatalLevel
      else if logLevel = ''panic'' then PanicLevel
      else InfoLevel)"

definition validateMinMaxPort :: "OperatorConfig \<Rightarrow> string + int \<times> int" where
  "validateMinMaxPort cfg =
     (if cfg_MaxPort cfg \<le> cfg_MinPort cfg
      then Inl ''MIN_PORT cannot be greater or equal than MAX_PORT''
      else Inr (cfg_MinPort cfg, cfg_MaxPort cfg))"

section \<open>The port registry\<close>

definition startNodeCount :: "OperatorConfig \<Rightarrow> Node list \<Rightarrow> int" where
  "startNodeCount cfg nodes =
     foldl (\<lambda>k node.
         if IsNodeReadyAndSchedulable node
         then (if PortRegistryExclusivelyGameServerNodes cfg \<and> map_get (node_Labels node) [] LabelGameServerNode = ''true''
               then k + 1 else k)
         else k) 0 nodes"

text \<open>\<open>None\<close> when the loop of \<open>NewPortRegistry\<close> does not end.\<close>

definition initializePortRegistry ::
    "api_error + GameServer list \<Rightarrow> api_error + Node list \<Rightarrow> OperatorConfig \<Rightarrow> (string + PortRegistry) option" where
  "initializePortRegistry listGameServers listNodes cfg =
     (case listGameServers of
        Inl e \<Rightarrow> Some (Inl (err_text e))
      | Inr gameServers \<Rightarrow>
          (case listNodes of
             Inl e \<Rightarrow> Some (Inl (err_text e))
           | Inr nodes \<Rightarrow>
               (case validateMinMaxPort cfg of
                  Inl e \<Rightarrow> Some (Inl e)
                | Inr (minPort, maxPort) \<Rightarrow>
                    NewPortRegistry gameServers minPort maxPort (startNodeCount cfg nodes)
                      (PortRegistryExclusivelyGameServerNodes cfg))))"

section \<open>filepath.Join\<close>

text \<open>\<open>filepath.Clean\<close> on a Unix path that is not empty, one element at a time, the last first.\<close>

definition cleanElement :: "bool \<Rightarrow> string list \<Rightarrow> string \<Rightarrow> string list" where
  "cleanElement rooted acc c =
     (if c = [] \<or> c = ''.'' then acc
      else if c = ''..'' then
        (case acc of [] \<Rightarrow> if rooted then [] else [c] | x # xs \<Rightarrow> if x = ''..'' then c # acc else xs)
      else c # acc)"

definition joinSlash :: "string list \<Rightarrow> string" where
  "joinSlash cs = (case cs of [] \<Rightarrow> [] | x # xs \<Rightarrow> x @ concat (map (\<lambda>y. CHR ''/'' # y) xs))"

definition cleanPath :: "string \<Rightarrow> string" where
  "cleanPath s =
     (let rooted = (s \<noteq> [] \<and> hd s = CHR ''/'');
          path = joinSlash (rev (foldl (cleanElement rooted) [] (split_on (CHR ''/'') s)))
      in if rooted then CHR ''/'' # path else if path = [] then ''.'' else path)"

definition filepathJoin :: "string list \<Rightarrow> string" where
  "filepathJoin es = (case filter (\<lambda>e. e \<noteq> []) es of [] \<Rightarrow> [] | es' \<Rightarrow> cleanPath (joinSlash es'))"

section \<open>The allocation server\<close>

text \<open>The address, and the TLS configuration when there is a certificate watcher.\<close>

definition alloc_addr :: "(string \<rightharpoonup> string) \<Rightarrow> int \<Rightarrow> string" where
  "alloc_addr env listeningPort =
     (let addr = map_get env [] ''API_LISTEN'' in if addr = [] then '':'' @ itoa listeningPort else addr)"

definition alloc_tlsConfig :: "('c, 'p) tls_config" where
  "alloc_tlsConfig =
     \<lparr>ClientCAs = None, ClientAuth = RequireAndVerifyClientCert,
      GetCertificate_callback = GetCertificate, hasConfigForClient = True\<rparr>"

datatype serve_end = ErrServerClosed | ServeError string

text \<open>\<open>Start\<close>: what is served until the server ends, and the error it then returns.\<close>

definition alloc_Start ::
    "(string \<rightharpoonup> string) \<Rightarrow> int \<Rightarrow> ('c, 'p) CertificateWatcher option \<Rightarrow>
     (string \<Rightarrow> ('c, 'p) tls_config option \<Rightarrow> serve_end) \<Rightarrow> string option" where
  "alloc_Start env listeningPort certWatcher listenAndServe =
     (case listenAndServe (alloc_addr env listeningPort) (map_option (\<lambda>_. alloc_tlsConfig) certWatcher) of
        ErrServerClosed \<Rightarrow> None
      | ServeError e \<Rightarrow> Some e)"

section \<open>main\<close>

record operator_flags =
  metricsAddr :: string
  probeAddr :: string
  enableLeaderElection :: bool

definition defaultFlags :: operator_flags where
  "defaultFlags = \<lparr>metricsAddr = '':8080'', probeAddr = '':8081'', enableLeaderElection = False\<rparr>"

record manager_options =
  mo_MetricsAddr :: string
  mo_WebhookPort :: int
  mo_ProbeAddr :: string
  mo_LeaderElection :: bool
  mo_LeaderElectionID :: string

definition managerOptions :: "operator_flags \<Rightarrow> manager_options" where
  "managerOptions fl =
     \<lparr>mo_MetricsAddr = metricsAddr fl, mo_WebhookPort = 9443, mo_ProbeAddr = probeAddr fl,
      mo_LeaderElection = enableLeaderElection fl, mo_LeaderElectionID = ''25951049.playfab.com''\<rparr>"

text \<open>The steps that the manager carries out for \<open>main\<close>, each with what it is given.\<close>

datatype setup_step =
    AddCertWatcher
  | SetupAllocationApi int
  | SetupPortRegistry
  | SetupGameServer string string
  | SetupGameServerBuild Config
  | WebhookGameServerBuild
  | WebhookGameServer
  | AddHealthz
  | AddReadyz
  | StartManager

record ('c, 'p) main_api =
  ma_x509 :: "('c, 'p) x509"
  ma_readFile :: "string \<Rightarrow> file_read"
  ma_NewManager :: "manager_options \<Rightarrow> string option"
  ma_step :: "setup_step \<Rightarrow> string option"
  ma_gameServers :: "api_error + GameServer list"
  ma_nodes :: "api_error + Node list"

record ('c, 'p) operator =
  op_certWatcher :: "('c, 'p) CertificateWatcher option"
  op_portRegistry :: PortRegistry

text \<open>
  The end of \<open>main\<close>: a fatal log, an exit with the logged message and its error, a loop that does
  not end, or the manager has run, with the parts it ran.
\<close>

datatype ('c, 'p) main_result =
    MainFatal string
  | MainExit string string
  | MainLoops
  | MainRan "('c, 'p) operator"

definition orExit :: "string \<Rightarrow> string option \<Rightarrow> ('c, 'p) main_result \<Rightarrow> ('c, 'p) main_result" where
  "orExit msg err rest = (case err of Some e \<Rightarrow> MainExit msg e | None \<Rightarrow> rest)"

definition initialWatcher :: "('c, 'p) main_api \<Rightarrow> OperatorConfig \<Rightarrow> ('c, 'p) CertificateWatcher \<times> string option" where
  "initialWatcher api cfg =
     (let cert = filepathJoin [TlsCertDir cfg, TlsCertificateName cfg];
          key = filepathJoin [TlsCertDir cfg, TlsPrivateKeyFilename cfg]
      in LoadCertificate (ma_x509 api) (ma_readFile api cert) (ma_readFile api key) (NewCertificateWatcher cert key))"

definition setupControllers ::
    "('c, 'p) main_api \<Rightarrow> OperatorConfig \<Rightarrow> ('c, 'p) CertificateWatcher option \<Rightarrow> ('c, 'p) main_result" where
  "setupControllers api cfg certWatcher =
     orExit ''unable to create HTTP allocation API Server''
       (ma_step api (SetupAllocationApi (wrap32 (AllocationApiSvcPort cfg))))
       (case initializePortRegistry (ma_gameServers api) (ma_nodes api) cfg of
          None \<Rightarrow> MainLoops
        | Some (Inl e) \<Rightarrow> MainExit ''unable to initialize portRegistry'' e
        | Some (Inr portRegistry) \<Rightarrow>
            orExit ''unable to create controller'' (ma_step api SetupPortRegistry)
            (orExit ''unable to create controller''
               (ma_step api (SetupGameServer (InitContainerImageLinux cfg) (InitContainerImageWin cfg)))
            (orExit ''unable to create controller'' (ma_step api (SetupGameServerBuild (Config.truncate cfg)))
            (orExit ''unable to create webhook'' (ma_step api WebhookGameServerBuild)
            (orExit ''unable to create webhook'' (ma_step api WebhookGameServer)
            (orExit ''unable to set up health check'' (ma_step api AddHealthz)
            (orExit ''unable to set up ready check'' (ma_step api AddReadyz)
            (orExit ''problem running manager'' (ma_step api StartManager)
               (MainRan \<lparr>op_certWatcher = certWatcher, op_portRegistry = portRegistry\<rparr>)))))))))"

definition operator_main ::
    "('c, 'p) main_api \<Rightarrow> string + OperatorConfig \<Rightarrow> operator_flags \<Rightarrow> ('c, 'p) main_result" where
  "operator_main api parsed fl =
     (case parsed of
        Inl e \<Rightarrow> MainFatal e
      | Inr cfg \<Rightarrow>
          orExit ''unable to start manager'' (ma_NewManager api (managerOptions fl))
          (if ApiServiceSecurity cfg = ''usetls''
           then (case initialWatcher api cfg of
                   (_, Some e) \<Rightarrow> MainExit ''unable to load initial TLS certificate for allocation API'' e
                 | (w, None) \<Rightarrow>
                     orExit ''unable to add certificate watcher to manager'' (ma_step api AddCertWatcher)
                       (setupControllers api cfg (Some w)))
           else setupControllers api cfg None))"

section \<open>Basic facts\<close>

lemma orExit_ran [simp]: "orExit msg err rest = MainRan op \<longleftrightarrow> err = None \<and> rest = MainRan op"
  by (cases err) (simp_all add: orExit_def)

lemma startNodeCount_loop:
  "foldl (\<lambda>k node. if P node then (if Q node then k + 1 else k) else k) a nodes =
    a + int (length (filter P (filter Q nodes)))"
  by (induction nodes arbitrary: a) simp_all

lemma startNodeCount_eq:
  "startNodeCount cfg nodes =
    (if PortRegistryExclusivelyGameServerNodes cfg then schedulableCount (filter isNodeGameServerNode nodes) else 0)"
proof -
  have l: "map_get (node_Labels node) [] LabelGameServerNode = ''true'' \<longleftrightarrow> isNodeGameServerNode node" for node
    by (auto simp: map_get_def isNodeGameServerNode_def split: option.splits)
  show ?thesis by (auto simp: startNodeCount_def startNodeCount_loop schedulableCount_def l)
qed

lemma useSpecific_assign [simp]:
  "useSpecificNodePool (assignRegisteredPorts pr ps) = useSpecificNodePool pr"
  by (induction ps arbitrary: pr) (simp_all add: assignRegisteredPorts_def assignRegisteredPort_def)

lemma NewPortRegistry_fields:
  assumes "NewPortRegistry gss lo hi nodes u = Some (Inr pr)"
  shows "NodeCount pr = nodes \<and> useSpecificNodePool pr = u \<and> MinPort pr = lo \<and> MaxPort pr = hi \<and>
    FreePortsCount pr = nodes * wrap32 (wrap32 (hi - lo) + 1) - int (length (startupPorts gss))"
  using assms
  by (auto simp: NewPortRegistry_def foldl_registerGameServer assignRegisteredPorts_spec split: if_splits)

lemma initializePortRegistry_ok:
  assumes "initializePortRegistry listGameServers listNodes cfg = Some (Inr pr)"
  obtains gss nodes where "listGameServers = Inr gss" "listNodes = Inr nodes" "cfg_MinPort cfg < cfg_MaxPort cfg"
    "NewPortRegistry gss (cfg_MinPort cfg) (cfg_MaxPort cfg) (startNodeCount cfg nodes)
       (PortRegistryExclusivelyGameServerNodes cfg) = Some (Inr pr)"
  using assms by (auto simp: initializePortRegistry_def validateMinMaxPort_def split: sum.splits if_splits)

section \<open>Properties\<close>


definition plain_main_api :: "(string, string) main_api" where
  "plain_main_api =
     \<lparr>ma_x509 = plain_x509,
      ma_readFile = (\<lambda>p. if p = ''/tmp/alloc-api-serving-certs/tls.crt'' then Inr ''A''
        else if p = ''/tmp/alloc-api-serving-certs/tls.key'' then Inr ''key of A'' else Inl ''missing''),
      ma_NewManager = (\<lambda>_. None), ma_step = (\<lambda>_. None), ma_gameServers = Inr [], ma_nodes = Inr []\<rparr>"

lemma plain_paths:
  "filepathJoin [TlsCertDir envDefaults, TlsCertificateName envDefaults] = ''/tmp/alloc-api-serving-certs/tls.crt''"
  "filepathJoin [TlsCertDir envDefaults, TlsPrivateKeyFilename envDefaults] = ''/tmp/alloc-api-serving-certs/tls.key''"
  by (simp_all add: filepathJoin_def envDefaults_def cleanPath_def joinSlash_def cleanElement_def Let_def)

lemma plain_registry:
  "initializePortRegistry (Inr []) (Inr nodes) envDefaults = Some (Inr
     \<lparr>HostPortsUsage = (\<lambda>p. if 10000 \<le> p \<and> p \<le> 12000 then Some 0 else None), HostPortsPerGameServer = Map.empty,
      NodeCount = 0, MinPort = 10000, MaxPort = 12000, FreePortsCount = 0, nextPortNumber = 10000,
      useSpecificNodePool = False\<rparr>)"
  by (simp add: initializePortRegistry_def validateMinMaxPort_def envDefaults_def startNodeCount_eq
      NewPortRegistry_def initUsage_Some)


text \<open>
  The node count that the registry starts with, against the one its reconciler would compute
  from the same nodes. With the exclusive pool of nodes they are equivalent, and the first \<open>Reconcile\<close>
  changes nothing. Without it, the default, the registry starts with no nodes at all: it refuses
  every request for a port until \<open>Reconcile\<close> runs for a node event and counts them.
\<close>

lemma start_count_equivalence:
  assumes "initializePortRegistry listGameServers (Inr nodes) cfg = Some (Inr pr)"
    and "listNodes None = Inr nodes"
    and "listNodes (Some (LabelGameServerNode, ''true'')) = Inr (filter isNodeGameServerNode nodes)"
  shows "(PortRegistryExclusivelyGameServerNodes cfg \<longrightarrow>
      NodeCount pr = schedulableCount (filter isNodeGameServerNode nodes) \<and> Reconcile pr listNodes = (pr, None)) \<and>
    (\<not> PortRegistryExclusivelyGameServerNodes cfg \<longrightarrow>
      NodeCount pr = 0 \<and> NodeCount (fst (Reconcile pr listNodes)) = schedulableCount nodes \<and>
      (\<forall>ns name k. 0 < k \<longrightarrow> GetNewPorts pr ns name k = (pr, Inl NotEnoughFreePorts)))"
proof -
  obtain gss where N: "NewPortRegistry gss (cfg_MinPort cfg) (cfg_MaxPort cfg) (startNodeCount cfg nodes)
      (PortRegistryExclusivelyGameServerNodes cfg) = Some (Inr pr)"
    using assms(1) by (rule initializePortRegistry_ok) simp
  note F = NewPortRegistry_fields [OF N, unfolded startNodeCount_eq]
  show ?thesis
  proof (cases "PortRegistryExclusivelyGameServerNodes cfg")
    case True
    with F assms(3) show ?thesis by (simp add: Reconcile_def)
  next
    case False
    have e: "snd (Reconcile pr listNodes) = None" using F False assms(2) by (simp add: Reconcile_def Let_def)
    have R: "Reconcile pr listNodes = (fst (Reconcile pr listNodes), None)"
      using e by (metis prod.collapse)
    from False F assms(2) have "NodeCount (fst (Reconcile pr listNodes)) = schedulableCount nodes"
      using Reconcile_count [OF R] by auto
    with False F show ?thesis by (auto simp: GetNewPorts_def)
  qed
qed

definition ready_node :: Node where
  "ready_node = \<lparr>node_Name = ''n1'', node_Labels = Map.empty, node_Unschedulable = False,
     node_Conditions = [(NodeReady, ConditionTrue)], node_Addresses = [], node_CreationTimestamp = 0\<rparr>"

lemma start_count_equivalence_witness:
  "\<exists>pr. initializePortRegistry (Inr []) (Inr [ready_node]) envDefaults = Some (Inr pr) \<and>
     GetNewPorts pr ''default'' ''gs'' 1 = (pr, Inl NotEnoughFreePorts)"
proof -
  let ?list = "\<lambda>sel. Inr (if sel = None then [ready_node] else []) :: api_error + Node list"
  have "\<not> isNodeGameServerNode ready_node" by (simp add: isNodeGameServerNode_def ready_node_def)
  then show ?thesis
    using start_count_equivalence [OF plain_registry, of ?list "[ready_node]"] plain_registry
    by (auto simp: envDefaults_def)
qed

end
