(* ===== verification/Go_Heap.thy ===== *)
theory Go_Heap
  imports Prelude
begin

text \<open>
  The functions of Go's \<open>container/heap\<close> that the allocation queue is built on
  (\<open>Push\<close>, \<open>Pop\<close>, \<open>Remove\<close> with their \<open>up\<close> and \<open>down\<close>), on a slice given as a list and
  a \<open>Less\<close> given as a relation on the elements. \<open>Pop\<close> and \<open>Remove\<close> return \<open>None\<close> where
  Go would panic with an index out of range. The locale \<open>min_queue\<close> is the contract the
  queue's clients rely on; the heap functions are shown to provide it in the theory of the queue.
\<close>

section \<open>The functions of container/heap\<close>

definition swap_at :: "'a list \<Rightarrow> nat \<Rightarrow> nat \<Rightarrow> 'a list" where
  "swap_at h i j = h[i := h ! j, j := h ! i]"

function heap_up :: "('a \<Rightarrow> 'a \<Rightarrow> bool) \<Rightarrow> 'a list \<Rightarrow> nat \<Rightarrow> 'a list" where
  "heap_up lt h j =
     (let i = (j - 1) div 2
      in if i = j \<or> \<not> lt (h ! j) (h ! i) then h
         else heap_up lt (swap_at h i j) i)"
  by pat_completeness auto
termination
  by (relation "measure (\<lambda>(lt, h, j). j)") auto

function heap_down :: "('a \<Rightarrow> 'a \<Rightarrow> bool) \<Rightarrow> 'a list \<Rightarrow> nat \<Rightarrow> nat \<Rightarrow> 'a list \<times> nat" where
  "heap_down lt h i n =
     (let j1 = 2 * i + 1
      in if n \<le> j1 then (h, i)
         else let j = (if j1 + 1 < n \<and> lt (h ! (j1 + 1)) (h ! j1) then j1 + 1 else j1)
              in if \<not> lt (h ! j) (h ! i) then (h, i)
                 else heap_down lt (swap_at h i j) j n)"
  by pat_completeness auto
termination
  by (relation "measure (\<lambda>(lt, h, i, n). n - i)") (auto simp: Let_def split: if_splits)

declare heap_up.simps [simp del] heap_down.simps [simp del]

definition heap_Push :: "('a \<Rightarrow> 'a \<Rightarrow> bool) \<Rightarrow> 'a list \<Rightarrow> 'a \<Rightarrow> 'a list" where
  "heap_Push lt h x = heap_up lt (h @ [x]) (length h)"

definition slice_Pop :: "'a list \<Rightarrow> 'a \<times> 'a list" where
  "slice_Pop h = (last h, butlast h)"

definition heap_Pop :: "('a \<Rightarrow> 'a \<Rightarrow> bool) \<Rightarrow> 'a list \<Rightarrow> ('a \<times> 'a list) option" where
  "heap_Pop lt h =
     (if h = [] then None
      else let n = length h - 1
           in Some (slice_Pop (fst (heap_down lt (swap_at h 0 n) 0 n))))"

definition heap_Remove :: "('a \<Rightarrow> 'a \<Rightarrow> bool) \<Rightarrow> 'a list \<Rightarrow> nat \<Rightarrow> ('a \<times> 'a list) option" where
  "heap_Remove lt h i =
     (if length h \<le> i then None
      else let n = length h - 1
           in if n = i then Some (slice_Pop h)
              else let (h1, k) = heap_down lt (swap_at h i n) i n
                   in Some (slice_Pop (if i < k then h1 else heap_up lt h1 i)))"

section \<open>Swaps, lengths and contents\<close>

lemma length_swap_at [simp]: "length (swap_at h i j) = length h"
  by (simp add: swap_at_def)

lemma nth_swap_at:
  "i < length h \<Longrightarrow> j < length h \<Longrightarrow> k < length h \<Longrightarrow>
   swap_at h i j ! k = (if k = i then h ! j else if k = j then h ! i else h ! k)"
  by (auto simp: swap_at_def nth_list_update)

lemma mset_swap_at [simp]:
  "i < length h \<Longrightarrow> j < length h \<Longrightarrow> mset (swap_at h i j) = mset h"
  by (simp add: swap_at_def mset_swap)

lemma length_heap_up [simp]: "length (heap_up lt h j) = length h"
  by (induction lt h j rule: heap_up.induct) (subst heap_up.simps, auto simp: Let_def)

lemma mset_heap_up: "j < length h \<Longrightarrow> mset (heap_up lt h j) = mset h"
proof (induction lt h j rule: heap_up.induct)
  case (1 lt h j)
  then show ?case
    by (subst heap_up.simps) (auto simp: Let_def)
qed

lemma length_heap_down [simp]: "length (fst (heap_down lt h i n)) = length h"
  by (induction lt h i n rule: heap_down.induct) (subst heap_down.simps, auto simp: Let_def)

lemma mset_heap_down: "n \<le> length h \<Longrightarrow> mset (fst (heap_down lt h i n)) = mset h"
proof (induction lt h i n rule: heap_down.induct)
  case (1 lt h i n)
  show ?case
  proof (cases "n \<le> 2 * i + 1")
    case True
    then show ?thesis by (subst heap_down.simps) (simp add: Let_def)
  next
    case False
    with 1 show ?thesis by (subst heap_down.simps) (auto simp: Let_def)
  qed
qed

text \<open>\<open>down\<close> does not touch what lies at or beyond its bound.\<close>

lemma heap_down_beyond:
  "n \<le> length h \<Longrightarrow> n \<le> k \<Longrightarrow> k < length h \<Longrightarrow> fst (heap_down lt h i n) ! k = h ! k"
proof (induction lt h i n rule: heap_down.induct)
  case (1 lt h i n)
  show ?case
  proof (cases "n \<le> 2 * i + 1")
    case True
    then show ?thesis by (subst heap_down.simps) (simp add: Let_def)
  next
    case False
    with 1 show ?thesis by (subst heap_down.simps) (auto simp: Let_def nth_swap_at)
  qed
qed

section \<open>The heap order\<close>

definition par :: "nat \<Rightarrow> nat" where
  "par c = (c - 1) div 2"

lemma par_less: "0 < c \<Longrightarrow> par c < c"
  by (auto simp: par_def)

lemma par_eq_iff: "0 < c \<Longrightarrow> par c = i \<longleftrightarrow> c = 2 * i + 1 \<or> c = 2 * i + 2"
  by (auto simp: par_def)

lemma par_child [simp]: "par (2 * i + 1) = i" "par (2 * i + 2) = i" "par (Suc (2 * i)) = i"
  "par (Suc (Suc (2 * i))) = i"
  by (auto simp: par_def)

definition edge_ok :: "('a \<Rightarrow> 'k::linorder) \<Rightarrow> 'a list \<Rightarrow> nat \<Rightarrow> bool" where
  "edge_ok key h c \<longleftrightarrow> key (h ! par c) \<le> key (h ! c)"

definition heap_ok :: "('a \<Rightarrow> 'k::linorder) \<Rightarrow> 'a list \<Rightarrow> nat \<Rightarrow> bool" where
  "heap_ok key h n \<longleftrightarrow> (\<forall>c. 0 < c \<longrightarrow> c < n \<longrightarrow> edge_ok key h c)"

text \<open>The children of \<open>i\<close> are not smaller than the parent of \<open>i\<close>.\<close>

definition bridged :: "('a \<Rightarrow> 'k::linorder) \<Rightarrow> 'a list \<Rightarrow> nat \<Rightarrow> nat \<Rightarrow> bool" where
  "bridged key h n i \<longleftrightarrow>
     (\<forall>c. 0 < i \<longrightarrow> 0 < c \<longrightarrow> c < n \<longrightarrow> par c = i \<longrightarrow> key (h ! par i) \<le> key (h ! c))"

text \<open>A heap but for the edge above \<open>j\<close>, and one but for the edges around \<open>i\<close>.\<close>

definition up_ok :: "('a \<Rightarrow> 'k::linorder) \<Rightarrow> 'a list \<Rightarrow> nat \<Rightarrow> nat \<Rightarrow> bool" where
  "up_ok key h n j \<longleftrightarrow>
     (\<forall>c. 0 < c \<longrightarrow> c < n \<longrightarrow> c \<noteq> j \<longrightarrow> edge_ok key h c) \<and> bridged key h n j"

definition down_ok :: "('a \<Rightarrow> 'k::linorder) \<Rightarrow> 'a list \<Rightarrow> nat \<Rightarrow> nat \<Rightarrow> bool" where
  "down_ok key h n i \<longleftrightarrow>
     (\<forall>c. 0 < c \<longrightarrow> c < n \<longrightarrow> c \<noteq> i \<longrightarrow> par c \<noteq> i \<longrightarrow> edge_ok key h c) \<and> bridged key h n i"

lemma heap_ok_root_le:
  assumes "heap_ok key h n" and "c < n"
  shows "key (h ! 0) \<le> key (h ! c)"
  using assms(2)
proof (induction c rule: less_induct)
  case (less c)
  show ?case
  proof (cases "c = 0")
    case True
    then show ?thesis by simp
  next
    case False
    then have "par c < c" by (simp add: par_less)
    with less have "key (h ! 0) \<le> key (h ! par c)" by simp
    moreover have "key (h ! par c) \<le> key (h ! c)"
      using assms(1) less.prems False by (auto simp: heap_ok_def edge_ok_def)
    ultimately show ?thesis by simp
  qed
qed

lemma heap_ok_mono: "heap_ok key h n \<Longrightarrow> m \<le> n \<Longrightarrow> heap_ok key h m"
  by (auto simp: heap_ok_def)

lemma heap_ok_cong:
  "(\<And>c. c < n \<Longrightarrow> h ! c = g ! c) \<Longrightarrow> heap_ok key h n = heap_ok key g n"
  unfolding heap_ok_def edge_ok_def
  by (metis less_trans par_less)

text \<open>One swap of \<open>up\<close> and one of \<open>down\<close>.\<close>

lemma up_ok_swap:
  assumes ok: "up_ok key h n j" and n: "n \<le> length h" and j: "j < n" "0 < j"
    and less: "key (h ! j) < key (h ! par j)"
  shows "up_ok key (swap_at h (par j) j) n (par j)"
proof -
  let ?i = "par j" and ?h = "swap_at h (par j) j"
  have i: "?i < j" using j by (simp add: par_less)
  then have i': "?i < length h" "j < length h" "?i < n" using j n by auto
  have nth: "?h ! k = (if k = ?i then h ! j else if k = j then h ! ?i else h ! k)"
    if "k < n" for k
    using that i' n by (simp add: nth_swap_at)
  have edge: "key (h ! par c) \<le> key (h ! c)" if "0 < c" "c < n" "c \<noteq> j" for c
    using ok that by (simp add: up_ok_def edge_ok_def)
  have bridge: "key (h ! ?i) \<le> key (h ! c)" if "0 < c" "c < n" "par c = j" for c
    using ok that j by (simp add: up_ok_def bridged_def)
  have edge': "edge_ok key ?h c" if c: "0 < c" "c < n" "c \<noteq> ?i" for c
  proof -
    have pc: "par c < n" using par_less [OF c(1)] c(2) by simp
    consider "c = j" | "c \<noteq> j" "par c = j" | "c \<noteq> j" "par c = ?i" | "c \<noteq> j" "par c \<noteq> j" "par c \<noteq> ?i"
      by blast
    then show ?thesis
    proof cases
      case 1
      then show ?thesis using less i j c i' by (auto simp: edge_ok_def nth)
    next
      case 2
      then show ?thesis
        using bridge [OF c(1,2)] i c i' j by (auto simp: edge_ok_def nth)
    next
      case 3
      then show ?thesis
        using edge [OF c(1,2)] less i c i' j by (auto simp: edge_ok_def nth)
    next
      case 4
      then show ?thesis
        using edge [OF c(1,2)] c pc by (auto simp: edge_ok_def nth)
    qed
  qed
  have "bridged key ?h n ?i"
    unfolding bridged_def
  proof (intro allI impI)
    fix c assume c: "0 < ?i" "0 < c" "c < n" "par c = ?i"
    have pi: "par ?i < ?i" "par ?i < n" using c(1) i i' par_less [of ?i] by auto
    have top: "key (h ! par ?i) \<le> key (h ! ?i)"
      using edge [of ?i] c(1) i j by simp
    have "key (h ! ?i) \<le> key (h ! c)" if "c \<noteq> j"
      using edge [OF c(2,3) that] c(4) by simp
    moreover have "c \<noteq> ?i" using c par_less [of c] by simp
    ultimately show "key (?h ! par ?i) \<le> key (?h ! c)"
      using top pi i j c by (auto simp: nth intro: order_trans)
  qed
  with edge' show ?thesis by (simp add: up_ok_def)
qed

lemma heap_up_ok:
  "up_ok key h n j \<Longrightarrow> n \<le> length h \<Longrightarrow> j < n \<Longrightarrow>
   heap_ok key (heap_up (\<lambda>x y. key x < key y) h j) n"
proof (induction "\<lambda>x y. key x < key y" h j rule: heap_up.induct)
  case (1 h j)
  show ?case
  proof (cases "par j = j \<or> \<not> key (h ! j) < key (h ! par j)")
    case True
    then have "heap_up (\<lambda>x y. key x < key y) h j = h"
      by (subst heap_up.simps) (simp add: par_def)
    moreover have "j = 0 \<or> edge_ok key h j"
      using True by (cases "j = 0") (auto simp: edge_ok_def dest: par_less)
    ultimately show ?thesis
      using "1.prems" by (auto simp: heap_ok_def up_ok_def)
  next
    case False
    then have j: "0 < j" by (cases "j = 0") (auto simp: par_def)
    have "up_ok key (swap_at h (par j) j) n (par j)"
      using "1.prems" False j by (intro up_ok_swap) auto
    moreover have "par j < n" using "1.prems" par_less [OF j] by simp
    ultimately have "heap_ok key (heap_up (\<lambda>x y. key x < key y) (swap_at h (par j) j) (par j)) n"
      using 1 False by (simp add: par_def)
    moreover have "heap_up (\<lambda>x y. key x < key y) h j =
        heap_up (\<lambda>x y. key x < key y) (swap_at h (par j) j) (par j)"
      using False by (subst heap_up.simps) (simp add: par_def Let_def)
    ultimately show ?thesis by simp
  qed
qed

text \<open>
  After one swap of \<open>down\<close> from \<open>i\<close> to its smaller child \<open>j\<close>, the edge above \<open>j\<close> is right
  and only the edges below it may be wrong.
\<close>

lemma down_ok_swap:
  assumes ok: "down_ok key h n i" and n: "n \<le> length h" and j: "j < n" "0 < j" "par j = i"
    and least: "\<And>c. 0 < c \<Longrightarrow> c < n \<Longrightarrow> par c = i \<Longrightarrow> key (h ! j) \<le> key (h ! c)"
    and less: "key (h ! j) < key (h ! i)"
  shows "down_ok key (swap_at h i j) n j \<and> edge_ok key (swap_at h i j) j \<and>
    (0 < i \<longrightarrow> edge_ok key (swap_at h i j) i)"
proof -
  let ?h = "swap_at h i j"
  have i: "i < j" using j par_less by blast
  have nth: "?h ! k = (if k = i then h ! j else if k = j then h ! i else h ! k)"
    if "k < n" for k
    using that i j n by (simp add: nth_swap_at)
  have edge: "key (h ! par c) \<le> key (h ! c)" if "0 < c" "c < n" "c \<noteq> i" "par c \<noteq> i" for c
    using ok that by (simp add: down_ok_def edge_ok_def)
  have above: "edge_ok key ?h i" if "0 < i"
  proof -
    have "par i < i" using that by (rule par_less)
    then have "par i < n" "par i \<noteq> i" "par i \<noteq> j" using i j by auto
    then show ?thesis
      using ok that i j by (simp add: edge_ok_def nth down_ok_def bridged_def)
  qed
  have below: "edge_ok key ?h j"
    using less i j by (auto simp: edge_ok_def nth)
  have rest: "edge_ok key ?h c" if c: "0 < c" "c < n" "c \<noteq> j" "par c \<noteq> j" for c
  proof -
    have pc: "par c < n" using par_less [OF c(1)] c(2) by simp
    consider "c = i" | "c \<noteq> i" "par c = i" | "c \<noteq> i" "par c \<noteq> i" by blast
    then show ?thesis
    proof cases
      case 1
      then show ?thesis using above c by simp
    next
      case 2
      then show ?thesis using least [OF c(1,2)] c i pc by (auto simp: edge_ok_def nth [OF c(2)] nth)
    next
      case 3
      then show ?thesis using edge [OF c(1,2)] c by (simp add: edge_ok_def nth [OF c(2)] nth [OF pc])
    qed
  qed
  have "bridged key ?h n j"
    unfolding bridged_def
  proof (intro allI impI)
    fix c assume c: "0 < j" "0 < c" "c < n" "par c = j"
    then have "j < c" using par_less by blast
    then have "key (h ! j) \<le> key (h ! c)" using edge [of c] c i j by simp
    then show "key (?h ! par j) \<le> key (?h ! c)"
      using \<open>j < c\<close> i j c by (simp add: nth)
  qed
  with rest below above show ?thesis by (auto simp: down_ok_def)
qed

text \<open>
  \<open>down\<close> from \<open>i\<close>: if it moved the element, the result is a heap below \<open>n\<close>; if not, the
  slice is unchanged and only the edge above \<open>i\<close> may be wrong.
\<close>

lemma heap_down_ok:
  assumes "down_ok key h n i" and "n \<le> length h"
    and "heap_down (\<lambda>x y. key x < key y) h i n = (h', k)"
  shows "(i < k \<longrightarrow> heap_ok key h' n) \<and> (k \<le> i \<longrightarrow> h' = h \<and> up_ok key h n i) \<and> i \<le> k"
  using assms
proof (induction "\<lambda>x y. key x < key y" h i n arbitrary: h' k rule: heap_down.induct)
  case (1 h i n)
  let ?less = "\<lambda>x y. key x < key y"
  let ?j1 = "2 * i + 1"
  let ?j = "if ?j1 + 1 < n \<and> key (h ! (?j1 + 1)) < key (h ! ?j1) then ?j1 + 1 else ?j1"
  note D = "1.prems"(1) and N = "1.prems"(2) and R = "1.prems"(3)
  have unf: "heap_down ?less h i n =
      (if n \<le> ?j1 then (h, i) else if \<not> key (h ! ?j) < key (h ! i) then (h, i)
       else heap_down ?less (swap_at h i ?j) ?j n)"
    by (subst heap_down.simps) (simp only: Let_def)
  show ?case
  proof (cases "n \<le> ?j1")
    case True
    then have "h' = h" "k = i" using R unf by auto
    moreover have "up_ok key h n i"
      using D True by (auto simp: up_ok_def down_ok_def par_eq_iff)
    ultimately show ?thesis by simp
  next
    case False
    have least: "key (h ! ?j) \<le> key (h ! c)" if "0 < c" "c < n" "par c = i" for c
      using that False by (auto simp: par_eq_iff)
    have j: "?j < n" "0 < ?j" "par ?j = i" using False by auto
    show ?thesis
    proof (cases "key (h ! ?j) < key (h ! i)")
      case stop: False
      then have "h' = h \<and> k = i" using R False unf by (simp only: if_False if_True not_False_eq_True prod.inject)
      then have "h' = h" "k = i" by blast+
      moreover have "edge_ok key h c" if "0 < c" "c < n" "c \<noteq> i" for c
        using that D least [OF that(1,2)] stop by (cases "par c = i") (auto simp: down_ok_def edge_ok_def)
      then have "up_ok key h n i" using D by (simp add: up_ok_def down_ok_def)
      ultimately show ?thesis by simp
    next
      case True
      have R': "heap_down ?less (swap_at h i ?j) ?j n = (h', k)"
        using R False True unf by (simp only: if_False if_True not_True_eq_False)
      have S: "down_ok key (swap_at h i ?j) n ?j \<and> edge_ok key (swap_at h i ?j) ?j \<and>
          (0 < i \<longrightarrow> edge_ok key (swap_at h i ?j) i)"
        by (rule down_ok_swap [OF D N j least True])
      have IH: "(?j < k \<longrightarrow> heap_ok key h' n) \<and>
          (k \<le> ?j \<longrightarrow> h' = swap_at h i ?j \<and> up_ok key (swap_at h i ?j) n ?j) \<and> ?j \<le> k"
        by (rule "1.hyps" [OF refl False refl]) (use True S N R' in auto)
      have "heap_ok key h' n" if "k \<le> ?j"
      proof -
        have "h' = swap_at h i ?j" and "up_ok key (swap_at h i ?j) n ?j" using IH that by auto
        then show ?thesis using S unfolding heap_ok_def up_ok_def by blast
      qed
      then have "heap_ok key h' n" using IH by (cases "k \<le> ?j") auto
      moreover have "i < ?j" by simp
      then have "i < k" using IH by (blast intro: less_le_trans)
      ultimately show ?thesis by simp
    qed
  qed
qed

section \<open>Push, Pop and Remove\<close>

lemma heap_Push_mset: "mset (heap_Push lt h x) = add_mset x (mset h)"
  by (simp add: heap_Push_def mset_heap_up)

lemma heap_Push_ok:
  assumes "heap_ok key h (length h)"
  shows "heap_ok key (heap_Push (\<lambda>x y. key x < key y) h x) (Suc (length h))"
  unfolding heap_Push_def
proof (rule heap_up_ok)
  have "edge_ok key (h @ [x]) c" if "0 < c" "c < length h" for c
    using assms that par_less [OF that(1)]
    by (simp add: heap_ok_def edge_ok_def nth_append)
  moreover have "par c \<noteq> length h" if "0 < c" "c < Suc (length h)" for c
    using par_less [OF that(1)] that(2) by simp
  ultimately show "up_ok key (h @ [x]) (Suc (length h)) (length h)"
    unfolding up_ok_def bridged_def by (metis less_SucE)
qed auto

lemma last_conv_len: "length h' = length h \<Longrightarrow> h \<noteq> [] \<Longrightarrow> last h' = h' ! (length h - 1)"
  by (metis last_conv_nth length_0_conv)

lemma butlast_heap_ok: "heap_ok key h (length h - 1) \<Longrightarrow> heap_ok key (butlast h) (length h - 1)"
  by (subst heap_ok_cong [where g = h]) (auto simp: nth_butlast)

lemma mset_slice_Pop: "h \<noteq> [] \<Longrightarrow> slice_Pop h = (x, h') \<Longrightarrow> mset h = add_mset x (mset h')"
  by (auto simp: slice_Pop_def)
    (metis add_mset_add_single append_butlast_last_id mset.simps mset_append)

lemma heap_Pop_None: "heap_Pop lt h = None \<longleftrightarrow> h = []"
  by (simp add: heap_Pop_def Let_def)

lemma heap_Pop_spec:
  assumes ok: "heap_ok key h (length h)" and pop: "heap_Pop (\<lambda>x y. key x < key y) h = Some (x, h')"
  shows "mset h = add_mset x (mset h')" and "\<forall>y \<in> set h. key x \<le> key y"
    and "heap_ok key h' (length h')"
proof -
  let ?n = "length h - Suc 0"
  obtain g k where g: "heap_down (\<lambda>x y. key x < key y) (swap_at h 0 ?n) 0 ?n = (g, k)"
    by (cases "heap_down (\<lambda>x y. key x < key y) (swap_at h 0 ?n) 0 ?n") auto
  have ne: "h \<noteq> []" and pop': "slice_Pop g = (x, h')"
    using pop g by (auto simp: heap_Pop_def Let_def split: if_splits)
  have len: "length g = length h"
    by (metis fst_conv g length_heap_down length_swap_at)
  have mg: "mset g = mset h"
    using mset_heap_down [of ?n "swap_at h 0 ?n" "\<lambda>x y. key x < key y" 0] g ne by simp
  show "mset h = add_mset x (mset h')"
    using mset_slice_Pop [OF _ pop'] len mg ne by fastforce
  have "g ! ?n = swap_at h 0 ?n ! ?n"
    using heap_down_beyond [of ?n "swap_at h 0 ?n" ?n "\<lambda>x y. key x < key y" 0] g ne by simp
  then have x: "x = h ! 0"
    using pop' len ne last_conv_len [OF len ne]
    by (cases "length h \<le> Suc 0") (auto simp: slice_Pop_def nth_swap_at le_Suc_eq)
  show "\<forall>y \<in> set h. key x \<le> key y"
    using heap_ok_root_le [OF ok] x by (auto simp: in_set_conv_nth)
  have "down_ok key (swap_at h 0 ?n) ?n 0"
    unfolding down_ok_def bridged_def
  proof (intro conjI allI impI)
    fix c assume c: "0 < c" "c < ?n" "c \<noteq> 0" "par c \<noteq> 0"
    then have "par c < ?n" using par_less [OF c(1)] by simp
    with c ok ne show "edge_ok key (swap_at h 0 ?n) c"
      by (simp add: edge_ok_def nth_swap_at heap_ok_def)
  qed auto
  from heap_down_ok [OF this _ g] have "heap_ok key g ?n"
    by (cases "0 < k") (auto simp: up_ok_def heap_ok_def)
  then show "heap_ok key h' (length h')"
    using pop' len butlast_heap_ok [of key g] by (auto simp: slice_Pop_def)
qed

lemma heap_Remove_spec:
  assumes ok: "heap_ok key h (length h)" and i: "i < length h"
  obtains h' where "heap_Remove (\<lambda>x y. key x < key y) h i = Some (h ! i, h')"
    and "mset h = add_mset (h ! i) (mset h')" and "heap_ok key h' (length h')"
proof (cases "i = length h - 1")
  case True
  then have "heap_Remove (\<lambda>x y. key x < key y) h i = Some (h ! i, butlast h)"
    using i last_conv_nth [of h] by (fastforce simp: heap_Remove_def slice_Pop_def)
  moreover have "mset h = add_mset (h ! i) (mset (butlast h))"
    using mset_slice_Pop [of h "last h" "butlast h"] i True last_conv_nth [of h]
    by (fastforce simp: slice_Pop_def)
  moreover have "heap_ok key (butlast h) (length (butlast h))"
    using butlast_heap_ok [of key h] heap_ok_mono [OF ok] by simp
  ultimately show ?thesis using that by blast
next
  case False
  let ?n = "length h - Suc 0" and ?less = "\<lambda>x y. key x < key y"
  let ?s = "swap_at h i ?n"
  have in_n: "i < ?n" using False i by simp
  obtain g k where g: "heap_down ?less ?s i ?n = (g, k)" by (cases "heap_down ?less ?s i ?n") auto
  define f where "f = (if i < k then g else heap_up ?less g i)"
  have rem: "heap_Remove ?less h i = Some (slice_Pop f)"
    using i False g by (auto simp: heap_Remove_def Let_def f_def)
  have leng: "length g = length h" by (metis fst_conv g length_heap_down length_swap_at)
  have edge: "key (h ! par c) \<le> key (h ! c)" if "0 < c" "c < length h" for c
    using ok that by (simp add: heap_ok_def edge_ok_def)
  have nth: "?s ! c = (if c = i then h ! ?n else h ! c)" if "c < ?n" for c
    using that i by (simp add: nth_swap_at)
  have "down_ok key ?s ?n i"
    unfolding down_ok_def bridged_def
  proof (intro conjI allI impI)
    fix c assume c: "0 < c" "c < ?n" "c \<noteq> i" "par c \<noteq> i"
    then have "par c < ?n" using par_less [OF c(1)] by simp
    with c edge [of c] show "edge_ok key ?s c" by (simp add: edge_ok_def nth)
  next
    fix c assume c: "0 < i" "0 < c" "c < ?n" "par c = i"
    then have "par i < i" "i < c" using par_less [of i] par_less [of c] by auto
    moreover have "c < length h" "i < length h" using c i by auto
    ultimately show "key (?s ! par i) \<le> key (?s ! c)"
      using c edge [of c] edge [of i] by (auto simp: nth intro: order_trans)
  qed
  from heap_down_ok [OF this _ g]
  have D: "(i < k \<longrightarrow> heap_ok key g ?n) \<and> (k \<le> i \<longrightarrow> g = ?s \<and> up_ok key ?s ?n i)" by simp
  have okf: "heap_ok key f ?n"
    using D in_n heap_up_ok [of key ?s ?n i] by (auto simp: f_def)
  have lenf: "length f = length h" by (simp add: f_def leng)
  have mf: "mset f = mset h"
    using mset_heap_down [of ?n ?s ?less i] g i by (auto simp: f_def mset_heap_up leng)
  have "f ! ?n = h ! i"
  proof (cases "i < k")
    case True
    then have "f = g" by (simp add: f_def)
    then show ?thesis
      using heap_down_beyond [of ?n ?s ?n ?less i] g i by (simp add: nth_swap_at)
  next
    case stay: False
    have "heap_up ?less h j ! c = h ! c" if "j < c" "c < length h" for h :: "'a list" and j c
      using that
    proof (induction ?less h j rule: heap_up.induct)
      case (1 h j)
      show ?case
      proof (cases "(j - 1) div 2 = j \<or> \<not> ?less (h ! j) (h ! ((j - 1) div 2))")
        case True
        then show ?thesis by (subst heap_up.simps) (auto simp: Let_def)
      next
        case False
        then have "(j - 1) div 2 < c" using 1 by linarith
        with 1 False show ?thesis by (subst heap_up.simps) (auto simp: Let_def nth_swap_at)
      qed
    qed
    then show ?thesis
      using stay D in_n i by (simp add: f_def nth_swap_at)
  qed
  then have "slice_Pop f = (h ! i, butlast f)"
    using last_conv_len [OF lenf] i by (cases "h = []") (auto simp: slice_Pop_def)
  moreover have "f \<noteq> []" using lenf i by auto
  ultimately show ?thesis
    using that [of "butlast f"] rem mset_slice_Pop [of f "h ! i" "butlast f"] mf lenf
      butlast_heap_ok [of key f] okf by simp
qed

section \<open>The contract of a queue ordered by a key\<close>

text \<open>
  What the clients of the queue rely on: contents as a multiset, \<open>pop\<close> returns an element of
  least key, \<open>delete\<close> takes out one occurrence of an element it was given the place of.
\<close>

locale min_queue =
  fixes elems :: "'q \<Rightarrow> 'a list"
    and push :: "'q \<Rightarrow> 'a \<Rightarrow> 'q"
    and pop :: "'q \<Rightarrow> ('a \<times> 'q) option"
    and delete :: "'q \<Rightarrow> nat \<Rightarrow> ('a \<times> 'q) option"
    and key :: "'a \<Rightarrow> 'k::linorder"
    and inv :: "'q \<Rightarrow> bool"
  assumes push_elems: "mset (elems (push q x)) = add_mset x (mset (elems q))"
    and push_inv: "inv q \<Longrightarrow> inv (push q x)"
    and pop_None: "pop q = None \<longleftrightarrow> elems q = []"
    and pop_elems: "inv q \<Longrightarrow> pop q = Some (x, q') \<Longrightarrow> mset (elems q) = add_mset x (mset (elems q'))"
    and pop_least: "inv q \<Longrightarrow> pop q = Some (x, q') \<Longrightarrow> y \<in> set (elems q) \<Longrightarrow> key x \<le> key y"
    and pop_inv: "inv q \<Longrightarrow> pop q = Some (x, q') \<Longrightarrow> inv q'"
    and delete_spec: "inv q \<Longrightarrow> i < length (elems q) \<Longrightarrow>
      \<exists>q'. delete q i = Some (elems q ! i, q') \<and> inv q' \<and>
        mset (elems q) = add_mset (elems q ! i) (mset (elems q'))"
begin

lemma pop_set: "inv q \<Longrightarrow> pop q = Some (x, q') \<Longrightarrow> set (elems q) = insert x (set (elems q'))"
  by (drule (1) pop_elems) (metis set_mset_add_mset_insert set_mset_mset)

lemma pop_length: "inv q \<Longrightarrow> pop q = Some (x, q') \<Longrightarrow> length (elems q) = Suc (length (elems q'))"
  by (drule (1) pop_elems) (metis size_add_mset size_mset)

lemma push_set: "set (elems (push q x)) = insert x (set (elems q))"
  by (metis push_elems set_mset_add_mset_insert set_mset_mset)

text \<open>Two pops in a row come out in the order of their keys.\<close>

lemma pop_pop_ordered:
  "inv q \<Longrightarrow> pop q = Some (x, q') \<Longrightarrow> pop q' = Some (y, q'') \<Longrightarrow> key x \<le> key y"
  by (metis insert_iff pop_inv pop_least pop_set)

text \<open>Popping until the queue is empty (with fuel for that many pops) sorts its contents.\<close>

fun drain :: "nat \<Rightarrow> 'q \<Rightarrow> 'a list" where
  "drain 0 q = []"
| "drain (Suc n) q = (case pop q of None \<Rightarrow> [] | Some (x, q') \<Rightarrow> x # drain n q')"

lemma drain_spec:
  "inv q \<Longrightarrow> length (elems q) \<le> n \<Longrightarrow>
   sorted (map key (drain n q)) \<and> mset (drain n q) = mset (elems q)"
proof (induction n arbitrary: q)
  case 0
  then show ?case by simp
next
  case (Suc n)
  show ?case
  proof (cases "pop q")
    case None
    then show ?thesis using pop_None [of q] by simp
  next
    case (Some p)
    obtain x q' where p: "p = (x, q')" by (cases p)
    note pop = Some [unfolded p]
    have IH: "sorted (map key (drain n q')) \<and> mset (drain n q') = mset (elems q')"
      using Suc pop_inv [OF Suc.prems(1) pop] pop_length [OF Suc.prems(1) pop] by simp
    then have "set (drain n q') = set (elems q')" by (metis set_mset_mset)
    then have "\<forall>y \<in> set (drain n q'). key x \<le> key y"
      using pop_least [OF Suc.prems(1) pop] pop_set [OF Suc.prems(1) pop] by auto
    then show ?thesis
      using IH pop pop_elems [OF Suc.prems(1) pop] by simp
  qed
qed

end

end
