(* ===== verification/GameServer_Queue.thy ===== *)
theory GameServer_Queue
  imports Go_Heap Api_Types
begin

text \<open>
  The allocation queue of \<open>pkg/operator/controllers/gameserverqueue.go\<close>: one binary heap of
  StandingBy GameServers per build, ordered by the age of the node, with a set of the names it
  holds, and over them the map from builds to heaps and from GameServers to builds. Pointers to
  queues are values here, since each queue is reached only through the map. Every operation
  runs under the mutex.
\<close>

section \<open>State and operations\<close>

record GameServerForQueue =
  q_Name :: string
  q_Namespace :: string
  q_BuildID :: string
  q_NodeAge :: int
  q_ResourceVersion :: string

record GameServerQueueForBuild =
  queue :: "GameServerForQueue list"
  gameServerNameSet :: "string set"

record GameServersQueue =
  queuesPerBuilds :: "string \<rightharpoonup> GameServerQueueForBuild"
  namespacedNameToBuildId :: "string \<rightharpoonup> string"

definition GameServerQueue_Less :: "GameServerForQueue \<Rightarrow> GameServerForQueue \<Rightarrow> bool" where
  "GameServerQueue_Less x y = (q_NodeAge x < q_NodeAge y)"

definition GameServerQueue_PushToQueue ::
    "GameServerForQueue list \<Rightarrow> GameServerForQueue \<Rightarrow> GameServerForQueue list" where
  "GameServerQueue_PushToQueue h gs = heap_Push GameServerQueue_Less h gs"

text \<open>\<open>None\<close> is the panic of \<open>heap.Pop\<close> on an empty heap.\<close>

definition GameServerQueue_PopFromQueue ::
    "GameServerForQueue list \<Rightarrow> (GameServerForQueue \<times> GameServerForQueue list) option" where
  "GameServerQueue_PopFromQueue h = heap_Pop GameServerQueue_Less h"

definition GameServerQueue_RemoveAt ::
    "GameServerForQueue list \<Rightarrow> nat \<Rightarrow> (GameServerForQueue \<times> GameServerForQueue list) option" where
  "GameServerQueue_RemoveAt h i = heap_Remove GameServerQueue_Less h i"

definition NewGameServersPerBuildQueue :: GameServerQueueForBuild where
  "NewGameServersPerBuildQueue = \<lparr>queue = [], gameServerNameSet = {}\<rparr>"

definition gsqb_PushToQueue ::
    "GameServerQueueForBuild \<Rightarrow> GameServerForQueue \<Rightarrow> GameServerQueueForBuild" where
  "gsqb_PushToQueue gsqb gs =
     (if q_Name gs \<in> gameServerNameSet gsqb then gsqb
      else \<lparr>queue = GameServerQueue_PushToQueue (queue gsqb) gs,
            gameServerNameSet = insert (q_Name gs) (gameServerNameSet gsqb)\<rparr>)"

text \<open>The returned GameServer is \<open>None\<close> for Go's nil.\<close>

definition gsqb_PopFromQueue ::
    "GameServerQueueForBuild \<Rightarrow> GameServerQueueForBuild \<times> GameServerForQueue option" where
  "gsqb_PopFromQueue gsqb =
     (if length (queue gsqb) = 0 then (gsqb, None)
      else case heap_Pop GameServerQueue_Less (queue gsqb) of
             None \<Rightarrow> (gsqb, None)
           | Some (gsfh, h) \<Rightarrow>
               (\<lparr>queue = h, gameServerNameSet = gameServerNameSet gsqb - {q_Name gsfh}\<rparr>, Some gsfh))"

fun findInQueue :: "string \<Rightarrow> string \<Rightarrow> nat \<Rightarrow> GameServerForQueue list \<Rightarrow> nat option" where
  "findInQueue namespace name i [] = None"
| "findInQueue namespace name i (gs2 # gss) =
     (if name = q_Name gs2 \<and> namespace = q_Namespace gs2 then Some i
      else findInQueue namespace name (Suc i) gss)"

definition gsqb_RemoveFromQueue ::
    "GameServerQueueForBuild \<Rightarrow> string \<Rightarrow> string \<Rightarrow> GameServerQueueForBuild" where
  "gsqb_RemoveFromQueue gsqb namespace name =
     (if name \<notin> gameServerNameSet gsqb then gsqb
      else case findInQueue namespace name 0 (queue gsqb) of
             None \<Rightarrow> gsqb
           | Some i \<Rightarrow>
               (case GameServerQueue_RemoveAt (queue gsqb) i of
                  None \<Rightarrow> gsqb
                | Some (_, h) \<Rightarrow>
                    \<lparr>queue = h, gameServerNameSet = gameServerNameSet gsqb - {name}\<rparr>))"

definition NewGameServersQueue :: GameServersQueue where
  "NewGameServersQueue = \<lparr>queuesPerBuilds = Map.empty, namespacedNameToBuildId = Map.empty\<rparr>"

definition gsq_PushToQueue :: "GameServersQueue \<Rightarrow> GameServerForQueue \<Rightarrow> GameServersQueue" where
  "gsq_PushToQueue gsq gs =
     (let qb = (case queuesPerBuilds gsq (q_BuildID gs) of
                  None \<Rightarrow> NewGameServersPerBuildQueue
                | Some qb \<Rightarrow> qb)
      in \<lparr>queuesPerBuilds = (queuesPerBuilds gsq)(q_BuildID gs \<mapsto> gsqb_PushToQueue qb gs),
          namespacedNameToBuildId = (namespacedNameToBuildId gsq)
            (getNamespacedName (q_Namespace gs) (q_Name gs) \<mapsto> q_BuildID gs)\<rparr>)"

definition putQueue :: "GameServersQueue \<Rightarrow> string \<Rightarrow> GameServerQueueForBuild \<Rightarrow> GameServersQueue" where
  "putQueue gsq buildID qb =
     gsq\<lparr>queuesPerBuilds := (queuesPerBuilds gsq)
       (buildID := if gameServerNameSet qb = {} then None else Some qb)\<rparr>"

definition gsq_PopFromQueue :: "GameServersQueue \<Rightarrow> string \<Rightarrow> GameServersQueue \<times> GameServerForQueue option" where
  "gsq_PopFromQueue gsq buildID =
     (case queuesPerBuilds gsq buildID of
        None \<Rightarrow> (gsq, None)
      | Some qb \<Rightarrow> (let (qb', gsfh) = gsqb_PopFromQueue qb in (putQueue gsq buildID qb', gsfh)))"

text \<open>A name that is not in the map is looked up as the build \<open>""\<close>.\<close>

definition gsq_RemoveFromQueue :: "GameServersQueue \<Rightarrow> string \<Rightarrow> string \<Rightarrow> GameServersQueue" where
  "gsq_RemoveFromQueue gsq namespace name =
     (let key = getNamespacedName namespace name;
          buildID = map_get (namespacedNameToBuildId gsq) [] key
      in case queuesPerBuilds gsq buildID of
           None \<Rightarrow> gsq
         | Some qb \<Rightarrow>
             putQueue (gsq\<lparr>namespacedNameToBuildId := (namespacedNameToBuildId gsq)(key := None)\<rparr>)
               buildID (gsqb_RemoveFromQueue qb namespace name))"

section \<open>The heap is a queue ordered by node age\<close>

definition heap_inv :: "GameServerForQueue list \<Rightarrow> bool" where
  "heap_inv h = heap_ok q_NodeAge h (length h)"

lemma Less_eq: "GameServerQueue_Less = (\<lambda>x y. q_NodeAge x < q_NodeAge y)"
  by (simp add: GameServerQueue_Less_def fun_eq_iff)

interpretation gsheap: min_queue id GameServerQueue_PushToQueue GameServerQueue_PopFromQueue
  GameServerQueue_RemoveAt q_NodeAge heap_inv
proof
  fix h h' :: "GameServerForQueue list" and x y i
  show "mset (id (GameServerQueue_PushToQueue h x)) = add_mset x (mset (id h))"
    by (simp add: GameServerQueue_PushToQueue_def heap_Push_mset)
  then have "length (GameServerQueue_PushToQueue h x) = Suc (length h)"
    by (metis id_apply size_add_mset size_mset)
  then show "heap_inv h \<Longrightarrow> heap_inv (GameServerQueue_PushToQueue h x)"
    using heap_Push_ok [of q_NodeAge h x]
    by (simp add: heap_inv_def GameServerQueue_PushToQueue_def Less_eq)
  show "GameServerQueue_PopFromQueue h = None \<longleftrightarrow> id h = []"
    by (simp add: GameServerQueue_PopFromQueue_def heap_Pop_None)
  show "heap_inv h \<Longrightarrow> i < length (id h) \<Longrightarrow>
      \<exists>h'. GameServerQueue_RemoveAt h i = Some (id h ! i, h') \<and> heap_inv h' \<and>
        mset (id h) = add_mset (id h ! i) (mset (id h'))"
    unfolding heap_inv_def GameServerQueue_RemoveAt_def Less_eq id_apply
    by (metis heap_Remove_spec)
qed (auto simp: heap_inv_def GameServerQueue_PopFromQueue_def Less_eq dest: heap_Pop_spec)

section \<open>The queue of one build\<close>

definition qb_inv :: "string \<Rightarrow> GameServerQueueForBuild \<Rightarrow> bool" where
  "qb_inv b qb \<longleftrightarrow>
     heap_inv (queue qb) \<and> gameServerNameSet qb = q_Name ` set (queue qb) \<and>
     distinct (map q_Name (queue qb)) \<and> (\<forall>x \<in> set (queue qb). q_BuildID x = b)"

lemma distinct_names_mset:
  "mset xs = add_mset x (mset ys) \<Longrightarrow>
   distinct (map q_Name xs) \<longleftrightarrow> q_Name x \<notin> q_Name ` set ys \<and> distinct (map q_Name ys)"
proof -
  assume "mset xs = add_mset x (mset ys)"
  then have "mset (map q_Name xs) = mset (map q_Name (x # ys))" by simp
  then have "distinct (map q_Name xs) = distinct (map q_Name (x # ys))"
    by (rule mset_eq_imp_distinct_iff)
  then show ?thesis by simp
qed

lemma add_mset_set: "mset xs = add_mset x (mset ys) \<Longrightarrow> set xs = insert x (set ys)"
  by (metis set_mset_add_mset_insert set_mset_mset)

lemma qb_new_inv: "qb_inv b NewGameServersPerBuildQueue"
  by (simp add: qb_inv_def NewGameServersPerBuildQueue_def heap_inv_def heap_ok_def)

lemma qb_push:
  assumes "qb_inv b qb" and "q_BuildID gs = b"
  shows "qb_inv b (gsqb_PushToQueue qb gs)"
    and "mset (queue (gsqb_PushToQueue qb gs)) =
      (if q_Name gs \<in> q_Name ` set (queue qb) then mset (queue qb) else add_mset gs (mset (queue qb)))"
proof -
  let ?h = "GameServerQueue_PushToQueue (queue qb) gs"
  have m: "mset ?h = add_mset gs (mset (queue qb))" using gsheap.push_elems by simp
  have i: "heap_inv ?h" using assms gsheap.push_inv by (simp add: qb_inv_def)
  show "qb_inv b (gsqb_PushToQueue qb gs)"
    using assms i add_mset_set [OF m] distinct_names_mset [OF m]
    by (auto simp: gsqb_PushToQueue_def qb_inv_def)
  show "mset (queue (gsqb_PushToQueue qb gs)) =
      (if q_Name gs \<in> q_Name ` set (queue qb) then mset (queue qb) else add_mset gs (mset (queue qb)))"
    using assms m by (simp add: gsqb_PushToQueue_def qb_inv_def)
qed

lemma qb_pop:
  assumes "qb_inv b qb" and "gsqb_PopFromQueue qb = (qb', r)"
  shows "qb_inv b qb'"
    and "case r of None \<Rightarrow> queue qb = [] \<and> qb' = qb
      | Some gs \<Rightarrow> mset (queue qb) = add_mset gs (mset (queue qb')) \<and>
          (\<forall>y \<in> set (queue qb). q_NodeAge gs \<le> q_NodeAge y)"
proof -
  have "qb_inv b qb' \<and> (case r of None \<Rightarrow> queue qb = [] \<and> qb' = qb
      | Some gs \<Rightarrow> mset (queue qb) = add_mset gs (mset (queue qb')) \<and>
          (\<forall>y \<in> set (queue qb). q_NodeAge gs \<le> q_NodeAge y))"
  proof (cases "queue qb = []")
    case True
    with assms show ?thesis by (auto simp: gsqb_PopFromQueue_def)
  next
    case False
    then obtain gs h where pop: "GameServerQueue_PopFromQueue (queue qb) = Some (gs, h)"
      using gsheap.pop_None [of "queue qb"] by (cases "GameServerQueue_PopFromQueue (queue qb)") auto
    have inv: "heap_inv (queue qb)" using assms by (simp add: qb_inv_def)
    have r: "qb' = \<lparr>queue = h, gameServerNameSet = gameServerNameSet qb - {q_Name gs}\<rparr>" "r = Some gs"
      using assms(2) False pop by (auto simp: gsqb_PopFromQueue_def GameServerQueue_PopFromQueue_def)
    have m: "mset (queue qb) = add_mset gs (mset h)" using gsheap.pop_elems [OF inv pop] by simp
    have "qb_inv b qb'"
      using assms(1) gsheap.pop_inv [OF inv pop] add_mset_set [OF m] distinct_names_mset [OF m] r
      by (auto simp: qb_inv_def)
    then show ?thesis using r m gsheap.pop_least [OF inv pop] by simp
  qed
  then show "qb_inv b qb'" and "case r of None \<Rightarrow> queue qb = [] \<and> qb' = qb
      | Some gs \<Rightarrow> mset (queue qb) = add_mset gs (mset (queue qb')) \<and>
          (\<forall>y \<in> set (queue qb). q_NodeAge gs \<le> q_NodeAge y)" by auto
qed

lemma findInQueue_Some:
  "findInQueue ns n k xs = Some i \<Longrightarrow>
   k \<le> i \<and> i - k < length xs \<and> q_Name (xs ! (i - k)) = n \<and> q_Namespace (xs ! (i - k)) = ns"
proof (induction ns n k xs rule: findInQueue.induct)
  case (2 ns n k x xs)
  then show ?case
  proof (cases "n = q_Name x \<and> ns = q_Namespace x")
    case False
    with 2 have *: "Suc k \<le> i \<and> i - Suc k < length xs \<and> q_Name (xs ! (i - Suc k)) = n \<and>
        q_Namespace (xs ! (i - Suc k)) = ns" by auto
    then have "i - k = Suc (i - Suc k)" using Suc_diff_Suc [of k i] by linarith
    with * show ?thesis by simp
  qed auto
qed simp

lemma findInQueue_None:
  "findInQueue ns n k xs = None \<longleftrightarrow> \<not> (\<exists>x \<in> set xs. q_Name x = n \<and> q_Namespace x = ns)"
  by (induction ns n k xs rule: findInQueue.induct) auto

lemma qb_remove:
  assumes "qb_inv b qb"
  shows "qb_inv b (gsqb_RemoveFromQueue qb ns n)"
    and "mset (queue (gsqb_RemoveFromQueue qb ns n)) =
      filter_mset (\<lambda>x. \<not> (q_Name x = n \<and> q_Namespace x = ns)) (mset (queue qb))"
proof -
  let ?P = "\<lambda>x. \<not> (q_Name x = n \<and> q_Namespace x = ns)"
  let ?r = "gsqb_RemoveFromQueue qb ns n"
  have all: "filter_mset ?P (mset xs) = mset xs" if "\<forall>x \<in> set xs. ?P x" for xs
    using that filter_True [of xs ?P] by (simp flip: mset_filter)
  have "qb_inv b ?r \<and> mset (queue ?r) = filter_mset ?P (mset (queue qb))"
  proof (cases "findInQueue ns n 0 (queue qb)")
    case None
    then have "\<forall>x \<in> set (queue qb). ?P x" by (auto simp: findInQueue_None)
    moreover have "?r = qb" using None by (simp add: gsqb_RemoveFromQueue_def)
    ultimately show ?thesis using assms all [of "queue qb"] by simp
  next
    case (Some i)
    note f = findInQueue_Some [OF Some]
    then have i: "i < length (queue qb)" by simp
    define x where "x = queue qb ! i"
    have x: "q_Name x = n" "q_Namespace x = ns" using f by (auto simp: x_def)
    have inv: "heap_inv (queue qb)" using assms by (simp add: qb_inv_def)
    obtain h where h: "GameServerQueue_RemoveAt (queue qb) i = Some (x, h)" "heap_inv h"
      and m: "mset (queue qb) = add_mset x (mset h)"
      using gsheap.delete_spec [OF inv, of i] i by (auto simp: x_def)
    have "n \<in> gameServerNameSet qb" using assms i x by (auto simp: qb_inv_def x_def)
    then have r: "?r = \<lparr>queue = h, gameServerNameSet = gameServerNameSet qb - {n}\<rparr>"
      using Some h by (simp add: gsqb_RemoveFromQueue_def)
    have nx: "n \<notin> q_Name ` set h" and d: "distinct (map q_Name h)"
      using assms distinct_names_mset [OF m] x by (auto simp: qb_inv_def)
    have "\<forall>y \<in> set h. ?P y" using nx by auto
    then have "filter_mset ?P (mset (queue qb)) = mset h" using m x all [of h] by simp
    moreover have "qb_inv b ?r"
      using assms h d nx add_mset_set [OF m] x by (auto simp: r qb_inv_def)
    ultimately show ?thesis by (simp add: r)
  qed
  then show "qb_inv b ?r" and "mset (queue ?r) = filter_mset ?P (mset (queue qb))" by auto
qed

section \<open>All builds\<close>

definition contents :: "GameServersQueue \<Rightarrow> string \<Rightarrow> GameServerForQueue multiset" where
  "contents gsq b = (case queuesPerBuilds gsq b of None \<Rightarrow> {#} | Some qb \<Rightarrow> mset (queue qb))"

definition gsq_inv :: "GameServersQueue \<Rightarrow> bool" where
  "gsq_inv gsq \<longleftrightarrow> (\<forall>b qb. queuesPerBuilds gsq b = Some qb \<longrightarrow> qb_inv b qb \<and> queue qb \<noteq> [])"

abbreviation q_key :: "GameServerForQueue \<Rightarrow> string" where
  "q_key x \<equiv> getNamespacedName (q_Namespace x) (q_Name x)"

text \<open>No two entries of a build have one name.\<close>

lemma gsq_names:
  assumes "gsq_inv gsq" and "contents gsq b = add_mset x (add_mset y M)"
  shows "q_Name x \<noteq> q_Name y"
proof -
  from assms(2) obtain qb where qb: "queuesPerBuilds gsq b = Some qb" "mset (queue qb) = add_mset x (add_mset y M)"
    by (auto simp: contents_def split: option.splits)
  obtain zs where zs: "mset zs = M" using ex_mset by blast
  have "distinct (map q_Name (queue qb))" using assms(1) qb(1) by (auto simp: gsq_inv_def qb_inv_def)
  moreover have "mset (map q_Name (queue qb)) = mset (map q_Name (x # y # zs))" using qb(2) zs by simp
  ultimately have "distinct (map q_Name (x # y # zs))" using mset_eq_imp_distinct_iff by blast
  then show ?thesis by auto
qed

text \<open>
  A GameServer's build never changes: \<open>build_of\<close> is that assignment. Every queued GameServer
  then has its build in the map, so that it can be removed.
\<close>

definition tracked :: "(string \<Rightarrow> string) \<Rightarrow> GameServersQueue \<Rightarrow> bool" where
  "tracked build_of gsq \<longleftrightarrow>
     (\<forall>k b. namespacedNameToBuildId gsq k = Some b \<longrightarrow> b = build_of k) \<and>
     (\<forall>b. \<forall>x \<in># contents gsq b. CHR ''/'' \<notin> set (q_Namespace x) \<and>
        namespacedNameToBuildId gsq (q_key x) = Some b)"

lemma qb_inv_empty: "qb_inv b qb \<Longrightarrow> gameServerNameSet qb = {} \<longleftrightarrow> queue qb = []"
  by (simp add: qb_inv_def)

lemma gsq_new [simp]: "gsq_inv NewGameServersQueue" "contents NewGameServersQueue b = {#}"
  by (simp_all add: gsq_inv_def contents_def NewGameServersQueue_def)

lemma putQueue_inv:
  assumes "gsq_inv gsq" and "qb_inv b qb"
  shows "gsq_inv (putQueue gsq b qb)"
    and "contents (putQueue gsq b qb) c = (if c = b then mset (queue qb) else contents gsq c)"
  using assms by (auto simp: gsq_inv_def putQueue_def contents_def qb_inv_empty)

lemma gsq_push:
  assumes "gsq_inv gsq"
  shows "gsq_inv (gsq_PushToQueue gsq gs)"
    and "contents (gsq_PushToQueue gsq gs) b =
      (if b = q_BuildID gs \<and> q_Name gs \<notin> q_Name ` set_mset (contents gsq b)
       then add_mset gs (contents gsq b) else contents gsq b)"
proof -
  define qb where "qb = (case queuesPerBuilds gsq (q_BuildID gs) of
      None \<Rightarrow> NewGameServersPerBuildQueue | Some qb \<Rightarrow> qb)"
  have qb: "qb_inv (q_BuildID gs) qb"
    using assms qb_new_inv by (auto simp: qb_def gsq_inv_def split: option.splits)
  have c: "contents gsq (q_BuildID gs) = mset (queue qb)"
    by (auto simp: contents_def qb_def NewGameServersPerBuildQueue_def split: option.splits)
  note p = qb_push [OF qb refl]
  have eq: "gsq_PushToQueue gsq gs =
      \<lparr>queuesPerBuilds = (queuesPerBuilds gsq)(q_BuildID gs \<mapsto> gsqb_PushToQueue qb gs),
       namespacedNameToBuildId = (namespacedNameToBuildId gsq)(q_key gs \<mapsto> q_BuildID gs)\<rparr>"
    by (simp add: gsq_PushToQueue_def qb_def)
  have ne: "queue (gsqb_PushToQueue qb gs) \<noteq> []"
  proof
    assume "queue (gsqb_PushToQueue qb gs) = []"
    with p(2) show False by (cases "queue qb") (auto split: if_splits)
  qed
  show "gsq_inv (gsq_PushToQueue gsq gs)"
    using assms p(1) ne by (auto simp: eq gsq_inv_def)
  show "contents (gsq_PushToQueue gsq gs) b =
      (if b = q_BuildID gs \<and> q_Name gs \<notin> q_Name ` set_mset (contents gsq b)
       then add_mset gs (contents gsq b) else contents gsq b)"
  proof (cases "b = q_BuildID gs")
    case True
    have "contents (gsq_PushToQueue gsq gs) (q_BuildID gs) = mset (queue (gsqb_PushToQueue qb gs))"
      by (simp add: eq contents_def)
    with True p(2) c show ?thesis by simp
  next
    case False
    then show ?thesis by (simp add: eq contents_def)
  qed
qed

lemma gsq_pop:
  assumes "gsq_inv gsq" and "gsq_PopFromQueue gsq b = (gsq', r)"
  shows "gsq_inv gsq'" and "c \<noteq> b \<Longrightarrow> contents gsq' c = contents gsq c"
    and "namespacedNameToBuildId gsq' = namespacedNameToBuildId gsq"
    and "r = None \<Longrightarrow> gsq' = gsq \<and> contents gsq b = {#}"
    and "r = Some gs \<Longrightarrow> contents gsq b = add_mset gs (contents gsq' b) \<and>
      (\<forall>y \<in># contents gsq b. q_NodeAge gs \<le> q_NodeAge y)"
proof -
  have "gsq_inv gsq' \<and> (\<forall>c. c \<noteq> b \<longrightarrow> contents gsq' c = contents gsq c) \<and>
    namespacedNameToBuildId gsq' = namespacedNameToBuildId gsq \<and>
    (case r of None \<Rightarrow> gsq' = gsq \<and> contents gsq b = {#}
     | Some gs \<Rightarrow> contents gsq b = add_mset gs (contents gsq' b) \<and>
         (\<forall>y \<in># contents gsq b. q_NodeAge gs \<le> q_NodeAge y))"
  proof (cases "queuesPerBuilds gsq b")
    case None
    with assms show ?thesis by (auto simp: gsq_PopFromQueue_def contents_def)
  next
    case (Some qb)
    obtain qb' r' where pop: "gsqb_PopFromQueue qb = (qb', r')"
      by (cases "gsqb_PopFromQueue qb")
    have qb: "qb_inv b qb" "queue qb \<noteq> []" using assms(1) Some by (auto simp: gsq_inv_def)
    have eq: "gsq' = putQueue gsq b qb'" "r = r'"
      using assms(2) Some pop by (auto simp: gsq_PopFromQueue_def)
    note q = qb_pop [OF qb(1) pop]
    have "namespacedNameToBuildId gsq' = namespacedNameToBuildId gsq"
      by (simp add: eq putQueue_def)
    moreover have "contents gsq b = mset (queue qb)" by (simp add: contents_def Some)
    ultimately show ?thesis
      using putQueue_inv [OF assms(1) q(1)] q(2) qb(2) eq by (auto split: option.splits)
  qed
  then show "gsq_inv gsq'" and "c \<noteq> b \<Longrightarrow> contents gsq' c = contents gsq c"
    and "namespacedNameToBuildId gsq' = namespacedNameToBuildId gsq"
    and "r = None \<Longrightarrow> gsq' = gsq \<and> contents gsq b = {#}"
    and "r = Some gs \<Longrightarrow> contents gsq b = add_mset gs (contents gsq' b) \<and>
      (\<forall>y \<in># contents gsq b. q_NodeAge gs \<le> q_NodeAge y)"
    by auto
qed

abbreviation not_named :: "string \<Rightarrow> string \<Rightarrow> GameServerForQueue \<Rightarrow> bool" where
  "not_named ns n x \<equiv> \<not> (q_Name x = n \<and> q_Namespace x = ns)"

lemma gsq_remove_inv: "gsq_inv gsq \<Longrightarrow> gsq_inv (gsq_RemoveFromQueue gsq ns n)"
proof -
  assume inv: "gsq_inv gsq"
  let ?b = "map_get (namespacedNameToBuildId gsq) [] (getNamespacedName ns n)"
  show ?thesis
  proof (cases "queuesPerBuilds gsq ?b")
    case None
    with inv show ?thesis by (simp add: gsq_RemoveFromQueue_def Let_def)
  next
    case (Some qb)
    then have "qb_inv ?b qb" using inv by (simp add: gsq_inv_def)
    moreover have "gsq_inv (gsq\<lparr>namespacedNameToBuildId := m\<rparr>)" for m
      using inv by (simp add: gsq_inv_def)
    ultimately show ?thesis
      using Some putQueue_inv(1) [OF _ qb_remove(1)] by (simp add: gsq_RemoveFromQueue_def Let_def)
  qed
qed

lemma filter_mset_all: "\<forall>x \<in># M. P x \<Longrightarrow> filter_mset P M = M"
  by (induction M) auto

lemma gsq_remove_at:
  assumes "gsq_inv gsq"
  shows "contents (gsq_RemoveFromQueue gsq ns n) c =
    (if c = map_get (namespacedNameToBuildId gsq) [] (getNamespacedName ns n)
     then filter_mset (not_named ns n) (contents gsq c) else contents gsq c)"
proof -
  let ?k = "getNamespacedName ns n"
  let ?b = "map_get (namespacedNameToBuildId gsq) [] ?k"
  show ?thesis
  proof (cases "queuesPerBuilds gsq ?b")
    case None
    then have "contents gsq ?b = {#}" by (simp add: contents_def)
    with None show ?thesis by (simp add: gsq_RemoveFromQueue_def Let_def)
  next
    case (Some qb)
    have qb: "qb_inv ?b qb" using assms Some by (simp add: gsq_inv_def)
    let ?g = "gsq\<lparr>namespacedNameToBuildId := (namespacedNameToBuildId gsq)(?k := None)\<rparr>"
    have g: "gsq_inv ?g" "contents ?g = contents gsq"
      using assms by (simp_all add: gsq_inv_def contents_def fun_eq_iff)
    have "gsq_RemoveFromQueue gsq ns n = putQueue ?g ?b (gsqb_RemoveFromQueue qb ns n)"
      using Some by (simp add: gsq_RemoveFromQueue_def Let_def)
    moreover have "contents gsq ?b = mset (queue qb)" by (simp add: contents_def Some)
    ultimately show ?thesis
      using putQueue_inv(2) [OF g(1) qb_remove(1) [OF qb]] qb_remove(2) [OF qb] g(2) by simp
  qed
qed

lemma gsq_remove_contents:
  assumes "gsq_inv gsq" and "tracked build_of gsq"
  shows "contents (gsq_RemoveFromQueue gsq ns n) c = filter_mset (not_named ns n) (contents gsq c)"
proof (cases "c = map_get (namespacedNameToBuildId gsq) [] (getNamespacedName ns n)")
  case False
  have "filter_mset (not_named ns n) (contents gsq c) = contents gsq c"
  proof (rule filter_mset_all, rule ballI)
    fix x assume "x \<in># contents gsq c"
    then have "namespacedNameToBuildId gsq (q_key x) = Some c"
      using assms(2) by (auto simp: tracked_def)
    with False show "not_named ns n x" by auto
  qed
  with False show ?thesis by (simp add: gsq_remove_at [OF assms(1)])
qed (simp add: gsq_remove_at [OF assms(1)])

lemma gsq_remove_keeps:
  "gsq_inv gsq \<Longrightarrow> x \<in># contents gsq c \<Longrightarrow> not_named ns n x \<Longrightarrow> x \<in># contents (gsq_RemoveFromQueue gsq ns n) c"
  by (auto simp: gsq_remove_at)

lemma gsq_remove_subset:
  "gsq_inv gsq \<Longrightarrow> contents (gsq_RemoveFromQueue gsq ns n) c \<subseteq># contents gsq c"
  by (simp add: gsq_remove_at)

section \<open>Executions\<close>

inductive q_step :: "(string \<Rightarrow> string) \<Rightarrow> GameServersQueue \<Rightarrow> GameServersQueue \<Rightarrow> bool"
  for build_of where
  q_push: "q_BuildID gs = build_of (q_key gs) \<Longrightarrow> CHR ''/'' \<notin> set (q_Namespace gs) \<Longrightarrow>
    q_step build_of gsq (gsq_PushToQueue gsq gs)"
| q_pop: "q_step build_of gsq (fst (gsq_PopFromQueue gsq b))"
| q_remove: "CHR ''/'' \<notin> set ns \<Longrightarrow> q_step build_of gsq (gsq_RemoveFromQueue gsq ns n)"

definition q_start :: "GameServersQueue \<Rightarrow> bool" where
  "q_start gsq \<longleftrightarrow> gsq = NewGameServersQueue"

lemma tracked_push:
  assumes "gsq_inv gsq" "tracked build_of gsq"
    and "q_BuildID gs = build_of (q_key gs)" "CHR ''/'' \<notin> set (q_Namespace gs)"
  shows "tracked build_of (gsq_PushToQueue gsq gs)"
proof -
  have n: "namespacedNameToBuildId (gsq_PushToQueue gsq gs) =
      (namespacedNameToBuildId gsq)(q_key gs \<mapsto> q_BuildID gs)"
    by (simp add: gsq_PushToQueue_def Let_def)
  show ?thesis
    unfolding tracked_def
  proof (intro conjI allI impI ballI)
    fix k b assume "namespacedNameToBuildId (gsq_PushToQueue gsq gs) k = Some b"
    then show "b = build_of k" using assms(2,3) by (auto simp: tracked_def n split: if_splits)
  next
    fix b x assume "x \<in># contents (gsq_PushToQueue gsq gs) b"
    then consider "x = gs" "b = q_BuildID gs" | "x \<in># contents gsq b"
      by (auto simp: gsq_push(2) [OF assms(1)] split: if_splits)
    then show "CHR ''/'' \<notin> set (q_Namespace x)"
      and "namespacedNameToBuildId (gsq_PushToQueue gsq gs) (q_key x) = Some b"
    proof (atomize (full), cases)
      case 1
      then show "CHR ''/'' \<notin> set (q_Namespace x) \<and>
          namespacedNameToBuildId (gsq_PushToQueue gsq gs) (q_key x) = Some b"
        using assms(4) by (simp add: n)
    next
      case 2
      then have x: "CHR ''/'' \<notin> set (q_Namespace x)" "namespacedNameToBuildId gsq (q_key x) = Some b"
        using assms(2) by (auto simp: tracked_def)
      then have "b = build_of (q_key x)" using assms(2) by (simp add: tracked_def)
      with x assms(3) show "CHR ''/'' \<notin> set (q_Namespace x) \<and>
          namespacedNameToBuildId (gsq_PushToQueue gsq gs) (q_key x) = Some b"
        by (auto simp: n)
    qed
  qed
qed

lemma tracked_subset:
  assumes "tracked build_of gsq" and "namespacedNameToBuildId gsq' = namespacedNameToBuildId gsq"
    and "\<And>c. set_mset (contents gsq' c) \<subseteq> set_mset (contents gsq c)"
  shows "tracked build_of gsq'"
  using assms(1) subsetD [OF assms(3)] unfolding tracked_def assms(2) by blast

lemma tracked_pop:
  assumes "gsq_inv gsq" "tracked build_of gsq"
  shows "tracked build_of (fst (gsq_PopFromQueue gsq b))"
proof -
  obtain gsq' r where pop: "gsq_PopFromQueue gsq b = (gsq', r)" by (cases "gsq_PopFromQueue gsq b")
  note p = gsq_pop [OF assms(1) pop]
  have "set_mset (contents gsq' c) \<subseteq> set_mset (contents gsq c)" for c
  proof (cases "c = b")
    case True
    then show ?thesis
    proof (cases r)
      case None
      then show ?thesis using p(4) by simp
    next
      case (Some gs)
      from p(5) [OF this] have "contents gsq b = add_mset gs (contents gsq' b)" by blast
      then show ?thesis using True by auto
    qed
  qed (simp add: p(2))
  then show ?thesis
    using tracked_subset [OF assms(2) p(3)] by (simp add: pop)
qed

lemma tracked_remove:
  assumes "gsq_inv gsq" "tracked build_of gsq" "CHR ''/'' \<notin> set ns"
  shows "tracked build_of (gsq_RemoveFromQueue gsq ns n)"
proof -
  let ?k = "getNamespacedName ns n"
  have n: "namespacedNameToBuildId (gsq_RemoveFromQueue gsq ns n) k =
      namespacedNameToBuildId gsq k" if "k \<noteq> ?k" for k
    using that by (simp add: gsq_RemoveFromQueue_def putQueue_def Let_def split: option.splits)
  have sub: "namespacedNameToBuildId (gsq_RemoveFromQueue gsq ns n) k = Some b \<Longrightarrow>
      namespacedNameToBuildId gsq k = Some b" for k b
    by (auto simp: gsq_RemoveFromQueue_def putQueue_def Let_def split: option.splits if_splits)
  have key: "q_key x \<noteq> ?k"
    if "CHR ''/'' \<notin> set (q_Namespace x)" "not_named ns n x" for x
    using getNamespacedName_inj [OF that(1) assms(3)] that(2) by auto
  show ?thesis
    unfolding tracked_def
  proof (intro conjI allI impI ballI)
    fix k b assume "namespacedNameToBuildId (gsq_RemoveFromQueue gsq ns n) k = Some b"
    then show "b = build_of k" using assms(2) sub by (auto simp: tracked_def)
  next
    fix b x assume "x \<in># contents (gsq_RemoveFromQueue gsq ns n) b"
    then have "x \<in># contents gsq b" "not_named ns n x"
      by (auto simp: gsq_remove_contents [OF assms(1,2)])
    then show "CHR ''/'' \<notin> set (q_Namespace x)"
      "namespacedNameToBuildId (gsq_RemoveFromQueue gsq ns n) (q_key x) = Some b"
      using assms(2) n key by (auto simp: tracked_def)
  qed
qed

interpretation queue_system: invariant_system q_start "q_step build_of"
  "\<lambda>gsq. gsq_inv gsq \<and> tracked build_of gsq" for build_of
proof
  fix gsq
  show "q_start gsq \<Longrightarrow> gsq_inv gsq \<and> tracked build_of gsq"
    by (auto simp: q_start_def tracked_def) (simp add: NewGameServersQueue_def)
next
  fix gsq gsq'
  assume inv: "gsq_inv gsq \<and> tracked build_of gsq" and step: "q_step build_of gsq gsq'"
  then have "gsq_inv gsq" "tracked build_of gsq" by auto
  from step this show "gsq_inv gsq' \<and> tracked build_of gsq'"
  proof cases
    case (q_pop b)
    then show ?thesis
      using inv tracked_pop [of gsq build_of b] gsq_pop(1) [of gsq b]
      by (metis prod.collapse)
  qed (use inv in \<open>auto intro: gsq_push gsq_remove_inv tracked_push tracked_remove\<close>)
qed

text \<open>Popping \<open>n\<close> times from a build, as that many allocations do.\<close>

fun popTimes :: "nat \<Rightarrow> GameServersQueue \<Rightarrow> string \<Rightarrow> GameServersQueue \<times> GameServerForQueue list" where
  "popTimes 0 gsq b = (gsq, [])"
| "popTimes (Suc n) gsq b =
     (case gsq_PopFromQueue gsq b of
        (gsq', None) \<Rightarrow> (gsq', [])
      | (gsq', Some gs) \<Rightarrow> (let (gsq'', xs) = popTimes n gsq' b in (gsq'', gs # xs)))"

lemma popTimes_spec:
  assumes "gsq_inv gsq" and "popTimes n gsq b = (gsq', xs)"
  shows "gsq_inv gsq'" and "contents gsq b = mset xs + contents gsq' b"
    and "sorted (map q_NodeAge xs)" and "\<forall>x \<in> set xs. \<forall>y \<in># contents gsq' b. q_NodeAge x \<le> q_NodeAge y"
    and "c \<noteq> b \<Longrightarrow> contents gsq' c = contents gsq c"
    and "namespacedNameToBuildId gsq' = namespacedNameToBuildId gsq"
    and "contents gsq' b \<noteq> {#} \<Longrightarrow> length xs = n"
proof -
  have "gsq_inv gsq' \<and> contents gsq b = mset xs + contents gsq' b \<and> sorted (map q_NodeAge xs) \<and>
    (\<forall>x \<in> set xs. \<forall>y \<in># contents gsq' b. q_NodeAge x \<le> q_NodeAge y) \<and>
    (\<forall>c. c \<noteq> b \<longrightarrow> contents gsq' c = contents gsq c) \<and>
    namespacedNameToBuildId gsq' = namespacedNameToBuildId gsq \<and>
    (contents gsq' b \<noteq> {#} \<longrightarrow> length xs = n)"
    using assms
  proof (induction n arbitrary: gsq xs)
    case 0
    then show ?case by simp
  next
    case (Suc n)
    obtain g r where pop: "gsq_PopFromQueue gsq b = (g, r)" by (cases "gsq_PopFromQueue gsq b")
    note p = gsq_pop [OF Suc.prems(1) pop]
    show ?case
    proof (cases r)
      case None
      with Suc.prems pop p(4) show ?thesis by simp
    next
      case (Some gs)
      obtain ys where ys: "popTimes n g b = (gsq', ys)" "xs = gs # ys"
        using Suc.prems(2) pop Some by (auto split: prod.splits)
      note IH = Suc.IH [OF p(1) ys(1)]
      have c: "contents gsq b = add_mset gs (contents g b)"
        and le: "\<forall>y \<in># contents gsq b. q_NodeAge gs \<le> q_NodeAge y"
        using p(5) [OF Some] by auto
      then show ?thesis using IH ys(2) p(2,3) by auto
    qed
  qed
  then show "gsq_inv gsq'" and "contents gsq b = mset xs + contents gsq' b"
    and "sorted (map q_NodeAge xs)" and "\<forall>x \<in> set xs. \<forall>y \<in># contents gsq' b. q_NodeAge x \<le> q_NodeAge y"
    and "c \<noteq> b \<Longrightarrow> contents gsq' c = contents gsq c"
    and "namespacedNameToBuildId gsq' = namespacedNameToBuildId gsq"
    and "contents gsq' b \<noteq> {#} \<Longrightarrow> length xs = n"
    by auto
qed

lemma contents_empty: "gsq_inv gsq \<Longrightarrow> contents gsq b = {#} \<longleftrightarrow> queuesPerBuilds gsq b = None"
  by (auto simp: gsq_inv_def contents_def split: option.splits)

section \<open>Properties\<close>

definition gs_for_queue :: "string \<Rightarrow> string \<Rightarrow> int \<Rightarrow> GameServerForQueue" where
  "gs_for_queue ns n age = \<lparr>q_Name = n, q_Namespace = ns, q_BuildID = ''build'', q_NodeAge = age,
     q_ResourceVersion = ''1''\<rparr>"

definition three_servers :: GameServersQueue where
  "three_servers =
     gsq_PushToQueue (gsq_PushToQueue (gsq_PushToQueue NewGameServersQueue
       (gs_for_queue ''default'' ''a'' 7)) (gs_for_queue ''default'' ''b'' 3))
       (gs_for_queue ''default'' ''c'' 5)"

lemma gs_for_queue_simps [simp]:
  "q_Name (gs_for_queue ns n age) = n" "q_Namespace (gs_for_queue ns n age) = ns"
  "q_BuildID (gs_for_queue ns n age) = ''build''" "q_NodeAge (gs_for_queue ns n age) = age"
  by (simp_all add: gs_for_queue_def)

lemma gs_for_queue_inj [simp]:
  "gs_for_queue ns n age = gs_for_queue ns' n' age' \<longleftrightarrow> ns = ns' \<and> n = n' \<and> age = age'"
  by (auto simp: gs_for_queue_def)

lemma three_servers_reach:
  "reach q_start (q_step (\<lambda>_. ''build'')) three_servers"
  unfolding three_servers_def
  by (rule reach_step, rule reach_step, rule reach_step, rule reach_init)
    (auto simp: q_start_def intro: q_push)

lemma three_servers_inv [simp]: "gsq_inv three_servers"
  using queue_system.inv_reach [OF three_servers_reach] by blast

lemma three_servers_contents:
  "contents three_servers ''build'' =
     {#gs_for_queue ''default'' ''a'' 7, gs_for_queue ''default'' ''b'' 3, gs_for_queue ''default'' ''c'' 5#}"
  by (simp add: three_servers_def gsq_push)

lemma three_servers_eval:
  "snd (popTimes 3 three_servers ''build'') =
     [gs_for_queue ''default'' ''b'' 3, gs_for_queue ''default'' ''c'' 5, gs_for_queue ''default'' ''a'' 7]"
  by code_simp

text \<open>
  C12: the allocation queue refines a map from builds to bags of GameServers. In every reachable
  state: a push adds the GameServer to its build's bag unless one of that name is in it; a pop
  takes out one on a node of least age and returns nil exactly when the bag is empty; a removal
  takes out the GameServer with that namespace and name and nothing else, whatever build it is
  in. No operation touches the bag of another build.
\<close>

theorem queue_refines_bags:
  assumes "reach q_start (q_step build_of) gsq"
  shows "contents (gsq_PushToQueue gsq gs) b =
      (if b = q_BuildID gs \<and> q_Name gs \<notin> q_Name ` set_mset (contents gsq b)
       then add_mset gs (contents gsq b) else contents gsq b) \<and>
    (case gsq_PopFromQueue gsq c of (gsq', r) \<Rightarrow>
      (b \<noteq> c \<longrightarrow> contents gsq' b = contents gsq b) \<and>
      (case r of None \<Rightarrow> contents gsq c = {#} \<and> gsq' = gsq
       | Some x \<Rightarrow> contents gsq c = add_mset x (contents gsq' c) \<and>
           (\<forall>y \<in># contents gsq c. q_NodeAge x \<le> q_NodeAge y))) \<and>
    contents (gsq_RemoveFromQueue gsq ns n) b =
      filter_mset (\<lambda>x. \<not> (q_Name x = n \<and> q_Namespace x = ns)) (contents gsq b)"
proof -
  have inv: "gsq_inv gsq" "tracked build_of gsq" using queue_system.inv_reach [OF assms] by auto
  have "case gsq_PopFromQueue gsq c of (gsq', r) \<Rightarrow>
      (b \<noteq> c \<longrightarrow> contents gsq' b = contents gsq b) \<and>
      (case r of None \<Rightarrow> contents gsq c = {#} \<and> gsq' = gsq
       | Some x \<Rightarrow> contents gsq c = add_mset x (contents gsq' c) \<and>
           (\<forall>y \<in># contents gsq c. q_NodeAge x \<le> q_NodeAge y))"
  proof (cases "gsq_PopFromQueue gsq c")
    case (Pair gsq' r)
    note p = gsq_pop [OF inv(1) Pair]
    show ?thesis using p(2) [of b] p(4,5) Pair by (cases r) auto
  qed
  then show ?thesis
    using gsq_push(2) [OF inv(1), of gs b] gsq_remove_contents [OF inv, of ns n b] by blast
qed

theorem queue_refines_bags_witness:
  "contents (gsq_RemoveFromQueue three_servers ''default'' ''b'') ''build'' =
     {#gs_for_queue ''default'' ''a'' 7, gs_for_queue ''default'' ''c'' 5#}"
  using queue_refines_bags [OF three_servers_reach, of "gs_for_queue ''default'' ''a'' 7" "''build''"
      "''build''" "''default''" "''b''"]
  by (simp add: three_servers_contents)

text \<open>
  Allocations prefer the newest nodes. However many GameServers are popped in a row from a
  build, they come out in ascending age of their nodes, none of those left is on a newer node
  than one that was popped, and together they are the GameServers the build had; fewer than
  asked for come out only when the build ran empty.
\<close>

lemma pops_newest_nodes_first:
  assumes "reach q_start (q_step build_of) gsq" and "popTimes n gsq b = (gsq', xs)"
  shows "sorted (map q_NodeAge xs) \<and> contents gsq b = mset xs + contents gsq' b \<and>
    (\<forall>x \<in> set xs. \<forall>y \<in># contents gsq' b. q_NodeAge x \<le> q_NodeAge y) \<and>
    (contents gsq' b \<noteq> {#} \<longrightarrow> length xs = n)"
  using popTimes_spec [OF conjunct1 [OF queue_system.inv_reach [OF assms(1)]] assms(2)] by auto

lemma pops_newest_nodes_first_witness:
  "\<exists>gsq' xs. popTimes 2 three_servers ''build'' = (gsq', xs) \<and> sorted (map q_NodeAge xs) \<and>
     size (contents gsq' ''build'') + length xs = 3"
proof -
  obtain gsq' xs where p: "popTimes 2 three_servers ''build'' = (gsq', xs)"
    by (cases "popTimes 2 three_servers ''build''")
  note t = pops_newest_nodes_first [OF three_servers_reach p]
  then have "size (contents three_servers ''build'') = size (mset xs + contents gsq' ''build'')"
    by metis
  then have "size (contents gsq' ''build'') + length xs = 3" by (simp add: three_servers_contents)
  with t p show ?thesis by blast
qed

text \<open>
  The map from GameServers to builds is never cleaned for a GameServer that was allocated.
  Popping leaves its entry, and once the build's queue has run empty \<open>RemoveFromQueue\<close>, which
  runs when that GameServer is deleted, returns before it deletes the entry.
\<close>

lemma drained_names_stay:
  assumes "reach q_start (q_step build_of) gsq" and "popTimes n gsq b = (gsq', xs)"
    and "contents gsq' b = {#}" and "x \<in> set xs"
  shows "namespacedNameToBuildId gsq' (getNamespacedName (q_Namespace x) (q_Name x)) = Some b \<and>
    gsq_RemoveFromQueue gsq' (q_Namespace x) (q_Name x) = gsq'"
proof -
  have inv: "gsq_inv gsq" "tracked build_of gsq"
    using queue_system.inv_reach [OF assms(1)] by auto
  note p = popTimes_spec [OF inv(1) assms(2)]
  have "x \<in># contents gsq b" using p(2) assms(4) by simp
  then have k: "namespacedNameToBuildId gsq' (q_key x) = Some b"
    using inv(2) p(6) by (simp add: tracked_def)
  have "queuesPerBuilds gsq' b = None" using assms(3) contents_empty [OF p(1)] by simp
  with k show ?thesis by (simp add: gsq_RemoveFromQueue_def Let_def)
qed

lemma drained_names_stay_witness:
  "\<exists>gsq'. popTimes 3 three_servers ''build'' = (gsq',
       [gs_for_queue ''default'' ''b'' 3, gs_for_queue ''default'' ''c'' 5, gs_for_queue ''default'' ''a'' 7]) \<and>
     namespacedNameToBuildId (gsq_RemoveFromQueue gsq' ''default'' ''b'') ''default/b'' = Some ''build''"
proof -
  obtain gsq' xs where p: "popTimes 3 three_servers ''build'' = (gsq', xs)"
    by (cases "popTimes 3 three_servers ''build''")
  have xs: "xs = [gs_for_queue ''default'' ''b'' 3, gs_for_queue ''default'' ''c'' 5,
      gs_for_queue ''default'' ''a'' 7]"
    using p three_servers_eval by simp
  have "contents three_servers ''build'' = mset xs + contents gsq' ''build''"
    using popTimes_spec(2) [OF three_servers_inv p] .
  then have "contents gsq' ''build'' = {#}"
    using xs by (simp add: three_servers_contents)
  from drained_names_stay [OF three_servers_reach p this, of "gs_for_queue ''default'' ''b'' 3"]
  show ?thesis using p xs by (simp add: getNamespacedName_def)
qed

text \<open>
  The set of names of a build's queue ignores the namespace. Of two GameServers of a build
  with one name in two namespaces, only the first to be pushed is queued: the second is dropped,
  although it is StandingBy, and a pop after the first was popped finds nothing.
\<close>

lemma same_name_other_namespace_dropped:
  assumes "reach q_start (q_step build_of) gsq" and "x \<in># contents gsq (q_BuildID y)"
    and "q_Name x = q_Name y" and "q_Namespace x \<noteq> q_Namespace y"
  shows "contents (gsq_PushToQueue gsq y) = contents gsq"
proof
  fix b
  have "q_Name y \<in> q_Name ` set_mset (contents gsq (q_BuildID y))"
    using assms(2,3) by (metis imageI)
  then show "contents (gsq_PushToQueue gsq y) b = contents gsq b"
    using gsq_push(2) [OF conjunct1 [OF queue_system.inv_reach [OF assms(1)]], of y b] by auto
qed

lemma same_name_other_namespace_dropped_witness:
  "contents (gsq_PushToQueue three_servers (gs_for_queue ''other'' ''a'' 1)) = contents three_servers"
  by (rule same_name_other_namespace_dropped [OF three_servers_reach,
        of "gs_for_queue ''default'' ''a'' 7"]) (simp_all add: three_servers_contents)

end
