(* ===== verification/Allocation_Api.thy ===== *)
theory Allocation_Api
  imports GameServer_Queue Controller_Utils Metrics
begin

text \<open>
  The allocation service of \<open>pkg/operator/controllers/allocation_api_server.go\<close> and
  \<open>allocation_utils.go\<close>: the checks on a request, its error responses, the reconciler that
  feeds the queue and the handler that pops a StandingBy GameServer and patches it to Active under
  an optimistic lock. The API server is a parameter over an abstract world; what the handler
  relies on of it is the predicate \<open>optimistic_patch\<close>.
\<close>

section \<open>Arguments and their validation\<close>

record AllocateArgs =
  aa_SessionID :: string
  aa_BuildID :: string
  aa_SessionCookie :: string
  aa_InitialPlayers :: "string list"

definition char_between :: "char \<Rightarrow> char \<Rightarrow> char \<Rightarrow> bool" where
  "char_between a b c \<longleftrightarrow> (of_char a :: nat) \<le> of_char c \<and> (of_char c :: nat) \<le> of_char b"

text \<open>\<open>[a-fA-F0-9]\<close> and \<open>[8|9|aA|bB]\<close>; in the second the bar is one of the characters.\<close>

definition hex_class :: "char \<Rightarrow> bool" where
  "hex_class c \<longleftrightarrow> char_between (CHR ''a'') (CHR ''f'') c \<or> char_between (CHR ''A'') (CHR ''F'') c \<or>
     char_between (CHR ''0'') (CHR ''9'') c"

definition variant_class :: "char \<Rightarrow> bool" where
  "variant_class c \<longleftrightarrow> c \<in> set ''8|9|aA|bB''"

fun match_classes :: "(char \<Rightarrow> bool) list \<Rightarrow> string \<Rightarrow> bool" where
  "match_classes [] s = (s = [])"
| "match_classes (p # ps) [] = False"
| "match_classes (p # ps) (c # cs) = (p c \<and> match_classes ps cs)"

definition uuid_regexp :: "(char \<Rightarrow> bool) list" where
  "uuid_regexp =
     replicate 8 hex_class @ [\<lambda>c. c = CHR ''-''] @ replicate 4 hex_class @ [\<lambda>c. c = CHR ''-''] @
     [\<lambda>c. c = CHR ''4''] @ replicate 3 hex_class @ [\<lambda>c. c = CHR ''-''] @
     [variant_class] @ replicate 3 hex_class @ [\<lambda>c. c = CHR ''-''] @ replicate 12 hex_class"

definition isValidUUID :: "string \<Rightarrow> bool" where
  "isValidUUID uuid = match_classes uuid_regexp uuid"

definition validateAllocateArgs :: "AllocateArgs \<Rightarrow> bool" where
  "validateAllocateArgs aa =
     (if \<not> isValidUUID (aa_SessionID aa) \<or> \<not> isValidUUID (aa_BuildID aa) then False else True)"

section \<open>Requests and responses\<close>

record RequestMultiplayerServerResponse =
  rs_IPV4Address :: string
  rs_Ports :: string
  rs_SessionID :: string

datatype body = NoBody | TextBody string | AllocBody RequestMultiplayerServerResponse

record http_response =
  hr_Code :: nat
  hr_Headers :: "(string \<times> string) list"
  hr_Body :: body

definition alloc_headers :: "(string \<times> string) list" where
  "alloc_headers =
     [(''Access-Control-Allow-Origin'', ''*''),
      (''Access-Control-Allow-Methods'', ''POST, PATCH, OPTIONS''),
      (''Content-Type'', ''application/json''),
      (''Access-Control-Allow-Headers'', ''Content-Type'')]"

definition respond :: "nat \<Rightarrow> body \<Rightarrow> http_response" where
  "respond code b = \<lparr>hr_Code = code, hr_Headers = alloc_headers, hr_Body = b\<rparr>"

definition internalServerError :: "string \<Rightarrow> string \<Rightarrow> http_response" where
  "internalServerError err msg =
     respond 500 (TextBody (''500 - '' @ html_escape msg @ '' '' @ html_escape err))"

definition badRequestError :: "string \<Rightarrow> string \<Rightarrow> http_response" where
  "badRequestError err msg =
     respond 400 (TextBody (''400 - '' @ html_escape msg @ '' '' @ html_escape err))"

definition tooManyRequestsError :: "string \<Rightarrow> string \<Rightarrow> http_response" where
  "tooManyRequestsError err msg =
     respond 429 (TextBody (''429 - '' @ html_escape msg @ '' '' @ html_escape err))"

definition notFoundError :: "string \<Rightarrow> string \<Rightarrow> http_response" where
  "notFoundError err msg =
     respond 404 (TextBody (''404 - '' @ html_escape msg @ '' '' @ html_escape err))"

section \<open>The API server\<close>

text \<open>
  The calls of the client that the service makes, and the JSON decoder and encoder.
  \<open>al_patchStatus w base new\<close> is \<open>Status().Patch\<close> with the merge patch from \<open>base\<close> to \<open>new\<close>
  under the resource version of \<open>base\<close>; it returns the stored object.
\<close>

record 'w alloc_api =
  al_listBuilds :: "'w \<Rightarrow> string \<Rightarrow> api_error + GameServerBuild list"
  al_listSession :: "'w \<Rightarrow> string \<Rightarrow> string \<Rightarrow> api_error + GameServer list"
  al_patchStatus :: "'w \<Rightarrow> GameServer \<Rightarrow> GameServer \<Rightarrow> 'w \<times> (api_error + GameServer)"
  al_decode :: "string \<Rightarrow> string + AllocateArgs"
  al_encodeError :: "RequestMultiplayerServerResponse \<Rightarrow> string option"
  al_now :: int
  al_elapsed :: int

record 'w alloc_state =
  as_queue :: GameServersQueue
  as_world :: 'w
  as_events :: "(string \<times> string) list"  \<comment> \<open>what was sent to the channel, oldest first\<close>
  as_effects :: "effect list"

definition emit :: "effect list \<Rightarrow> 'w alloc_state \<Rightarrow> 'w alloc_state" where
  "emit es s = s\<lparr>as_effects := as_effects s @ es\<rparr>"

section \<open>The reconciler\<close>

text \<open>
  \<open>r\<close> is what the cache returned for the name. A GameServer that is gone leaves the queue, one
  that is StandingBy is pushed with the version that was read.
\<close>

definition forQueue :: "GameServer \<Rightarrow> GameServerForQueue" where
  "forQueue gs = \<lparr>q_Name = gs_Name gs, q_Namespace = gs_Namespace gs,
     q_BuildID = gss_BuildID (gs_Spec gs), q_NodeAge = st_NodeAge (gs_Status gs),
     q_ResourceVersion = om_ResourceVersion (gs_Meta gs)\<rparr>"

definition alloc_Reconcile ::
    "string \<Rightarrow> string \<Rightarrow> api_error + GameServer \<Rightarrow> GameServersQueue \<Rightarrow> GameServersQueue \<times> api_error option" where
  "alloc_Reconcile namespace name r q =
     (case r of
        Inl e \<Rightarrow> if IsNotFound e then (gsq_RemoveFromQueue q namespace name, None) else (q, Some e)
      | Inr gs \<Rightarrow>
          (if gs_State gs = GameServerStateStandingBy then (gsq_PushToQueue q (forQueue gs), None)
           else (q, None)))"

section \<open>The handler\<close>

abbreviation allocationTries :: nat where "allocationTries \<equiv> 3"

definition alloc_base :: "GameServerForQueue \<Rightarrow> GameServer" where
  "alloc_base x = zero_GameServer\<lparr>gs_Meta := zero_Meta
     \<lparr>om_Name := q_Name x, om_Namespace := q_Namespace x, om_ResourceVersion := q_ResourceVersion x\<rparr>\<rparr>"

definition alloc_new :: "AllocateArgs \<Rightarrow> int \<Rightarrow> GameServerForQueue \<Rightarrow> GameServer" where
  "alloc_new args now x = (alloc_base x)\<lparr>gs_Status := (gs_Status (alloc_base x))
     \<lparr>st_State := GameServerStateActive, st_SessionID := aa_SessionID args,
      st_SessionCookie := aa_SessionCookie args, st_InitialPlayers := aa_InitialPlayers args,
      st_ReachedActiveOn := Some now\<rparr>\<rparr>"

definition buildNameLabel :: "GameServer \<Rightarrow> string" where
  "buildNameLabel gs = map_get (om_Labels (gs_Meta gs)) [] LabelBuildName"

definition patch_error_metric :: "api_error \<Rightarrow> metric" where
  "patch_error_metric e =
     (if IsConflict e then Allocations409ErrorsCounter
      else if IsNotFound e then Allocations404ErrorsCounter
      else Allocations500ErrorsCounter)"

definition sessionResponse :: "string \<Rightarrow> GameServer \<Rightarrow> RequestMultiplayerServerResponse" where
  "sessionResponse sid gs = \<lparr>rs_IPV4Address = st_PublicIP (gs_Status gs),
     rs_Ports = st_Ports (gs_Status gs), rs_SessionID = sid\<rparr>"

text \<open>What follows a successful patch in the \<open>i\<close>-th try.\<close>

definition alloc_success ::
    "'w alloc_api \<Rightarrow> AllocateArgs \<Rightarrow> nat \<Rightarrow> GameServer \<Rightarrow> 'w alloc_state \<Rightarrow> 'w alloc_state \<times> http_response" where
  "alloc_success api args i gs2 s =
     (let rs = sessionResponse (aa_SessionID args) gs2; l = buildNameLabel gs2
      in case al_encodeError api rs of
           Some e \<Rightarrow> (emit [Inc Allocations500ErrorsCounter [l]] s, internalServerError e ''encode json response'')
         | None \<Rightarrow>
             (emit ([Inc AllocationsCounter [l]] @
                (if 0 < i then [Inc AllocationsRetriesCounter [l]] else []) @
                [SetGauge AllocationsTimeTakenDuration [l] (al_elapsed api)]) s,
              respond 200 (AllocBody rs)))"

definition alloc_exhausted :: "api_error option \<Rightarrow> http_response" where
  "alloc_exhausted err =
     internalServerError
       (case err of None \<Rightarrow> ''unknown error, exceeded the maximum number of retries'' | Some e \<Rightarrow> err_text e)
       ''error allocating''"

text \<open>The loop: the tries that are left, the number of the try, the last error.\<close>

fun allocLoop ::
    "'w alloc_api \<Rightarrow> AllocateArgs \<Rightarrow> nat \<Rightarrow> nat \<Rightarrow> api_error option \<Rightarrow> 'w alloc_state \<Rightarrow>
     'w alloc_state \<times> http_response" where
  "allocLoop api args 0 i err s = (s, alloc_exhausted err)"
| "allocLoop api args (Suc n) i err s =
     (case gsq_PopFromQueue (as_queue s) (aa_BuildID args) of
        (q, None) \<Rightarrow>
          (emit [Inc Allocations429ErrorsCounter [aa_BuildID args]] (s\<lparr>as_queue := q\<rparr>),
           tooManyRequestsError ''not enough standingBy'' ''there are not enough standingBy servers'')
      | (q, Some gs) \<Rightarrow>
          (case al_patchStatus api (as_world s) (alloc_base gs) (alloc_new args (al_now api) gs) of
             (w, Inl e) \<Rightarrow>
               allocLoop api args n (Suc i) (Some e)
                 (emit [Inc (patch_error_metric e) [buildNameLabel (alloc_new args (al_now api) gs)]]
                   (s\<lparr>as_queue := q, as_world := w,
                      as_events := as_events s @ [(q_Namespace gs, q_Name gs)]\<rparr>))
           | (w, Inr gs2) \<Rightarrow> alloc_success api args i gs2 (s\<lparr>as_queue := q, as_world := w\<rparr>)))"

definition handleAllocationRequest ::
    "'w alloc_api \<Rightarrow> string \<Rightarrow> string \<Rightarrow> 'w alloc_state \<Rightarrow> 'w alloc_state \<times> http_response" where
  "handleAllocationRequest api meth reqBody s =
     (if meth = ''OPTIONS'' then (s, respond 200 NoBody)
      else if meth \<noteq> ''POST'' \<and> meth \<noteq> ''PATCH''
      then (s, badRequestError ''invalid method'' ''Only POST and PATCH are accepted'')
      else case al_decode api reqBody of
             Inl e \<Rightarrow> (s, badRequestError e ''cannot deserialize json'')
           | Inr args \<Rightarrow>
               if \<not> validateAllocateArgs args
               then (s, badRequestError ''invalid sessionID or buildID'' ''invalid arguments'')
               else case al_listBuilds api (as_world s) (aa_BuildID args) of
                      Inl e \<Rightarrow> (s, if IsNotFound e then notFoundError (err_text e) ''not found''
                                   else internalServerError (err_text e) ''error listing'')
                    | Inr builds \<Rightarrow>
                        if length builds = 0
                        then (s, notFoundError ''GameServerBuild not found''
                          (''GameServerBuild with ID '' @ aa_BuildID args @ '' not found''))
                        else (case al_listSession api (as_world s) (aa_SessionID args) (aa_BuildID args) of
                                Inl e \<Rightarrow> (s, internalServerError (err_text e) ''error listing'')
                              | Inr servers \<Rightarrow>
                                  if 1 < length servers
                                  then (s, internalServerError ''multiple servers found''
                                    (''Multiple servers found for sessionID '' @ aa_SessionID args))
                                  else if length servers = 1
                                  then (s, respond 200 (AllocBody (sessionResponse (aa_SessionID args) (hd servers))))
                                  else allocLoop api args allocationTries 0 None s))"

section \<open>What the handler relies on of the API server\<close>

text \<open>
  A JSON merge patch changes the fields in which \<open>new\<close> differs from \<open>base\<close>. \<open>cur\<close> reads the
  stored GameServers off the world.
\<close>

definition merge_field :: "('s \<Rightarrow> 'f) \<Rightarrow> 's \<Rightarrow> 's \<Rightarrow> 's \<Rightarrow> 'f" where
  "merge_field f base new old = (if f new = f base then f old else f new)"

definition merge_status ::
    "GameServerStatus \<Rightarrow> GameServerStatus \<Rightarrow> GameServerStatus \<Rightarrow> GameServerStatus" where
  "merge_status base new old =
     \<lparr>st_Health = merge_field st_Health base new old,
      st_State = merge_field st_State base new old,
      st_PublicIP = merge_field st_PublicIP base new old,
      st_Ports = merge_field st_Ports base new old,
      st_SessionID = merge_field st_SessionID base new old,
      st_SessionCookie = merge_field st_SessionCookie base new old,
      st_InitialPlayers = merge_field st_InitialPlayers base new old,
      st_NodeAge = merge_field st_NodeAge base new old,
      st_NodeName = merge_field st_NodeName base new old,
      st_ReachedInitializingOn = merge_field st_ReachedInitializingOn base new old,
      st_ReachedStandingByOn = merge_field st_ReachedStandingByOn base new old,
      st_ReachedActiveOn = merge_field st_ReachedActiveOn base new old\<rparr>"

type_synonym gs_store = "string \<times> string \<rightharpoonup> GameServer"

abbreviation gsKey :: "GameServer \<Rightarrow> string \<times> string" where
  "gsKey gs \<equiv> (gs_Namespace gs, gs_Name gs)"

text \<open>
  A resource version names one content of an object for ever: \<open>versions k v\<close> is what object \<open>k\<close>
  is at version \<open>v\<close>. What is stored, and what a cache returns, is consistent with it.
\<close>

type_synonym versions = "string \<times> string \<Rightarrow> string \<Rightarrow> GameServer option"

definition is_version :: "versions \<Rightarrow> GameServer \<Rightarrow> bool" where
  "is_version versions g \<longleftrightarrow> versions (gsKey g) (om_ResourceVersion (gs_Meta g)) = Some g"

definition store_consistent :: "versions \<Rightarrow> gs_store \<Rightarrow> bool" where
  "store_consistent versions m \<longleftrightarrow> (\<forall>k g. m k = Some g \<longrightarrow> gsKey g = k \<and> is_version versions g)"

definition optimistic_patch ::
    "('w \<Rightarrow> gs_store) \<Rightarrow> ('w \<Rightarrow> GameServer \<Rightarrow> GameServer \<Rightarrow> 'w \<times> (api_error + GameServer)) \<Rightarrow> bool" where
  "optimistic_patch cur patch \<longleftrightarrow>
     (\<forall>w base new w' r. patch w base new = (w', r) \<longrightarrow>
        (case r of
           Inl e \<Rightarrow> cur w' = cur w
         | Inr g' \<Rightarrow> (\<exists>g. cur w (gsKey base) = Some g \<and>
             om_ResourceVersion (gs_Meta g) = om_ResourceVersion (gs_Meta base) \<and>
             gs_Spec g' = gs_Spec g \<and> om_Labels (gs_Meta g') = om_Labels (gs_Meta g) \<and>
             gsKey g' = gsKey base \<and>
             gs_Status g' = merge_status (gs_Status base) (gs_Status new) (gs_Status g) \<and>
             cur w' = (cur w)(gsKey base \<mapsto> g'))))"

section \<open>The queue holds StandingBy versions\<close>

definition queued_standing :: "versions \<Rightarrow> GameServersQueue \<Rightarrow> bool" where
  "queued_standing versions q \<longleftrightarrow>
     (\<forall>b x. x \<in># contents q b \<longrightarrow>
        (\<exists>g. versions (q_Namespace x, q_Name x) (q_ResourceVersion x) = Some g \<and>
           gs_State g = GameServerStateStandingBy \<and> gss_BuildID (gs_Spec g) = b))"

definition alloc_inv :: "versions \<Rightarrow> 'w alloc_state \<Rightarrow> bool" where
  "alloc_inv versions s \<longleftrightarrow> gsq_inv (as_queue s) \<and> queued_standing versions (as_queue s)"

lemma queued_standing_sub:
  assumes "queued_standing versions q" and "\<And>b. set_mset (contents q' b) \<subseteq> set_mset (contents q b)"
  shows "queued_standing versions q'"
  using assms(1) subsetD [OF assms(2)] unfolding queued_standing_def by blast

lemma queued_standing_push:
  assumes "gsq_inv q" "queued_standing versions q" "is_version versions gs"
    and "gs_State gs = GameServerStateStandingBy"
  shows "queued_standing versions (gsq_PushToQueue q (forQueue gs))"
  unfolding queued_standing_def
proof (intro allI impI)
  fix b x assume "x \<in># contents (gsq_PushToQueue q (forQueue gs)) b"
  then consider "x = forQueue gs" "b = gss_BuildID (gs_Spec gs)" | "x \<in># contents q b"
    by (auto simp: gsq_push(2) [OF assms(1)] forQueue_def split: if_splits)
  then show "\<exists>g. versions (q_Namespace x, q_Name x) (q_ResourceVersion x) = Some g \<and>
      gs_State g = GameServerStateStandingBy \<and> gss_BuildID (gs_Spec g) = b"
  proof cases
    case 1
    with assms(3,4) show ?thesis by (simp add: forQueue_def is_version_def)
  next
    case 2
    with assms(2) show ?thesis by (simp add: queued_standing_def)
  qed
qed

lemma queued_standing_pop:
  assumes "gsq_inv q" "queued_standing versions q" "gsq_PopFromQueue q b = (q', r)"
  shows "queued_standing versions q'"
proof (rule queued_standing_sub [OF assms(2)])
  fix c
  note p = gsq_pop [OF assms(1,3)]
  show "set_mset (contents q' c) \<subseteq> set_mset (contents q c)"
  proof (cases "c = b")
    case True
    show ?thesis
    proof (cases r)
      case None
      with p(4) show ?thesis by simp
    next
      case (Some gs)
      from p(5) [OF this] have "contents q b = add_mset gs (contents q' b)" by blast
      then show ?thesis using True by auto
    qed
  qed (simp add: p(2))
qed

text \<open>What a reconciliation reads is a version of the object it is for.\<close>

definition cache_read :: "versions \<Rightarrow> string \<Rightarrow> string \<Rightarrow> api_error + GameServer \<Rightarrow> bool" where
  "cache_read versions ns n r \<longleftrightarrow>
     (case r of Inl e \<Rightarrow> True | Inr gs \<Rightarrow> gsKey gs = (ns, n) \<and> is_version versions gs)"

lemma alloc_Reconcile_inv:
  assumes "gsq_inv q" "queued_standing versions q" "cache_read versions ns n r"
  shows "gsq_inv (fst (alloc_Reconcile ns n r q)) \<and> queued_standing versions (fst (alloc_Reconcile ns n r q))"
proof (cases r)
  case (Inl e)
  have "set_mset (contents (gsq_RemoveFromQueue q ns n) b) \<subseteq> set_mset (contents q b)" for b
    using gsq_remove_subset [OF assms(1)] by (simp add: set_mset_mono)
  from queued_standing_sub [OF assms(2) this] show ?thesis
    using assms gsq_remove_inv [OF assms(1)] by (simp add: alloc_Reconcile_def Inl)
next
  case (Inr gs)
  with assms show ?thesis
    using gsq_push(1) [OF assms(1)] queued_standing_push [OF assms(1,2)]
    by (simp add: alloc_Reconcile_def cache_read_def)
qed

section \<open>One allocation\<close>

text \<open>The result of a successful allocation of \<open>g\<close> for \<open>args\<close>.\<close>

definition allocated :: "AllocateArgs \<Rightarrow> int \<Rightarrow> GameServer \<Rightarrow> GameServer \<Rightarrow> bool" where
  "allocated args now g g' \<longleftrightarrow>
     gsKey g' = gsKey g \<and> gs_Spec g' = gs_Spec g \<and> om_Labels (gs_Meta g') = om_Labels (gs_Meta g) \<and>
     gs_Status g' = (gs_Status g)
       \<lparr>st_State := GameServerStateActive, st_SessionID := aa_SessionID args,
        st_SessionCookie := (if aa_SessionCookie args = [] then st_SessionCookie (gs_Status g) else aa_SessionCookie args),
        st_InitialPlayers := (if aa_InitialPlayers args = [] then st_InitialPlayers (gs_Status g) else aa_InitialPlayers args),
        st_ReachedActiveOn := Some now\<rparr>"

lemma allocated_active: "allocated args now g g' \<Longrightarrow> gs_State g' = GameServerStateActive"
  by (simp add: allocated_def)

lemma merge_alloc:
  assumes "aa_SessionID args \<noteq> []"
    and "gs_Status g' = merge_status (gs_Status (alloc_base x)) (gs_Status (alloc_new args now x)) (gs_Status g)"
    and "gs_Spec g' = gs_Spec g" "om_Labels (gs_Meta g') = om_Labels (gs_Meta g)" "gsKey g' = gsKey g"
  shows "allocated args now g g'"
  using assms by (simp add: allocated_def merge_status_def merge_field_def alloc_base_def alloc_new_def
      zero_GameServer_def zero_Status_def)

lemma alloc_base_simps [simp]:
  "gsKey (alloc_base x) = (q_Namespace x, q_Name x)"
  "om_ResourceVersion (gs_Meta (alloc_base x)) = q_ResourceVersion x"
  "buildNameLabel (alloc_new args now x) = ''''"
  by (simp_all add: alloc_base_def alloc_new_def buildNameLabel_def zero_GameServer_def zero_Meta_def)

lemma patch_version:
  assumes "optimistic_patch cur (al_patchStatus api)" and "aa_SessionID args \<noteq> []"
    and sc: "store_consistent versions (cur w)"
    and v: "versions (q_Namespace x, q_Name x) (q_ResourceVersion x) = Some g0"
      "gs_State g0 = GameServerStateStandingBy" "gss_BuildID (gs_Spec g0) = b"
    and p: "al_patchStatus api w (alloc_base x) (alloc_new args now x) = (w', r)"
  shows "(case r of
       Inl e \<Rightarrow> cur w' = cur w
     | Inr g' \<Rightarrow> \<exists>g. cur w (q_Namespace x, q_Name x) = Some g \<and>
         gs_State g = GameServerStateStandingBy \<and> gss_BuildID (gs_Spec g) = b \<and>
         gsKey g = (q_Namespace x, q_Name x) \<and>
         allocated args now g g' \<and> cur w' = (cur w)((q_Namespace x, q_Name x) \<mapsto> g'))"
proof -
  note c = assms(1) [unfolded optimistic_patch_def, rule_format, OF p]
  show ?thesis
  proof (cases r)
    case (Inl e)
    with c sc show ?thesis by simp
  next
    case (Inr g')
    from c Inr obtain g where g: "cur w (q_Namespace x, q_Name x) = Some g"
      "om_ResourceVersion (gs_Meta g) = q_ResourceVersion x" "gs_Spec g' = gs_Spec g"
      "om_Labels (gs_Meta g') = om_Labels (gs_Meta g)" "gsKey g' = (q_Namespace x, q_Name x)"
      "gs_Status g' = merge_status (gs_Status (alloc_base x)) (gs_Status (alloc_new args now x)) (gs_Status g)"
      "cur w' = (cur w)((q_Namespace x, q_Name x) \<mapsto> g')"
      by auto
    have key: "gsKey g = (q_Namespace x, q_Name x)" "is_version versions g"
      using sc g(1) by (auto simp: store_consistent_def)
    have st: "gs_State g = GameServerStateStandingBy" "gss_BuildID (gs_Spec g) = b"
      using v key g(2) by (auto simp: is_version_def)
    have "allocated args now g g'"
      using merge_alloc [OF assms(2) g(6,3,4)] g(5) key(1) by simp
    then show ?thesis using Inr g st key by simp
  qed
qed

lemma patch_alloc:
  assumes "optimistic_patch cur (al_patchStatus api)" and "alloc_inv versions s"
    and "aa_SessionID args \<noteq> []" and sc: "store_consistent versions (cur (as_world s))"
    and "x \<in># contents (as_queue s) b"
    and "al_patchStatus api (as_world s) (alloc_base x) (alloc_new args now x) = (w, r)"
  shows "(case r of
       Inl e \<Rightarrow> cur w = cur (as_world s)
     | Inr g' \<Rightarrow> \<exists>g. cur (as_world s) (q_Namespace x, q_Name x) = Some g \<and>
         gs_State g = GameServerStateStandingBy \<and> gss_BuildID (gs_Spec g) = b \<and>
         gsKey g = (q_Namespace x, q_Name x) \<and>
         allocated args now g g' \<and> cur w = (cur (as_world s))((q_Namespace x, q_Name x) \<mapsto> g'))"
proof -
  obtain g0 where "versions (q_Namespace x, q_Name x) (q_ResourceVersion x) = Some g0"
    "gs_State g0 = GameServerStateStandingBy" "gss_BuildID (gs_Spec g0) = b"
    using assms(2,5) unfolding alloc_inv_def queued_standing_def by blast
  from patch_version [OF assms(1,3) sc this assms(6)] show ?thesis .
qed


section \<open>The loop\<close>

abbreviation qKey :: "GameServerForQueue \<Rightarrow> string \<times> string" where
  "qKey x \<equiv> (q_Namespace x, q_Name x)"

text \<open>
  How a run of the loop over build \<open>B\<close> ends, with the GameServers it popped: no GameServer was
  changed and all the popped ones were sent to the channel, or the last one was allocated.
\<close>

definition alloc_failed ::
    "('w \<Rightarrow> gs_store) \<Rightarrow> string \<Rightarrow> nat \<Rightarrow> 'w alloc_state \<Rightarrow> 'w alloc_state \<Rightarrow> http_response \<Rightarrow>
     GameServerForQueue list \<Rightarrow> bool" where
  "alloc_failed cur B n s s' resp pops \<longleftrightarrow>
     cur (as_world s') = cur (as_world s) \<and> as_events s' = as_events s @ map qKey pops \<and>
     (hr_Code resp = 429 \<and> contents (as_queue s') B = {#} \<or> hr_Code resp = 500 \<and> length pops = n)"

definition alloc_done ::
    "('w \<Rightarrow> gs_store) \<Rightarrow> AllocateArgs \<Rightarrow> int \<Rightarrow> 'w alloc_state \<Rightarrow> 'w alloc_state \<Rightarrow> http_response \<Rightarrow>
     GameServerForQueue list \<Rightarrow> bool" where
  "alloc_done cur args now s s' resp pops \<longleftrightarrow>
     pops \<noteq> [] \<and> as_events s' = as_events s @ map qKey (butlast pops) \<and>
     (\<exists>g g'. cur (as_world s) (qKey (last pops)) = Some g \<and> gsKey g = qKey (last pops) \<and>
        gs_State g = GameServerStateStandingBy \<and> gss_BuildID (gs_Spec g) = aa_BuildID args \<and>
        allocated args now g g' \<and> cur (as_world s') = (cur (as_world s))(qKey (last pops) \<mapsto> g') \<and>
        (resp = respond 200 (AllocBody (sessionResponse (aa_SessionID args) g')) \<or> hr_Code resp = 500))"

lemma emit_simps [simp]:
  "as_queue (emit es s) = as_queue s" "as_world (emit es s) = as_world s"
  "as_events (emit es s) = as_events s" "as_effects (emit es s) = as_effects s @ es"
  "alloc_inv versions (emit es s) = alloc_inv versions s"
  by (simp_all add: emit_def alloc_inv_def)

lemma alloc_success_simps [simp]:
  "as_queue (fst (alloc_success api args i gs2 s)) = as_queue s"
  "as_world (fst (alloc_success api args i gs2 s)) = as_world s"
  "as_events (fst (alloc_success api args i gs2 s)) = as_events s"
  by (simp_all add: alloc_success_def Let_def split: option.splits)

lemma respond_code [simp]:
  "hr_Code (respond c b) = c" "hr_Code (internalServerError e m) = 500" "hr_Code (badRequestError e m) = 400"
  "hr_Code (tooManyRequestsError e m) = 429" "hr_Code (notFoundError e m) = 404"
  "hr_Code (alloc_exhausted err) = 500"
  by (simp_all add: respond_def internalServerError_def badRequestError_def tooManyRequestsError_def
      notFoundError_def alloc_exhausted_def)

lemma alloc_success_resp:
  "snd (alloc_success api args i gs2 s) = respond 200 (AllocBody (sessionResponse (aa_SessionID args) gs2)) \<or>
   hr_Code (snd (alloc_success api args i gs2 s)) = 500"
  by (simp add: alloc_success_def Let_def split: option.splits)

lemma allocLoop_spec:
  assumes "optimistic_patch cur (al_patchStatus api)" and "aa_SessionID args \<noteq> []"
    and "alloc_inv versions s" and "store_consistent versions (cur (as_world s))"
    and "allocLoop api args n i err s = (s', resp)"
  shows "alloc_inv versions s' \<and>
    (\<exists>pops. contents (as_queue s) (aa_BuildID args) = mset pops + contents (as_queue s') (aa_BuildID args) \<and>
       sorted (map q_NodeAge pops) \<and> length pops \<le> n \<and>
       (\<forall>c. c \<noteq> aa_BuildID args \<longrightarrow> contents (as_queue s') c = contents (as_queue s) c) \<and>
       (alloc_failed cur (aa_BuildID args) n s s' resp pops \<or> alloc_done cur args (al_now api) s s' resp pops))"
  using assms(3-5)
proof (induction n arbitrary: i err s)
  case 0
  then show ?case by (intro conjI exI [of _ "[]"]) (auto simp: alloc_failed_def)
next
  case (Suc n)
  let ?B = "aa_BuildID args"
  obtain q r where pop: "gsq_PopFromQueue (as_queue s) ?B = (q, r)"
    by (cases "gsq_PopFromQueue (as_queue s) ?B")
  have inv: "gsq_inv (as_queue s)" "queued_standing versions (as_queue s)" using Suc.prems(1) by (auto simp: alloc_inv_def)
  note p = gsq_pop [OF inv(1) pop]
  note qs = queued_standing_pop [OF inv(1,2) pop]
  show ?case
  proof (cases r)
    case None
    then have q: "q = as_queue s" "contents (as_queue s) ?B = {#}" using p(4) by auto
    have s': "s' = emit [Inc Allocations429ErrorsCounter [?B]] (s\<lparr>as_queue := q\<rparr>)" "hr_Code resp = 429"
      using Suc.prems(3) pop None by auto
    show ?thesis
      using s' q Suc.prems(1) by (intro conjI exI [of _ "[]"]) (auto simp: alloc_failed_def)
  next
    case (Some x)
    have c: "contents (as_queue s) ?B = add_mset x (contents q ?B)"
      and le: "\<forall>y \<in># contents (as_queue s) ?B. q_NodeAge x \<le> q_NodeAge y" using p(5) [OF Some] by auto
    obtain w pr where patch: "al_patchStatus api (as_world s) (alloc_base x) (alloc_new args (al_now api) x) = (w, pr)"
      by (cases "al_patchStatus api (as_world s) (alloc_base x) (alloc_new args (al_now api) x)")
    have "x \<in># contents (as_queue s) ?B" using c by simp
    note pa = patch_alloc [OF assms(1) Suc.prems(1) assms(2) Suc.prems(2) this patch]
    show ?thesis
    proof (cases pr)
      case (Inl e)
      let ?s1 = "emit [Inc (patch_error_metric e) [buildNameLabel (alloc_new args (al_now api) x)]]
        (s\<lparr>as_queue := q, as_world := w, as_events := as_events s @ [(q_Namespace x, q_Name x)]\<rparr>)"
      have w: "cur w = cur (as_world s)" using pa Inl by simp
      have i1: "alloc_inv versions ?s1" "store_consistent versions (cur (as_world ?s1))"
        using p(1) qs w Suc.prems(2) by (simp_all add: alloc_inv_def)
      have "allocLoop api args n (Suc i) (Some e) ?s1 = (s', resp)"
        using Suc.prems(3) pop Some patch Inl by simp
      from Suc.IH [OF i1 this] obtain pops where IH: "alloc_inv versions s'"
        "contents q ?B = mset pops + contents (as_queue s') ?B" "sorted (map q_NodeAge pops)" "length pops \<le> n"
        "\<forall>c. c \<noteq> ?B \<longrightarrow> contents (as_queue s') c = contents q c"
        "alloc_failed cur ?B n ?s1 s' resp pops \<or> alloc_done cur args (al_now api) ?s1 s' resp pops"
        by auto
      have "sorted (map q_NodeAge (x # pops))" using IH(2,3) le c by simp
      moreover have "alloc_failed cur ?B (Suc n) s s' resp (x # pops) \<or>
          alloc_done cur args (al_now api) s s' resp (x # pops)"
        using IH(6) w by (auto simp: alloc_failed_def alloc_done_def)
      ultimately show ?thesis
        using IH(1,2,4,5) c p(2) by (intro conjI exI [of _ "x # pops"]) auto
    next
      case (Inr g')
      have e: "alloc_success api args i g' (s\<lparr>as_queue := q, as_world := w\<rparr>) = (s', resp)"
        using Suc.prems(3) pop Some patch Inr by simp
      then have s': "as_queue s' = q" "as_world s' = w" "as_events s' = as_events s"
        using alloc_success_simps [of api args i g' "s\<lparr>as_queue := q, as_world := w\<rparr>"] by auto
      have "resp = respond 200 (AllocBody (sessionResponse (aa_SessionID args) g')) \<or> hr_Code resp = 500"
        using alloc_success_resp [of api args i g' "s\<lparr>as_queue := q, as_world := w\<rparr>"] e by simp
      then have "alloc_done cur args (al_now api) s s' resp [x]"
        using pa Inr s' by (auto simp: alloc_done_def)
      moreover have "alloc_inv versions s'" using p(1) qs pa s' by (simp add: alloc_inv_def)
      ultimately show ?thesis
        using s' c p(2) by (intro conjI exI [of _ "[x]"]) auto
    qed
  qed
qed


section \<open>The handler\<close>

lemma match_classes_length: "match_classes ps s \<Longrightarrow> length s = length ps"
  by (induction ps s rule: match_classes.induct) auto

lemma isValidUUID_nonempty: "isValidUUID u \<Longrightarrow> u \<noteq> []"
  by (auto simp: isValidUUID_def uuid_regexp_def dest!: match_classes_length)

text \<open>Every answer other than that of the loop leaves the state as it was.\<close>

lemma handleAllocationRequest_cases:
  assumes "handleAllocationRequest api meth reqBody s = (s', resp)"
  obtains (unchanged) "s' = s" "hr_Code resp \<in> {200, 400, 404, 500}"
  | (loop) args builds where "al_decode api reqBody = Inr args" "validateAllocateArgs args"
    "al_listBuilds api (as_world s) (aa_BuildID args) = Inr builds" "builds \<noteq> []"
    "al_listSession api (as_world s) (aa_SessionID args) (aa_BuildID args) = Inr []"
    "allocLoop api args allocationTries 0 None s = (s', resp)"
proof -
  note h = assms [unfolded handleAllocationRequest_def]
  show ?thesis
  proof (cases "meth \<noteq> ''OPTIONS'' \<and> (meth = ''POST'' \<or> meth = ''PATCH'')")
    case False
    with h show ?thesis by (intro unchanged) (auto split: if_splits)
  next
    case meth: True
    show ?thesis
    proof (cases "al_decode api reqBody")
      case (Inl e)
      with h meth show ?thesis by (intro unchanged) auto
    next
      case args: (Inr args)
      show ?thesis
      proof (cases "validateAllocateArgs args")
        case False
        with h meth args show ?thesis by (intro unchanged) auto
      next
        case valid: True
        show ?thesis
        proof (cases "al_listBuilds api (as_world s) (aa_BuildID args)")
          case (Inl e)
          with h meth args valid show ?thesis by (intro unchanged) (auto split: if_splits)
        next
          case builds: (Inr builds)
          show ?thesis
          proof (cases "builds = []")
            case True
            with h meth args valid builds show ?thesis by (intro unchanged) auto
          next
            case ne: False
            show ?thesis
            proof (cases "al_listSession api (as_world s) (aa_SessionID args) (aa_BuildID args)")
              case (Inl e)
              with h meth args valid builds ne show ?thesis by (intro unchanged) auto
            next
              case servers: (Inr servers)
              consider "servers = []" | "length servers = 1" | "1 < length servers"
                by (cases servers; cases "tl servers") auto
              then show ?thesis
              proof cases
                case 1
                with h meth args valid builds ne servers show ?thesis
                  by (intro loop) (auto simp del: allocLoop.simps)
              next
                case 2
                with h meth args valid builds ne servers show ?thesis by (intro unchanged) auto
              next
                case 3
                with h meth args valid builds ne servers show ?thesis by (intro unchanged) auto
              qed
            qed
          qed
        qed
      qed
    qed
  qed
qed

lemma validateAllocateArgs_session: "validateAllocateArgs args \<Longrightarrow> aa_SessionID args \<noteq> []"
  by (auto simp: validateAllocateArgs_def split: if_splits dest: isValidUUID_nonempty)

lemma handle_spec:
  assumes "optimistic_patch cur (al_patchStatus api)" and "alloc_inv versions s"
    and "store_consistent versions (cur (as_world s))"
    and "handleAllocationRequest api meth reqBody s = (s', resp)"
  shows "alloc_inv versions s' \<and>
    ((s' = s \<and> hr_Code resp \<in> {200, 400, 404, 500}) \<or>
     (\<exists>args pops. al_decode api reqBody = Inr args \<and> validateAllocateArgs args \<and>
       contents (as_queue s) (aa_BuildID args) = mset pops + contents (as_queue s') (aa_BuildID args) \<and>
       sorted (map q_NodeAge pops) \<and> length pops \<le> allocationTries \<and>
       (\<forall>c. c \<noteq> aa_BuildID args \<longrightarrow> contents (as_queue s') c = contents (as_queue s) c) \<and>
       (alloc_failed cur (aa_BuildID args) allocationTries s s' resp pops \<or>
        alloc_done cur args (al_now api) s s' resp pops)))"
  using assms(4)
proof (cases rule: handleAllocationRequest_cases)
  case unchanged
  with assms(2) show ?thesis by simp
next
  case (loop args builds)
  from allocLoop_spec [OF assms(1) validateAllocateArgs_session [OF loop(2)] assms(2,3) loop(6)]
  show ?thesis using loop(1,2) by blast
qed

section \<open>Executions\<close>

text \<open>
  What can happen to the service: a reconciliation with any version the cache has, a request, and
  any change of the world. \<open>cur\<close> reads the stored GameServers off the world.
\<close>

inductive alloc_step :: "versions \<Rightarrow> ('w \<Rightarrow> gs_store) \<Rightarrow> 'w alloc_state \<Rightarrow> 'w alloc_state \<Rightarrow> bool"
  for versions cur where
  alloc_reconcile: "cache_read versions ns n r \<Longrightarrow>
    alloc_step versions cur s (s\<lparr>as_queue := fst (alloc_Reconcile ns n r (as_queue s))\<rparr>)"
| alloc_request: "optimistic_patch cur (al_patchStatus api) \<Longrightarrow>
    store_consistent versions (cur (as_world s)) \<Longrightarrow>
    alloc_step versions cur s (fst (handleAllocationRequest api meth reqBody s))"
| alloc_world: "alloc_step versions cur s (s\<lparr>as_world := w\<rparr>)"

definition alloc_start :: "'w alloc_state \<Rightarrow> bool" where
  "alloc_start s \<longleftrightarrow> as_queue s = NewGameServersQueue"

interpretation alloc_system: invariant_system alloc_start "alloc_step versions cur" "alloc_inv versions"
  for versions cur
proof
  fix s s' :: "'a alloc_state"
  show "alloc_start s \<Longrightarrow> alloc_inv versions s"
    by (simp add: alloc_start_def alloc_inv_def queued_standing_def)
  assume inv: "alloc_inv versions s" and "alloc_step versions cur s s'"
  from this(2) show "alloc_inv versions s'"
  proof cases
    case (alloc_reconcile ns n r)
    then show ?thesis
      using inv alloc_Reconcile_inv [of "as_queue s" versions ns n r] by (simp add: alloc_inv_def)
  next
    case (alloc_request api meth reqBody)
    obtain t resp where h: "handleAllocationRequest api meth reqBody s = (t, resp)"
      by (cases "handleAllocationRequest api meth reqBody s")
    from handle_spec [OF alloc_request(2) inv alloc_request(3) h] show ?thesis
      by (simp add: alloc_request(1) h)
  next
    case (alloc_world w)
    with inv show ?thesis by (simp add: alloc_inv_def)
  qed
qed

section \<open>A concrete service\<close>

text \<open>One StandingBy GameServer, kept by a store that implements the optimistic patch.\<close>

definition sample_build_id :: string where
  "sample_build_id = ''85ffe8da-c82f-4035-86c5-9d2b5f42d6f6''"

definition sample_session :: string where
  "sample_session = ''85ffe8da-c82f-4035-86c5-9d2b5f42d6f5''"

definition standing_gs :: GameServer where
  "standing_gs = zero_GameServer
     \<lparr>gs_Meta := zero_Meta\<lparr>om_Name := ''gs'', om_Namespace := ''default'', om_ResourceVersion := ''1'',
        om_Labels := [LabelBuildID \<mapsto> sample_build_id]\<rparr>,
      gs_Spec := (gs_Spec zero_GameServer)\<lparr>gss_BuildID := sample_build_id\<rparr>,
      gs_Status := zero_Status\<lparr>st_State := GameServerStateStandingBy, st_Health := GameServerHealthy,
        st_PublicIP := ''1.2.3.4'', st_Ports := ''80:10000''\<rparr>\<rparr>"

definition mem_patch :: "gs_store \<Rightarrow> GameServer \<Rightarrow> GameServer \<Rightarrow> gs_store \<times> (api_error + GameServer)" where
  "mem_patch m base new =
     (case m (gsKey base) of
        None \<Rightarrow> (m, Inl (NotFound ''not found''))
      | Some g \<Rightarrow>
          if om_ResourceVersion (gs_Meta g) = om_ResourceVersion (gs_Meta base)
          then (let g' = g\<lparr>gs_Meta := (gs_Meta g)\<lparr>om_Name := gs_Name base, om_Namespace := gs_Namespace base,
                        om_ResourceVersion := om_ResourceVersion (gs_Meta g) @ ''x''\<rparr>,
                      gs_Status := merge_status (gs_Status base) (gs_Status new) (gs_Status g)\<rparr>
                in (m(gsKey base \<mapsto> g'), Inr g'))
          else (m, Inl (Conflict ''conflict'')))"

lemma mem_patch_optimistic: "optimistic_patch id mem_patch"
  by (auto simp: optimistic_patch_def mem_patch_def Let_def split: option.splits if_splits sum.splits)

definition sample_api :: "gs_store alloc_api" where
  "sample_api = \<lparr>al_listBuilds = \<lambda>w b. Inr [zero_GameServerBuild],
     al_listSession = \<lambda>w sid b.
       Inr (case w (''default'', ''gs'') of
              None \<Rightarrow> []
            | Some g \<Rightarrow> if st_SessionID (gs_Status g) = sid \<and> om_Labels (gs_Meta g) LabelBuildID = Some b
                        then [g] else []),
     al_patchStatus = mem_patch,
     al_decode = \<lambda>b. Inr \<lparr>aa_SessionID = sample_session, aa_BuildID = sample_build_id,
       aa_SessionCookie = '''', aa_InitialPlayers = []\<rparr>,
     al_encodeError = \<lambda>_. None, al_now = 7, al_elapsed = 1\<rparr>"

definition sample_alloc :: "gs_store alloc_state" where
  "sample_alloc = \<lparr>as_queue = gsq_PushToQueue NewGameServersQueue (forQueue standing_gs),
     as_world = [(''default'', ''gs'') \<mapsto> standing_gs], as_events = [], as_effects = []\<rparr>"

definition sample_versions :: versions where
  "sample_versions k v = (if k = (''default'', ''gs'') \<and> v = ''1'' then Some standing_gs else None)"

lemma standing_gs_simps [simp]:
  "gs_Name standing_gs = ''gs''" "gs_Namespace standing_gs = ''default''"
  "om_ResourceVersion (gs_Meta standing_gs) = ''1''" "gs_State standing_gs = GameServerStateStandingBy"
  "gss_BuildID (gs_Spec standing_gs) = sample_build_id"
  "om_Labels (gs_Meta standing_gs) = [LabelBuildID \<mapsto> sample_build_id]"
  by (simp_all add: standing_gs_def zero_GameServer_def)

lemma sample_store_consistent: "store_consistent sample_versions (id (as_world sample_alloc))"
  by (auto simp: store_consistent_def is_version_def sample_alloc_def sample_versions_def)

lemma sample_alloc_reach:
  "reach alloc_start (alloc_step sample_versions id) sample_alloc"
proof -
  let ?s = "sample_alloc\<lparr>as_queue := NewGameServersQueue\<rparr>"
  have "alloc_step sample_versions id ?s
      (?s\<lparr>as_queue := fst (alloc_Reconcile ''default'' ''gs'' (Inr standing_gs) (as_queue ?s))\<rparr>)"
    by (rule alloc_step.alloc_reconcile) (simp add: cache_read_def is_version_def sample_versions_def)
  moreover have "?s\<lparr>as_queue := fst (alloc_Reconcile ''default'' ''gs'' (Inr standing_gs) (as_queue ?s))\<rparr> = sample_alloc"
    by (simp add: alloc_Reconcile_def sample_alloc_def)
  moreover have "reach alloc_start (alloc_step sample_versions id) ?s"
    by (rule reach_init) (simp add: alloc_start_def)
  ultimately show ?thesis by (metis reach_step)
qed

lemma sample_args_valid: "validateAllocateArgs \<lparr>aa_SessionID = sample_session, aa_BuildID = sample_build_id,
    aa_SessionCookie = c, aa_InitialPlayers = ps\<rparr>"
proof -
  have "isValidUUID sample_session" "isValidUUID sample_build_id" by code_simp+
  then show ?thesis by (simp add: validateAllocateArgs_def)
qed


lemma sample_session_nonempty [simp]: "sample_session \<noteq> []" "[] \<noteq> sample_session"
  by (simp_all add: sample_session_def)

lemma sample_listing:
  "al_listBuilds sample_api w b = Inr [zero_GameServerBuild]"
  "al_listSession sample_api (as_world sample_alloc) sample_session b = Inr []"
  "al_encodeError sample_api rs = None" "al_patchStatus sample_api = mem_patch" "al_now sample_api = 7"
  by (simp_all add: sample_api_def sample_alloc_def standing_gs_def zero_Status_def)

lemma sample_pop:
  "\<exists>q. gsq_PopFromQueue (as_queue sample_alloc) sample_build_id = (q, Some (forQueue standing_gs))"
proof -
  obtain q r where p: "gsq_PopFromQueue (as_queue sample_alloc) sample_build_id = (q, r)"
    by (cases "gsq_PopFromQueue (as_queue sample_alloc) sample_build_id")
  have c: "contents (as_queue sample_alloc) sample_build_id = {#forQueue standing_gs#}"
    by (simp add: sample_alloc_def gsq_push(2) forQueue_def)
  have inv: "gsq_inv (as_queue sample_alloc)" by (simp add: sample_alloc_def gsq_push(1))
  show ?thesis
  proof (cases r)
    case None
    with gsq_pop(4) [OF inv p] c show ?thesis by simp
  next
    case (Some x)
    with gsq_pop(5) [OF inv p Some] c have "x = forQueue standing_gs" by auto
    with p Some show ?thesis by blast
  qed
qed

lemma sample_handle:
  "\<exists>s' g'. handleAllocationRequest sample_api ''POST'' '''' sample_alloc =
      (s', respond 200 (AllocBody (sessionResponse sample_session g'))) \<and>
    as_world s' = [(''default'', ''gs'') \<mapsto> g'] \<and> as_events s' = [] \<and>
    gs_State g' = GameServerStateActive \<and> st_SessionID (gs_Status g') = sample_session \<and>
    st_PublicIP (gs_Status g') = ''1.2.3.4''"
proof -
  let ?args = "\<lparr>aa_SessionID = sample_session, aa_BuildID = sample_build_id,
    aa_SessionCookie = '''', aa_InitialPlayers = []\<rparr>"
  obtain q where q: "gsq_PopFromQueue (as_queue sample_alloc) sample_build_id = (q, Some (forQueue standing_gs))"
    using sample_pop by blast
  obtain w g' where m: "mem_patch (as_world sample_alloc) (alloc_base (forQueue standing_gs))
      (alloc_new ?args 7 (forQueue standing_gs)) = (w, Inr g')"
    and w: "w = [(''default'', ''gs'') \<mapsto> g']"
    and g: "gs_Status g' = merge_status zero_Status (gs_Status (alloc_new ?args 7 (forQueue standing_gs)))
      (gs_Status standing_gs)"
    by (simp add: mem_patch_def sample_alloc_def forQueue_def alloc_base_def zero_GameServer_def zero_Meta_def Let_def)
  have dec: "al_decode sample_api b = Inr ?args" for b by (simp add: sample_api_def)
  let ?s = "sample_alloc\<lparr>as_queue := q, as_world := w\<rparr>"
  have "handleAllocationRequest sample_api ''POST'' '''' sample_alloc = alloc_success sample_api ?args 0 g' ?s"
    using q m by (simp add: handleAllocationRequest_def dec sample_args_valid sample_listing eval_nat_numeral)
  also have "\<dots> = (fst (alloc_success sample_api ?args 0 g' ?s),
      respond 200 (AllocBody (sessionResponse sample_session g')))"
    by (simp add: alloc_success_def Let_def sample_listing)
  finally have h: "handleAllocationRequest sample_api ''POST'' '''' sample_alloc =
    (fst (alloc_success sample_api ?args 0 g' ?s),
      respond 200 (AllocBody (sessionResponse sample_session g')))" .
  have g': "gs_State g' = GameServerStateActive" "st_SessionID (gs_Status g') = sample_session"
    "st_PublicIP (gs_Status g') = ''1.2.3.4''"
    using g by (simp_all add: merge_status_def merge_field_def alloc_new_def alloc_base_def
        zero_GameServer_def zero_Status_def standing_gs_def)
  have "as_world (fst (alloc_success sample_api ?args 0 g' ?s)) = [(''default'', ''gs'') \<mapsto> g']"
    "as_events (fst (alloc_success sample_api ?args 0 g' ?s)) = []"
    by (simp_all add: w sample_alloc_def)
  with h g' show ?thesis by blast
qed

section \<open>Properties\<close>

text \<open>
  C1: an allocation takes a StandingBy GameServer of the requested build, and only that. Whatever
  the cache returned and however the cluster changed before, a request changes at most one stored
  GameServer; that one was StandingBy at that moment and belongs to the requested build. It is
  now Active with the requested session, and with the cookie and the players of the request where it has any; the
  time is stored, and nothing else of its status, its labels or its specification changes: its address, ports, health
  and node are as they were. The answer 200 then carries this address and these ports. Any other request that is not
  an answer from an existing session leaves all stored GameServers as they were. This rests on the API server:
  a patch with an old version fails, and one that fails has changed nothing (no time-out after which it was applied).
\<close>

theorem allocation_takes_standingby:
  assumes "reach alloc_start (alloc_step versions cur) s"
    and "optimistic_patch cur (al_patchStatus api)" and "store_consistent versions (cur (as_world s))"
    and "handleAllocationRequest api meth reqBody s = (s', resp)"
  shows "cur (as_world s') = cur (as_world s) \<or>
    (\<exists>args k g g'. al_decode api reqBody = Inr args \<and> cur (as_world s) k = Some g \<and>
       gs_State g = GameServerStateStandingBy \<and> gss_BuildID (gs_Spec g) = aa_BuildID args \<and>
       cur (as_world s') = (cur (as_world s))(k \<mapsto> g') \<and> gsKey g = k \<and>
       allocated args (al_now api) g g' \<and>
       (hr_Code resp = 200 \<longrightarrow> resp = respond 200 (AllocBody
          \<lparr>rs_IPV4Address = st_PublicIP (gs_Status g), rs_Ports = st_Ports (gs_Status g),
           rs_SessionID = aa_SessionID args\<rparr>)))"
proof -
  note h = handle_spec [OF assms(2) alloc_system.inv_reach [OF assms(1)] assms(3,4)]
  show ?thesis
  proof (cases "s' = s")
    case True
    then show ?thesis by simp
  next
    case False
    with h obtain args pops where args: "al_decode api reqBody = Inr args"
      and o: "alloc_failed cur (aa_BuildID args) allocationTries s s' resp pops \<or>
        alloc_done cur args (al_now api) s s' resp pops" by blast
    from o show ?thesis
    proof
      assume "alloc_failed cur (aa_BuildID args) allocationTries s s' resp pops"
      then show ?thesis by (simp add: alloc_failed_def)
    next
      assume "alloc_done cur args (al_now api) s s' resp pops"
      then obtain k g g' where g: "cur (as_world s) k = Some g" "gsKey g = k"
        "gs_State g = GameServerStateStandingBy" "gss_BuildID (gs_Spec g) = aa_BuildID args"
        "allocated args (al_now api) g g'" "cur (as_world s') = (cur (as_world s))(k \<mapsto> g')"
        "resp = respond 200 (AllocBody (sessionResponse (aa_SessionID args) g')) \<or> hr_Code resp = 500"
        unfolding alloc_done_def by blast
      have "hr_Code resp = 200 \<longrightarrow> resp = respond 200 (AllocBody
          \<lparr>rs_IPV4Address = st_PublicIP (gs_Status g), rs_Ports = st_Ports (gs_Status g),
           rs_SessionID = aa_SessionID args\<rparr>)"
        using g(5,7) by (auto simp: sessionResponse_def allocated_def)
      with args g(1-6) show ?thesis by blast
    qed
  qed
qed

theorem allocation_takes_standingby_witness:
  "\<exists>s' resp k g'. handleAllocationRequest sample_api ''POST'' '''' sample_alloc = (s', resp) \<and>
     hr_Code resp = 200 \<and> as_world s' = (as_world sample_alloc)(k \<mapsto> g') \<and>
     gs_State g' = GameServerStateActive"
proof -
  obtain s' g' where h: "handleAllocationRequest sample_api ''POST'' '''' sample_alloc =
      (s', respond 200 (AllocBody (sessionResponse sample_session g')))"
    "as_world s' = [(''default'', ''gs'') \<mapsto> g']" "gs_State g' = GameServerStateActive"
    using sample_handle by blast
  have ne: "as_world s' \<noteq> as_world sample_alloc"
  proof
    assume "as_world s' = as_world sample_alloc"
    moreover have "as_world s' (''default'', ''gs'') = Some g'" by (simp add: h(2))
    moreover have "as_world sample_alloc (''default'', ''gs'') = Some standing_gs"
      by (simp add: sample_alloc_def)
    ultimately have "g' = standing_gs" by simp
    with h(3) show False by simp
  qed
  have opt: "optimistic_patch id (al_patchStatus sample_api)"
    by (simp add: sample_listing mem_patch_optimistic)
  from allocation_takes_standingby [OF sample_alloc_reach opt sample_store_consistent h(1)] ne
  obtain args k g g'' where "as_world s' = (as_world sample_alloc)(k \<mapsto> g'')" "allocated args (al_now sample_api) g g''"
    by (simp only: id_apply) blast
  with h(1) have "handleAllocationRequest sample_api ''POST'' '''' sample_alloc =
      (s', respond 200 (AllocBody (sessionResponse sample_session g'))) \<and>
      hr_Code (respond 200 (AllocBody (sessionResponse sample_session g'))) = 200 \<and>
      as_world s' = (as_world sample_alloc)(k \<mapsto> g'') \<and> gs_State g'' = GameServerStateActive"
    by (simp add: allocated_def)
  then show ?thesis by blast
qed

text \<open>
  C30: a request loses no GameServer of the queue. What it pops are at most three GameServers of
  the requested build, newest node first; each of them is sent back for reconciliation, except
  for one that was allocated, which is the last one. Too few servers (429) is answered only when the queue of the
  build is empty, and the queues of other builds stay as they are.
\<close>

theorem allocation_conserves_queue:
  assumes "reach alloc_start (alloc_step versions cur) s"
    and "optimistic_patch cur (al_patchStatus api)" and "store_consistent versions (cur (as_world s))"
    and "handleAllocationRequest api meth reqBody s = (s', resp)" and "al_decode api reqBody = Inr args"
  shows "\<exists>pops. contents (as_queue s) (aa_BuildID args) = mset pops + contents (as_queue s') (aa_BuildID args) \<and>
    length pops \<le> 3 \<and> sorted (map q_NodeAge pops) \<and>
    (\<forall>b. b \<noteq> aa_BuildID args \<longrightarrow> contents (as_queue s') b = contents (as_queue s) b) \<and>
    as_events s' = as_events s @ map qKey
      (if cur (as_world s') (qKey (last pops)) = cur (as_world s) (qKey (last pops)) then pops else butlast pops) \<and>
    (hr_Code resp = 429 \<longrightarrow> contents (as_queue s') (aa_BuildID args) = {#})"
proof -
  note h = handle_spec [OF assms(2) alloc_system.inv_reach [OF assms(1)] assms(3,4)]
  show ?thesis
  proof (cases "s' = s \<and> hr_Code resp \<in> {200, 400, 404, 500}")
    case True
    then show ?thesis by (intro exI [of _ "[]"]) auto
  next
    case False
    with h assms(5) obtain pops where pops:
      "contents (as_queue s) (aa_BuildID args) = mset pops + contents (as_queue s') (aa_BuildID args)"
      "sorted (map q_NodeAge pops)" "length pops \<le> 3"
      "\<forall>c. c \<noteq> aa_BuildID args \<longrightarrow> contents (as_queue s') c = contents (as_queue s) c"
      and o: "alloc_failed cur (aa_BuildID args) allocationTries s s' resp pops \<or>
        alloc_done cur args (al_now api) s s' resp pops" by auto
    from o show ?thesis
    proof
      assume "alloc_failed cur (aa_BuildID args) allocationTries s s' resp pops"
      with pops show ?thesis by (intro exI [of _ pops]) (auto simp: alloc_failed_def)
    next
      assume d: "alloc_done cur args (al_now api) s s' resp pops"
      then obtain g g' where "cur (as_world s) (qKey (last pops)) = Some g"
        "cur (as_world s') = (cur (as_world s))(qKey (last pops) \<mapsto> g')"
        "gs_State g = GameServerStateStandingBy" "allocated args (al_now api) g g'"
        unfolding alloc_done_def by blast
      then have ne: "cur (as_world s') (qKey (last pops)) \<noteq> cur (as_world s) (qKey (last pops))"
        by (auto dest: allocated_active)
      have c429: "hr_Code resp = 429 \<longrightarrow> contents (as_queue s') (aa_BuildID args) = {#}"
        using d by (auto simp: alloc_done_def)
      have "as_events s' = as_events s @ map qKey (butlast pops)" using d by (simp add: alloc_done_def)
      with ne have ev: "as_events s' = as_events s @ map qKey
          (if cur (as_world s') (qKey (last pops)) = cur (as_world s) (qKey (last pops)) then pops else butlast pops)"
        by (simp only: if_False)
      show ?thesis
        by (rule exI [of _ pops]) (intro conjI pops(1,3,2,4) ev c429)
    qed
  qed
qed

theorem allocation_conserves_queue_witness:
  "\<exists>s' resp pops. handleAllocationRequest sample_api ''POST'' '''' sample_alloc = (s', resp) \<and>
     {#forQueue standing_gs#} = mset pops + contents (as_queue s') sample_build_id \<and> length pops \<le> 3"
proof -
  obtain s' resp where h: "handleAllocationRequest sample_api ''POST'' '''' sample_alloc = (s', resp)"
    by (cases "handleAllocationRequest sample_api ''POST'' '''' sample_alloc")
  have c: "contents (as_queue sample_alloc) sample_build_id = {#forQueue standing_gs#}"
    by (simp add: sample_alloc_def gsq_push(2) forQueue_def)
  let ?args = "\<lparr>aa_SessionID = sample_session, aa_BuildID = sample_build_id, aa_SessionCookie = '''',
    aa_InitialPlayers = []\<rparr>"
  have dec: "al_decode sample_api '''' = Inr ?args" by (simp add: sample_api_def)
  have opt: "optimistic_patch id (al_patchStatus sample_api)" by (simp add: sample_listing mem_patch_optimistic)
  obtain pops where p: "contents (as_queue sample_alloc) (aa_BuildID ?args) =
      mset pops + contents (as_queue s') (aa_BuildID ?args)" "length pops \<le> 3"
    using allocation_conserves_queue [OF sample_alloc_reach opt sample_store_consistent h dec] by blast
  from p(1) have "{#forQueue standing_gs#} = mset pops + contents (as_queue s') sample_build_id"
    by (simp only: c AllocateArgs.select_convs)
  with h p(2) show ?thesis by blast
qed


text \<open>
  The session index of the manager (\<open>setupIndexers\<close>): the listing returns the stored GameServers
  with the session and the build label, each once.
\<close>

definition lists_sessions ::
    "('w \<Rightarrow> gs_store) \<Rightarrow> ('w \<Rightarrow> string \<Rightarrow> string \<Rightarrow> api_error + GameServer list) \<Rightarrow> 'w \<Rightarrow> bool" where
  "lists_sessions cur listSession w \<longleftrightarrow>
     (\<forall>sid b. \<exists>xs. listSession w sid b = Inr xs \<and> distinct xs \<and>
        set xs = {g \<in> ran (cur w). st_SessionID (gs_Status g) = sid \<and> om_Labels (gs_Meta g) LabelBuildID = Some b})"

lemma distinct_singleton:
  assumes "distinct xs" "set xs = {x}" shows "xs = [x]"
proof (cases xs)
  case (Cons y ys)
  with assms have "y = x" "set ys \<subseteq> {x}" "x \<notin> set ys" by auto
  then have "ys = []" by (cases ys) auto
  with Cons \<open>y = x\<close> show ?thesis by simp
qed (use assms in simp)

lemma session_after_allocation:
  assumes ls: "lists_sessions cur f w" "lists_sessions cur f w'"
    and none: "f w (aa_SessionID args) (aa_BuildID args) = Inr []"
    and g: "cur w k = Some g" "allocated args now g g'" "cur w' = (cur w)(k \<mapsto> g')"
      "om_Labels (gs_Meta g) LabelBuildID = Some (aa_BuildID args)"
  shows "f w' (aa_SessionID args) (aa_BuildID args) = Inr [g']"
proof -
  obtain xs where xs: "f w' (aa_SessionID args) (aa_BuildID args) = Inr xs" "distinct xs"
    "set xs = {g \<in> ran (cur w'). st_SessionID (gs_Status g) = aa_SessionID args \<and>
       om_Labels (gs_Meta g) LabelBuildID = Some (aa_BuildID args)}"
    using ls(2) unfolding lists_sessions_def by blast
  have no: "\<not> (h \<in> ran (cur w) \<and> st_SessionID (gs_Status h) = aa_SessionID args \<and>
      om_Labels (gs_Meta h) LabelBuildID = Some (aa_BuildID args))" for h
  proof -
    obtain ys where "f w (aa_SessionID args) (aa_BuildID args) = Inr ys"
      "set ys = {g \<in> ran (cur w). st_SessionID (gs_Status g) = aa_SessionID args \<and>
         om_Labels (gs_Meta g) LabelBuildID = Some (aa_BuildID args)}"
      using ls(1) unfolding lists_sessions_def by blast
    with none show ?thesis by auto
  qed
  have "h = g'" if "h \<in> ran (cur w')" "st_SessionID (gs_Status h) = aa_SessionID args"
    "om_Labels (gs_Meta h) LabelBuildID = Some (aa_BuildID args)" for h
  proof -
    from that(1) obtain j where "cur w' j = Some h" by (auto simp: ran_def simp del: split_paired_Ex)
    with g(3) have "h = g' \<or> cur w j = Some h" by (auto split: if_splits)
    with no [of h] that(2,3) ranI [of "cur w" j h] show ?thesis by blast
  qed
  moreover have "g' \<in> ran (cur w')" by (simp only: g(3)) (rule ranI [of _ k], simp)
  moreover have "st_SessionID (gs_Status g') = aa_SessionID args \<and>
      om_Labels (gs_Meta g') LabelBuildID = Some (aa_BuildID args)"
    using g(2,4) by (simp add: allocated_def)
  ultimately have "set xs = {g'}" unfolding xs(3) by blast
  with xs(2) have "xs = [g']" by (rule distinct_singleton)
  with xs(1) show ?thesis by simp
qed

text \<open>
  A request that is repeated gets the same GameServer. If a request was answered with a
  GameServer, and the listing by session is up to date, the same request is answered with the
  same address and ports again, and pops and changes nothing.
\<close>

lemma repeated_allocation_same_server:
  assumes "reach alloc_start (alloc_step versions cur) s"
    and "optimistic_patch cur (al_patchStatus api)" and "store_consistent versions (cur (as_world s))"
    and "handleAllocationRequest api meth reqBody s = (s', respond 200 (AllocBody rs))"
    and "lists_sessions cur (al_listSession api) (as_world s)"
    and "lists_sessions cur (al_listSession api) (as_world s')"
    and "\<forall>b. al_listBuilds api (as_world s') b = al_listBuilds api (as_world s) b"
    and "\<forall>g \<in> ran (cur (as_world s)). om_Labels (gs_Meta g) LabelBuildID = Some (gss_BuildID (gs_Spec g))"
  shows "handleAllocationRequest api meth reqBody s' = (s', respond 200 (AllocBody rs))"
  using assms(4)
proof (cases rule: handleAllocationRequest_cases)
  case unchanged
  with assms(4) show ?thesis by simp
next
  case (loop args builds)
  have alloc: "alloc_inv versions s" by (rule alloc_system.inv_reach [OF assms(1)])
  from allocLoop_spec [OF assms(2) validateAllocateArgs_session [OF loop(2)] alloc assms(3) loop(6)]
  obtain pops where "alloc_done cur args (al_now api) s s' (respond 200 (AllocBody rs)) pops"
    by (auto simp: alloc_failed_def)
  then obtain k g g' where g: "cur (as_world s) k = Some g" "gss_BuildID (gs_Spec g) = aa_BuildID args"
    "allocated args (al_now api) g g'" "cur (as_world s') = (cur (as_world s))(k \<mapsto> g')"
    "rs = sessionResponse (aa_SessionID args) g'"
    by (auto simp: alloc_done_def respond_def)
  have "om_Labels (gs_Meta g) LabelBuildID = Some (aa_BuildID args)"
    using bspec [OF assms(8) ranI [of "cur (as_world s)" k g, OF g(1)]] g(2) by simp
  from session_after_allocation [OF assms(5,6) loop(5) g(1,3,4) this]
  have "al_listSession api (as_world s') (aa_SessionID args) (aa_BuildID args) = Inr [g']" .
  moreover have "meth \<noteq> ''OPTIONS''" "meth = ''POST'' \<or> meth = ''PATCH''"
    using assms(4) by (auto simp: handleAllocationRequest_def respond_def badRequestError_def split: if_splits)
  ultimately show ?thesis
    using loop(1-4) assms(7) by (auto simp: handleAllocationRequest_def g(5))
qed

lemma sample_lists_sessions:
  assumes "m = [(''default'', ''gs'') \<mapsto> g]"
  shows "lists_sessions id (al_listSession sample_api) m"
  unfolding lists_sessions_def
proof (intro allI)
  fix sid b
  let ?c = "st_SessionID (gs_Status g) = sid \<and> om_Labels (gs_Meta g) LabelBuildID = Some b"
  have "al_listSession sample_api m sid b = Inr (if ?c then [g] else [])"
    by (simp add: sample_api_def assms)
  moreover have "ran m = {g}" by (simp add: assms)
  ultimately show "\<exists>xs. al_listSession sample_api m sid b = Inr xs \<and> distinct xs \<and>
      set xs = {g \<in> ran (id m). st_SessionID (gs_Status g) = sid \<and> om_Labels (gs_Meta g) LabelBuildID = Some b}"
    by auto
qed

theorem repeated_allocation_same_server_witness:
  "\<exists>s' rs. handleAllocationRequest sample_api ''POST'' '''' sample_alloc = (s', respond 200 (AllocBody rs)) \<and>
     handleAllocationRequest sample_api ''POST'' '''' s' = (s', respond 200 (AllocBody rs))"
proof -
  obtain s' g' where h: "handleAllocationRequest sample_api ''POST'' '''' sample_alloc =
      (s', respond 200 (AllocBody (sessionResponse sample_session g')))"
    "as_world s' = [(''default'', ''gs'') \<mapsto> g']"
    using sample_handle by blast
  have opt: "optimistic_patch id (al_patchStatus sample_api)"
    by (simp add: sample_listing mem_patch_optimistic)
  have "handleAllocationRequest sample_api ''POST'' '''' s' =
      (s', respond 200 (AllocBody (sessionResponse sample_session g')))"
    by (rule repeated_allocation_same_server [OF sample_alloc_reach opt sample_store_consistent h(1)
          sample_lists_sessions sample_lists_sessions [OF h(2)]])
      (simp_all add: sample_listing sample_alloc_def)
  with h(1) show ?thesis by blast
qed

text \<open>
  The error counters of an allocation never say which build they are about. The GameServer
  that a try sends to the API server has no labels until the patch succeeded, so every conflict,
  not-found and other error is counted under the empty build name.
\<close>

lemma allocation_errors_unlabelled:
  assumes "al_patchStatus api (as_world s) (alloc_base x) (alloc_new args (al_now api) x) = (w, Inl e)"
    and "gsq_PopFromQueue (as_queue s) (aa_BuildID args) = (q, Some x)"
  shows "\<exists>s1. as_effects s1 = as_effects s @ [Inc (patch_error_metric e) [[]]] \<and>
    as_events s1 = as_events s @ [qKey x] \<and>
    allocLoop api args (Suc n) i err s = allocLoop api args n (Suc i) (Some e) s1"
  using assms
  by (intro exI [of _ "emit [Inc (patch_error_metric e) [[]]]
      (s\<lparr>as_queue := q, as_world := w, as_events := as_events s @ [qKey x]\<rparr>)"]) simp

lemma allocation_errors_unlabelled_witness:
  "\<exists>q. gsq_PopFromQueue (as_queue sample_alloc) sample_build_id = (q, Some (forQueue standing_gs)) \<and>
    (\<exists>s1 :: gs_store alloc_state. as_effects s1 = [Inc Allocations404ErrorsCounter [[]]] \<and>
       as_events s1 = [(''default'', ''gs'')])"
proof -
  obtain q where q: "gsq_PopFromQueue (as_queue sample_alloc) sample_build_id = (q, Some (forQueue standing_gs))"
    using sample_pop by blast
  let ?args = "\<lparr>aa_SessionID = sample_session, aa_BuildID = sample_build_id, aa_SessionCookie = [],
    aa_InitialPlayers = []\<rparr>"
  let ?s = "sample_alloc\<lparr>as_world := Map.empty\<rparr>"
  have pop: "gsq_PopFromQueue (as_queue ?s) (aa_BuildID ?args) = (q, Some (forQueue standing_gs))"
    using q by simp
  have patch: "al_patchStatus sample_api (as_world ?s) (alloc_base (forQueue standing_gs))
      (alloc_new ?args (al_now sample_api) (forQueue standing_gs)) = (Map.empty, Inl (NotFound ''not found''))"
    by (simp add: sample_listing mem_patch_def)
  from allocation_errors_unlabelled [OF patch pop, of 2 0 None]
  have "\<exists>s1 :: gs_store alloc_state. as_effects s1 = [Inc Allocations404ErrorsCounter [[]]] \<and>
      as_events s1 = [(''default'', ''gs'')]"
    by (auto simp: sample_alloc_def patch_error_metric_def forQueue_def)
  with q show ?thesis by blast
qed


text \<open>The character class of the variant admits a vertical bar, which no UUID has.\<close>

lemma uuid_accepts_bar: "isValidUUID ''85ffe8da-c82f-4035-|6c5-9d2b5f42d6f5''"
  by code_simp

end
