(* ===== verification/Init_Container.thy ===== *)
theory Init_Container
  imports Controller_Utils
begin

text \<open>
  The init container of a GameServer pod (\<open>cmd/initcontainer/main.go\<close>): it reads its environment,
  parses the ports and the metadata that the operator encoded, and writes the GSDK's
  configuration. The file system is a parameter. The locale \<open>entry_codec\<close> is the contract between
  the operator's encoder and this decoder.
\<close>

section \<open>Results\<close>

text \<open>
  How the process ends without a configuration: \<open>logger.Fatalf\<close> with its message, an index out
  of range, or the call of a method of the logger before it was set.
\<close>

datatype init_stop = Fatal string | IndexPanic | NilLoggerPanic

datatype 'a parse_result = ParseOk 'a | ParseError string | ParsePanic

record GamePort =
  gp_Name :: string
  gp_ServerListeningPort :: int
  gp_ClientConnectionPort :: int

record GameServerConnectionInfo =
  ci_PublicIpV4Address :: string
  ci_GamePortsConfiguration :: "GamePort list"

record GsdkConfig =
  gc_HeartbeatEndpoint :: string
  gc_SessionHostId :: string
  gc_VmId :: string
  gc_LogFolder :: string
  gc_CertificateFolder :: string
  gc_SharedContentFolder :: string
  gc_BuildMetadata :: "string \<rightharpoonup> string"
  gc_GamePorts :: "string \<rightharpoonup> string"
  gc_PublicIpV4Address :: string
  gc_GameServerConnectionInfo :: GameServerConnectionInfo
  gc_ServerInstanceNumber :: int
  gc_FullyQualifiedDomainName :: string

section \<open>Parsing\<close>

text \<open>The loop over the entries: empty ones are skipped, the first failure ends it.\<close>

fun parseEntries :: "('s \<Rightarrow> string \<Rightarrow> 's parse_result) \<Rightarrow> 's \<Rightarrow> string list \<Rightarrow> 's parse_result" where
  "parseEntries dec s [] = ParseOk s"
| "parseEntries dec s (w # ws) =
     (if w = '''' then parseEntries dec s ws
      else case dec s w of
             ParseOk s' \<Rightarrow> parseEntries dec s' ws
           | ParseError e \<Rightarrow> ParseError e
           | ParsePanic \<Rightarrow> ParsePanic)"

definition parseMetadataEntry :: "(string \<rightharpoonup> string) \<Rightarrow> string \<Rightarrow> (string \<rightharpoonup> string) parse_result" where
  "parseMetadataEntry m s2 =
     (case split_on (CHR '','') s2 of
        k # v # _ \<Rightarrow> ParseOk (m(k \<mapsto> v))
      | _ \<Rightarrow> ParsePanic)"

definition parseBuildMetadata :: "(string \<Rightarrow> string) \<Rightarrow> (string \<rightharpoonup> string) parse_result" where
  "parseBuildMetadata getenv =
     (let envMetadata = getenv ''PF_GAMESERVER_BUILD_METADATA''
      in if envMetadata \<noteq> '''' then parseEntries parseMetadataEntry Map.empty (split_on (CHR ''?'') envMetadata)
         else ParseOk Map.empty)"

type_synonym port_state = "(string \<rightharpoonup> string) \<times> GamePort list"

text \<open>
  An error is given by the message it wraps the parse error in; that message quotes \<open>s3[2]\<close>,
  which can itself be out of range.
\<close>

definition parsePortEntry :: "port_state \<Rightarrow> string \<Rightarrow> port_state parse_result" where
  "parsePortEntry st s2 =
     (let s3 = split_on (CHR '','') s2; (m, cfg) = st
      in if length s3 < 2 then ParsePanic
         else case atoi (s3 ! 1) of
                None \<Rightarrow>
                  if length s3 < 3 then ParsePanic
                  else ParseError (''could not parse port with portName '' @ s3 ! 0 @ '', containerPort '' @ s3 ! 2)
              | Some containerPort \<Rightarrow>
                  if length s3 < 3 then ParsePanic
                  else (case atoi (s3 ! 2) of
                          None \<Rightarrow> ParseError (''could not parse port with portName '' @ s3 ! 0 @ '', hostPort '' @ s3 ! 2)
                        | Some hostPort \<Rightarrow>
                            ParseOk (m(s3 ! 0 \<mapsto> itoa containerPort),
                              cfg @ [\<lparr>gp_Name = s3 ! 0, gp_ServerListeningPort = containerPort,
                                gp_ClientConnectionPort = hostPort\<rparr>])))"

definition parsePorts :: "string \<Rightarrow> port_state parse_result" where
  "parsePorts gamePortsString = parseEntries parsePortEntry (Map.empty, []) (split_on (CHR ''?'') gamePortsString)"

section \<open>The environment\<close>

record init_env =
  ie_sessionHostId :: string
  ie_crdNamespace :: string
  ie_heartbeatEndpointPort :: string
  ie_gsdkConfigFilePath :: string
  ie_sharedContentFolderPath :: string
  ie_certificateFolderPath :: string
  ie_serverLogPath :: string
  ie_vmId :: string
  ie_gamePortsString :: string
  ie_nodeInternalIP :: string

text \<open>\<open>getGameServerNameNamespaceFromEnv\<close> runs before the logger is set.\<close>

definition getGameServerNameNamespaceFromEnv :: "(string \<Rightarrow> string) \<Rightarrow> init_stop + string \<times> string" where
  "getGameServerNameNamespaceFromEnv getenv =
     (if getenv ''PF_GAMESERVER_NAME'' = '''' then Inl NilLoggerPanic
      else if getenv ''PF_GAMESERVER_NAMESPACE'' = '''' then Inl NilLoggerPanic
      else Inr (getenv ''PF_GAMESERVER_NAME'', getenv ''PF_GAMESERVER_NAMESPACE''))"

definition checkEnvOrFatal :: "string \<Rightarrow> string \<Rightarrow> init_stop option" where
  "checkEnvOrFatal envName envValue =
     (if envValue = '''' then Some (Fatal (''Env '' @ envName @ '' is empty'')) else None)"

definition gsdk_env_names :: "string list" where
  "gsdk_env_names =
     [''HEARTBEAT_ENDPOINT_PORT'', ''GSDK_CONFIG_FILE'', ''PF_SHARED_CONTENT_FOLDER'',
      ''CERTIFICATE_FOLDER'', ''PF_SERVER_LOG_DIRECTORY'', ''PF_VM_ID'', ''PF_GAMESERVER_PORTS'',
      ''PF_NODE_INTERNAL_IP'']"

fun checkAll :: "(string \<Rightarrow> string) \<Rightarrow> string list \<Rightarrow> init_stop option" where
  "checkAll getenv [] = None"
| "checkAll getenv (n # ns) =
     (case checkEnvOrFatal n (getenv n) of Some e \<Rightarrow> Some e | None \<Rightarrow> checkAll getenv ns)"

definition getGsdkEnvVariables :: "(string \<Rightarrow> string) \<Rightarrow> string \<times> string \<Rightarrow> init_stop + init_env" where
  "getGsdkEnvVariables getenv names =
     (case checkAll getenv gsdk_env_names of
        Some e \<Rightarrow> Inl e
      | None \<Rightarrow> Inr
          \<lparr>ie_sessionHostId = fst names, ie_crdNamespace = snd names,
           ie_heartbeatEndpointPort = getenv ''HEARTBEAT_ENDPOINT_PORT'',
           ie_gsdkConfigFilePath = getenv ''GSDK_CONFIG_FILE'',
           ie_sharedContentFolderPath = getenv ''PF_SHARED_CONTENT_FOLDER'',
           ie_certificateFolderPath = getenv ''CERTIFICATE_FOLDER'',
           ie_serverLogPath = getenv ''PF_SERVER_LOG_DIRECTORY'',
           ie_vmId = getenv ''PF_VM_ID'',
           ie_gamePortsString = getenv ''PF_GAMESERVER_PORTS'',
           ie_nodeInternalIP = getenv ''PF_NODE_INTERNAL_IP''\<rparr>)"

section \<open>The file system and main\<close>

datatype stat_result = Exists | NotExist | StatError string

text \<open>
  The calls of package \<open>os\<close>: each returns its error, if any. \<open>fs_mkdirParent\<close> is \<open>MkdirAll\<close> of
  \<open>filepath.Dir\<close> of its argument.
\<close>

record fs =
  fs_stat :: "string \<Rightarrow> stat_result"
  fs_mkdir :: "string \<Rightarrow> string option"
  fs_mkdirParent :: "string \<Rightarrow> string option"
  fs_create :: "string \<Rightarrow> string option"
  fs_write :: "string \<Rightarrow> GsdkConfig \<Rightarrow> string option"

definition createFolderIfNotExists :: "fs \<Rightarrow> string \<Rightarrow> string option" where
  "createFolderIfNotExists f path = (if fs_stat f path = NotExist then fs_mkdir f path else None)"

definition createGsdkFolders :: "fs \<Rightarrow> init_env \<Rightarrow> string option" where
  "createGsdkFolders f e = createFolderIfNotExists f (ie_serverLogPath e)"

definition handleError :: "string option \<Rightarrow> init_stop option" where
  "handleError e = (case e of None \<Rightarrow> None | Some m \<Rightarrow> Some (Fatal (''panic because error: '' @ m)))"

definition makeConfig :: "init_env \<Rightarrow> port_state \<Rightarrow> (string \<rightharpoonup> string) \<Rightarrow> GsdkConfig" where
  "makeConfig e ports metadata =
     \<lparr>gc_HeartbeatEndpoint = ie_nodeInternalIP e @ '':'' @ ie_heartbeatEndpointPort e,
      gc_SessionHostId = ie_sessionHostId e, gc_VmId = ie_vmId e, gc_LogFolder = ie_serverLogPath e,
      gc_CertificateFolder = ie_certificateFolderPath e,
      gc_SharedContentFolder = ie_sharedContentFolderPath e,
      gc_BuildMetadata = metadata, gc_GamePorts = fst ports,
      gc_PublicIpV4Address = ie_nodeInternalIP e,
      gc_GameServerConnectionInfo = \<lparr>ci_PublicIpV4Address = ie_nodeInternalIP e,
        ci_GamePortsConfiguration = snd ports\<rparr>,
      gc_ServerInstanceNumber = 0,
      gc_FullyQualifiedDomainName = ''NOT_APPLICABLE''\<rparr>"

definition writeConfig :: "fs \<Rightarrow> string \<Rightarrow> GsdkConfig \<Rightarrow> init_stop option" where
  "writeConfig f path config =
     (case handleError (fs_mkdirParent f path) of Some x \<Rightarrow> Some x | None \<Rightarrow>
      case handleError (fs_create f path) of Some x \<Rightarrow> Some x | None \<Rightarrow>
      handleError (fs_write f path config))"

text \<open>\<open>main\<close> with the configuration it has written, and the path it was written to.\<close>

definition init_main :: "(string \<Rightarrow> string) \<Rightarrow> fs \<Rightarrow> init_stop + string \<times> GsdkConfig" where
  "init_main getenv f =
     (case getGameServerNameNamespaceFromEnv getenv of Inl x \<Rightarrow> Inl x | Inr names \<Rightarrow>
      case getGsdkEnvVariables getenv names of Inl x \<Rightarrow> Inl x | Inr e \<Rightarrow>
      case handleError (createGsdkFolders f e) of Some x \<Rightarrow> Inl x | None \<Rightarrow>
      case parsePorts (ie_gamePortsString e) of
        ParsePanic \<Rightarrow> Inl IndexPanic
      | ParseError m \<Rightarrow> Inl (Fatal (''Could not parse game ports '' @ m))
      | ParseOk ports \<Rightarrow>
          (case parseBuildMetadata getenv of
             ParsePanic \<Rightarrow> Inl IndexPanic
           | ParseError m \<Rightarrow> Inl (Fatal m)
           | ParseOk metadata \<Rightarrow>
               (let config = makeConfig e ports metadata
                in case writeConfig f (ie_gsdkConfigFilePath e) config of
                     Some x \<Rightarrow> Inl x
                   | None \<Rightarrow> Inr (ie_gsdkConfigFilePath e, config))))"

section \<open>The contract between encoder and decoder\<close>

locale entry_codec =
  fixes enc :: "'a \<Rightarrow> string"
    and dec :: "'s \<Rightarrow> string \<Rightarrow> 's parse_result"
    and upd :: "'s \<Rightarrow> 'a \<Rightarrow> 's"
    and good :: "'a \<Rightarrow> bool"
  assumes enc_sep: "good x \<Longrightarrow> CHR ''?'' \<notin> set (enc x)"
    and enc_nonempty: "good x \<Longrightarrow> enc x \<noteq> []"
    and dec_enc: "good x \<Longrightarrow> dec s (enc x) = ParseOk (upd s x)"
begin

lemma parse_encoded: "\<forall>x \<in> set xs. good x \<Longrightarrow> parseEntries dec s (map enc xs) = ParseOk (foldl upd s xs)"
  by (induction xs arbitrary: s) (auto simp: enc_nonempty dec_enc)

lemma split_encoded:
  "\<forall>x \<in> set xs. good x \<Longrightarrow>
   split_on (CHR ''?'') (joinEntries (map enc xs)) = (if xs = [] then [[]] else map enc xs)"
  using split_trim_concat [of "map enc xs" "CHR ''?''"] enc_sep by (auto simp: joinEntries_def)

lemma parse_join:
  "\<forall>x \<in> set xs. good x \<Longrightarrow>
   parseEntries dec s (split_on (CHR ''?'') (joinEntries (map enc xs))) = ParseOk (foldl upd s xs)"
  using parse_encoded [of xs s] split_encoded [of xs] by (cases "xs = []") simp_all

end

definition good_port :: "ContainerPort \<Rightarrow> bool" where
  "good_port p \<longleftrightarrow> CHR '','' \<notin> set (cp_Name p) \<and> CHR ''?'' \<notin> set (cp_Name p) \<and>
     is_int32 (cp_ContainerPort p) \<and> is_int32 (cp_HostPort p)"

definition addPort :: "port_state \<Rightarrow> ContainerPort \<Rightarrow> port_state" where
  "addPort st p = ((fst st)(cp_Name p \<mapsto> itoa (cp_ContainerPort p)),
     snd st @ [\<lparr>gp_Name = cp_Name p, gp_ServerListeningPort = cp_ContainerPort p,
       gp_ClientConnectionPort = cp_HostPort p\<rparr>])"

definition good_item :: "BuildMetadataItem \<Rightarrow> bool" where
  "good_item m \<longleftrightarrow> CHR '','' \<notin> set (bm_Key m) \<and> CHR ''?'' \<notin> set (bm_Key m) \<and>
     CHR '','' \<notin> set (bm_Value m) \<and> CHR ''?'' \<notin> set (bm_Value m)"

definition addItem :: "(string \<rightharpoonup> string) \<Rightarrow> BuildMetadataItem \<Rightarrow> (string \<rightharpoonup> string)" where
  "addItem m x = m(bm_Key x \<mapsto> bm_Value x)"

lemma atoi_itoa32: "is_int32 i \<Longrightarrow> atoi (itoa i) = Some i"
  by (rule atoi_itoa) (auto simp: is_int32_def)

lemma split_encodePort:
  "CHR '','' \<notin> set (cp_Name p) \<Longrightarrow>
   split_on (CHR '','') (encodePort p) = [cp_Name p, itoa (cp_ContainerPort p), itoa (cp_HostPort p)]"
  by (simp add: encodePort_def split_on_sep split_on_no_sep)

interpretation port_codec: entry_codec encodePort parsePortEntry addPort good_port
proof
  fix x st
  assume g: "good_port x"
  then show "CHR ''?'' \<notin> set (encodePort x)" by (simp add: good_port_def encodePort_def)
  show "encodePort x \<noteq> []" by (simp add: encodePort_def)
  show "parsePortEntry st (encodePort x) = ParseOk (addPort st x)"
    using g by (cases st) (simp add: parsePortEntry_def good_port_def split_encodePort atoi_itoa32 addPort_def)
qed

interpretation metadata_codec: entry_codec encodeMetadata parseMetadataEntry addItem good_item
proof
  fix x m
  assume g: "good_item x"
  then show "CHR ''?'' \<notin> set (encodeMetadata x)" by (simp add: good_item_def encodeMetadata_def)
  show "encodeMetadata x \<noteq> []" by (simp add: encodeMetadata_def)
  show "parseMetadataEntry m (encodeMetadata x) = ParseOk (addItem m x)"
    using g by (simp add: parseMetadataEntry_def good_item_def encodeMetadata_def split_on_sep
        split_on_no_sep addItem_def)
qed

section \<open>The environment that the operator makes\<close>

text \<open>
  What a process of the container reads: plain values, and the pod's fields through the downward
  API (\<open>field\<close>). The names of the list are distinct, so the order does not matter.
\<close>

fun lookupEnv :: "(string \<Rightarrow> string) \<Rightarrow> EnvVar list \<Rightarrow> string \<Rightarrow> string" where
  "lookupEnv field [] n = ''''"
| "lookupEnv field (EnvValue n' v # es) n = (if n' = n then v else lookupEnv field es n)"
| "lookupEnv field (EnvFieldRef n' p # es) n = (if n' = n then field p else lookupEnv field es n)"

lemma init_env_distinct: "distinct (map env_name (getInitContainerEnvVariables gs w))"
  by (simp add: getInitContainerEnvVariables_def)

definition podInitEnv :: "(string \<Rightarrow> string) \<Rightarrow> Pod \<Rightarrow> string \<Rightarrow> string" where
  "podInitEnv field pod = lookupEnv field (c_Env (last (ps_InitContainers (pod_Spec pod))))"

definition gs_isWindows :: "GameServer \<Rightarrow> bool" where
  "gs_isWindows gs \<longleftrightarrow> map_get (ps_NodeSelector (gs_PodSpec gs)) [] ''kubernetes.io/os'' = ''windows''"

lemma podInitEnv_eq:
  "podInitEnv field (NewPodForGameServer gs imgL imgW) =
     lookupEnv field (getInitContainerEnvVariables gs (gs_isWindows gs))"
  by (simp add: podInitEnv_def NewPodForGameServer_def attachInitContainer_def Let_def podSkeleton_def
      gs_isWindows_def)

lemma paths_nonempty [simp]:
  "GsdkConfigFile w \<noteq> []" "LogDirectory w \<noteq> []" "CertificatesDirectory w \<noteq> []"
  "GameSharedContentDirectory w \<noteq> []"
  by (simp_all add: GsdkConfigFile_def LogDirectory_def CertificatesDirectory_def
      GameSharedContentDirectory_def DataVolumeMountPath_def)

lemma joinEntries_Nil [simp]: "joinEntries [] = []"
  by (simp add: joinEntries_def)

lemma encodePort_nonempty [simp]: "encodePort p \<noteq> []"
  by (simp add: encodePort_def)

lemma joinEntries_nonempty:
  assumes "w \<noteq> []" shows "joinEntries (w # ws) \<noteq> []"
proof -
  have "1 < length (w @ [CHR ''?''] @ concat (map (\<lambda>w. w @ ''?'') ws))"
    using assms by (cases w) auto
  then show ?thesis
    by (auto simp: joinEntries_def trim_suffix_def dest!: arg_cong [where f = length] split: if_splits)
qed

text \<open>What \<open>main\<close> computes on that environment.\<close>

lemma init_env_lookup:
  fixes gs w field
  defines "ge \<equiv> lookupEnv field (getInitContainerEnvVariables gs w)"
  shows "ge ''HEARTBEAT_ENDPOINT_PORT'' = itoa 56001" "ge ''GSDK_CONFIG_FILE'' = GsdkConfigFile w"
    "ge ''PF_SHARED_CONTENT_FOLDER'' = GameSharedContentDirectory w"
    "ge ''CERTIFICATE_FOLDER'' = CertificatesDirectory w"
    "ge ''PF_SERVER_LOG_DIRECTORY'' = LogDirectory w" "ge ''PF_VM_ID'' = field ''spec.nodeName''"
    "ge ''PF_NODE_INTERNAL_IP'' = field ''status.hostIP''"
    "ge ''PF_GAMESERVER_NAME'' = gs_Name gs" "ge ''PF_GAMESERVER_NAMESPACE'' = gs_Namespace gs"
    "ge ''PF_GAMESERVER_PORTS'' = joinEntries (map encodePort (exposedPorts gs))"
    "ge ''PF_GAMESERVER_BUILD_METADATA'' =
       joinEntries (map encodeMetadata (gss_BuildMetadata (gs_Spec gs)))"
  by (simp_all add: ge_def getInitContainerEnvVariables_def)

definition env_ready :: "(string \<Rightarrow> string) \<Rightarrow> GameServer \<Rightarrow> bool" where
  "env_ready field gs \<longleftrightarrow> gs_Name gs \<noteq> [] \<and> gs_Namespace gs \<noteq> [] \<and>
     field ''spec.nodeName'' \<noteq> [] \<and> field ''status.hostIP'' \<noteq> []"

definition fs_ok :: "fs \<Rightarrow> bool" where
  "fs_ok f \<longleftrightarrow> (\<forall>p c. fs_mkdir f p = None \<and> fs_mkdirParent f p = None \<and> fs_create f p = None \<and>
     fs_write f p c = None)"

lemma init_names:
  fixes w
  assumes "env_ready field gs"
  defines "ge \<equiv> lookupEnv field (getInitContainerEnvVariables gs w)"
  shows "getGameServerNameNamespaceFromEnv ge = Inr (gs_Name gs, gs_Namespace gs)"
  using assms(1) by (simp add: ge_def getGameServerNameNamespaceFromEnv_def init_env_lookup env_ready_def)

lemma init_vars:
  fixes w
  assumes "env_ready field gs"
  defines "ge \<equiv> lookupEnv field (getInitContainerEnvVariables gs w)"
  shows "getGsdkEnvVariables ge (gs_Name gs, gs_Namespace gs) =
    (if exposedPorts gs = [] then Inl (Fatal ''Env PF_GAMESERVER_PORTS is empty'')
     else Inr \<lparr>ie_sessionHostId = gs_Name gs, ie_crdNamespace = gs_Namespace gs,
       ie_heartbeatEndpointPort = itoa 56001, ie_gsdkConfigFilePath = GsdkConfigFile w,
       ie_sharedContentFolderPath = GameSharedContentDirectory w,
       ie_certificateFolderPath = CertificatesDirectory w, ie_serverLogPath = LogDirectory w,
       ie_vmId = field ''spec.nodeName'',
       ie_gamePortsString = joinEntries (map encodePort (exposedPorts gs)),
       ie_nodeInternalIP = field ''status.hostIP''\<rparr>)"
proof (cases "exposedPorts gs")
  case Nil
  with assms(1) show ?thesis
    by (simp add: ge_def getGsdkEnvVariables_def gsdk_env_names_def checkEnvOrFatal_def
        init_env_lookup env_ready_def)
next
  case (Cons p ps)
  with assms(1) joinEntries_nonempty [of "encodePort p" "map encodePort ps"] show ?thesis
    by (simp add: ge_def getGsdkEnvVariables_def gsdk_env_names_def checkEnvOrFatal_def
        init_env_lookup env_ready_def)
qed

lemma parseBuildMetadata_encoded:
  assumes "\<forall>x \<in> set (gss_BuildMetadata (gs_Spec gs)). good_item x"
  shows "parseBuildMetadata (lookupEnv field (getInitContainerEnvVariables gs w)) =
    ParseOk (foldl addItem Map.empty (gss_BuildMetadata (gs_Spec gs)))"
  using metadata_codec.parse_join [OF assms, of Map.empty]
  by (cases "gss_BuildMetadata (gs_Spec gs)") (auto simp: parseBuildMetadata_def init_env_lookup Let_def)

lemma foldl_addPort:
  "foldl addPort st ps =
     (foldl (\<lambda>m p. m(cp_Name p \<mapsto> itoa (cp_ContainerPort p))) (fst st) ps,
      snd st @ map (\<lambda>p. \<lparr>gp_Name = cp_Name p, gp_ServerListeningPort = cp_ContainerPort p,
        gp_ClientConnectionPort = cp_HostPort p\<rparr>) ps)"
  by (induction ps arbitrary: st) (simp_all add: addPort_def)

lemma foldl_upd_other: "z \<notin> k ` set zs \<Longrightarrow> foldl (\<lambda>m x. m(k x \<mapsto> v x)) m zs z = m z"
  by (induction zs arbitrary: m) auto

lemma foldl_upd_distinct:
  "distinct (map k xs) \<Longrightarrow> x \<in> set xs \<Longrightarrow> foldl (\<lambda>m x. m(k x \<mapsto> v x)) m xs (k x) = Some (v x)"
proof (induction xs arbitrary: m)
  case (Cons y ys)
  show ?case
  proof (cases "x = y")
    case True
    with Cons.prems have "k x \<notin> k ` set ys" by simp
    from foldl_upd_other [OF this, of v "m(k x \<mapsto> v x)"] True show ?thesis by (simp del: fun_upd_apply add: fun_upd_same)
  next
    case False
    with Cons show ?thesis by simp
  qed
qed simp

section \<open>Properties\<close>

definition all_fs :: fs where
  "all_fs = \<lparr>fs_stat = \<lambda>_. NotExist, fs_mkdir = \<lambda>_. None, fs_mkdirParent = \<lambda>_. None,
     fs_create = \<lambda>_. None, fs_write = \<lambda>_ _. None\<rparr>"

definition sample_gs :: "ContainerPort list \<Rightarrow> BuildMetadataItem list \<Rightarrow> GameServer" where
  "sample_gs ps items =
     (let gs = gameServerSkeleton ''gs'' (build_with [80] [game_container ''game'' ps])
      in gs\<lparr>gs_Spec := (gs_Spec gs)\<lparr>gss_BuildMetadata := items\<rparr>\<rparr>)"

lemma sample_gs_simps [simp]:
  "gs_Name (sample_gs ps items) = ''gs''" "gs_Namespace (sample_gs ps items) = ''default''"
  "gss_BuildMetadata (gs_Spec (sample_gs ps items)) = items"
  "exposedPorts (sample_gs ps items) = filter (\<lambda>p. 0 < cp_HostPort p) ps"
  by (simp_all add: sample_gs_def gameServerSkeleton_def exposedPorts_def Let_def)

lemma all_fs_ok: "fs_ok all_fs"
  by (simp add: fs_ok_def all_fs_def)

lemma sample_env_ready: "env_ready (\<lambda>_. ''10.0.0.4'') (sample_gs ps items)"
  by (simp add: env_ready_def)



text \<open>
  A GameServer without an exposed port never starts. The operator sets the list of ports to
  the empty string, and the init container stops on an environment variable that is empty.
\<close>

lemma no_exposed_port_never_starts:
  assumes "env_ready field gs" and "exposedPorts gs = []"
  shows "init_main (podInitEnv field (NewPodForGameServer gs imgL imgW)) f =
    Inl (Fatal ''Env PF_GAMESERVER_PORTS is empty'')"
  using assms(2) by (simp add: podInitEnv_eq init_main_def init_names [OF assms(1)] init_vars [OF assms(1)])

theorem no_exposed_port_never_starts_witness:
  "init_main (podInitEnv (\<lambda>_. ''10.0.0.4'') (NewPodForGameServer (sample_gs [] []) ''linux'' ''win'')) all_fs =
    Inl (Fatal ''Env PF_GAMESERVER_PORTS is empty'')"
  by (rule no_exposed_port_never_starts [OF sample_env_ready]) simp

text \<open>
  The metadata encoding has no escapes. A value with a comma is cut at the comma, and a value
  with a question mark whose rest has no comma makes the init container index out of range.
\<close>

lemma metadata_separators_break:
  assumes "CHR '','' \<notin> set k" "CHR ''?'' \<notin> set k" "CHR '','' \<notin> set v" "CHR ''?'' \<notin> set v"
    and "CHR '','' \<notin> set w" "CHR ''?'' \<notin> set w" "w \<noteq> []"
    and "getenv ''PF_GAMESERVER_BUILD_METADATA'' = joinEntries (map encodeMetadata [\<lparr>bm_Key = k, bm_Value = v @ [c] @ w\<rparr>])"
  shows "(c = CHR '','' \<longrightarrow> parseBuildMetadata getenv = ParseOk [k \<mapsto> v]) \<and>
    (c = CHR ''?'' \<longrightarrow> parseBuildMetadata getenv = ParsePanic)"
proof -
  have env: "getenv ''PF_GAMESERVER_BUILD_METADATA'' = k @ '','' @ v @ c # w"
    using assms(8) trim_suffix_snoc [of "CHR ''?''" "k @ '','' @ v @ c # w"]
    by (simp add: joinEntries_def encodeMetadata_def)
  have "parseBuildMetadata getenv = ParseOk [k \<mapsto> v]" if "c = CHR '',''"
    using assms(1-7) that
    by (simp add: parseBuildMetadata_def env split_on_no_sep parseMetadataEntry_def split_on_sep Let_def)
  moreover have "parseBuildMetadata getenv = ParsePanic" if "c = CHR ''?''"
  proof -
    have "split_on (CHR ''?'') ((k @ '','' @ v) @ CHR ''?'' # w) = [k @ '','' @ v, w]"
      using assms(1-6) by (subst split_on_sep) (auto simp: split_on_no_sep)
    with assms(1-7) that show ?thesis
      by (simp add: parseBuildMetadata_def env parseMetadataEntry_def split_on_sep split_on_no_sep Let_def)
  qed
  ultimately show ?thesis by blast
qed

lemma metadata_separators_break_witness:
  "parseBuildMetadata (\<lambda>_. joinEntries (map encodeMetadata [\<lparr>bm_Key = ''url'', bm_Value = ''a?b''\<rparr>])) = ParsePanic \<and>
   parseBuildMetadata (\<lambda>_. joinEntries (map encodeMetadata [\<lparr>bm_Key = ''maps'', bm_Value = ''a,b''\<rparr>])) =
     ParseOk [''maps'' \<mapsto> ''a'']"
proof
  let ?ge = "\<lambda>i (_::string). joinEntries (map encodeMetadata [i])"
  show "parseBuildMetadata (?ge \<lparr>bm_Key = ''url'', bm_Value = ''a?b''\<rparr>) = ParsePanic"
    by (rule metadata_separators_break [of "''url''" "''a''" "''b''" _ "CHR ''?''", THEN conjunct2, THEN mp])
      simp_all
  show "parseBuildMetadata (?ge \<lparr>bm_Key = ''maps'', bm_Value = ''a,b''\<rparr>) = ParseOk [''maps'' \<mapsto> ''a'']"
    by (rule metadata_separators_break [of "''maps''" "''a''" "''b''" _ "CHR '',''", THEN conjunct1, THEN mp])
      simp_all
qed

end
