(* ===== verification/Webhooks.thy ===== *)
theory Webhooks
  imports Controller_Utils
begin

text \<open>
  The admission webhooks of \<open>pkg/operator/api/v1alpha1\<close> (\<open>gameserver_webhook.go\<close>,
  \<open>gameserverbuild_webhook.go\<close>). A validator returns the list of its field errors; the object is
  admitted when the list is empty. The listing of builds by namespace and build id is a parameter,
  and the cluster of admitted builds is a state machine on top of it.
\<close>

section \<open>Field errors\<close>

datatype field_path = OwnerReferencesPath | BuildIDPath | StandingByPath | PortsToExposePath

record field_error =
  fe_path :: field_path
  fe_value :: string
  fe_detail :: string

definition Invalid :: "field_path \<Rightarrow> string \<Rightarrow> string \<Rightarrow> field_error" where
  "Invalid path value detail = \<lparr>fe_path = path, fe_value = value, fe_detail = detail\<rparr>"

abbreviation errNoHostPort :: string where
  "errNoHostPort \<equiv> ''ports to expose must not have a hostPort value''"
abbreviation errNoPortName :: string where
  "errNoPortName \<equiv> ''ports to expose must have a name''"
abbreviation errBuildIdUnique :: string where
  "errBuildIdUnique \<equiv> ''cannot have more than one GameServerBuild with the same BuildID''"
abbreviation errBuildIdImmutable :: string where
  "errBuildIdImmutable \<equiv> ''changing buildID on an existing GameServerBuild is not allowed''"
abbreviation errPortsMatchingPortsToExpose :: string where
  "errPortsMatchingPortsToExpose \<equiv> ''there must be at least one port that matches each value in portsToExpose''"
abbreviation errNoOwner :: string where
  "errNoOwner \<equiv> ''a GameServer must have a GameServerBuild as an owner''"
abbreviation errStandingByLessThanMax :: string where
  "errStandingByLessThanMax \<equiv> ''standingby must be less or equal than max''"

section \<open>Validation of the exposed ports\<close>

text \<open>The map from numbers to ports; a missing number reads as the empty slice.\<close>

definition groupPort :: "(int \<rightharpoonup> ContainerPort list) \<Rightarrow> ContainerPort \<Rightarrow> (int \<rightharpoonup> ContainerPort list)" where
  "groupPort m port =
     (if cp_ContainerPort port \<noteq> 0
      then m(cp_ContainerPort port \<mapsto> map_get m [] (cp_ContainerPort port) @ [port]) else m)"

definition portsGroupedByNumber :: "PodSpec \<Rightarrow> int \<rightharpoonup> ContainerPort list" where
  "portsGroupedByNumber spec =
     foldl (\<lambda>m c. foldl groupPort m (c_Ports c)) Map.empty (ps_Containers spec)"

definition portErrors :: "string \<Rightarrow> bool \<Rightarrow> ContainerPort \<Rightarrow> field_error list" where
  "portErrors name validateHostPort port =
     (if cp_Name port = ''''
      then [Invalid PortsToExposePath name (errNoPortName @ '': error in port '' @ itoa (cp_ContainerPort port))]
      else []) @
     (if validateHostPort \<and> cp_HostPort port \<noteq> 0
      then [Invalid PortsToExposePath name (errNoHostPort @ '': error in port '' @ itoa (cp_ContainerPort port))]
      else [])"

definition exposeErrors ::
    "string \<Rightarrow> bool \<Rightarrow> (int \<rightharpoonup> ContainerPort list) \<Rightarrow> bool \<Rightarrow> int \<Rightarrow> field_error list" where
  "exposeErrors name hostNetwork groups validateHostPort p =
     (let ports = map_get groups [] p
      in (if \<not> hostNetwork \<and> length ports < 1
          then [Invalid PortsToExposePath name
             (errPortsMatchingPortsToExpose @ '': error in port '' @ itoa p)]
          else []) @
         concat (map (portErrors name validateHostPort) ports))"

definition validatePortsToExposeInternal ::
    "string \<Rightarrow> PodSpec \<Rightarrow> int list \<Rightarrow> bool \<Rightarrow> field_error list" where
  "validatePortsToExposeInternal name spec portsToExpose validateHostPort =
     concat (map (exposeErrors name (ps_HostNetwork spec) (portsGroupedByNumber spec) validateHostPort)
       portsToExpose)"

section \<open>GameServer\<close>

fun hasBuildOwner :: "OwnerReference list \<Rightarrow> bool" where
  "hasBuildOwner [] = False"
| "hasBuildOwner (r # rs) = (if or_Kind r = GameServerBuildKind then True else hasBuildOwner rs)"

definition validateOwnerReferences :: "GameServer \<Rightarrow> field_error list" where
  "validateOwnerReferences gs =
     (if hasBuildOwner (om_OwnerReferences (gs_Meta gs)) then []
      else [Invalid OwnerReferencesPath (gs_Name gs) errNoOwner])"

definition gs_validatePortsToExpose :: "GameServer \<Rightarrow> field_error list" where
  "gs_validatePortsToExpose gs =
     validatePortsToExposeInternal (gs_Name gs) (gs_PodSpec gs) (gss_PortsToExpose (gs_Spec gs)) False"

definition gs_ValidateCreate :: "GameServer \<Rightarrow> field_error list" where
  "gs_ValidateCreate gs = validateOwnerReferences gs @ gs_validatePortsToExpose gs"

definition gs_ValidateUpdate :: "GameServer \<Rightarrow> GameServer \<Rightarrow> field_error list" where
  "gs_ValidateUpdate old gs = validateOwnerReferences gs @ gs_validatePortsToExpose gs"

definition gs_ValidateDelete :: "GameServer \<Rightarrow> field_error list" where
  "gs_ValidateDelete gs = []"

section \<open>GameServerBuild\<close>

fun otherName :: "string \<Rightarrow> GameServerBuild list \<Rightarrow> bool" where
  "otherName name [] = False"
| "otherName name (b # bs) = (if name \<noteq> gsb_Name b then True else otherName name bs)"

definition validateCreateBuildID ::
    "(string \<Rightarrow> string \<Rightarrow> api_error + GameServerBuild list) \<Rightarrow> GameServerBuild \<Rightarrow> field_error list" where
  "validateCreateBuildID listBuilds gsb =
     (case listBuilds (gsb_Namespace gsb) (bs_BuildID (gsb_Spec gsb)) of
        Inl e \<Rightarrow> [Invalid BuildIDPath (gsb_Name gsb) (err_text e)]
      | Inr bs \<Rightarrow> (if otherName (gsb_Name gsb) bs
                   then [Invalid BuildIDPath (gsb_Name gsb) errBuildIdUnique] else []))"

definition validateUpdateBuildID :: "GameServerBuild \<Rightarrow> GameServerBuild \<Rightarrow> field_error list" where
  "validateUpdateBuildID old gsb =
     (if bs_BuildID (gsb_Spec gsb) \<noteq> bs_BuildID (gsb_Spec old)
      then [Invalid BuildIDPath (gsb_Name gsb) errBuildIdImmutable] else [])"

definition gsb_validatePortsToExpose :: "GameServerBuild \<Rightarrow> field_error list" where
  "gsb_validatePortsToExpose gsb =
     validatePortsToExposeInternal (gsb_Name gsb) (pt_Spec (bs_Template (gsb_Spec gsb)))
       (bs_PortsToExpose (gsb_Spec gsb)) True"

definition validateStandingBy :: "GameServerBuild \<Rightarrow> field_error list" where
  "validateStandingBy gsb =
     (if bs_Max (gsb_Spec gsb) < bs_StandingBy (gsb_Spec gsb)
      then [Invalid StandingByPath (gsb_Name gsb) errStandingByLessThanMax] else [])"

definition gsb_ValidateCreate ::
    "(string \<Rightarrow> string \<Rightarrow> api_error + GameServerBuild list) \<Rightarrow> GameServerBuild \<Rightarrow> field_error list" where
  "gsb_ValidateCreate listBuilds gsb =
     validateCreateBuildID listBuilds gsb @ gsb_validatePortsToExpose gsb @ validateStandingBy gsb"

definition gsb_ValidateUpdate :: "GameServerBuild \<Rightarrow> GameServerBuild \<Rightarrow> field_error list" where
  "gsb_ValidateUpdate old gsb =
     validateUpdateBuildID old gsb @ gsb_validatePortsToExpose gsb @ validateStandingBy gsb"

definition gsb_ValidateDelete :: "GameServerBuild \<Rightarrow> field_error list" where
  "gsb_ValidateDelete gsb = []"

section \<open>What the validators accept\<close>

lemma foldl_groupPort:
  "map_get (foldl groupPort m ps) [] p =
     map_get m [] p @ filter (\<lambda>q. cp_ContainerPort q = p \<and> cp_ContainerPort q \<noteq> 0) ps"
  by (induction ps arbitrary: m) (auto simp: groupPort_def)

lemma portsGroupedByNumber_get:
  "map_get (portsGroupedByNumber spec) [] p =
     filter (\<lambda>q. cp_ContainerPort q = p \<and> cp_ContainerPort q \<noteq> 0) (allPorts (ps_Containers spec))"
proof -
  have "map_get (foldl (\<lambda>m c. foldl groupPort m (c_Ports c)) m cs) [] p =
      map_get m [] p @ filter (\<lambda>q. cp_ContainerPort q = p \<and> cp_ContainerPort q \<noteq> 0) (allPorts cs)" for m cs
    by (induction cs arbitrary: m) (auto simp: foldl_groupPort)
  then show ?thesis by (simp add: portsGroupedByNumber_def)
qed

lemma validatePorts_iff:
  "validatePortsToExposeInternal name spec expose hp = [] \<longleftrightarrow>
     (\<forall>p \<in> set expose.
        (\<not> ps_HostNetwork spec \<longrightarrow>
           p \<noteq> 0 \<and> (\<exists>q \<in> set (allPorts (ps_Containers spec)). cp_ContainerPort q = p)) \<and>
        (\<forall>q \<in> set (allPorts (ps_Containers spec)). cp_ContainerPort q = p \<and> p \<noteq> 0 \<longrightarrow>
           cp_Name q \<noteq> [] \<and> (hp \<longrightarrow> cp_HostPort q = 0)))"
proof -
  have one: "exposeErrors name hn (portsGroupedByNumber spec) hp p = [] \<longleftrightarrow>
      (\<not> hn \<longrightarrow> p \<noteq> 0 \<and> (\<exists>q \<in> set (allPorts (ps_Containers spec)). cp_ContainerPort q = p)) \<and>
      (\<forall>q \<in> set (allPorts (ps_Containers spec)). cp_ContainerPort q = p \<and> p \<noteq> 0 \<longrightarrow>
         cp_Name q \<noteq> [] \<and> (hp \<longrightarrow> cp_HostPort q = 0))" for hn p
    by (auto simp: exposeErrors_def portErrors_def portsGroupedByNumber_get filter_empty_conv Let_def)
  show ?thesis by (auto simp: validatePortsToExposeInternal_def one)
qed

lemma hasBuildOwner_iff [simp]: "hasBuildOwner rs \<longleftrightarrow> (\<exists>r \<in> set rs. or_Kind r = GameServerBuildKind)"
  by (induction rs) auto

lemma otherName_iff [simp]: "otherName n bs \<longleftrightarrow> (\<exists>b \<in> set bs. gsb_Name b \<noteq> n)"
  by (induction bs) auto

lemma validateStandingBy_iff [simp]:
  "validateStandingBy gsb = [] \<longleftrightarrow> bs_StandingBy (gsb_Spec gsb) \<le> bs_Max (gsb_Spec gsb)"
  by (auto simp: validateStandingBy_def)

lemma validateUpdateBuildID_iff [simp]:
  "validateUpdateBuildID old gsb = [] \<longleftrightarrow> bs_BuildID (gsb_Spec gsb) = bs_BuildID (gsb_Spec old)"
  by (simp add: validateUpdateBuildID_def)

section \<open>From an admitted build to its GameServers\<close>

lemma portsAssigned_members:
  "portsAssigned expose hn hs ps qs \<Longrightarrow> q \<in> set qs \<Longrightarrow>
   (q \<in> set ps \<and> cp_ContainerPort q \<notin> set expose) \<or>
   (\<exists>p \<in> set ps. cp_ContainerPort p \<in> set expose \<and> cp_Name q = cp_Name p \<and>
      (hn \<or> cp_ContainerPort q = cp_ContainerPort p))"
  by (induction expose hn hs ps qs rule: portsAssigned.induct) (auto split: list.splits if_splits)

lemma portsAssigned_numbers:
  "portsAssigned expose False hs ps qs \<Longrightarrow> map cp_ContainerPort qs = map cp_ContainerPort ps"
  by (induction expose "False" hs ps qs rule: portsAssigned.induct) (auto split: list.splits if_splits)

lemma portsAssigned_admitted:
  assumes pa: "portsAssigned expose (ps_HostNetwork spec) hs (allPorts (ps_Containers spec)) (allPorts cs)"
    and ok: "validatePortsToExposeInternal name spec expose True = []"
    and nz: "\<forall>q \<in> set (allPorts (ps_Containers spec)). cp_ContainerPort q \<noteq> 0"
  shows "validatePortsToExposeInternal name' (spec\<lparr>ps_Containers := cs\<rparr>) expose False = []"
proof -
  have v: "(\<not> ps_HostNetwork spec \<longrightarrow>
        p \<noteq> 0 \<and> p \<in> cp_ContainerPort ` set (allPorts (ps_Containers spec))) \<and>
      (\<forall>q \<in> set (allPorts (ps_Containers spec)). cp_ContainerPort q = p \<longrightarrow> cp_Name q \<noteq> [])"
    if "p \<in> set expose" for p
    using bspec [OF ok [unfolded validatePorts_iff] that] nz by (auto simp: image_iff)
  have num: "cp_ContainerPort ` set (allPorts cs) = cp_ContainerPort ` set (allPorts (ps_Containers spec))"
    if "\<not> ps_HostNetwork spec"
  proof -
    have "map cp_ContainerPort (allPorts cs) = map cp_ContainerPort (allPorts (ps_Containers spec))"
      using pa that by (intro portsAssigned_numbers [of expose hs]) simp
    then show ?thesis by (metis image_set)
  qed
  have name: "cp_Name q \<noteq> []"
    if q: "q \<in> set (allPorts cs)" and qe: "cp_ContainerPort q \<in> set expose" for q
  proof -
    obtain p' where p': "p' \<in> set (allPorts (ps_Containers spec))" "cp_ContainerPort p' \<in> set expose"
      "cp_Name q = cp_Name p'"
      using portsAssigned_members [OF pa q] qe by auto
    with v [OF p'(2)] show ?thesis by auto
  qed
  show ?thesis
    unfolding validatePorts_iff
  proof (intro ballI conjI impI)
    fix p assume p: "p \<in> set expose"
    show "p \<noteq> 0" if "\<not> ps_HostNetwork (spec\<lparr>ps_Containers := cs\<rparr>)"
      using v [OF p] that by simp
    show "\<exists>q \<in> set (allPorts (ps_Containers (spec\<lparr>ps_Containers := cs\<rparr>))). cp_ContainerPort q = p"
      if "\<not> ps_HostNetwork (spec\<lparr>ps_Containers := cs\<rparr>)"
    proof -
      have "p \<in> cp_ContainerPort ` set (allPorts cs)" using v [OF p] num that by simp
      then show ?thesis by (auto simp: image_iff)
    qed
    show "cp_Name q \<noteq> []"
      if "q \<in> set (allPorts (ps_Containers (spec\<lparr>ps_Containers := cs\<rparr>)))" "cp_ContainerPort q = p \<and> p \<noteq> 0" for q
      using name [of q] that p by simp
  qed simp
qed

lemma setContainers_PodSpec:
  "gs_PodSpec (setContainers gs cs) = (gs_PodSpec gs)\<lparr>ps_Containers := cs\<rparr>"
  by (simp add: setContainers_def)

section \<open>The builds of a cluster\<close>

type_synonym build_store = "string \<times> string \<rightharpoonup> GameServerBuild"

text \<open>
  What the validator relies on of the API server: the listing by namespace and build id, when it
  answers, returns the stored builds.
\<close>

definition lists_live ::
    "build_store \<Rightarrow> (string \<Rightarrow> string \<Rightarrow> api_error + GameServerBuild list) \<Rightarrow> bool" where
  "lists_live store listBuilds \<longleftrightarrow>
     (\<forall>ns i bs. listBuilds ns i = Inr bs \<longrightarrow>
        set bs = {b \<in> ran store. gsb_Namespace b = ns \<and> bs_BuildID (gsb_Spec b) = i})"

abbreviation buildKey :: "GameServerBuild \<Rightarrow> string \<times> string" where
  "buildKey b \<equiv> (gsb_Namespace b, gsb_Name b)"

inductive build_step :: "build_store \<Rightarrow> build_store \<Rightarrow> bool" where
  build_create: "lists_live store listBuilds \<Longrightarrow> store (buildKey b) = None \<Longrightarrow>
    gsb_ValidateCreate listBuilds b = [] \<Longrightarrow> build_step store (store(buildKey b \<mapsto> b))"
| build_update: "store (buildKey b) = Some old \<Longrightarrow> gsb_ValidateUpdate old b = [] \<Longrightarrow>
    build_step store (store(buildKey b \<mapsto> b))"
| build_delete: "store k = Some b \<Longrightarrow> gsb_ValidateDelete b = [] \<Longrightarrow> build_step store (store(k := None))"

definition build_start :: "build_store \<Rightarrow> bool" where
  "build_start store \<longleftrightarrow> store = Map.empty"

definition build_ok :: "GameServerBuild \<Rightarrow> bool" where
  "build_ok b \<longleftrightarrow> gsb_validatePortsToExpose b = [] \<and> bs_StandingBy (gsb_Spec b) \<le> bs_Max (gsb_Spec b)"

definition builds_inv :: "build_store \<Rightarrow> bool" where
  "builds_inv store \<longleftrightarrow>
     (\<forall>k b. store k = Some b \<longrightarrow> k = buildKey b \<and> build_ok b) \<and>
     (\<forall>k k' b b'. store k = Some b \<longrightarrow> store k' = Some b' \<longrightarrow> gsb_Namespace b = gsb_Namespace b' \<longrightarrow>
        bs_BuildID (gsb_Spec b) = bs_BuildID (gsb_Spec b') \<longrightarrow> k = k')"

lemma builds_inv_key: "builds_inv store \<Longrightarrow> store k = Some b \<Longrightarrow> k = buildKey b"
  and builds_inv_ok: "builds_inv store \<Longrightarrow> store k = Some b \<Longrightarrow> build_ok b"
  and builds_inv_unique: "builds_inv store \<Longrightarrow> store k = Some b \<Longrightarrow> store k' = Some b' \<Longrightarrow>
    gsb_Namespace b = gsb_Namespace b' \<Longrightarrow> bs_BuildID (gsb_Spec b) = bs_BuildID (gsb_Spec b') \<Longrightarrow> k = k'"
  unfolding builds_inv_def by blast+

lemma ValidateCreate_ok: "gsb_ValidateCreate listBuilds b = [] \<Longrightarrow> build_ok b"
  by (simp add: gsb_ValidateCreate_def build_ok_def)

lemma ValidateUpdate_ok: "gsb_ValidateUpdate old b = [] \<Longrightarrow> build_ok b"
  by (simp add: gsb_ValidateUpdate_def build_ok_def)

lemma validateCreateBuildID_unique:
  assumes "validateCreateBuildID listBuilds b = []" and "lists_live store listBuilds"
    and "store k = Some b'" and "gsb_Namespace b' = gsb_Namespace b"
    and "bs_BuildID (gsb_Spec b') = bs_BuildID (gsb_Spec b)"
  shows "gsb_Name b' = gsb_Name b"
proof -
  obtain bs where l: "listBuilds (gsb_Namespace b) (bs_BuildID (gsb_Spec b)) = Inr bs"
    and n: "\<forall>x \<in> set bs. gsb_Name x = gsb_Name b"
    using assms(1) by (auto simp: validateCreateBuildID_def split: sum.splits if_splits)
  have "b' \<in> set bs"
    using assms(2-5) l by (auto simp: lists_live_def ran_def simp del: split_paired_Ex)
  with n show ?thesis by blast
qed

lemma builds_inv_put:
  assumes "builds_inv store" and "build_ok b"
    and "\<And>k b'. store k = Some b' \<Longrightarrow> gsb_Namespace b' = gsb_Namespace b \<Longrightarrow>
      bs_BuildID (gsb_Spec b') = bs_BuildID (gsb_Spec b) \<Longrightarrow> k = buildKey b"
  shows "builds_inv (store(buildKey b \<mapsto> b))"
  unfolding builds_inv_def
proof (intro conjI allI impI)
  fix k c assume c: "(store(buildKey b \<mapsto> b)) k = Some c"
  show "k = buildKey c"
    using c builds_inv_key [OF assms(1), of k c] by (cases "k = buildKey b") auto
  show "build_ok c"
    using c assms(2) builds_inv_ok [OF assms(1), of k c] by (cases "k = buildKey b") auto
next
  fix k k' c c' assume c: "(store(buildKey b \<mapsto> b)) k = Some c" "(store(buildKey b \<mapsto> b)) k' = Some c'"
    and eq: "gsb_Namespace c = gsb_Namespace c'" "bs_BuildID (gsb_Spec c) = bs_BuildID (gsb_Spec c')"
  consider "k = buildKey b" "k' = buildKey b" | "k = buildKey b" "k' \<noteq> buildKey b"
    | "k \<noteq> buildKey b" "k' = buildKey b" | "k \<noteq> buildKey b" "k' \<noteq> buildKey b" by blast
  then show "k = k'"
  proof cases
    case 2
    then have "store k' = Some c'" "c = b" using c by auto
    then show ?thesis using 2 eq assms(3) [of k' c'] by simp
  next
    case 3
    then have "store k = Some c" "c' = b" using c by auto
    then show ?thesis using 3 eq assms(3) [of k c] by simp
  next
    case 4
    then have "store k = Some c" "store k' = Some c'" using c by auto
    then show ?thesis using eq builds_inv_unique [OF assms(1)] by blast
  qed simp
qed

interpretation build_system: invariant_system build_start build_step builds_inv
proof
  fix store store'
  show "build_start store \<Longrightarrow> builds_inv store" by (simp add: build_start_def builds_inv_def)
  assume inv: "builds_inv store" and step: "build_step store store'"
  from step show "builds_inv store'"
  proof cases
    case (build_create listBuilds b)
    have "k = buildKey b" if "store k = Some b'" "gsb_Namespace b' = gsb_Namespace b"
      "bs_BuildID (gsb_Spec b') = bs_BuildID (gsb_Spec b)" for k b'
    proof -
      have "validateCreateBuildID listBuilds b = []"
        using build_create(4) by (simp add: gsb_ValidateCreate_def)
      from validateCreateBuildID_unique [OF this build_create(2) that] that(2)
      show ?thesis using builds_inv_key [OF inv that(1)] by simp
    qed
    then show ?thesis
      unfolding build_create(1) by (rule builds_inv_put [OF inv ValidateCreate_ok [OF build_create(4)]])
  next
    case (build_update b old)
    have same: "bs_BuildID (gsb_Spec b) = bs_BuildID (gsb_Spec old)" "gsb_Namespace old = gsb_Namespace b"
      using build_update(3) builds_inv_key [OF inv build_update(2)] by (auto simp: gsb_ValidateUpdate_def)
    have "k = buildKey b" if "store k = Some b'" "gsb_Namespace b' = gsb_Namespace b"
      "bs_BuildID (gsb_Spec b') = bs_BuildID (gsb_Spec b)" for k b'
      using builds_inv_unique [OF inv that(1) build_update(2)] that(2,3) same by simp
    then show ?thesis
      unfolding build_update(1) by (rule builds_inv_put [OF inv ValidateUpdate_ok [OF build_update(3)]])
  next
    case (build_delete k b)
    with inv show ?thesis by (auto simp: builds_inv_def simp del: split_paired_All)
  qed
qed

section \<open>Properties\<close>


definition one_port_build :: GameServerBuild where
  "one_port_build = build_with [80] [game_container ''game'' [game_port ''gp'' 80]]"

lemma one_port_build_admitted: "gsb_ValidateCreate (\<lambda>_ _. Inr []) one_port_build = []"
  by (simp add: one_port_build_def gsb_ValidateCreate_def validateCreateBuildID_def
      gsb_validatePortsToExpose_def validatePorts_iff)


text \<open>
  The two webhooks fit the constructor between them: a GameServer that the operator makes
  from an admitted build (none of whose container ports is zero) is admitted, whatever host ports
  it was given, also where the host network replaces its container ports by the host ports.
\<close>

lemma admitted_build_admitted_gameserver:
  assumes "gsb_ValidateCreate listBuilds gsb = [] \<or> gsb_ValidateUpdate old gsb = []"
    and "NewGameServerForGameServerBuild rng gsb pr = (pr', Inr gs)"
    and "\<forall>q \<in> set (allPorts (ps_Containers (pt_Spec (bs_Template (gsb_Spec gsb))))). cp_ContainerPort q \<noteq> 0"
  shows "gs_ValidateCreate gs = []"
proof -
  from assms(1) have ok: "validatePortsToExposeInternal (gsb_Name gsb) (pt_Spec (bs_Template (gsb_Spec gsb)))
      (bs_PortsToExpose (gsb_Spec gsb)) True = []"
    by (auto dest!: ValidateCreate_ok ValidateUpdate_ok simp: build_ok_def gsb_validatePortsToExpose_def)
  obtain hs cs rest where a: "assignContainers (bs_PortsToExpose (gsb_Spec gsb))
      (ps_HostNetwork (pt_Spec (bs_Template (gsb_Spec gsb)))) hs
      (ps_Containers (pt_Spec (bs_Template (gsb_Spec gsb)))) = Some (cs, rest)"
    and gs: "gs = setContainers (gameServerSkeleton (generateName rng (gsb_Name gsb)) gsb) cs"
    by (rule new_gameserver_Inr [OF assms(2)])
  show ?thesis
    using portsAssigned_admitted [OF conjunct1 [OF assignContainers_Some [OF a]] ok assms(3)]
    by (simp add: gs gs_ValidateCreate_def gs_validatePortsToExpose_def validateOwnerReferences_def
        setContainers_PodSpec NewControllerRef_def)
qed

lemma admitted_build_admitted_gameserver_witness:
  "\<exists>pr' gs. NewGameServerForGameServerBuild rng0 one_port_build small_registry = (pr', Inr gs) \<and>
     gs_ValidateCreate gs = []"
proof -
  obtain pr' where g: "GetNewPorts small_registry ''default'' ''build-aaaaa'' 1 = (pr', Inr [10000])"
    using small_registry_one_port by blast
  then obtain gs where n: "NewGameServerForGameServerBuild rng0 one_port_build small_registry = (pr', Inr gs)"
    by (simp add: NewGameServerForGameServerBuild_def generateName_rng0 zero_PodSpec_def one_port_build_def)
  have "gs_ValidateCreate gs = []"
    by (rule admitted_build_admitted_gameserver [OF disjI1 [OF one_port_build_admitted] n])
      (simp add: one_port_build_def)
  with n show ?thesis by blast
qed

text \<open>
  An admitted build can make the operator panic. The webhook asks for at least one container
  port per exposed number, but the constructor indexes one host port per container port that
  matches: a build that exposes 80 and has 80 in two containers is admitted, and its first
  GameServer indexes the host ports out of range.
\<close>

lemma admitted_build_panics:
  "\<exists>gsb pr'. gsb_ValidateCreate (\<lambda>_ _. Inr []) gsb = [] \<and>
     NewGameServerForGameServerBuild rng0 gsb small_registry = (pr', Inl HostPortIndexPanic)"
proof -
  let ?b = "build_with [80] [game_container ''a'' [game_port ''x'' 80], game_container ''b'' [game_port ''y'' 80]]"
  have "gsb_ValidateCreate (\<lambda>_ _. Inr []) ?b = []"
    by (simp add: gsb_ValidateCreate_def validateCreateBuildID_def gsb_validatePortsToExpose_def
        validatePorts_iff)
  moreover obtain pr' where g: "GetNewPorts small_registry ''default'' ''build-aaaaa'' 1 = (pr', Inr [10000])"
    using small_registry_one_port by blast
  then have "NewGameServerForGameServerBuild rng0 ?b small_registry = (pr', Inl HostPortIndexPanic)"
    by (simp add: NewGameServerForGameServerBuild_def generateName_rng0 zero_PodSpec_def)
  ultimately show ?thesis by blast
qed

end
