(* ===== verification/Build_Rounds.thy ===== *)
theory Build_Rounds
  imports Build_Controller
begin

text \<open>
  What rounds of the GameServerBuild reconciler do to a build: the crash count that it keeps in
  memory and reports, the number of GameServers that it deletes when a build shrinks, and the
  scale-up that reaches the StandingBy number after enough rounds.
\<close>

section \<open>Crash counts\<close>

definition crashesSoFar :: "(string \<rightharpoonup> int) \<Rightarrow> GameServerBuild \<Rightarrow> int" where
  "crashesSoFar m gsb = (case m (getKeyForCrashesPerBuildMap gsb) of None \<Rightarrow> 0 | Some k \<Rightarrow> k)"

lemma getExistingCrashes_eq:
  "getExistingCrashes gsb k m =
     (m(getKeyForCrashesPerBuildMap gsb \<mapsto> k + crashesSoFar m gsb), crashesSoFar m gsb)"
  by (simp add: getExistingCrashes_def crashesSoFar_def Let_def split: option.split)

lemma updateStatus_changed:
  assumes "statusChanged gsb c" and "updateStatus api gsb c s = (s', r)"
  defines "total_crashes \<equiv> crashesSoFar (b_crashes s) gsb + c_crashes c"
  shows "b_crashes s' = (b_crashes s)(getKeyForCrashesPerBuildMap gsb \<mapsto> total_crashes) \<and>
    b_calls s' = b_calls s @ [CallPatchStatus (gsb\<lparr>gsb_Status := newStatus gsb c total_crashes\<rparr>)]"
  using assms(1,2)
  by (auto simp: updateStatus_def getExistingCrashes_eq Let_def log_effects_def total_crashes_def add.commute
      split: prod.splits option.splits)

lemma updateStatus_unchanged:
  "\<not> statusChanged gsb c \<Longrightarrow> updateStatus api gsb c s = (s', r) \<Longrightarrow>
   b_crashes s' = b_crashes s \<and> b_calls s' = b_calls s"
  by (auto simp: updateStatus_def log_effects_def)

lemma countsOf_states:
  "c_pending (countsOf gss) = number (\<lambda>g. gs_State g = [] \<and> gs_Health g \<noteq> ''Unhealthy'') gss"
  "c_initializing (countsOf gss) = number (\<lambda>g. gs_State g = ''Initializing'' \<and> gs_Health g = ''Healthy'') gss"
  "c_standingBy (countsOf gss) = number (\<lambda>g. gs_State g = ''StandingBy'' \<and> gs_Health g = ''Healthy'') gss"
  by (auto simp: countsOf_def classCount_def number_def classify_def intro!: arg_cong [where f = length] filter_cong)

text \<open>
  C17: the crash accounting of a completed reconciliation. The count kept in memory for the build
  grows by the GameServers listed in the state Crashed or as Unhealthy, and no other build's count changes. The status is patched exactly when
  the number of GameServers without a state, Initializing, StandingBy or Active differs from the one in the status that was read, or there was a
  crash; then it is the last call, and reports these numbers, the accumulated count of crashes, and Unhealthy
  exactly when a threshold is set and the count has reached it. It changes nothing else of the build.
\<close>

theorem reconcile_counts_crashes:
  assumes "permutes_lists (ba_sort api)" "permutes_lists (ba_schedule api)"
    and "ba_getBuild api (b_world s) ns n = Inr gsb" and "\<not> stopsReconciling gsb"
    and "checkExpectations api gsb s = (s1, Inr True)"
    and "ba_listOwned api (b_world s) ns n = Inr gss"
    and "build_Reconcile api cfg ns n s = (s', RDone)"
  defines "k \<equiv> crashesSoFar (b_crashes s) gsb + number (\<lambda>g. gs_State g = ''Crashed'' \<or> gs_Health g = ''Unhealthy'') gss"
    and "P \<equiv> number (\<lambda>g. gs_State g = [] \<and> gs_Health g \<noteq> ''Unhealthy'') gss"
    and "I \<equiv> number (\<lambda>g. gs_State g = ''Initializing'' \<and> gs_Health g = ''Healthy'') gss"
    and "S \<equiv> number (\<lambda>g. gs_State g = ''StandingBy'' \<and> gs_Health g = ''Healthy'') gss"
    and "A \<equiv> number (\<lambda>g. gs_State g = ''Active'' \<and> gs_Health g = ''Healthy'') gss"
    and "old \<equiv> gsb_Status gsb"
  shows "crashesSoFar (b_crashes s') gsb = k \<and>
    (\<forall>key. key \<noteq> getKeyForCrashesPerBuildMap gsb \<longrightarrow> b_crashes s' key = b_crashes s key) \<and>
    (if bst_CurrentPending old \<noteq> P \<or> bst_CurrentInitializing old \<noteq> I \<or> bst_CurrentStandingBy old \<noteq> S \<or>
        bst_CurrentActive old \<noteq> A \<or> (\<exists>g \<in> set gss. gs_State g = ''Crashed'' \<or> gs_Health g = ''Unhealthy'')
     then \<exists>cs. b_calls s' = cs @ [CallPatchStatus (gsb\<lparr>gsb_Status := old
         \<lparr>bst_CurrentPending := P, bst_CurrentInitializing := I, bst_CurrentStandingBy := S, bst_CurrentActive := A,
          bst_CrashesCount := k, bst_CurrentStandingByReadyDesired := itoa S @ ''/'' @ itoa (bs_StandingBy (gsb_Spec gsb)),
          bst_Health := (if \<exists>m. bs_CrashesToMarkUnhealthy (gsb_Spec gsb) = Some m \<and> m \<le> k then ''Unhealthy'' else ''Healthy'')\<rparr>\<rparr>)]
     else k = crashesSoFar (b_crashes s) gsb \<and>
       (\<forall>gsb'. CallPatchStatus gsb' \<in> set (b_calls s') \<longrightarrow> CallPatchStatus gsb' \<in> set (b_calls s)))"
proof (rule reconcile_done [OF assms(1-7)])
  fix ds gs ps s3
  let ?c = "countsOf gss"
  assume t: "b_calls s' = b_calls s @
      map (\<lambda>g. CallDelete g None) (filter (\<lambda>g. ended (classify g)) gss) @
      map (\<lambda>g. CallDelete g (Some (om_ResourceVersion (gs_Meta g)))) ds @
      map CallCreate gs @ map CallPatchStatus ps"
    and s3: "b_crashes s3 = b_crashes s" and u: "updateStatus api gsb ?c s3 = (s', RDone)"
    and ps: "b_calls s' = b_calls s3 @ map CallPatchStatus ps"
  have crashed: "c_crashes ?c = number (\<lambda>g. gs_State g = ''Crashed'' \<or> gs_Health g = ''Unhealthy'') gss"
    unfolding countsOf_kinds(3) number_def has_crashed_def ..
  have active: "c_active ?c = A" unfolding countsOf_kinds(2) A_def number_def is_active_def ..
  have k: "k = crashesSoFar (b_crashes s) gsb + c_crashes ?c" by (simp add: k_def crashed)
  have changed: "statusChanged gsb ?c \<longleftrightarrow> bst_CurrentPending old \<noteq> P \<or> bst_CurrentInitializing old \<noteq> I \<or>
      bst_CurrentStandingBy old \<noteq> S \<or> bst_CurrentActive old \<noteq> A \<or>
      (\<exists>g \<in> set gss. gs_State g = ''Crashed'' \<or> gs_Health g = ''Unhealthy'')"
    unfolding statusChanged_def countsOf_states crashed active old_def P_def I_def S_def number_def
    by (auto simp: filter_empty_conv)
  show ?thesis
  proof (cases "statusChanged gsb ?c")
    case True
    note U = updateStatus_changed [OF True u, unfolded s3, folded k]
    have "newStatus gsb ?c k = old\<lparr>bst_CurrentPending := P, bst_CurrentInitializing := I, bst_CurrentStandingBy := S,
        bst_CurrentActive := A, bst_CrashesCount := k,
        bst_CurrentStandingByReadyDesired := itoa S @ ''/'' @ itoa (bs_StandingBy (gsb_Spec gsb)),
        bst_Health := (if \<exists>m. bs_CrashesToMarkUnhealthy (gsb_Spec gsb) = Some m \<and> m \<le> k then ''Unhealthy'' else ''Healthy'')\<rparr>"
      by (simp add: newStatus_def countsOf_states active old_def P_def I_def S_def split: option.split)
    then show ?thesis
      using U True unfolding changed by (auto simp: crashesSoFar_def)
  next
    case False
    note U = updateStatus_unchanged [OF False u]
    with ps have "ps = []" by simp
    moreover have "c_crashes ?c = 0"
      using False by (simp add: statusChanged_def countsOf_kinds(3) number_def)
    moreover have "CallPatchStatus gsb' \<notin> set (b_calls s') - set (b_calls s)" for gsb'
      using \<open>ps = []\<close> by (auto simp: t)
    ultimately show ?thesis using False U s3 k unfolding changed by (auto simp: crashesSoFar_def)
  qed
qed

theorem reconcile_counts_crashes_witness:
  "\<exists>s' cs gsb'. build_Reconcile (mem_build_api mem_build) mem_config ''default'' ''build'' (mem_state mem_gss) = (s', RDone) \<and>
     crashesSoFar (b_crashes s') mem_build = 1 \<and> b_calls s' = cs @ [CallPatchStatus gsb'] \<and>
     bst_CurrentActive (gsb_Status gsb') = 1 \<and> bst_CrashesCount (gsb_Status gsb') = 1"
proof -
  obtain s' where r: "build_Reconcile (mem_build_api mem_build) mem_config ''default'' ''build'' (mem_state mem_gss) = (s', RDone)"
    using mem_reconcile by blast
  have l: "ba_listOwned (mem_build_api mem_build) (b_world (mem_state mem_gss)) ''default'' ''build'' = Inr mem_gss"
    by (simp add: mem_gss_def)
  have b: "ba_getBuild (mem_build_api mem_build) (b_world (mem_state mem_gss)) ''default'' ''build'' = Inr mem_build" by simp
  have k: "crashesSoFar (b_crashes (mem_state mem_gss)) mem_build = 0"
    "number (\<lambda>g. gs_State g = ''Crashed'' \<or> gs_Health g = ''Unhealthy'') mem_gss = 1"
    "number (\<lambda>g. gs_State g = ''Active'' \<and> gs_Health g = ''Healthy'') mem_gss = 1"
    "\<exists>g \<in> set mem_gss. gs_State g = ''Crashed'' \<or> gs_Health g = ''Unhealthy''"
    by (simp_all add: crashesSoFar_def mem_state_def mem_gss_def number_def)
  note C = reconcile_counts_crashes [OF mem_api_simps(3,4) b mem_build_simps(5) mem_checkExpectations l r]
  have "crashesSoFar (b_crashes s') mem_build = 1" using conjunct1 [OF C] k by simp
  moreover have "\<exists>cs gsb'. b_calls s' = cs @ [CallPatchStatus gsb'] \<and>
     bst_CurrentActive (gsb_Status gsb') = 1 \<and> bst_CrashesCount (gsb_Status gsb') = 1"
    using conjunct2 [OF conjunct2 [OF C]]
    by (simp only: k simp_thms if_True) (elim exE, intro exI conjI, assumption, simp_all)
  ultimately show ?thesis using r by blast
qed

text \<open>
  Deleting a build does not forget its crashes. The reconciliation that finds the build gone
  clears the entry of the zero value of the build, so the entry of the deleted build stays; a
  build created later under the same name is then marked Unhealthy by its first status patch when
  the old count reaches its threshold, although none of its own GameServers crashed.
\<close>

lemma deleted_build_keeps_crashes:
  assumes "ba_getBuild api (b_world s) (gsb_Namespace gsb) (gsb_Name gsb) = Inl (NotFound e)"
    and "build_Reconcile api cfg (gsb_Namespace gsb) (gsb_Name gsb) s = (s', r)"
    and "gsb_Name gsb \<noteq> []" and "crashesSoFar (b_crashes s) gsb = k"
    and "b_crashes s2 = b_crashes s'" and "statusChanged gsb c" and "c_crashes c = 0"
    and "updateStatus api gsb c s2 = (s3, r2)"
    and "bs_CrashesToMarkUnhealthy (gsb_Spec gsb) = Some m" and "m \<le> k"
  shows "r = RDone \<and> crashesSoFar (b_crashes s') gsb = k \<and>
    (\<exists>gsb'. b_calls s3 = b_calls s2 @ [CallPatchStatus gsb'] \<and>
       bst_CrashesCount (gsb_Status gsb') = k \<and> bst_Health (gsb_Status gsb') = BuildUnhealthy)"
proof -
  have "getKeyForCrashesPerBuildMap gsb \<noteq> getKeyForCrashesPerBuildMap zero_GameServerBuild"
    using assms(3) by (cases "gsb_Namespace gsb")
      (auto simp: getKeyForCrashesPerBuildMap_def zero_GameServerBuild_def zero_Meta_def)
  with assms(1,2,4) have 1: "r = RDone" "crashesSoFar (b_crashes s') gsb = k"
    by (auto simp: build_Reconcile_def crashesSoFar_def)
  from updateStatus_changed [OF assms(6,8)] 1(2) assms(7,9,10)
  show ?thesis by (auto simp: 1(1) assms(5) newStatus_def)
qed

definition fresh_build :: GameServerBuild where
  "fresh_build = mem_build\<lparr>gsb_Spec := (gsb_Spec mem_build)\<lparr>bs_CrashesToMarkUnhealthy := Some 3\<rparr>\<rparr>"

definition gone_api :: "GameServer list build_api" where
  "gone_api = (mem_build_api mem_build)\<lparr>ba_getBuild := \<lambda>w ns n. Inl (NotFound ''not found'')\<rparr>"

lemma deleted_build_keeps_crashes_witness:
  "\<exists>s' s3 r2 gsb'. build_Reconcile gone_api mem_config ''default'' ''build''
       ((mem_state [])\<lparr>b_crashes := [''default/build'' \<mapsto> 3]\<rparr>) = (s', RDone) \<and>
     updateStatus gone_api fresh_build (zero_counts\<lparr>c_pending := 1\<rparr>) s' = (s3, r2) \<and>
     b_calls s3 = b_calls s' @ [CallPatchStatus gsb'] \<and> bst_Health (gsb_Status gsb') = BuildUnhealthy"
proof -
  let ?s = "(mem_state [])\<lparr>b_crashes := [''default/build'' \<mapsto> 3]\<rparr>"
  let ?c = "zero_counts\<lparr>c_pending := 1\<rparr>"
  have names: "gsb_Name fresh_build = ''build''" "gsb_Namespace fresh_build = ''default''"
    by (simp_all add: fresh_build_def)
  obtain s' r where r: "build_Reconcile gone_api mem_config (gsb_Namespace fresh_build) (gsb_Name fresh_build) ?s = (s', r)"
    by fastforce
  obtain s3 r2 where u: "updateStatus gone_api fresh_build ?c s' = (s3, r2)" by fastforce
  have g: "ba_getBuild gone_api (b_world ?s) (gsb_Namespace fresh_build) (gsb_Name fresh_build) = Inl (NotFound ''not found'')"
    by (simp add: gone_api_def)
  have k: "crashesSoFar (b_crashes ?s) fresh_build = 3"
    by (simp add: crashesSoFar_def getKeyForCrashesPerBuildMap_def names)
  have "statusChanged fresh_build ?c"
    by (simp add: statusChanged_def fresh_build_def mem_build_def build_with_def zero_GameServerBuild_def
        zero_BuildStatus_def zero_counts_def)
  moreover have "c_crashes ?c = 0" by (simp add: zero_counts_def)
  moreover have "bs_CrashesToMarkUnhealthy (gsb_Spec fresh_build) = Some 3" by (simp add: fresh_build_def)
  ultimately obtain gsb' where "r = RDone" "b_calls s3 = b_calls s' @ [CallPatchStatus gsb']"
    "bst_Health (gsb_Status gsb') = BuildUnhealthy"
    using deleted_build_keeps_crashes [OF g r _ k refl _ _ u, of 3] by (auto simp: names)
  with r u show ?thesis unfolding names by blast
qed

section \<open>Deletions\<close>

definition deleteBoth :: "int \<Rightarrow> int \<Rightarrow> int \<Rightarrow> int" where
  "deleteBoth x y m =
     (let n1 = (if 0 < x then min x m else 0) in if 0 < y then n1 + min (n1 + y) m else n1)"

lemma deleteBoth_bounds:
  assumes "0 \<le> m"
  shows "0 \<le> deleteBoth x y m" "deleteBoth x y m \<le> 2 * m"
    "x \<le> 0 \<Longrightarrow> y \<le> 0 \<Longrightarrow> deleteBoth x y m = 0"
    "0 < x \<Longrightarrow> y \<le> 0 \<Longrightarrow> deleteBoth x y m = min x m"
    "x \<le> 0 \<Longrightarrow> 0 < y \<Longrightarrow> deleteBoth x y m = min y m"
    "0 < x \<Longrightarrow> 0 < y \<Longrightarrow> x + y \<le> m \<Longrightarrow> deleteBoth x y m = 2 * x + y"
    "m \<le> x \<Longrightarrow> 0 < m \<Longrightarrow> 0 < y \<Longrightarrow> deleteBoth x y m = 2 * m"
  using assms by (simp_all add: deleteBoth_def Let_def) linarith

text \<open>
  How many GameServers one reconciliation deletes to shrink a build. Nothing when neither
  limit is exceeded; at most the configured maximum, and never below the limit, when one is; when
  both are exceeded the excess over StandingBy is counted twice, so that up to twice the
  configured maximum is deleted, and, when that maximum does not intervene, fewer than
  StandingBy GameServers are left.
\<close>

lemma deletion_amount_bounds:
  fixes spec :: GameServerBuildSpec and c :: counts
  assumes "0 \<le> MaxNumberOfGameServersToDelete cfg"
  defines "m \<equiv> MaxNumberOfGameServersToDelete cfg" and "n \<equiv> deletionAmount cfg spec c"
    and "over_sb \<equiv> nonActive c - bs_StandingBy spec" and "over_max \<equiv> nonActive c + c_active c - bs_Max spec"
  shows "0 \<le> n \<and> n \<le> 2 * m \<and>
    (over_sb \<le> 0 \<and> over_max \<le> 0 \<longrightarrow> n = 0) \<and>
    (0 < over_sb \<and> over_max \<le> 0 \<longrightarrow> n = min over_sb m \<and> bs_StandingBy spec \<le> nonActive c - n) \<and>
    (over_sb \<le> 0 \<and> 0 < over_max \<longrightarrow> n = min over_max m \<and> bs_Max spec \<le> nonActive c + c_active c - n) \<and>
    (0 < over_sb \<and> 0 < over_max \<and> over_sb + over_max \<le> m \<longrightarrow>
       n = 2 * over_sb + over_max \<and> nonActive c - n < bs_StandingBy spec) \<and>
    (m \<le> over_sb \<and> 0 < m \<and> 0 < over_max \<longrightarrow> n = 2 * m)"
proof -
  have n: "n = deleteBoth over_sb over_max m"
    unfolding n_def deletionAmount_def deleteBoth_def over_sb_def over_max_def m_def diff_gt_0_iff_gt ..
  have s: "nonActive c = bs_StandingBy spec + over_sb" "nonActive c + c_active c = bs_Max spec + over_max"
    by (simp_all add: over_sb_def over_max_def)
  have "0 \<le> m" using assms(1) by (simp add: m_def)
  note B = deleteBoth_bounds [OF this, of over_sb over_max, folded n]
  have "over_sb + (bs_StandingBy spec - n) \<ge> bs_StandingBy spec" if "0 < over_sb" "over_max \<le> 0"
    using B(4) [OF that] by linarith
  moreover have "over_max + (bs_Max spec - n) \<ge> bs_Max spec" if "over_sb \<le> 0" "0 < over_max"
    using B(5) [OF that] by linarith
  moreover have "over_sb + (bs_StandingBy spec - n) < bs_StandingBy spec"
    if "0 < over_sb" "0 < over_max" "over_sb + over_max \<le> m"
    using B(6) [OF that] that by linarith
  ultimately show ?thesis using B unfolding s(2) unfolding s(1) by (simp add: add_diff_eq add.commute)
qed

theorem deletion_amount_bounds_witness:
  "deletionAmount mem_config (gsb_Spec mem_build)
     (zero_counts\<lparr>c_standingBy := 3, c_active := 2\<rparr>) = 3 \<and>
   nonActive (zero_counts\<lparr>c_standingBy := 3, c_active := 2\<rparr>) - 3 < bs_StandingBy (gsb_Spec mem_build)"
proof -
  have m: "0 \<le> MaxNumberOfGameServersToDelete mem_config" "MaxNumberOfGameServersToDelete mem_config = 5"
    by (simp_all add: mem_config_def)
  have c: "nonActive (zero_counts\<lparr>c_standingBy := 3, c_active := 2\<rparr>) = 3"
    "c_active (zero_counts\<lparr>c_standingBy := 3, c_active := 2\<rparr>) = 2"
    by (simp_all add: nonActive_def zero_counts_def)
  from deletion_amount_bounds [OF m(1), of "gsb_Spec mem_build" "zero_counts\<lparr>c_standingBy := 3, c_active := 2\<rparr>"]
  show ?thesis unfolding c m(2) mem_build_simps by simp
qed

section \<open>Scaling up\<close>

definition createdBy :: "api_call list \<Rightarrow> GameServer list" where
  "createdBy cs = concat (map (\<lambda>x. case x of CallCreate g \<Rightarrow> [g] | _ \<Rightarrow> []) cs)"

definition deletedBy :: "api_call list \<Rightarrow> GameServer set" where
  "deletedBy cs = {g. \<exists>rv. CallDelete g rv \<in> set cs}"

text \<open>
  A round: a reconciliation that completes. The GameServers it leaves are those listed, less those it
  deleted, and those it created. Until the next round they may go from one of the states before Active to another, and the
  cluster, the ports of other builds and the status of this one may change as they like.
\<close>

definition build_round ::
    "'w build_api \<Rightarrow> Config \<Rightarrow> GameServerBuild \<Rightarrow> 'w build_state \<Rightarrow> GameServer list \<Rightarrow> 'w build_state \<Rightarrow> bool" where
  "build_round api cfg gsb s gss s' \<longleftrightarrow>
     permutes_lists (ba_sort api) \<and> permutes_lists (ba_schedule api) \<and>
     ba_getBuild api (b_world s) (gsb_Namespace gsb) (gsb_Name gsb) = Inr gsb \<and> \<not> stopsReconciling gsb \<and>
     (\<exists>s1. checkExpectations api gsb s = (s1, Inr True)) \<and>
     ba_listOwned api (b_world s) (gsb_Namespace gsb) (gsb_Name gsb) = Inr gss \<and>
     build_Reconcile api cfg (gsb_Namespace gsb) (gsb_Name gsb) s = (s', RDone)"

definition left_by :: "'w build_state \<Rightarrow> GameServer list \<Rightarrow> 'w build_state \<Rightarrow> GameServer list" where
  "left_by s gss s' =
     (let cs = drop (length (b_calls s)) (b_calls s') in filter (\<lambda>g. g \<notin> deletedBy cs) gss @ createdBy cs)"

definition same_numbers :: "GameServer list \<Rightarrow> GameServer list \<Rightarrow> bool" where
  "same_numbers xs ys \<longleftrightarrow> number not_active ys = number not_active xs \<and> number is_active ys = number is_active xs"

inductive build_rounds ::
    "Config \<Rightarrow> string \<Rightarrow> string \<Rightarrow> GameServerBuildSpec \<Rightarrow> 'w build_state \<Rightarrow> GameServer list \<Rightarrow> nat \<Rightarrow>
     'w build_state \<Rightarrow> GameServer list \<Rightarrow> bool"
  for cfg ns n spec s gss where
  no_round: "build_rounds cfg ns n spec s gss 0 s gss"
| one_more: "build_rounds cfg ns n spec s gss k s1 gss1 \<Longrightarrow>
    gsb_Namespace gsb = ns \<Longrightarrow> gsb_Name gsb = n \<Longrightarrow> gsb_Spec gsb = spec \<Longrightarrow>
    build_round api cfg gsb s1 gss1 s2 \<Longrightarrow> same_numbers (left_by s1 gss1 s2) gss2 \<Longrightarrow>
    build_rounds cfg ns n spec s gss (Suc k) (s2\<lparr>b_world := w, b_ports := pr\<rparr>) gss2"

lemma createdBy_simps [simp]:
  "createdBy (xs @ ys) = createdBy xs @ createdBy ys" "createdBy (map CallCreate gs) = gs"
  "createdBy (map CallPatchStatus ps) = []" "createdBy (map (\<lambda>g. CallDelete g (rv g)) ds) = []"
  by (simp_all add: createdBy_def comp_def)

lemma deletedBy_simps [simp]:
  "deletedBy (xs @ ys) = deletedBy xs \<union> deletedBy ys" "deletedBy (map CallCreate gs) = {}"
  "deletedBy (map CallPatchStatus ps) = {}" "deletedBy (map (\<lambda>g. CallDelete g (rv g)) ds) = set ds" "deletedBy [] = {}"
  by (auto simp: deletedBy_def)

lemma created_pending: "createdFrom gsb g \<Longrightarrow> not_active g \<and> \<not> is_active g"
  by (auto simp: createdFrom_def not_active_def is_active_def zero_Status_def elim!: new_gameserver_Inr)

lemma number_append: "number P (xs @ ys) = number P xs + number P ys"
  by (simp add: number_def)

lemma numbers_created:
  "list_all (createdFrom gsb) gs \<Longrightarrow> number not_active gs = int (length gs) \<and> number is_active gs = 0"
  by (induction gs) (auto simp: number_def dest: created_pending)

lemma numbers_not_ended:
  "number not_active (filter (\<lambda>g. \<not> has_ended g) gss) = number not_active gss"
  "number is_active (filter (\<lambda>g. \<not> has_ended g) gss) = number is_active gss"
proof -
  have "not_active g \<Longrightarrow> \<not> has_ended g" "is_active g \<Longrightarrow> \<not> has_ended g" for g
    by (auto simp: not_active_def is_active_def has_ended_def)
  then show "number not_active (filter (\<lambda>g. \<not> has_ended g) gss) = number not_active gss"
    "number is_active (filter (\<lambda>g. \<not> has_ended g) gss) = number is_active gss"
    unfolding number_def filter_filter by (metis (mono_tags, lifting) filter_cong)+
qed

text \<open>A round of a build that has not too many deletes only what ended.\<close>

lemma build_round_calls:
  assumes "build_round api cfg gsb s gss s'"
    and "number not_active gss \<le> bs_StandingBy (gsb_Spec gsb)"
    and "number not_active gss + number is_active gss \<le> bs_Max (gsb_Spec gsb)"
  obtains gs ps where "b_calls s' = b_calls s @ round_calls gss [] gs ps" "list_all (createdFrom gsb) gs"
    "int (length gs) = targetCount cfg (gsb_Spec gsb) (countsOf gss)"
proof -
  from assms(1) obtain s1 where r: "permutes_lists (ba_sort api)" "permutes_lists (ba_schedule api)"
    "ba_getBuild api (b_world s) (gsb_Namespace gsb) (gsb_Name gsb) = Inr gsb" "\<not> stopsReconciling gsb"
    "checkExpectations api gsb s = (s1, Inr True)"
    "ba_listOwned api (b_world s) (gsb_Namespace gsb) (gsb_Name gsb) = Inr gss"
    "build_Reconcile api cfg (gsb_Namespace gsb) (gsb_Name gsb) s = (s', RDone)"
    by (auto simp: build_round_def)
  show thesis
  proof (rule reconcile_done [OF r])
    fix ds gs ps
    assume t: "b_calls s' = b_calls s @
      map (\<lambda>g. CallDelete g None) (filter (\<lambda>g. ended (classify g)) gss) @
      map (\<lambda>g. CallDelete g (Some (om_ResourceVersion (gs_Meta g)))) ds @
      map CallCreate gs @ map CallPatchStatus ps"
      and ds: "length ds = min (nat (deletionAmount cfg (gsb_Spec gsb) (countsOf gss))) (length (filter deletable gss))"
      and gs: "list_all (createdFrom gsb) gs" "int (length gs) = targetCount cfg (gsb_Spec gsb) (countsOf gss)"
    have "deletionAmount cfg (gsb_Spec gsb) (countsOf gss) = 0"
      using assms(2,3) by (simp add: deletionAmount_def countsOf_kinds)
    then have "ds = []" using ds by simp
    with t have "b_calls s' = b_calls s @ round_calls gss [] gs ps" by (simp add: round_calls_def classify_kinds(1))
    with gs that show thesis by blast
  qed
qed

lemma build_round_counts:
  assumes "build_round api cfg gsb s gss s'"
    and "number not_active gss \<le> bs_StandingBy (gsb_Spec gsb)"
    and "number not_active gss + number is_active gss \<le> bs_Max (gsb_Spec gsb)"
  shows "number not_active (left_by s gss s') = number not_active gss + targetCount cfg (gsb_Spec gsb) (countsOf gss)"
    and "number is_active (left_by s gss s') = number is_active gss"
proof -
  obtain gs ps where c: "b_calls s' = b_calls s @ round_calls gss [] gs ps"
    and gs: "list_all (createdFrom gsb) gs" "int (length gs) = targetCount cfg (gsb_Spec gsb) (countsOf gss)"
    by (rule build_round_calls [OF assms])
  have d: "filter (\<lambda>g. g \<notin> deletedBy (round_calls gss [] gs ps)) gss = filter (\<lambda>g. \<not> has_ended g) gss"
    unfolding round_calls_def deletedBy_simps by (rule filter_cong) auto
  have "left_by s gss s' = filter (\<lambda>g. \<not> has_ended g) gss @ gs"
    using d by (simp add: left_by_def c Let_def) (simp add: round_calls_def)
  then show "number not_active (left_by s gss s') = number not_active gss + targetCount cfg (gsb_Spec gsb) (countsOf gss)"
    "number is_active (left_by s gss s') = number is_active gss"
    using numbers_created [OF gs(1)] gs(2) by (simp_all add: number_append numbers_not_ended)
qed

definition standingGoal :: "GameServerBuildSpec \<Rightarrow> GameServer list \<Rightarrow> int" where
  "standingGoal spec gss = min (bs_StandingBy spec) (bs_Max spec - number is_active gss)"

lemma target_step:
  assumes "number not_active gss \<le> standingGoal spec gss" and "0 < MaxNumberOfGameServersToAdd cfg"
  shows "targetCount cfg spec (countsOf gss) =
    min (standingGoal spec gss - number not_active gss) (MaxNumberOfGameServersToAdd cfg)"
  using assms unfolding targetCount_def countsOf_kinds standingGoal_def by linarith

lemma rounds_progress:
  assumes "build_rounds cfg ns n spec s gss k s' gss'" and "0 < MaxNumberOfGameServersToAdd cfg"
    and "number not_active gss \<le> standingGoal spec gss"
  shows "number is_active gss' = number is_active gss \<and>
    number not_active gss' = min (standingGoal spec gss) (number not_active gss + int k * MaxNumberOfGameServersToAdd cfg)"
  using assms(1)
proof induction
  case no_round
  with assms(3) show ?case by simp
next
  case (one_more k s1 gss1 gsb api s2 gss2 w pr)
  let ?G = "standingGoal spec gss" and ?M = "MaxNumberOfGameServersToAdd cfg"
  have G: "standingGoal spec gss1 = ?G" using one_more.IH by (simp add: standingGoal_def)
  have le: "number not_active gss1 \<le> standingGoal spec gss1" using one_more.IH unfolding G by simp
  then have b: "number not_active gss1 \<le> bs_StandingBy (gsb_Spec gsb)"
    "number not_active gss1 + number is_active gss1 \<le> bs_Max (gsb_Spec gsb)"
    by (simp_all add: standingGoal_def one_more.hyps)
  note R = build_round_counts [OF one_more.hyps(5) b]
  have "targetCount cfg (gsb_Spec gsb) (countsOf gss1) = min (?G - number not_active gss1) ?M"
    using target_step [OF le assms(2)] by (simp only: G one_more.hyps(4))
  with R one_more.hyps(6) one_more.IH assms(2) show ?case
    by (simp add: same_numbers_def min_def algebra_simps split: if_splits)
qed

text \<open>
  C16: the reconciler reaches the StandingBy number. Consider rounds of completed reconciliations of a build whose
  specification stays the same (its status may change), each starting from the memory that the one before left, with the listing up to date, while
  no GameServer of the build becomes Active, ends or vanishes other than by the reconciler. From a build that has no more GameServers than
  it should, each round adds as many as one reconciliation may; once the rounds have had room for
  all that were missing, the GameServers that are not Active number exactly StandingBy, or as many
  as fit under the maximum beside the Active ones, and a further round creates none, and deletes only such as had ended.
\<close>

theorem scale_up_reaches_goal:
  assumes "build_rounds cfg ns n spec s gss k s' gss'" and "0 < MaxNumberOfGameServersToAdd cfg"
    and "number not_active gss \<le> bs_StandingBy spec" and "number not_active gss + number is_active gss \<le> bs_Max spec"
  defines "goal \<equiv> min (bs_StandingBy spec) (bs_Max spec - number is_active gss)"
  shows "number is_active gss' = number is_active gss \<and>
    number not_active gss' = min goal (number not_active gss + int k * MaxNumberOfGameServersToAdd cfg) \<and>
    (goal - number not_active gss \<le> int k * MaxNumberOfGameServersToAdd cfg \<longrightarrow>
       number not_active gss' = goal \<and>
       (\<forall>api gsb s''. gsb_Spec gsb = spec \<and> build_round api cfg gsb s' gss' s'' \<longrightarrow>
          (\<exists>ps. b_calls s'' = b_calls s' @ map (\<lambda>g. CallDelete g None) (filter has_ended gss') @ map CallPatchStatus ps)))"
proof -
  have G: "standingGoal spec gss = goal" by (simp add: standingGoal_def goal_def)
  have "number not_active gss \<le> standingGoal spec gss" using assms(3,4) by (simp add: standingGoal_def)
  note P = rounds_progress [OF assms(1,2) this, unfolded G]
  have "\<exists>ps. b_calls s'' = b_calls s' @ map (\<lambda>g. CallDelete g None) (filter has_ended gss') @ map CallPatchStatus ps"
    if r: "gsb_Spec gsb = spec" "build_round api cfg gsb s' gss' s''" and n: "number not_active gss' = goal"
    for api :: "'a build_api" and gsb s''
  proof -
    have b: "number not_active gss' \<le> bs_StandingBy (gsb_Spec gsb)"
      "number not_active gss' + number is_active gss' \<le> bs_Max (gsb_Spec gsb)"
      using P n by (simp_all add: goal_def r(1))
    have "standingGoal spec gss' = goal" using P by (simp add: standingGoal_def goal_def)
    then have t: "targetCount cfg (gsb_Spec gsb) (countsOf gss') = 0"
      using target_step [of gss' spec cfg] assms(2) n r(1) by simp
    obtain gs ps where "b_calls s'' = b_calls s' @ round_calls gss' [] gs ps"
      "int (length gs) = targetCount cfg (gsb_Spec gsb) (countsOf gss')"
      by (rule build_round_calls [OF r(2) b])
    with t show ?thesis by (auto simp: round_calls_def)
  qed
  moreover have "number not_active gss' = goal" if "goal - number not_active gss \<le> int k * MaxNumberOfGameServersToAdd cfg"
    using P that by simp
  ultimately show ?thesis using P by blast
qed

section \<open>Two rounds\<close>

text \<open>A build without ports whose status is patched after the first round; each round draws other names.\<close>

definition plain_build :: "int \<Rightarrow> GameServerBuild" where
  "plain_build k = (build_with [] [])\<lparr>gsb_Status := (gsb_Status (build_with [] []))\<lparr>bst_CurrentPending := k\<rparr>\<rparr>"

definition plain_name :: "nat \<Rightarrow> string" where
  "plain_name i = generateName (\<lambda>k n. i) ''build''"

definition plain_api :: "nat \<Rightarrow> GameServer list build_api" where
  "plain_api i = (mem_build_api (plain_build (int i)))\<lparr>ba_rng := (\<lambda>j k n. i), ba_order := (\<lambda>S. [the_elem S])\<rparr>"

definition plain_gs :: "nat \<Rightarrow> GameServer" where
  "plain_gs i = gameServerSkeleton (plain_name i) (build_with [] [])"

lemma plain_build_simps [simp]:
  "gsb_Name (plain_build k) = ''build''" "gsb_Namespace (plain_build k) = ''default''"
  "gsb_Spec (plain_build k) = gsb_Spec (build_with [] [])" "\<not> stopsReconciling (plain_build k)"
  "bs_StandingBy (gsb_Spec (build_with [] [])) = 2" "bs_Max (gsb_Spec (build_with [] [])) = 4"
  by (simp_all add: plain_build_def stopsReconciling_def build_with_def zero_GameServerBuild_def zero_BuildStatus_def)

lemma plain_gs_simps [simp]:
  "gs_Name (plain_gs i) = plain_name i" "gs_Namespace (plain_gs i) = ''default''" "gs_State (plain_gs i) = []"
  "gs_Health (plain_gs i) = []"
  by (simp_all add: plain_gs_def gameServerSkeleton_def zero_Status_def)

lemma plain_names: "plain_name 0 \<noteq> plain_name 1"
  by (simp add: plain_name_def generateName_def randString_def letters_def eval_nat_numeral)

lemma plain_create:
  assumes "b_ports s = pr" and "HostPortsPerGameServer pr (getNamespacedName ''default'' (plain_name i)) = None" and "0 \<le> FreePortsCount pr"
  shows "\<exists>s1. createOne (plain_api i) (plain_build k) 0 s = Some (s1, []) \<and> b_world s1 = b_world s @ [plain_gs i] \<and>
    b_calls s1 = b_calls s @ [CallCreate (plain_gs i)] \<and>
    b_expectations s1 = addGameServerToUnderCreationMap ''build'' (plain_name i) (b_expectations s) \<and> b_crashes s1 = b_crashes s"
proof -
  have sk: "gameServerSkeleton (plain_name i) (plain_build k) = plain_gs i"
    by (simp add: plain_gs_def gameServerSkeleton_def plain_build_def)
  have c: "setContainers (plain_gs i) [] = plain_gs i"
    by (simp add: setContainers_def plain_gs_def gameServerSkeleton_def build_with_def zero_GameServerBuild_def)
  have e: "ps_Containers (gs_PodSpec (plain_gs i)) = []"
    by (simp add: plain_gs_def gameServerSkeleton_def build_with_def)
  let ?pr = "pr\<lparr>HostPortsPerGameServer := (HostPortsPerGameServer pr)(getNamespacedName ''default'' (plain_name i) \<mapsto> [])\<rparr>"
  have "GetNewPorts pr ''default'' (plain_name i) 0 = (?pr, Inr [])"
    using assms(2,3) by (simp add: GetNewPorts_def Let_def)
  then have "NewGameServerForGameServerBuild (\<lambda>k n. i) (plain_build k) pr = (?pr, Inr (plain_gs i))"
    by (simp add: NewGameServerForGameServerBuild_def plain_name_def [symmetric] sk e c Let_def)
  then show ?thesis
    by (simp add: createOne_def plain_api_def mem_build_api_def assms(1) log_effects_def expectCreation_def)
qed

lemma plain_round:
  assumes "b_world s = gss" and "\<forall>g \<in> set gss. \<exists>j. g = plain_gs j" and "length gss < 2"
    and "HostPortsPerGameServer (b_ports s) (getNamespacedName ''default'' (plain_name i)) = None" and "0 \<le> FreePortsCount (b_ports s)"
    and "checkExpectations (plain_api i) (plain_build (int i)) s = (s1, Inr True)" and "b_ports s1 = b_ports s" and "b_world s1 = gss"
  shows "\<exists>s'. build_Reconcile (plain_api i) mem_config ''default'' ''build'' s = (s', RDone) \<and>
    b_world s' = gss @ [plain_gs i] \<and>
    b_expectations s' = addGameServerToUnderCreationMap ''build'' (plain_name i) (b_expectations s1)"
proof -
  let ?api = "plain_api i" and ?b = "plain_build (int i)"
  have l: "countLoop ?api ''build'' gs c t = (t, Inr (c\<lparr>c_pending := c_pending c + int (length gs)\<rparr>))"
    if "\<forall>g \<in> set gs. \<exists>j. g = plain_gs j" for gs c t
    using that
  proof (induction gs arbitrary: c)
    case (Cons g gs)
    then have "classify g = GsPending" by (auto simp: classify_def)
    with Cons show ?case by (simp add: Let_def ended_def countGameServer_def algebra_simps)
  qed simp
  let ?c = "zero_counts\<lparr>c_pending := int (length gss)\<rparr>"
  have lc: "countLoop ?api ''build'' gss zero_counts s1 = (s1, Inr ?c)"
    using l [OF assms(2), of zero_counts s1] by (simp add: zero_counts_def)
  have c: "c_active ?c = 0" "nonActive ?c = int (length gss)" by (simp_all add: zero_counts_def nonActive_def)
  obtain s2 where o: "createOne ?api ?b 0 s1 = Some (s2, [])" "b_world s2 = gss @ [plain_gs i]"
    "b_expectations s2 = addGameServerToUnderCreationMap ''build'' (plain_name i) (b_expectations s1)"
    using plain_create [of s1 "b_ports s1" i "int i"] assms(4,5,7,8) by auto
  have "createMissing ?api mem_config ?b ?c s1 = Some (s2, [])"
    unfolding createMissing_def using assms(3)
    by (subst createLoop.simps) (simp add: createLoop.simps [of _ _ _ _ "Suc 0"] createCond_def c o(1) mem_config_def)
  moreover have "deletionAmount mem_config (gsb_Spec ?b) ?c = 0" using assms(3) by (simp add: deletionAmount_def c)
  ultimately have sc: "scale ?api mem_config ?b gss ?c s1 = updateStatus ?api ?b ?c s2" by (simp add: scale_def Let_def)
  obtain s' r where u: "updateStatus ?api ?b ?c s2 = (s', r)" by fastforce
  have ps: "ba_patchStatus ?api w x y = (w, None)" for w x y by (simp add: plain_api_def mem_build_api_def)
  from u have s': "r = RDone" "b_world s' = b_world s2" "b_expectations s' = b_expectations s2"
    by (auto simp: updateStatus_def ps Let_def log_effects_def split: prod.splits if_splits)
  have "filter (\<lambda>g. gs_Namespace g = ''default'') gss = gss" using assms(2) by (auto simp: filter_id_conv)
  then have own: "ba_listOwned ?api gss ''default'' ''build'' = Inr gss" by (simp add: plain_api_def mem_build_api_def)
  have get: "ba_getBuild ?api (b_world s) ''default'' ''build'' = Inr ?b" by (simp add: plain_api_def mem_build_api_def)
  have "build_Reconcile ?api mem_config ''default'' ''build'' s = (s', RDone)"
    unfolding build_Reconcile_def
    by (simp only: get own plain_build_simps(1,4) assms(6,8) lc sc u s'(1) sum.case prod.case bool.case if_False)
  then show ?thesis using s' o(2,3) by (intro exI [of _ s']) simp
qed

lemma plain_build_round:
  assumes "checkExpectations (plain_api i) (plain_build (int i)) s = (s1, Inr True)" and "\<forall>g \<in> set (b_world s). \<exists>j. g = plain_gs j"
    and "build_Reconcile (plain_api i) mem_config ''default'' ''build'' s = (s', RDone)"
  shows "build_round (plain_api i) mem_config (plain_build (int i)) s (b_world s) s'"
proof -
  have "filter (\<lambda>g. gs_Namespace g = ''default'') (b_world s) = b_world s" using assms(2) by (auto simp: filter_id_conv)
  with assms(1,3) show ?thesis
    by (simp add: build_round_def plain_api_def mem_build_api_def permutes_lists_def)
qed

lemma plain_numbers:
  assumes "\<forall>g \<in> set gss. \<exists>j. g = plain_gs j"
  shows "number not_active gss = int (length gss)" "number is_active gss = 0"
  using assms by (induction gss) (auto simp: number_def not_active_def is_active_def)

lemma plain_rounds:
  obtains s2 where "build_rounds mem_config ''default'' ''build'' (gsb_Spec (build_with [] [])) (mem_state []) [] 2 s2
    [plain_gs 0, plain_gs 1]"
proof -
  let ?spec = "gsb_Spec (build_with [] [])" and ?s = "mem_state []"
  have n0: "b_expectations ?s = NewGameServerExpectations" "b_ports ?s = small_registry" "b_world ?s = []"
    by (simp_all add: mem_state_def)
  have c0: "checkExpectations (plain_api 0) (plain_build (int 0)) ?s = (?s, Inr True)"
    by (simp add: checkExpectations_def mem_state_def NewGameServerExpectations_def
        gameServersUnderDeletionWereDeleted_def gameServersUnderCreationWereCreated_def)
  have free: "HostPortsPerGameServer small_registry k = None" "0 \<le> FreePortsCount small_registry" for k
    by (simp_all add: small_registry_def)
  from plain_round [OF n0(3) _ _ _ _ c0] free n0 obtain s1 where
    s1: "build_Reconcile (plain_api 0) mem_config ''default'' ''build'' ?s = (s1, RDone)" "b_world s1 = [plain_gs 0]"
    "b_expectations s1 = addGameServerToUnderCreationMap ''build'' (plain_name 0) NewGameServerExpectations" by auto
  have r0: "build_round (plain_api 0) mem_config (plain_build (int 0)) ?s [] s1"
    using plain_build_round [OF c0 _ s1(1)] n0(3) by simp
  have p1: "number not_active [plain_gs 0] = 1" "number is_active [plain_gs 0] = 0"
    "number not_active [plain_gs 0, plain_gs 1] = 2" "number is_active [plain_gs 0, plain_gs 1] = 0"
    using plain_numbers [of "[plain_gs 0]"] plain_numbers [of "[plain_gs 0, plain_gs 1]"] by auto
  note N0 = build_round_counts [OF r0]
  have t0: "targetCount mem_config ?spec (countsOf []) = 1"
    by (simp add: targetCount_def countsOf_kinds number_def mem_config_def)
  have "same_numbers (left_by ?s [] s1) [plain_gs 0]"
    using N0 t0 p1 by (simp add: same_numbers_def number_def [where gss = "[]"])
  from one_more [where w = "[plain_gs 0]" and pr = small_registry and ns = "''default''" and n = "''build''" and spec = ?spec,
      OF no_round _ _ _ r0 this]
  have R1: "build_rounds mem_config ''default'' ''build'' ?spec ?s [] (Suc 0) (s1\<lparr>b_world := [plain_gs 0], b_ports := small_registry\<rparr>) [plain_gs 0]"
    by simp
  let ?t = "s1\<lparr>b_world := [plain_gs 0], b_ports := small_registry\<rparr>"
  let ?g = "NewGameServerExpectations"
  have get: "ba_getGS (plain_api 1) [plain_gs 0] ''default'' (plain_name 0) = Inr (plain_gs 0)"
    by (simp add: plain_api_def mem_build_api_def)
  have c1: "checkExpectations (plain_api 1) (plain_build (int 1)) ?t = (?t\<lparr>b_expectations := ?g\<rparr>, Inr True)"
    using get by (simp add: checkExpectations_def s1(3) gameServersUnderDeletionWereDeleted_def addGameServerToUnderCreationMap_def
        gameServersUnderCreationWereCreated_def NewGameServerExpectations_def map_get_def plain_api_def fun_upd_def
        cong: if_cong)
  from plain_round [OF _ _ _ _ _ c1, of "[plain_gs 0]"] free obtain s2 where
    s2: "build_Reconcile (plain_api 1) mem_config ''default'' ''build'' ?t = (s2, RDone)" "b_world s2 = [plain_gs 0, plain_gs 1]"
    by auto
  have r1: "build_round (plain_api 1) mem_config (plain_build (int 1)) ?t [plain_gs 0] s2"
    using plain_build_round [OF c1 _ s2(1)] by auto
  note N1 = build_round_counts [OF r1]
  have t1: "targetCount mem_config ?spec (countsOf [plain_gs 0]) = 1"
    by (simp add: targetCount_def countsOf_kinds p1 mem_config_def)
  have "same_numbers (left_by ?t [plain_gs 0] s2) [plain_gs 0, plain_gs 1]"
    using N1 t1 p1 by (simp add: same_numbers_def)
  from one_more [where w = "b_world s2" and pr = "b_ports s2", OF R1 _ _ _ r1 this] have
    "build_rounds mem_config ''default'' ''build'' ?spec ?s [] (Suc (Suc 0))
      (s2\<lparr>b_world := b_world s2, b_ports := b_ports s2\<rparr>) [plain_gs 0, plain_gs 1]" by simp
  then show thesis using that by (simp add: numeral_2_eq_2)
qed

theorem scale_up_reaches_goal_witness:
  "\<exists>s2. build_rounds mem_config ''default'' ''build'' (gsb_Spec (build_with [] [])) (mem_state []) [] 2 s2
     [plain_gs 0, plain_gs 1] \<and> number not_active [plain_gs 0, plain_gs 1] = 2"
proof -
  obtain s2 where r: "build_rounds mem_config ''default'' ''build'' (gsb_Spec (build_with [] [])) (mem_state []) [] 2 s2
    [plain_gs 0, plain_gs 1]" by (rule plain_rounds)
  have "number not_active [plain_gs 0, plain_gs 1] = 2"
    using scale_up_reaches_goal [OF r] by (simp add: mem_config_def number_def)
  with r show ?thesis by blast
qed

end
