(* ===== verification/Lost_Creations.thy ===== *)
theory Lost_Creations
  imports Build_Controller
begin

text \<open>
  What a GameServer that was created but is gone before the cache showed it does to its build: the
  reconciler expects it for ever.
\<close>

section \<open>Waiting for a creation\<close>

text \<open>The GameServer is among those that the build's creation check expects.\<close>

definition waitsFor :: "string set \<Rightarrow> string \<Rightarrow> string \<Rightarrow> 'w build_state \<Rightarrow> bool" where
  "waitsFor S build gs s \<longleftrightarrow>
     (\<exists>S'. gameServersUnderCreation (b_expectations s) build = Some S' \<and> S' \<subseteq> S \<and> gs \<in> S')"

lemma deletion_check_keeps:
  "gameServersUnderDeletionWereDeleted getGS order gsb g = (g', r) \<Longrightarrow>
   gameServersUnderCreation g' = gameServersUnderCreation g"
  by (auto simp: gameServersUnderDeletionWereDeleted_def split: option.splits prod.splits if_splits)

lemma creation_check_waits:
  assumes "gameServersUnderCreation g (gsb_Name gsb) = Some S'" and "gs \<in> S'" and "order_ok order S'"
    and "\<not> present getGS (gsb_Namespace gsb) gs"
    and "gameServersUnderCreationWereCreated getGS order gsb g = (g', r)"
  shows "r \<noteq> Inr True \<and> (\<exists>S2. gameServersUnderCreation g' (gsb_Name gsb) = Some S2 \<and> S2 \<subseteq> S' \<and> gs \<in> S2)"
proof -
  obtain data q where l: "creationLoop getGS (gsb_Namespace gsb) (order S') S' = (data, q)" by fastforce
  note C = creationLoop_sub [OF l, of True undefined]
  have sub: "data \<subseteq> S'" "gs \<in> data" using C assms(2,4) by blast+
  have ks: "set (order S') = S'" using assms(3) by (simp add: order_ok_def)
  obtain p where p: "q = Some p" using C ks assms(2,4) by (cases q) auto
  moreover have "p \<noteq> Inr True" using C p by auto
  ultimately show ?thesis
    using assms(5) l sub by (auto simp: gameServersUnderCreationWereCreated_def assms(1))
qed

lemma checkExpectations_waits:
  assumes "waitsFor S (gsb_Name gsb) gs s" and "\<And>S'. S' \<subseteq> S \<Longrightarrow> order_ok (ba_order api) S'"
    and "\<not> present (ba_getGS api (b_world s)) (gsb_Namespace gsb) gs"
    and "checkExpectations api gsb s = (s', r)"
  shows "r \<noteq> Inr True \<and> waitsFor S (gsb_Name gsb) gs s'"
proof -
  let ?get = "ba_getGS api (b_world s)"
  obtain S' where S': "gameServersUnderCreation (b_expectations s) (gsb_Name gsb) = Some S'" "S' \<subseteq> S" "gs \<in> S'"
    using assms(1) by (auto simp: waitsFor_def)
  obtain g1 d where d: "gameServersUnderDeletionWereDeleted ?get (ba_order api) gsb (b_expectations s) = (g1, d)" by fastforce
  note g1 = deletion_check_keeps [OF d]
  show ?thesis
  proof (cases "d = Inr True")
    case False
    with assms(4) d g1 S' show ?thesis
      by (auto simp: checkExpectations_def waitsFor_def split: sum.splits bool.splits)
  next
    case True
    obtain g2 q where q: "gameServersUnderCreationWereCreated ?get (ba_order api) gsb g1 = (g2, q)" by fastforce
    from creation_check_waits [OF _ S'(3) assms(2) [OF S'(2)] assms(3) q] S'(1) g1
    have "q \<noteq> Inr True" "\<exists>S2. gameServersUnderCreation g2 (gsb_Name gsb) = Some S2 \<and> S2 \<subseteq> S' \<and> gs \<in> S2" by auto
    with assms(4) d q True S'(2) show ?thesis by (auto simp: checkExpectations_def waitsFor_def)
  qed
qed

text \<open>A reconciliation of a build that waits for a lost creation calls nothing and goes on waiting.\<close>

lemma reconcile_waits:
  assumes "waitsFor S n gs s" and "\<And>S'. S' \<subseteq> S \<Longrightarrow> order_ok (ba_order api) S'"
    and "\<not> present (ba_getGS api (b_world s)) ns gs"
    and "\<And>gsb. ba_getBuild api (b_world s) ns n = Inr gsb \<Longrightarrow> gsb_Name gsb = n \<and> gsb_Namespace gsb = ns"
    and "build_Reconcile api cfg ns n s = (s', r)"
  shows "b_calls s' = b_calls s \<and> waitsFor S n gs s'"
proof (cases "ba_getBuild api (b_world s) ns n")
  case (Inl e)
  with assms(1,5) show ?thesis by (auto simp: build_Reconcile_def waitsFor_def split: if_splits)
next
  case (Inr gsb)
  note names = assms(4) [OF Inr]
  show ?thesis
  proof (cases "stopsReconciling gsb")
    case True
    with assms(1,5) Inr show ?thesis by (auto simp: build_Reconcile_def waitsFor_def log_effects_def)
  next
    case False
    obtain s1 q where q: "checkExpectations api gsb s = (s1, q)" by fastforce
    from checkExpectations_waits [OF _ assms(2) _ q] assms(1,3) names
    have w: "q \<noteq> Inr True" "waitsFor S n gs s1" by auto
    with assms(5) Inr False q checkExpectations_same [OF q] show ?thesis
      by (auto simp: build_Reconcile_def split: sum.splits bool.splits)
  qed
qed

text \<open>
  C25: a creation that is lost stops its build for good. When a GameServer that the reconciler
  created is deleted before the cache has shown it to the creation check, every later reconciliation of a
  build of that name ends at that check: however often it runs, whatever the cluster looks like by
  then and even when the build is deleted and created again, the reconciler makes no further
  call: it creates and deletes no GameServer and writes no status.
\<close>

theorem lost_creation_stops_build:
  assumes "gameServersUnderCreation (b_expectations (st 0)) n = Some S" and "gs \<in> S"
    and "\<And>S'. S' \<subseteq> S \<Longrightarrow> order_ok (ba_order api) S'"
    and "\<And>w. \<not> present (ba_getGS api w) ns gs"
    and "\<And>w gsb. ba_getBuild api w ns n = Inr gsb \<Longrightarrow> gsb_Name gsb = n \<and> gsb_Namespace gsb = ns"
    and "\<And>i. i < k \<Longrightarrow> \<exists>w. st (Suc i) = fst (build_Reconcile api cfg ns n ((st i)\<lparr>b_world := w\<rparr>))"
  shows "b_calls (st k) = b_calls (st 0)"
proof -
  have "b_calls (st k) = b_calls (st 0) \<and> waitsFor S n gs (st k)" using assms(6)
  proof (induction k)
    case 0
    with assms(1,2) show ?case by (simp add: waitsFor_def)
  next
    case (Suc k)
    then have IH: "b_calls (st k) = b_calls (st 0)" "waitsFor S n gs (st k)" by simp_all
    obtain w s' r where w: "build_Reconcile api cfg ns n ((st k)\<lparr>b_world := w\<rparr>) = (s', r)" "st (Suc k) = s'"
      using Suc.prems [of k] by (metis lessI prod.collapse)
    have "waitsFor S n gs ((st k)\<lparr>b_world := w\<rparr>)" using IH(2) by (simp add: waitsFor_def)
    from reconcile_waits [OF this assms(3,4,5) w(1)] IH w(2) show ?case by simp
  qed
  then show ?thesis by blast
qed

text \<open>An operator that has created \<open>gs-x\<close>, over a cluster where it is gone.\<close>

definition expecting_state :: "GameServer list build_state" where
  "expecting_state = expectCreation ''build'' ''gs-x'' (mem_state mem_gss)"

definition lost_api :: "GameServer list build_api" where
  "lost_api = (mem_build_api mem_build)
     \<lparr>ba_getGS := \<lambda>w ns n. Inl (NotFound ''not found''), ba_order := \<lambda>S. if ''gs-x'' \<in> S then [''gs-x''] else []\<rparr>"

fun lost_rounds :: "nat \<Rightarrow> GameServer list build_state" where
  "lost_rounds 0 = expecting_state"
| "lost_rounds (Suc i) = fst (build_Reconcile lost_api mem_config ''default'' ''build'' (lost_rounds i))"

theorem lost_creation_stops_build_witness: "b_calls (lost_rounds 100) = []"
proof -
  have "b_calls (lost_rounds 100) = b_calls (lost_rounds 0)"
  proof (rule lost_creation_stops_build)
    show "gameServersUnderCreation (b_expectations (lost_rounds 0)) ''build'' = Some {''gs-x''}"
      by (simp add: expecting_state_def expectCreation_def addGameServerToUnderCreationMap_def mem_state_def
          NewGameServerExpectations_def)
    show "order_ok (ba_order lost_api) S'" if "S' \<subseteq> {''gs-x''}" for S'
      using that by (auto simp: order_ok_def lost_api_def)
    show "\<not> present (ba_getGS lost_api w) ''default'' ''gs-x''" for w
      by (simp add: present_def lost_api_def)
    show "gsb_Name gsb = ''build'' \<and> gsb_Namespace gsb = ''default''"
      if "ba_getBuild lost_api w ''default'' ''build'' = Inr gsb" for w gsb
      using that by (auto simp: lost_api_def mem_build_api_def split: if_splits)
    show "\<exists>w. lost_rounds (Suc i) = fst (build_Reconcile lost_api mem_config ''default'' ''build'' ((lost_rounds i)\<lparr>b_world := w\<rparr>))" for i
      by (rule exI [of _ "b_world (lost_rounds i)"]) simp
  qed simp
  then show ?thesis by (simp add: expecting_state_def expectCreation_def mem_state_def)
qed

end
