(* ===== verification/Goroutines.thy ===== *)
theory Goroutines
  imports Prelude "HOL-Library.Multiset"
begin

text \<open>
  Goroutines that a function starts in a loop and waits for with a \<open>sync.WaitGroup\<close>. A pool has the
  goroutines that the loop has yet to start, those it started, each at its program counter, and what they
  share. A step starts the next one, runs one of them up to its next shared operation, or is one of
  the rest of the program; any order of steps is a schedule. A goroutine that panics ends the process.
  The locales give what holds after any schedule: \<open>goroutines\<close> the bound on the steps and the origin of
  every goroutine, \<open>goroutine_ledger\<close> that a sum over the goroutines accounts for a shared quantity,
  \<open>goroutine_claims\<close> the same for a shared set, \<open>goroutine_assertions\<close> that no two of them own the same, and
  \<open>goroutine_cover\<close> that nothing is lost between what is shared and what they hold.
\<close>

section \<open>Pools and schedules\<close>

record ('p, 's) pool =
  waiting :: "'p list"
  routines :: "'p list"
  shared :: 's

datatype mover = Spawner | Routine nat | Others

text \<open>A goroutine's next operation; \<open>None\<close> when it is finished or blocks.\<close>

type_synonym ('p, 's) work = "nat \<Rightarrow> 'p \<Rightarrow> 's \<Rightarrow> ('p \<times> 's) option"

definition start_pool :: "'p list \<Rightarrow> 's \<Rightarrow> ('p, 's) pool" where
  "start_pool js s = \<lparr>waiting = js, routines = [], shared = s\<rparr>"

inductive pool_step ::
    "('p, 's) work \<Rightarrow> ('p \<Rightarrow> bool) \<Rightarrow> ('s \<Rightarrow> 's \<Rightarrow> bool) \<Rightarrow> mover \<Rightarrow> ('p, 's) pool \<Rightarrow> ('p, 's) pool \<Rightarrow> bool"
  for work :: "('p, 's) work" and crashed :: "'p \<Rightarrow> bool" and env :: "'s \<Rightarrow> 's \<Rightarrow> bool" where
  pool_spawn: "\<not> list_ex crashed (routines p) \<Longrightarrow> waiting p = j # js \<Longrightarrow>
    pool_step work crashed env Spawner p (p\<lparr>waiting := js, routines := routines p @ [j]\<rparr>)"
| pool_run: "\<not> list_ex crashed (routines p) \<Longrightarrow> i < length (routines p) \<Longrightarrow>
    work i (routines p ! i) (shared p) = Some (q, s) \<Longrightarrow>
    pool_step work crashed env (Routine i) p (p\<lparr>routines := (routines p)[i := q], shared := s\<rparr>)"
| pool_others: "\<not> list_ex crashed (routines p) \<Longrightarrow> env (shared p) s \<Longrightarrow>
    pool_step work crashed env Others p (p\<lparr>shared := s\<rparr>)"

inductive pool_runs ::
    "('p, 's) work \<Rightarrow> ('p \<Rightarrow> bool) \<Rightarrow> ('s \<Rightarrow> 's \<Rightarrow> bool) \<Rightarrow> mover list \<Rightarrow> ('p, 's) pool \<Rightarrow> ('p, 's) pool \<Rightarrow> bool"
  for work :: "('p, 's) work" and crashed :: "'p \<Rightarrow> bool" and env :: "'s \<Rightarrow> 's \<Rightarrow> bool" where
  pool_stay: "pool_runs work crashed env [] p p"
| pool_more: "pool_step work crashed env m p p1 \<Longrightarrow> pool_runs work crashed env ms p1 p2 \<Longrightarrow>
    pool_runs work crashed env (m # ms) p p2"

inductive_cases pool_step_elim: "pool_step work crashed env m p p'"
inductive_cases pool_runs_elim: "pool_runs work crashed env ms p p'"

text \<open>A pool that can move only by the rest of the program, and the moves that are its own.\<close>

definition pool_stuck :: "('p, 's) work \<Rightarrow> ('p, 's) pool \<Rightarrow> bool" where
  "pool_stuck work p \<longleftrightarrow> waiting p = [] \<and> (\<forall>i < length (routines p). work i (routines p ! i) (shared p) = None)"

definition own_moves :: "mover list \<Rightarrow> nat" where
  "own_moves ms = length (filter (\<lambda>m. m \<noteq> Others) ms)"

lemma own_moves_simps [simp]:
  "own_moves [] = 0" "own_moves (m # ms) = (if m = Others then own_moves ms else Suc (own_moves ms))"
  by (simp_all add: own_moves_def)

lemma pool_runs_append:
  "pool_runs work crashed env ms p p1 \<Longrightarrow> pool_runs work crashed env ns p1 p2 \<Longrightarrow>
   pool_runs work crashed env (ms @ ns) p p2"
  by (induction rule: pool_runs.induct) (auto intro: pool_more)

lemma pool_one: "pool_step work crashed env m p p' \<Longrightarrow> pool_runs work crashed env [m] p p'"
  by (blast intro: pool_more pool_stay)

lemma sum_list_update_add:
  "i < length xs \<Longrightarrow> sum_list (xs[i := y]) + xs ! i = sum_list xs + (y :: 'm :: comm_monoid_add)"
proof (induction xs arbitrary: i)
  case (Cons x xs)
  then show ?case by (cases i) (auto simp: ac_simps)
qed simp

text \<open>A goroutine that has yet to start is as the loop made it.\<close>

lemma waiting_step: "pool_step work crashed env m p p' \<Longrightarrow> set (waiting p') \<subseteq> set (waiting p)"
  by (elim pool_step_elim) auto

lemma waiting_runs: "pool_runs work crashed env ms p p' \<Longrightarrow> set (waiting p') \<subseteq> set (waiting p)"
  by (induction rule: pool_runs.induct) (auto dest!: waiting_step)

text \<open>A pool that is not stuck has a move of its own, unless a goroutine has panicked.\<close>

lemma pool_progress:
  assumes "\<not> pool_stuck work p" and "\<not> list_ex crashed (routines p)"
  obtains m p' where "pool_step work crashed env m p p'" "m \<noteq> Others"
proof (cases "waiting p")
  case (Cons j js)
  from that [OF pool_spawn [where env = env, OF assms(2) this]] show thesis by simp
next
  case Nil
  with assms(1) obtain i q s where "i < length (routines p)" "work i (routines p ! i) (shared p) = Some (q, s)"
    by (auto simp: pool_stuck_def)
  with pool_run [where env = env and work = work and crashed = crashed and p = p and i = i and q = q and s = s] assms(2)
  have "pool_step work crashed env (Routine i) p (p\<lparr>routines := (routines p)[i := q], shared := s\<rparr>)" by blast
  from that [OF this] show thesis by simp
qed

section \<open>What holds after any schedule\<close>

text \<open>
  \<open>rest\<close> bounds the operations a goroutine has left, \<open>origin\<close> relates it to what it was started as, and
  \<open>good\<close> is an invariant of what is shared.
\<close>

locale goroutines =
  fixes work :: "('p, 's) work" and crashed :: "'p \<Rightarrow> bool" and env :: "'s \<Rightarrow> 's \<Rightarrow> bool"
    and rest :: "'p \<Rightarrow> nat" and origin :: "'p \<Rightarrow> 'p \<Rightarrow> bool" and good :: "'s \<Rightarrow> bool"
  assumes work_rest: "work i q s = Some (q', s') \<Longrightarrow> rest q' < rest q"
    and work_origin: "work i q s = Some (q', s') \<Longrightarrow> origin j q \<Longrightarrow> origin j q'"
    and work_good: "work i q s = Some (q', s') \<Longrightarrow> good s \<Longrightarrow> good s'"
    and env_good: "env s s' \<Longrightarrow> good s \<Longrightarrow> good s'"
begin

abbreviation steps :: "mover \<Rightarrow> ('p, 's) pool \<Rightarrow> ('p, 's) pool \<Rightarrow> bool" where
  "steps \<equiv> pool_step work crashed env"

abbreviation runs :: "mover list \<Rightarrow> ('p, 's) pool \<Rightarrow> ('p, 's) pool \<Rightarrow> bool" where
  "runs \<equiv> pool_runs work crashed env"

definition pool_rest :: "('p, 's) pool \<Rightarrow> nat" where
  "pool_rest p = (\<Sum>j \<leftarrow> waiting p. Suc (rest j)) + (\<Sum>q \<leftarrow> routines p. rest q)"

lemma step_rest: "steps m p p' \<Longrightarrow> (if m = Others then 0 else 1) + pool_rest p' \<le> pool_rest p"
proof (elim pool_step_elim)
  fix i q s
  assume a: "m = Routine i" "p' = p\<lparr>routines := (routines p)[i := q], shared := s\<rparr>" "i < length (routines p)"
    and "work i (routines p ! i) (shared p) = Some (q, s)"
  from work_rest [OF this(4)] have "rest q < rest (routines p ! i)" .
  moreover have "sum_list ((map rest (routines p))[i := rest q]) + rest (routines p ! i) = sum_list (map rest (routines p)) + rest q"
    using sum_list_update_add [of i "map rest (routines p)" "rest q"] a(3) by simp
  ultimately show ?thesis using a by (simp add: pool_rest_def map_update)
qed (auto simp: pool_rest_def)

lemma runs_rest: "runs ms p p' \<Longrightarrow> own_moves ms + pool_rest p' \<le> pool_rest p"
proof (induction rule: pool_runs.induct)
  case (pool_more m p p1 ms p2)
  with step_rest [OF pool_more(1)] show ?case by (auto split: if_splits)
qed simp

lemma step_origin:
  "steps m p p' \<Longrightarrow> list_all2 origin js (routines p @ waiting p) \<Longrightarrow> list_all2 origin js (routines p' @ waiting p')"
proof (elim pool_step_elim)
  fix i q s
  assume a: "p' = p\<lparr>routines := (routines p)[i := q], shared := s\<rparr>" "i < length (routines p)"
    and w: "work i (routines p ! i) (shared p) = Some (q, s)"
    and l: "list_all2 origin js (routines p @ waiting p)"
  have e: "(routines p @ waiting p) ! i = routines p ! i" using a(2) by (simp add: nth_append)
  have "origin (js ! i) (routines p ! i)"
    using list_all2_nthD2 [OF l, of i] a(2) e by simp
  from work_origin [OF w this] have "list_all2 origin (js[i := js ! i]) ((routines p @ waiting p)[i := q])"
    by (rule list_all2_update_cong [OF l])
  with a show ?thesis by (simp add: list_update_append)
qed auto

lemma runs_origin:
  "runs ms p p' \<Longrightarrow> list_all2 origin js (routines p @ waiting p) \<Longrightarrow> list_all2 origin js (routines p' @ waiting p')"
  by (induction rule: pool_runs.induct) (auto dest: step_origin)

lemma runs_good: "runs ms p p' \<Longrightarrow> good (shared p) \<Longrightarrow> good (shared p')"
proof (induction rule: pool_runs.induct)
  case (pool_more m p p1 ms p2)
  from pool_more(1,4) have "good (shared p1)" by (elim pool_step_elim) (auto intro: work_good env_good)
  with pool_more show ?case by blast
qed

lemma started:
  assumes "runs ms (start_pool js s) p"
  shows "(\<And>j. j \<in> set js \<Longrightarrow> origin j j) \<Longrightarrow> list_all2 origin js (routines p @ waiting p)" and "good s \<Longrightarrow> good (shared p)"
    and "own_moves ms \<le> (\<Sum>j \<leftarrow> js. Suc (rest j))"
proof -
  show "list_all2 origin js (routines p @ waiting p)" if "\<And>j. j \<in> set js \<Longrightarrow> origin j j"
    using runs_origin [OF assms, of js] that by (simp add: start_pool_def list_all2_same)
  show "good s \<Longrightarrow> good (shared p)" using runs_good [OF assms] by (simp add: start_pool_def)
  show "own_moves ms \<le> (\<Sum>j \<leftarrow> js. Suc (rest j))"
    using runs_rest [OF assms] by (simp add: start_pool_def pool_rest_def)
qed

end

text \<open>A shared quantity to which every goroutine contributes its share.\<close>

locale goroutine_ledger = goroutines work crashed env rest origin good
  for work :: "('p, 's) work" and crashed env rest origin good +
  fixes ledger :: "'s \<Rightarrow> 'm :: cancel_comm_monoid_add" and share :: "'p \<Rightarrow> 'm"
  assumes work_ledger: "work i q s = Some (q', s') \<Longrightarrow> ledger s' + share q = ledger s + share q'"
    and env_ledger: "env s s' \<Longrightarrow> ledger s' = ledger s"
begin

definition shares :: "('p, 's) pool \<Rightarrow> 'm" where
  "shares p = (\<Sum>q \<leftarrow> routines p @ waiting p. share q)"

lemma step_ledger: "steps m p p' \<Longrightarrow> ledger (shared p') + shares p = ledger (shared p) + shares p'"
proof (elim pool_step_elim)
  fix i q s
  assume a: "p' = p\<lparr>routines := (routines p)[i := q], shared := s\<rparr>" "i < length (routines p)"
    and w: "work i (routines p ! i) (shared p) = Some (q, s)"
  let ?q = "share (routines p ! i)" and ?S = "sum_list (map share (routines p))"
  let ?S' = "sum_list ((map share (routines p))[i := share q])"
  have u: "?S' + ?q = ?S + share q"
    using sum_list_update_add [of i "map share (routines p)" "share q"] a(2) by simp
  have l: "ledger s + ?q = ledger (shared p) + share q" by (rule work_ledger [OF w])
  have "(ledger s + ?S) + ?q = ledger s + ?q + ?S" by (simp add: ac_simps)
  also have "\<dots> = ledger (shared p) + (?S + share q)" unfolding l by (simp add: ac_simps)
  also have "\<dots> = (ledger (shared p) + ?S') + ?q" unfolding u [symmetric] by (simp add: ac_simps)
  finally have "ledger s + ?S + sum_list (map share (waiting p)) = ledger (shared p) + ?S' + sum_list (map share (waiting p))"
    by simp
  then show ?thesis using a by (simp add: shares_def map_update add.assoc)
qed (auto simp: shares_def ac_simps env_ledger)

lemma runs_ledger: "runs ms p p' \<Longrightarrow> ledger (shared p') + shares p = ledger (shared p) + shares p'"
proof (induction rule: pool_runs.induct)
  case (pool_more m p p1 ms p2)
  have "(ledger (shared p2) + shares p) + shares p1 = (ledger (shared p2) + shares p1) + shares p"
    by (simp add: ac_simps)
  also have "\<dots> = (ledger (shared p1) + shares p) + shares p2" using pool_more.IH by (simp add: ac_simps)
  also have "\<dots> = (ledger (shared p) + shares p2) + shares p1"
    unfolding step_ledger [OF pool_more(1)] by (simp add: ac_simps)
  finally show ?case by simp
qed simp

lemma started_ledger:
  assumes "runs ms (start_pool js s) p" and "\<forall>j \<in> set js. share j = 0"
  shows "ledger (shared p) = ledger s + shares p"
proof -
  have "(\<Sum>j \<leftarrow> js. share j) = (\<Sum>j \<leftarrow> js. 0)"
    using assms(2) by (intro arg_cong [where f = sum_list] map_cong) auto
  then have "shares (start_pool js s) = 0" by (simp add: start_pool_def shares_def)
  with runs_ledger [OF assms(1)] show ?thesis by (simp add: start_pool_def)
qed

end

text \<open>A shared set into which every goroutine puts what it claims.\<close>

locale goroutine_claims = goroutines work crashed env rest origin good
  for work :: "('p, 's) work" and crashed env rest origin good +
  fixes facts :: "'s \<Rightarrow> 'f set" and claim :: "'p \<Rightarrow> 'f set"
  assumes work_facts: "work i q s = Some (q', s') \<Longrightarrow> facts s' \<union> claim q = facts s \<union> claim q'"
    and work_keeps: "work i q s = Some (q', s') \<Longrightarrow> facts s \<subseteq> facts s'"
    and work_claim: "work i q s = Some (q', s') \<Longrightarrow> claim q \<subseteq> claim q'"
    and env_facts: "env s s' \<Longrightarrow> facts s' = facts s"
begin

definition claims :: "('p, 's) pool \<Rightarrow> 'f set" where
  "claims p = (\<Union>q \<in> set (routines p @ waiting p). claim q)"

lemma step_facts: "steps m p p' \<Longrightarrow> facts (shared p') \<union> claims p' = facts (shared p) \<union> claims p'"
proof (elim pool_step_elim)
  fix i q s
  assume a: "p' = p\<lparr>routines := (routines p)[i := q], shared := s\<rparr>" "i < length (routines p)"
    and w: "work i (routines p ! i) (shared p) = Some (q, s)"
  have "q \<in> set ((routines p)[i := q])" using a(2) by (rule set_update_memI)
  then have "claim q \<subseteq> claims p'" using a(1) by (auto simp: claims_def)
  moreover have "facts s \<union> claim (routines p ! i) = facts (shared p) \<union> claim q" by (rule work_facts [OF w])
  ultimately show ?thesis using a(1) work_claim [OF w] by auto
qed (auto simp: claims_def env_facts)

lemma step_claims: "steps m p p' \<Longrightarrow> claims p \<subseteq> claims p'"
proof (elim pool_step_elim)
  fix i q s
  assume a: "p' = p\<lparr>routines := (routines p)[i := q], shared := s\<rparr>" "i < length (routines p)"
    and w: "work i (routines p ! i) (shared p) = Some (q, s)"
  have "claim r \<subseteq> (\<Union>q \<in> set ((routines p)[i := q]). claim q)" if r: "r \<in> set (routines p)" for r
  proof -
    from r obtain k where k: "k < length (routines p)" "r = routines p ! k" by (auto simp: in_set_conv_nth)
    show ?thesis
    proof (cases "k = i")
      case True
      with work_claim [OF w] k set_update_memI [OF a(2), of q] show ?thesis by blast
    next
      case False
      then have "r \<in> set ((routines p)[i := q])" using k by (metis length_list_update nth_list_update_neq nth_mem)
      then show ?thesis by blast
    qed
  qed
  then show ?thesis using a by (auto simp: claims_def)
qed (auto simp: claims_def)

lemma step_facts_only: "steps m p p' \<Longrightarrow> facts (shared p) \<subseteq> facts (shared p') \<and> facts (shared p') \<subseteq> facts (shared p) \<union> claims p'"
proof -
  assume s: "steps m p p'"
  from s have "facts (shared p) \<subseteq> facts (shared p')"
    by (elim pool_step_elim) (auto dest: work_keeps env_facts)
  with step_facts [OF s] show ?thesis by blast
qed

lemma step_claimed: "steps m p p' \<Longrightarrow> claims p \<subseteq> facts (shared p) \<Longrightarrow> claims p' \<subseteq> facts (shared p')"
proof (elim pool_step_elim)
  fix i q s
  assume a: "p' = p\<lparr>routines := (routines p)[i := q], shared := s\<rparr>" "i < length (routines p)"
    and w: "work i (routines p ! i) (shared p) = Some (q, s)" and c: "claims p \<subseteq> facts (shared p)"
  have "claims p' \<subseteq> claims p \<union> claim q"
    using set_update_subset_insert [of "routines p" i q] a(1) by (auto simp: claims_def)
  also have "\<dots> \<subseteq> facts s"
  proof -
    have "claim (routines p ! i) \<subseteq> claims p" using a(2) by (auto simp: claims_def)
    with c work_facts [OF w] work_keeps [OF w] show ?thesis by blast
  qed
  finally show ?thesis using a(1) by simp
qed (auto simp: claims_def env_facts)

lemma runs_facts:
  "runs ms p p' \<Longrightarrow> claims p \<subseteq> facts (shared p) \<Longrightarrow>
   claims p \<subseteq> claims p' \<and> claims p' \<subseteq> facts (shared p') \<and> facts (shared p) \<subseteq> facts (shared p') \<and>
   facts (shared p') \<subseteq> facts (shared p) \<union> claims p'"
proof (induction rule: pool_runs.induct)
  case (pool_more m p p1 ms p2)
  have f: "facts (shared p) \<subseteq> facts (shared p1)" "facts (shared p1) \<subseteq> facts (shared p) \<union> claims p1"
    using step_facts_only [OF pool_more(1)] by simp_all
  have c: "claims p \<subseteq> claims p1" by (rule step_claims [OF pool_more(1)])
  have "claims p1 \<subseteq> facts (shared p1)" by (rule step_claimed [OF pool_more(1,4)])
  from pool_more.IH [OF this] have i: "claims p1 \<subseteq> claims p2" "claims p2 \<subseteq> facts (shared p2)"
    "facts (shared p1) \<subseteq> facts (shared p2)" "facts (shared p2) \<subseteq> facts (shared p1) \<union> claims p2"
    by simp_all
  show ?case
  proof (intro conjI)
    show "claims p \<subseteq> claims p2" by (rule subset_trans [OF c i(1)])
    show "claims p2 \<subseteq> facts (shared p2)" by (rule i(2))
    show "facts (shared p) \<subseteq> facts (shared p2)" by (rule subset_trans [OF f(1) i(3)])
    show "facts (shared p2) \<subseteq> facts (shared p) \<union> claims p2" using f(2) i(1,4) by fast
  qed
qed auto

lemma started_facts:
  assumes "runs ms (start_pool js s) p" and "\<forall>j \<in> set js. claim j = {}"
  shows "facts (shared p) = facts s \<union> claims p"
proof -
  have "claims (start_pool js s) = {}" using assms(2) by (auto simp: start_pool_def claims_def)
  with runs_facts [OF assms(1)] show ?thesis by (auto simp: start_pool_def)
qed

end


text \<open>
  Assertions at the program counters, which the steps of the others keep, as in the method of Owicki and
  Gries: \<open>holds q s\<close> is what a goroutine at \<open>q\<close> knows of what is shared. \<open>owns\<close> is what it has taken for
  itself; no step takes what another goroutine owns.
\<close>

locale goroutine_assertions =
  fixes work :: "('p, 's) work" and crashed :: "'p \<Rightarrow> bool" and env :: "'s \<Rightarrow> 's \<Rightarrow> bool"
    and good :: "'s \<Rightarrow> bool" and holds :: "'p \<Rightarrow> 's \<Rightarrow> bool" and owns :: "'p \<Rightarrow> 'k option"
  assumes own_step: "good s \<Longrightarrow> holds q s \<Longrightarrow> work i q s = Some (q', s') \<Longrightarrow> good s' \<and> holds q' s'"
    and no_interference: "good s \<Longrightarrow> holds q s \<Longrightarrow> work i q s = Some (q', s') \<Longrightarrow> holds r s \<Longrightarrow> holds r s'"
    and env_step: "good s \<Longrightarrow> env s s' \<Longrightarrow> good s'"
    and env_interference: "good s \<Longrightarrow> env s s' \<Longrightarrow> holds r s \<Longrightarrow> holds r s'"
    and owns_fresh: "good s \<Longrightarrow> holds q s \<Longrightarrow> work i q s = Some (q', s') \<Longrightarrow> owns q' = Some k \<Longrightarrow>
      holds r s \<Longrightarrow> owns q = Some k \<or> owns r \<noteq> Some k"
begin

abbreviation everyone :: "('p, 's) pool \<Rightarrow> 'p list" where
  "everyone p \<equiv> routines p @ waiting p"

definition outline :: "('p, 's) pool \<Rightarrow> bool" where
  "outline p \<longleftrightarrow> good (shared p) \<and> (\<forall>q \<in> set (everyone p). holds q (shared p)) \<and>
     (\<forall>i j k. i < length (everyone p) \<longrightarrow> j < length (everyone p) \<longrightarrow> i \<noteq> j \<longrightarrow>
        owns (everyone p ! i) = Some k \<longrightarrow> owns (everyone p ! j) \<noteq> Some k)"

lemma outlineI:
  assumes "good (shared p)" and "\<And>q. q \<in> set (everyone p) \<Longrightarrow> holds q (shared p)"
    and "\<And>i j k. i < length (everyone p) \<Longrightarrow> j < length (everyone p) \<Longrightarrow> i \<noteq> j \<Longrightarrow>
        owns (everyone p ! i) = Some k \<Longrightarrow> owns (everyone p ! j) \<noteq> Some k"
  shows "outline p"
  using assms unfolding outline_def by blast

lemma outline_step:
  assumes "outline p" and "pool_step work crashed env m p p'"
  shows "outline p'"
  using assms(2)
proof (cases rule: pool_step.cases)
  case (pool_spawn j js)
  then have "everyone p' = everyone p" "shared p' = shared p" by simp_all
  then have "outline p' = outline p" unfolding outline_def by (simp only:)
  with assms(1) show ?thesis by simp
next
  case (pool_others s)
  with assms(1) show ?thesis
    by (auto simp: outline_def env_step intro: env_interference)
next
  case (pool_run i q s)
  let ?xs = "everyone p"
  have xs: "everyone p' = ?xs[i := q]" and i: "i < length ?xs" and xi: "?xs ! i = routines p ! i"
    using pool_run by (simp_all add: list_update_append nth_append)
  have w: "work i (?xs ! i) (shared p) = Some (q, s)" and s: "shared p' = s" using pool_run xi by simp_all
  have g: "good (shared p)" and h: "\<And>r. r \<in> set ?xs \<Longrightarrow> holds r (shared p)"
    and d: "\<And>a b k. a < length ?xs \<Longrightarrow> b < length ?xs \<Longrightarrow> a \<noteq> b \<Longrightarrow> owns (?xs ! a) = Some k \<Longrightarrow> owns (?xs ! b) \<noteq> Some k"
    using assms(1) unfolding outline_def by blast+
  note hi = h [OF nth_mem [OF i]]
  have f: "owns q = Some k \<Longrightarrow> b < length ?xs \<Longrightarrow> b \<noteq> i \<Longrightarrow> owns (?xs ! b) \<noteq> Some k" for k b
    using owns_fresh [OF g hi w _ h [OF nth_mem]] d [OF i] by blast
  show ?thesis
  proof (rule outlineI)
    show "good (shared p')" using own_step [OF g hi w] s by simp
    show "holds r (shared p')" if "r \<in> set (everyone p')" for r
    proof -
      from that have "r = q \<or> r \<in> set ?xs" using set_update_subset_insert [of ?xs i q] unfolding xs by blast
      then show ?thesis using own_step [OF g hi w] no_interference [OF g hi w h] s by auto
    qed
    fix a b k
    assume "a < length (everyone p')" "b < length (everyone p')" and ab: "a \<noteq> b" and o: "owns (everyone p' ! a) = Some k"
    then have l: "a < length ?xs" "b < length ?xs" unfolding xs by simp_all
    show "owns (everyone p' ! b) \<noteq> Some k"
    proof (cases "a = i")
      case True
      with o l ab have "owns q = Some k" unfolding xs by simp
      from f [OF this l(2)] ab True show ?thesis unfolding xs by simp
    next
      case False
      then have oa: "owns (?xs ! a) = Some k" using o unfolding xs by simp
      show ?thesis
      proof (cases "b = i")
        case True
        with f [OF _ l(1) False] oa l show ?thesis unfolding xs by auto
      next
        case b: False
        with d [OF l ab oa] show ?thesis unfolding xs by simp
      qed
    qed
  qed
qed

lemma outline_runs: "pool_runs work crashed env ms p p' \<Longrightarrow> outline p \<Longrightarrow> outline p'"
  by (induction rule: pool_runs.induct) (auto intro: outline_step)

lemma outline_start: "good s \<Longrightarrow> (\<And>j. j \<in> set js \<Longrightarrow> holds j s \<and> owns j = None) \<Longrightarrow> outline (start_pool js s)"
  by (rule outlineI) (auto simp: start_pool_def dest: nth_mem)

end


text \<open>
  What is needed is covered: every need is met by what is shared, or a goroutine is holding it. A goroutine may take what
  covers a need as long as it holds it, and lets go only what is covered again or no longer needed.
\<close>

locale goroutine_cover = goroutine_assertions work crashed env good holds owns
  for work :: "('p, 's) work" and crashed env good holds and owns :: "'p \<Rightarrow> 'k option" +
  fixes need :: "'s \<Rightarrow> 'j set" and cover :: "'s \<Rightarrow> 'j set" and hold :: "'p \<Rightarrow> 'j set"
  assumes own_cover: "good s \<Longrightarrow> holds q s \<Longrightarrow> work i q s = Some (q', s') \<Longrightarrow>
      need s' \<subseteq> need s \<union> cover s' \<and> need s' \<inter> (cover s \<union> hold q) \<subseteq> cover s' \<union> hold q'"
    and env_cover: "good s \<Longrightarrow> env s s' \<Longrightarrow> need s' \<subseteq> need s \<union> cover s' \<and> need s' \<inter> cover s \<subseteq> cover s'"
begin

definition covered :: "('p, 's) pool \<Rightarrow> bool" where
  "covered p \<longleftrightarrow> need (shared p) \<subseteq> cover (shared p) \<union> (\<Union>q \<in> set (everyone p). hold q)"

lemma covered_step:
  assumes "outline p" and "pool_step work crashed env m p p'" and "covered p"
  shows "covered p'"
  using assms(2)
proof (cases rule: pool_step.cases)
  case (pool_spawn j js)
  then have "set (everyone p') = set (everyone p)" "shared p' = shared p" by auto
  with assms(3) show ?thesis by (simp add: covered_def)
next
  case (pool_others s)
  have "good (shared p)" using assms(1) by (simp add: outline_def)
  from env_cover [OF this pool_others(4)] assms(3) pool_others show ?thesis by (auto simp: covered_def)
next
  case (pool_run i q s)
  let ?xs = "everyone p"
  have xs: "everyone p' = ?xs[i := q]" and i: "i < length ?xs" and xi: "?xs ! i = routines p ! i"
    using pool_run by (simp_all add: list_update_append nth_append)
  have w: "work i (?xs ! i) (shared p) = Some (q, s)" and s: "shared p' = s" using pool_run xi by simp_all
  have "good (shared p)" "holds (?xs ! i) (shared p)" using assms(1) nth_mem [OF i] by (auto simp: outline_def)
  from own_cover [OF this w] have c: "need s \<subseteq> need (shared p) \<union> cover s"
    "need s \<inter> (cover (shared p) \<union> hold (?xs ! i)) \<subseteq> cover s \<union> hold q" by simp_all
  have q: "q \<in> set (?xs[i := q])" using i by (rule set_update_memI)
  have "x \<in> cover s \<union> (\<Union>q \<in> set (?xs[i := q]). hold q)" if x: "x \<in> need s" for x
  proof (cases "x \<in> cover s \<union> hold q")
    case False
    with c x have n: "x \<in> need (shared p)" "x \<notin> cover (shared p)" "x \<notin> hold (?xs ! i)" by blast+
    with assms(3) obtain r where "r \<in> set ?xs" "x \<in> hold r" unfolding covered_def by blast
    then obtain j where j: "j < length ?xs" "r = ?xs ! j" by (auto simp only: in_set_conv_nth)
    with n(3) \<open>x \<in> hold r\<close> have "j \<noteq> i" by blast
    then have "r = ?xs[i := q] ! j" using j by (simp only: nth_list_update_neq)
    then have "r \<in> set (?xs[i := q])" using j(1) by (metis length_list_update nth_mem)
    with \<open>x \<in> hold r\<close> show ?thesis by blast
  qed (use q in blast)
  then show ?thesis unfolding covered_def xs s by blast
qed

lemma covered_runs: "pool_runs work crashed env ms p p' \<Longrightarrow> outline p \<Longrightarrow> covered p \<Longrightarrow> covered p'"
  by (induction rule: pool_runs.induct) (blast intro: outline_step covered_step)+

end

end
