(* ===== verification/Build_Goroutines.thy ===== *)
theory Build_Goroutines
  imports Build_Controller Goroutines
begin

text \<open>
  The goroutines of \<open>pkg/operator/controllers/gameserverbuild_controller.go\<close>: one for each GameServer
  that a reconciliation deletes or creates. \<open>Build_Controller\<close> runs them one after the other; here they
  are pools of \<open>Goroutines\<close> that run in any order, one shared operation at a time, while the rest of the
  operator and of the cluster goes on. What they share is the state of the reconciler and the channel for
  errors, whose capacity makes a sender block. \<open>concurrent_Reconcile\<close> is the reconciliation with
  these pools; it keeps what \<open>reconcile_spares_active\<close> and \<open>reconcile_scales\<close> say of the sequential one, which
  is one of its schedules, and its waits end.
\<close>

section \<open>The two kinds of goroutines\<close>

type_synonym ('w, 'e) sharing = "'w build_state \<times> 'e list"

text \<open>The rest of the program: it does not touch what this build's reconciliation alone works on.\<close>

definition others :: "GameServerBuild \<Rightarrow> ('w, 'e) sharing \<Rightarrow> ('w, 'e) sharing \<Rightarrow> bool" where
  "others gsb x y \<longleftrightarrow>
     (\<exists>w pr g m. y = ((fst x)\<lparr>b_world := w, b_ports := pr, b_expectations := g, b_crashes := m\<rparr>, snd x) \<and>
        (port_step\<^sup>*\<^sup>* (b_ports (fst x)) pr) \<and>
        gameServersUnderCreation g (gsb_Name gsb) = gameServersUnderCreation (b_expectations (fst x)) (gsb_Name gsb) \<and>
        gameServersUnderDeletion g (gsb_Name gsb) = gameServersUnderDeletion (b_expectations (fst x)) (gsb_Name gsb) \<and>
        m (getKeyForCrashesPerBuildMap gsb) = b_crashes (fst x) (getKeyForCrashesPerBuildMap gsb))"

text \<open>A goroutine of the creation, by the operation it did last; with the GameServer it asked for, if any.\<close>

datatype creator =
    CStart
  | CMade GameServer
  | CCreated GameServer
  | CExpected GameServer
  | CCounted GameServer
  | CFinished GameServer
  | CSending build_error "GameServer option"
  | CFailed build_error "GameServer option"
  | CPanicked

fun creatorStep ::
    "'w build_api \<Rightarrow> GameServerBuild \<Rightarrow> nat \<Rightarrow> nat \<Rightarrow> creator \<Rightarrow> ('w, build_error) sharing \<Rightarrow>
     (creator \<times> ('w, build_error) sharing) option" where
  "creatorStep api gsb cap i CStart (s, ch) =
     (case NewGameServerForGameServerBuild (ba_rng api i) gsb (b_ports s) of
        (pr, Inl (PortError e)) \<Rightarrow> Some (CSending (PortErr e) None, (s\<lparr>b_ports := pr\<rparr>, ch))
      | (pr, Inl HostPortIndexPanic) \<Rightarrow> Some (CPanicked, (s\<lparr>b_ports := pr\<rparr>, ch))
      | (pr, Inr newgs) \<Rightarrow> Some (CMade newgs, (s\<lparr>b_ports := pr\<rparr>, ch)))"
| "creatorStep api gsb cap i (CMade newgs) (s, ch) =
     (case ba_create api (b_world s) newgs of
        (w, e) \<Rightarrow> Some (case e of Some err \<Rightarrow> CSending (ApiErr err) (Some newgs) | None \<Rightarrow> CCreated newgs,
                     (s\<lparr>b_world := w, b_calls := b_calls s @ [CallCreate newgs]\<rparr>, ch)))"
| "creatorStep api gsb cap i (CCreated newgs) (s, ch) =
     Some (CExpected newgs, (expectCreation (gsb_Name gsb) (gs_Name newgs) s, ch))"
| "creatorStep api gsb cap i (CExpected newgs) (s, ch) =
     Some (CCounted newgs, (log_effects [Inc GameServersCreatedCounter [gsb_Name gsb]] s, ch))"
| "creatorStep api gsb cap i (CCounted newgs) (s, ch) =
     Some (CFinished newgs, (log_effects [Event ''Creating'' (''Creating GameServer '' @ gs_Name newgs)] s, ch))"
| "creatorStep api gsb cap i (CSending e made) (s, ch) =
     (if length ch < cap then Some (CFailed e made, (s, ch @ [e])) else None)"
| "creatorStep api gsb cap i (CFinished newgs) (s, ch) = None"
| "creatorStep api gsb cap i (CFailed e made) (s, ch) = None"
| "creatorStep api gsb cap i CPanicked (s, ch) = None"

text \<open>A goroutine of the deletion.\<close>

datatype deleter =
    DStart GameServer
  | DDeleted GameServer
  | DCounted GameServer
  | DExpected GameServer
  | DFinished GameServer
  | DConflict GameServer
  | DSending api_error GameServer
  | DFailed api_error GameServer

fun deleterStep ::
    "'w build_api \<Rightarrow> string \<Rightarrow> nat \<Rightarrow> nat \<Rightarrow> deleter \<Rightarrow> ('w, api_error) sharing \<Rightarrow>
     (deleter \<times> ('w, api_error) sharing) option" where
  "deleterStep api build cap i (DStart gs) (s, ch) =
     (case deleteGameServer api gs s of
        (s1, Some err) \<Rightarrow> Some (if IsConflict err then DConflict gs else DSending err gs, (s1, ch))
      | (s1, None) \<Rightarrow> Some (DDeleted gs, (s1, ch)))"
| "deleterStep api build cap i (DDeleted gs) (s, ch) =
     Some (DCounted gs, (log_effects [Inc GameServersDeletedCounter [build]] s, ch))"
| "deleterStep api build cap i (DCounted gs) (s, ch) =
     Some (DExpected gs, (expectDeletion build (gs_Name gs) s, ch))"
| "deleterStep api build cap i (DExpected gs) (s, ch) =
     Some (DFinished gs, (log_effects [Event ''GameServer deleted'' (''GameServer '' @ gs_Name gs @ '' deleted'')] s, ch))"
| "deleterStep api build cap i (DSending e gs) (s, ch) =
     (if length ch < cap then Some (DFailed e gs, (s, ch @ [e])) else None)"
| "deleterStep api build cap i (DFinished gs) (s, ch) = None"
| "deleterStep api build cap i (DConflict gs) (s, ch) = None"
| "deleterStep api build cap i (DFailed e gs) (s, ch) = None"

text \<open>\<open>wg.Wait()\<close> returns when the loop has ended and every goroutine it started is done.\<close>

fun creatorDone :: "creator \<Rightarrow> bool" where
  "creatorDone (CFinished _) = True"
| "creatorDone (CFailed _ _) = True"
| "creatorDone _ = False"

fun deleterDone :: "deleter \<Rightarrow> bool" where
  "deleterDone (DFinished _) = True"
| "deleterDone (DConflict _) = True"
| "deleterDone (DFailed _ _) = True"
| "deleterDone _ = False"

definition waited :: "('p \<Rightarrow> bool) \<Rightarrow> ('p, 's) pool \<Rightarrow> bool" where
  "waited finished p \<longleftrightarrow> waiting p = [] \<and> list_all finished (routines p)"

text \<open>The loops that start them, and the capacities of the channels.\<close>

definition creationJobs :: "Config \<Rightarrow> GameServerBuildSpec \<Rightarrow> counts \<Rightarrow> creator list" where
  "creationJobs cfg spec c =
     map (\<lambda>i. CStart) (takeWhile (createCond cfg spec c) [0..<nat (MaxNumberOfGameServersToAdd cfg)])"

definition deletionJobs :: "'w build_api \<Rightarrow> GameServer list \<Rightarrow> int \<Rightarrow> deleter list" where
  "deletionJobs api gss amount = map DStart (pickDeletions amount (ba_sort api gss))"

abbreviation creationRuns where
  "creationRuns api cfg gsb \<equiv>
     pool_runs (creatorStep api gsb (nat (MaxNumberOfGameServersToAdd cfg))) (\<lambda>q. q = CPanicked) (others gsb)"

abbreviation deletionRuns where
  "deletionRuns api gsb amount \<equiv>
     pool_runs (deleterStep api (gsb_Name gsb) (nat amount)) (\<lambda>q. False) (others gsb)"

section \<open>The reconciliation with its goroutines\<close>

inductive deletes_to ::
    "'w build_api \<Rightarrow> GameServerBuild \<Rightarrow> GameServer list \<Rightarrow> int \<Rightarrow> 'w build_state \<Rightarrow>
     'w build_state \<Rightarrow> api_error list \<Rightarrow> bool"
  for api :: "'w build_api" and gsb gss amount s where
  deletes_none: "amount \<le> 0 \<Longrightarrow> deletes_to api gsb gss amount s s []"
| deletes_some: "0 < amount \<Longrightarrow> deletionRuns api gsb amount ms (start_pool (deletionJobs api gss amount) (s, [])) p \<Longrightarrow>
    waited deleterDone p \<Longrightarrow> shared p = (s1, errCh) \<Longrightarrow> deletes_to api gsb gss amount s s1 errCh"

inductive scales_to ::
    "'w build_api \<Rightarrow> Config \<Rightarrow> GameServerBuild \<Rightarrow> GameServer list \<Rightarrow> counts \<Rightarrow> 'w build_state \<Rightarrow>
     'w build_state \<Rightarrow> reconcile_result \<Rightarrow> bool"
  for api :: "'w build_api" and cfg gsb gss c s where
  scales_delete_error: "deletes_to api gsb gss (deletionAmount cfg (gsb_Spec gsb) c) s s1 (err # errCh) \<Longrightarrow>
    scales_to api cfg gsb gss c s s1 (RError (ApiErr err))"
| scales_no_channel: "deletes_to api gsb gss (deletionAmount cfg (gsb_Spec gsb) c) s s1 [] \<Longrightarrow>
    MaxNumberOfGameServersToAdd cfg < 0 \<Longrightarrow> scales_to api cfg gsb gss c s s1 RCrash"
| scales_panic: "deletes_to api gsb gss (deletionAmount cfg (gsb_Spec gsb) c) s s1 [] \<Longrightarrow>
    0 \<le> MaxNumberOfGameServersToAdd cfg \<Longrightarrow>
    creationRuns api cfg gsb ms (start_pool (creationJobs cfg (gsb_Spec gsb) c) (s1, [])) p \<Longrightarrow>
    CPanicked \<in> set (routines p) \<Longrightarrow> scales_to api cfg gsb gss c s (fst (shared p)) RCrash"
| scales_create_error: "deletes_to api gsb gss (deletionAmount cfg (gsb_Spec gsb) c) s s1 [] \<Longrightarrow>
    0 \<le> MaxNumberOfGameServersToAdd cfg \<Longrightarrow>
    creationRuns api cfg gsb ms (start_pool (creationJobs cfg (gsb_Spec gsb) c) (s1, [])) p \<Longrightarrow>
    waited creatorDone p \<Longrightarrow> shared p = (s2, err # errCh) \<Longrightarrow>
    scales_to api cfg gsb gss c s s2 (RError err)"
| scales_update: "deletes_to api gsb gss (deletionAmount cfg (gsb_Spec gsb) c) s s1 [] \<Longrightarrow>
    0 \<le> MaxNumberOfGameServersToAdd cfg \<Longrightarrow>
    creationRuns api cfg gsb ms (start_pool (creationJobs cfg (gsb_Spec gsb) c) (s1, [])) p \<Longrightarrow>
    waited creatorDone p \<Longrightarrow> shared p = (s2, []) \<Longrightarrow> updateStatus api gsb c s2 = (s3, r) \<Longrightarrow>
    scales_to api cfg gsb gss c s s3 r"

inductive_cases deletes_to_elim: "deletes_to api gsb gss amount s s1 errCh"
inductive_cases scales_to_elim: "scales_to api cfg gsb gss c s s' r"

definition concurrent_Reconcile ::
    "'w build_api \<Rightarrow> Config \<Rightarrow> string \<Rightarrow> string \<Rightarrow> 'w build_state \<Rightarrow> 'w build_state \<Rightarrow> reconcile_result \<Rightarrow> bool" where
  "concurrent_Reconcile api cfg namespace name s s' r \<longleftrightarrow>
     (case ba_getBuild api (b_world s) namespace name of
        Inl e \<Rightarrow>
          (s', r) = (if IsNotFound e
            then (s\<lparr>b_crashes := (b_crashes s)(getKeyForCrashesPerBuildMap zero_GameServerBuild := None)\<rparr>, RDone)
            else (s, RError (ApiErr e)))
      | Inr gsb \<Rightarrow>
          if stopsReconciling gsb
          then (s', r) = (log_effects [Event ''Unhealthy Build'' ''GameServerBuild is Unhealthy, stopping reconciliation''] s, RDone)
          else (case checkExpectations api gsb s of
                  (s1, Inl e) \<Rightarrow> (s', r) = (s1, RError (ApiErr e))
                | (s1, Inr False) \<Rightarrow> (s', r) = (s1, RDone)
                | (s1, Inr True) \<Rightarrow>
                    (case ba_listOwned api (b_world s1) namespace name of
                       Inl e \<Rightarrow> (s', r) = (s1, RError (ApiErr e))
                     | Inr gss \<Rightarrow>
                         (case countLoop api (gsb_Name gsb) gss zero_counts s1 of
                            (s2, Inl e) \<Rightarrow> (s', r) = (s2, RError (ApiErr e))
                          | (s2, Inr c) \<Rightarrow> scales_to api cfg gsb gss c s2 s' r))))"


section \<open>What the goroutines leave, in any order\<close>

datatype trace_item = TCall api_call | TEffect effect | TErr build_error

definition traced :: "('e \<Rightarrow> build_error) \<Rightarrow> ('w, 'e) sharing \<Rightarrow> trace_item multiset" where
  "traced f x = image_mset TCall (mset (b_calls (fst x))) + image_mset TEffect (mset (b_effects (fst x))) +
     image_mset (\<lambda>e. TErr (f e)) (mset (snd x))"

fun creatorTrace :: "string \<Rightarrow> creator \<Rightarrow> trace_item multiset" where
  "creatorTrace build (CCreated g) = {#TCall (CallCreate g)#}"
| "creatorTrace build (CExpected g) = {#TCall (CallCreate g)#}"
| "creatorTrace build (CCounted g) = {#TCall (CallCreate g), TEffect (Inc GameServersCreatedCounter [build])#}"
| "creatorTrace build (CFinished g) =
     {#TCall (CallCreate g), TEffect (Inc GameServersCreatedCounter [build]),
       TEffect (Event ''Creating'' (''Creating GameServer '' @ gs_Name g))#}"
| "creatorTrace build (CSending e (Some g)) = {#TCall (CallCreate g)#}"
| "creatorTrace build (CFailed e (Some g)) = {#TCall (CallCreate g), TErr e#}"
| "creatorTrace build (CFailed e None) = {#TErr e#}"
| "creatorTrace build _ = {#}"

fun creatorClaim :: "creator \<Rightarrow> string set" where
  "creatorClaim (CExpected g) = {gs_Name g}"
| "creatorClaim (CCounted g) = {gs_Name g}"
| "creatorClaim (CFinished g) = {gs_Name g}"
| "creatorClaim _ = {}"

fun creatorRest :: "creator \<Rightarrow> nat" where
  "creatorRest CStart = 5"
| "creatorRest (CMade _) = 4"
| "creatorRest (CCreated _) = 3"
| "creatorRest (CExpected _) = 2"
| "creatorRest (CCounted _) = 1"
| "creatorRest (CSending _ _) = 1"
| "creatorRest _ = 0"

fun creatorGS :: "creator \<Rightarrow> GameServer option" where
  "creatorGS (CMade g) = Some g"
| "creatorGS (CCreated g) = Some g"
| "creatorGS (CExpected g) = Some g"
| "creatorGS (CCounted g) = Some g"
| "creatorGS (CFinished g) = Some g"
| "creatorGS (CSending e g) = g"
| "creatorGS (CFailed e g) = g"
| "creatorGS _ = None"

definition creatorOrigin :: "GameServerBuild \<Rightarrow> creator \<Rightarrow> creator \<Rightarrow> bool" where
  "creatorOrigin gsb j q \<longleftrightarrow> pred_option (createdFrom gsb) (creatorGS q)"

fun creatorSent :: "creator \<Rightarrow> nat" where
  "creatorSent (CFailed _ _) = 1"
| "creatorSent _ = 0"

fun deleterGS :: "deleter \<Rightarrow> GameServer" where
  "deleterGS (DStart g) = g"
| "deleterGS (DDeleted g) = g"
| "deleterGS (DCounted g) = g"
| "deleterGS (DExpected g) = g"
| "deleterGS (DFinished g) = g"
| "deleterGS (DConflict g) = g"
| "deleterGS (DSending _ g) = g"
| "deleterGS (DFailed _ g) = g"

abbreviation versionedDelete :: "GameServer \<Rightarrow> api_call" where
  "versionedDelete g \<equiv> CallDelete g (Some (om_ResourceVersion (gs_Meta g)))"

fun deleterTrace :: "string \<Rightarrow> deleter \<Rightarrow> trace_item multiset" where
  "deleterTrace build (DStart g) = {#}"
| "deleterTrace build (DDeleted g) = {#TCall (versionedDelete g)#}"
| "deleterTrace build (DCounted g) = {#TCall (versionedDelete g), TEffect (Inc GameServersDeletedCounter [build])#}"
| "deleterTrace build (DExpected g) = {#TCall (versionedDelete g), TEffect (Inc GameServersDeletedCounter [build])#}"
| "deleterTrace build (DFinished g) =
     {#TCall (versionedDelete g), TEffect (Inc GameServersDeletedCounter [build]),
       TEffect (Event ''GameServer deleted'' (''GameServer '' @ gs_Name g @ '' deleted''))#}"
| "deleterTrace build (DConflict g) = {#TCall (versionedDelete g)#}"
| "deleterTrace build (DSending e g) = {#TCall (versionedDelete g)#}"
| "deleterTrace build (DFailed e g) = {#TCall (versionedDelete g), TErr (ApiErr e)#}"

fun deleterClaim :: "deleter \<Rightarrow> string set" where
  "deleterClaim (DExpected g) = {gs_Name g}"
| "deleterClaim (DFinished g) = {gs_Name g}"
| "deleterClaim _ = {}"

fun deleterRest :: "deleter \<Rightarrow> nat" where
  "deleterRest (DStart _) = 4"
| "deleterRest (DDeleted _) = 3"
| "deleterRest (DCounted _) = 2"
| "deleterRest (DExpected _) = 1"
| "deleterRest (DSending _ _) = 1"
| "deleterRest _ = 0"

fun deleterSent :: "deleter \<Rightarrow> nat" where
  "deleterSent (DFailed _ _) = 1"
| "deleterSent _ = 0"

text \<open>What a reconciliation keeps of the state it started from, whatever its goroutines and the others do.\<close>

definition keeps :: "GameServerBuild \<Rightarrow> 'w build_state \<Rightarrow> ('w, 'e) sharing \<Rightarrow> bool" where
  "keeps gsb s x \<longleftrightarrow>
     (\<exists>cs. b_calls (fst x) = b_calls s @ cs) \<and> port_step\<^sup>*\<^sup>* (b_ports s) (b_ports (fst x)) \<and>
     b_crashes (fst x) (getKeyForCrashesPerBuildMap gsb) = b_crashes s (getKeyForCrashesPerBuildMap gsb)"

definition underCreation :: "GameServerBuild \<Rightarrow> 'w build_state \<Rightarrow> string set" where
  "underCreation gsb s = map_get (gameServersUnderCreation (b_expectations s)) {} (gsb_Name gsb)"

definition underDeletion :: "GameServerBuild \<Rightarrow> 'w build_state \<Rightarrow> string set" where
  "underDeletion gsb s = map_get (gameServersUnderDeletion (b_expectations s)) {} (gsb_Name gsb)"

lemma keeps_refl [simp]: "keeps gsb s (s, ch)"
  by (simp add: keeps_def)

lemma newgs_port_step: "NewGameServerForGameServerBuild rng gsb pr = (pr', r) \<Longrightarrow> port_step pr pr'"
  by (auto simp: NewGameServerForGameServerBuild_def Let_def intro: step_get split: prod.splits sum.splits option.splits)

lemma expect_simps [simp]:
  "b_effects (expectCreation b g s) = b_effects s" "b_effects (expectDeletion b g s) = b_effects s"
  "b_ports (expectCreation b g s) = b_ports s" "b_ports (expectDeletion b g s) = b_ports s"
  "b_crashes (expectCreation b g s) = b_crashes s" "b_crashes (expectDeletion b g s) = b_crashes s"
  "b_ports (log_effects es s) = b_ports s" "b_crashes (log_effects es s) = b_crashes s"
  "b_effects (log_effects es s) = b_effects s @ es" "b_expectations (log_effects es s) = b_expectations s"
  "underCreation gsb (expectCreation (gsb_Name gsb) g s) = insert g (underCreation gsb s)"
  "underDeletion gsb (expectDeletion (gsb_Name gsb) g s) = insert g (underDeletion gsb s)"
  "underCreation gsb (expectDeletion b g s) = underCreation gsb s"
  "underDeletion gsb (expectCreation b g s) = underDeletion gsb s"
  by (simp_all add: expectCreation_def expectDeletion_def log_effects_def underCreation_def underDeletion_def
      addGameServerToUnderCreationMap_def addGameServerToUnderDeletionMap_def)

lemma log_underCreation [simp]: "underCreation gsb (log_effects es s) = underCreation gsb s"
  by (simp add: underCreation_def)

lemma log_underDeletion [simp]: "underDeletion gsb (log_effects es s) = underDeletion gsb s"
  by (simp add: underDeletion_def)


lemma creatorStep_facts:
  assumes "creatorStep api gsb cap i q (s, ch) = Some (q', (s', ch'))"
  shows "creatorRest q' < creatorRest q"
    and "creatorOrigin gsb j q \<Longrightarrow> creatorOrigin gsb j q'"
    and "keeps gsb s0 (s, ch) \<Longrightarrow> keeps gsb s0 (s', ch')"
    and "traced id (s', ch') + creatorTrace (gsb_Name gsb) q = traced id (s, ch) + creatorTrace (gsb_Name gsb) q'"
    and "length ch' + creatorSent q = length ch + creatorSent q'"
    and "underCreation gsb s' \<union> creatorClaim q = underCreation gsb s \<union> creatorClaim q'"
    and "creatorClaim q \<subseteq> creatorClaim q'" and "underCreation gsb s \<subseteq> underCreation gsb s'"
proof -
  have "creatorRest q' < creatorRest q \<and>
    (creatorOrigin gsb j q \<longrightarrow> creatorOrigin gsb j q') \<and>
    (keeps gsb s0 (s, ch) \<longrightarrow> keeps gsb s0 (s', ch')) \<and>
    traced id (s', ch') + creatorTrace (gsb_Name gsb) q = traced id (s, ch) + creatorTrace (gsb_Name gsb) q' \<and>
    length ch' + creatorSent q = length ch + creatorSent q' \<and>
    underCreation gsb s' \<union> creatorClaim q = underCreation gsb s \<union> creatorClaim q' \<and> creatorClaim q \<subseteq> creatorClaim q' \<and>
    underCreation gsb s \<subseteq> underCreation gsb s'"
  proof (cases q)
    case CStart
    obtain pr r where n: "NewGameServerForGameServerBuild (ba_rng api i) gsb (b_ports s) = (pr, r)" by fastforce
    from newgs_port_step [OF n] have p: "port_step\<^sup>*\<^sup>* (b_ports s) pr" by blast
    show ?thesis
    proof (cases r)
      case (Inr g)
      with assms CStart n have e: "q' = CMade g" "s' = s\<lparr>b_ports := pr\<rparr>" "ch' = ch" by auto
      from n Inr have "createdFrom gsb g" by (auto simp: createdFrom_def)
      with e CStart p show ?thesis
        by (auto simp: creatorOrigin_def keeps_def traced_def underCreation_def intro: rtranclp_trans)
    next
      case (Inl e)
      with assms CStart n p show ?thesis
        by (cases e) (auto simp: creatorOrigin_def keeps_def traced_def underCreation_def intro: rtranclp_trans)
    qed
  next
    case (CMade g)
    obtain w e where "ba_create api (b_world s) g = (w, e)" by fastforce
    with assms CMade show ?thesis
      by (cases e) (auto simp: creatorOrigin_def keeps_def traced_def underCreation_def)
  next
    case (CSending e m)
    with assms show ?thesis
      by (cases m) (auto simp: creatorOrigin_def keeps_def traced_def split: if_splits)
  qed (use assms in \<open>auto simp: creatorOrigin_def keeps_def traced_def\<close>)
  then show "creatorRest q' < creatorRest q"
    and "creatorOrigin gsb j q \<Longrightarrow> creatorOrigin gsb j q'"
    and "keeps gsb s0 (s, ch) \<Longrightarrow> keeps gsb s0 (s', ch')"
    and "traced id (s', ch') + creatorTrace (gsb_Name gsb) q = traced id (s, ch) + creatorTrace (gsb_Name gsb) q'"
    and "length ch' + creatorSent q = length ch + creatorSent q'"
    and "underCreation gsb s' \<union> creatorClaim q = underCreation gsb s \<union> creatorClaim q'"
    and "creatorClaim q \<subseteq> creatorClaim q'" and "underCreation gsb s \<subseteq> underCreation gsb s'" by blast+
qed

lemma deleterStep_facts:
  assumes "deleterStep api (gsb_Name gsb) cap i q (s, ch) = Some (q', (s', ch'))"
  shows "deleterRest q' < deleterRest q"
    and "deleterGS q' = deleterGS q"
    and "keeps gsb s0 (s, ch) \<Longrightarrow> keeps gsb s0 (s', ch')"
    and "traced ApiErr (s', ch') + deleterTrace (gsb_Name gsb) q = traced ApiErr (s, ch) + deleterTrace (gsb_Name gsb) q'"
    and "length ch' + deleterSent q = length ch + deleterSent q'"
    and "underDeletion gsb s' \<union> deleterClaim q = underDeletion gsb s \<union> deleterClaim q'"
    and "deleterClaim q \<subseteq> deleterClaim q'" and "underDeletion gsb s \<subseteq> underDeletion gsb s'"
    and "underCreation gsb s' = underCreation gsb s"
proof -
  have "deleterRest q' < deleterRest q \<and> deleterGS q' = deleterGS q \<and>
    (keeps gsb s0 (s, ch) \<longrightarrow> keeps gsb s0 (s', ch')) \<and>
    traced ApiErr (s', ch') + deleterTrace (gsb_Name gsb) q = traced ApiErr (s, ch) + deleterTrace (gsb_Name gsb) q' \<and>
    length ch' + deleterSent q = length ch + deleterSent q' \<and>
    underDeletion gsb s' \<union> deleterClaim q = underDeletion gsb s \<union> deleterClaim q' \<and> deleterClaim q \<subseteq> deleterClaim q' \<and>
    underDeletion gsb s \<subseteq> underDeletion gsb s' \<and>
    underCreation gsb s' = underCreation gsb s"
  proof (cases q)
    case (DStart g)
    obtain w e where "ba_delete api (b_world s) g (Some (om_ResourceVersion (gs_Meta g))) = (w, e)" by fastforce
    with assms DStart show ?thesis
      by (cases e) (auto simp: deleteGameServer_def call_delete_def keeps_def traced_def underCreation_def underDeletion_def
          split: if_splits)
  qed (use assms in \<open>auto simp: keeps_def traced_def split: if_splits\<close>)
  then show "deleterRest q' < deleterRest q"
    and "deleterGS q' = deleterGS q"
    and "keeps gsb s0 (s, ch) \<Longrightarrow> keeps gsb s0 (s', ch')"
    and "traced ApiErr (s', ch') + deleterTrace (gsb_Name gsb) q = traced ApiErr (s, ch) + deleterTrace (gsb_Name gsb) q'"
    and "length ch' + deleterSent q = length ch + deleterSent q'"
    and "underDeletion gsb s' \<union> deleterClaim q = underDeletion gsb s \<union> deleterClaim q'"
    and "deleterClaim q \<subseteq> deleterClaim q'" and "underDeletion gsb s \<subseteq> underDeletion gsb s'"
    and "underCreation gsb s' = underCreation gsb s" by blast+
qed

lemma others_facts:
  assumes "others gsb (x :: ('w, 'e) sharing) y"
  shows "keeps gsb s0 x \<Longrightarrow> keeps gsb s0 y" and "traced f y = traced f x" and "snd y = snd x"
    and "underCreation gsb (fst y) = underCreation gsb (fst x)"
    and "underDeletion gsb (fst y) = underDeletion gsb (fst x)"
  using assms
  by (auto simp: others_def keeps_def traced_def underCreation_def underDeletion_def map_get_def intro: rtranclp_trans)


interpretation creations: goroutine_ledger "creatorStep api gsb cap" "\<lambda>q. q = CPanicked" "others gsb"
    creatorRest "creatorOrigin gsb" "keeps gsb s0" "traced id" "creatorTrace (gsb_Name gsb)"
  for api :: "'w build_api" and gsb cap and s0 :: "'w build_state"
proof unfold_locales
  fix i q j q' and x x' :: "('w, build_error) sharing"
  assume s: "creatorStep api gsb cap i q x = Some (q', x')"
  obtain s ch s' ch' where [simp]: "x = (s, ch)" "x' = (s', ch')" by fastforce
  note F = creatorStep_facts [OF s [simplified]]
  show "creatorRest q' < creatorRest q" by (rule F(1))
  show "creatorOrigin gsb j q \<Longrightarrow> creatorOrigin gsb j q'" by (rule F(2))
  show "keeps gsb s0 x \<Longrightarrow> keeps gsb s0 x'" using F(3) by simp
  show "traced id x' + creatorTrace (gsb_Name gsb) q = traced id x + creatorTrace (gsb_Name gsb) q'" using F(4) by simp
qed (auto dest: others_facts)

interpretation creation_errors: goroutine_ledger "creatorStep api gsb cap" "\<lambda>q. q = CPanicked" "others gsb"
    creatorRest "creatorOrigin gsb" "keeps gsb s0" "\<lambda>x. length (snd x)" creatorSent
  for api :: "'w build_api" and gsb cap and s0 :: "'w build_state"
  by unfold_locales (auto dest: creatorStep_facts(5) others_facts(3))

interpretation creation_claims: goroutine_claims "creatorStep api gsb cap" "\<lambda>q. q = CPanicked" "others gsb"
    creatorRest "creatorOrigin gsb" "keeps gsb s0" "\<lambda>x. underCreation gsb (fst x)" creatorClaim
  for api :: "'w build_api" and gsb cap and s0 :: "'w build_state"
proof unfold_locales
  fix i q q' and x x' :: "('w, build_error) sharing"
  assume s: "creatorStep api gsb cap i q x = Some (q', x')"
  obtain s ch s' ch' where [simp]: "x = (s, ch)" "x' = (s', ch')" by fastforce
  note F = creatorStep_facts [OF s [simplified]]
  show "underCreation gsb (fst x') \<union> creatorClaim q = underCreation gsb (fst x) \<union> creatorClaim q'" using F(6) by simp
  show "underCreation gsb (fst x) \<subseteq> underCreation gsb (fst x')" using F(8) by simp
  show "creatorClaim q \<subseteq> creatorClaim q'" by (rule F(7))
qed (auto dest: others_facts(4))

interpretation deletions: goroutine_ledger "deleterStep api (gsb_Name gsb) cap" "\<lambda>q. False" "others gsb"
    deleterRest "\<lambda>j q. deleterGS q = deleterGS j" "keeps gsb s0" "traced ApiErr" "deleterTrace (gsb_Name gsb)"
  for api :: "'w build_api" and gsb cap and s0 :: "'w build_state"
proof unfold_locales
  fix i q j q' and x x' :: "('w, api_error) sharing"
  assume s: "deleterStep api (gsb_Name gsb) cap i q x = Some (q', x')"
  obtain s ch s' ch' where [simp]: "x = (s, ch)" "x' = (s', ch')" by fastforce
  note F = deleterStep_facts [OF s [simplified]]
  show "deleterRest q' < deleterRest q" by (rule F(1))
  show "deleterGS q = deleterGS j \<Longrightarrow> deleterGS q' = deleterGS j" using F(2) by simp
  show "keeps gsb s0 x \<Longrightarrow> keeps gsb s0 x'" using F(3) by simp
  show "traced ApiErr x' + deleterTrace (gsb_Name gsb) q = traced ApiErr x + deleterTrace (gsb_Name gsb) q'"
    using F(4) by simp
qed (auto dest: others_facts)

interpretation deletion_errors: goroutine_ledger "deleterStep api (gsb_Name gsb) cap" "\<lambda>q. False" "others gsb"
    deleterRest "\<lambda>j q. deleterGS q = deleterGS j" "keeps gsb s0" "\<lambda>x. length (snd x)" deleterSent
  for api :: "'w build_api" and gsb cap and s0 :: "'w build_state"
  by unfold_locales (auto dest: deleterStep_facts(5) others_facts(3))

interpretation deletion_claims: goroutine_claims "deleterStep api (gsb_Name gsb) cap" "\<lambda>q. False" "others gsb"
    deleterRest "\<lambda>j q. deleterGS q = deleterGS j" "keeps gsb s0" "\<lambda>x. underDeletion gsb (fst x)" deleterClaim
  for api :: "'w build_api" and gsb cap and s0 :: "'w build_state"
proof unfold_locales
  fix i q q' and x x' :: "('w, api_error) sharing"
  assume s: "deleterStep api (gsb_Name gsb) cap i q x = Some (q', x')"
  obtain s ch s' ch' where [simp]: "x = (s, ch)" "x' = (s', ch')" by fastforce
  note F = deleterStep_facts [OF s [simplified]]
  show "underDeletion gsb (fst x') \<union> deleterClaim q = underDeletion gsb (fst x) \<union> deleterClaim q'" using F(6) by simp
  show "underDeletion gsb (fst x) \<subseteq> underDeletion gsb (fst x')" using F(8) by simp
  show "deleterClaim q \<subseteq> deleterClaim q'" by (rule F(7))
qed (auto dest: others_facts(5))


text \<open>The calls, the effects and the errors of a trace.\<close>

definition callsOf :: "trace_item multiset \<Rightarrow> api_call multiset" where
  "callsOf T = (\<Sum>x \<in># T. case x of TCall c \<Rightarrow> {#c#} | _ \<Rightarrow> {#})"

definition effectsOf :: "trace_item multiset \<Rightarrow> effect multiset" where
  "effectsOf T = (\<Sum>x \<in># T. case x of TEffect c \<Rightarrow> {#c#} | _ \<Rightarrow> {#})"

lemma trace_simps [simp]:
  "callsOf {#} = {#}" "callsOf (add_mset x T) = (case x of TCall c \<Rightarrow> {#c#} | _ \<Rightarrow> {#}) + callsOf T"
  "callsOf (S + T) = callsOf S + callsOf T"
  "effectsOf {#} = {#}" "effectsOf (add_mset x T) = (case x of TEffect c \<Rightarrow> {#c#} | _ \<Rightarrow> {#}) + effectsOf T"
  "effectsOf (S + T) = effectsOf S + effectsOf T"
  by (simp_all add: callsOf_def effectsOf_def)

lemma trace_sum [simp]:
  "callsOf (\<Sum>q \<leftarrow> qs. f q) = (\<Sum>q \<leftarrow> qs. callsOf (f q))" "effectsOf (\<Sum>q \<leftarrow> qs. f q) = (\<Sum>q \<leftarrow> qs. effectsOf (f q))"
  by (induction qs) simp_all

lemma trace_images [simp]:
  "callsOf (image_mset TCall M) = M" "effectsOf (image_mset TCall M) = {#}"
  "callsOf (image_mset TEffect N) = {#}" "effectsOf (image_mset TEffect N) = N"
  "callsOf (image_mset (\<lambda>e. TErr (f e)) X) = {#}" "effectsOf (image_mset (\<lambda>e. TErr (f e)) X) = {#}"
  by (simp_all add: callsOf_def effectsOf_def image_mset.compositionality comp_def)

lemma traced_parts [simp]: "callsOf (traced f (s, ch)) = mset (b_calls s)" "effectsOf (traced f (s, ch)) = mset (b_effects s)"
  by (simp_all add: traced_def)

lemma reorder_map:
  assumes "mset cs = mset (map f xs)"
  obtains ys where "cs = map f ys" "mset ys = mset xs"
proof -
  have "list_all2 (\<lambda>x c. c = f x) xs (map f xs)" by (simp add: list_all2_map2 list_all2_same)
  then have "list_all2 (\<lambda>c x. c = f x) (map f xs) xs" by (simp add: list_all2_conv_all_nth)
  from list_all2_reorder_left_invariance [OF this assms] obtain ys
    where ys: "list_all2 (\<lambda>c x. c = f x) cs ys" "mset ys = mset xs" by blast
  from ys(1) have "cs = map f ys" by (auto simp: list_all2_conv_all_nth intro!: nth_equalityI)
  with ys(2) that show thesis by blast
qed

lemma sum_list_zero_iff: "(\<Sum>q \<leftarrow> qs. f q) = (0 :: nat) \<longleftrightarrow> (\<forall>q \<in> set qs. f q = 0)"
  by (induction qs) auto

section \<open>The deletions\<close>

lemma deletionJobs_simps:
  "j \<in> set (deletionJobs api gss n) \<Longrightarrow> deleterTrace b j = {#} \<and> deleterSent j = 0 \<and> deleterClaim j = {}"
  "map deleterGS (deletionJobs api gss n) = pickDeletions n (ba_sort api gss)"
  by (auto simp: deletionJobs_def comp_def)

lemma deletion_routines:
  assumes "deletionRuns api gsb n ms (start_pool (deletionJobs api gss n) (s, [])) p"
  shows "map deleterGS (routines p @ waiting p) = pickDeletions n (ba_sort api gss)"
proof -
  have "list_all2 (\<lambda>j q. deleterGS q = deleterGS j) (deletionJobs api gss n) (routines p @ waiting p)"
    using deletions.started(1) [OF assms] by simp
  then have "map deleterGS (routines p @ waiting p) = map deleterGS (deletionJobs api gss n)"
    by (auto simp: list_all2_conv_all_nth simp flip: map_append intro!: nth_equalityI)
  then show ?thesis by (simp add: deletionJobs_simps)
qed

lemma deleter_calls: "deleterDone q \<Longrightarrow> callsOf (deleterTrace b q) = {#versionedDelete (deleterGS q)#}"
  by (cases q) simp_all

lemma deletion_outcome:
  assumes "deletes_to api gsb gss n s s1 errCh"
  obtains ds es E where "b_calls s1 = b_calls s @ map versionedDelete ds"
    and "mset ds = mset (pickDeletions n (ba_sort api gss))"
    and "keeps gsb s (s1, [] :: api_error list)"
    and "underDeletion gsb s1 = underDeletion gsb s \<union> gs_Name ` E" "E \<subseteq> set ds"
    and "length errCh \<le> nat n"
  using assms
proof (cases rule: deletes_to.cases)
  case deletes_none
  from deletes_none(3) have "pickDeletions n (ba_sort api gss) = []" by (simp add: pickDeletions_eq)
  with deletes_none that [of "[]" "{}"] show thesis by simp
next
  case (deletes_some ms p)
  note run = deletes_some(2)
  have w: "waiting p = []" and D: "\<And>q. q \<in> set (routines p) \<Longrightarrow> deleterDone q"
    using deletes_some(3) by (auto simp: waited_def list_all_iff)
  have gs: "map deleterGS (routines p) = pickDeletions n (ba_sort api gss)"
    using deletion_routines [OF run] w by simp
  have k: "keeps gsb s (s1, errCh)" using deletions.started(2) [OF run, of s] deletes_some(4) by simp
  then obtain cs where cs: "b_calls s1 = b_calls s @ cs" by (auto simp: keeps_def)
  have "traced ApiErr (s1, errCh) = traced ApiErr (s, []) + (\<Sum>q \<leftarrow> routines p. deleterTrace (gsb_Name gsb) q)"
    using deletions.started_ledger [OF run] deletes_some(4) w by (simp add: deletions.shares_def deletionJobs_simps)
  from arg_cong [OF this, of callsOf]
  have "mset cs = (\<Sum>q \<leftarrow> routines p. callsOf (deleterTrace (gsb_Name gsb) q))" using cs by simp
  also have "\<dots> = (\<Sum>q \<leftarrow> routines p. {#versionedDelete (deleterGS q)#})"
    by (intro arg_cong [where f = sum_list] map_cong) (simp_all add: deleter_calls D)
  also have "\<dots> = mset (map versionedDelete (map deleterGS (routines p)))"
    by (induction "routines p") (simp_all add: comp_def)
  finally obtain ds where ds: "cs = map versionedDelete ds" "mset ds = mset (map deleterGS (routines p))"
    by (rule reorder_map)
  have "underDeletion gsb s1 = underDeletion gsb s \<union> (\<Union>q \<in> set (routines p). deleterClaim q)"
    using deletion_claims.started_facts [OF run] deletes_some(4) w
    by (simp add: deletion_claims.claims_def deletionJobs_simps)
  moreover have "deleterClaim q = gs_Name ` (case q of DFinished g \<Rightarrow> {g} | _ \<Rightarrow> {})" if "q \<in> set (routines p)" for q
    using D [OF that] by (cases q) simp_all
  ultimately have u: "underDeletion gsb s1 = underDeletion gsb s \<union>
      gs_Name ` (\<Union>q \<in> set (routines p). case q of DFinished g \<Rightarrow> {g} | _ \<Rightarrow> {})" by auto
  have "(\<Union>q \<in> set (routines p). case q of DFinished g \<Rightarrow> {g} | _ \<Rightarrow> {}) \<subseteq> deleterGS ` set (routines p)"
    by (auto split: deleter.splits) (metis deleterGS.simps(5) imageI)
  also have "\<dots> = set ds" using mset_eq_setD [OF ds(2)] by simp
  finally have E: "(\<Union>q \<in> set (routines p). case q of DFinished g \<Rightarrow> {g} | _ \<Rightarrow> {}) \<subseteq> set ds" .
  have "length errCh = (\<Sum>q \<leftarrow> routines p. deleterSent q)"
    using deletion_errors.started_ledger [OF run] deletes_some(4) w
    by (simp add: deletion_errors.shares_def deletionJobs_simps)
  also have "\<dots> \<le> (\<Sum>q \<leftarrow> routines p. 1)"
    by (rule sum_list_mono) (case_tac q; simp)
  also have "\<dots> = length (pickDeletions n (ba_sort api gss))" unfolding gs [symmetric] by (simp add: sum_list_triv)
  also have "\<dots> \<le> nat n" by (simp add: pickDeletions_eq)
  finally have "length errCh \<le> nat n" .
  with that [OF _ _ _ u E] cs ds gs k show thesis by (simp add: keeps_def)
qed


section \<open>The creations\<close>

lemma creationJobs_eq: "creationJobs cfg spec c = replicate (creationCount cfg spec c) CStart"
proof -
  have le: "creationCount cfg spec c \<le> nat (MaxNumberOfGameServersToAdd cfg)"
    by (auto simp: creationCount_def)
  have "takeWhile (\<lambda>i. i < n) [0..<m] = [0..<n]" if "n \<le> m" for n m :: nat
  proof -
    have "[0..<m] = [0..<n] @ [n..<m]" using upt_add_eq_append [of 0 n "m - n"] that by simp
    then show ?thesis by (cases "[n..<m]") (auto simp: takeWhile_append upt_eq_Cons_conv)
  qed
  moreover have "createCond cfg spec c = (\<lambda>i. i < creationCount cfg spec c)" by (simp add: fun_eq_iff createCond_iff)
  ultimately show ?thesis using le by (simp add: creationJobs_def map_replicate_const)
qed

lemma creationJobs_simps:
  "j \<in> set (creationJobs cfg spec c) \<Longrightarrow> creatorTrace b j = {#} \<and> creatorSent j = 0 \<and> creatorClaim j = {} \<and> creatorOrigin gsb j j"
  by (simp add: creationJobs_eq creatorOrigin_def)

lemma creation_origins:
  assumes "creationRuns api cfg gsb ms (start_pool (creationJobs cfg (gsb_Spec gsb) c) (s, [])) p"
  shows "\<And>q g. q \<in> set (routines p @ waiting p) \<Longrightarrow> creatorGS q = Some g \<Longrightarrow> createdFrom gsb g"
    and "length (routines p @ waiting p) = creationCount cfg (gsb_Spec gsb) c"
proof -
  have l: "list_all2 (creatorOrigin gsb) (creationJobs cfg (gsb_Spec gsb) c) (routines p @ waiting p)"
    by (rule creations.started(1) [OF assms]) (simp add: creationJobs_simps)
  show "length (routines p @ waiting p) = creationCount cfg (gsb_Spec gsb) c"
    using list_all2_lengthD [OF l] by (simp add: creationJobs_eq)
  fix q g
  assume "q \<in> set (routines p @ waiting p)" "creatorGS q = Some g"
  then obtain i where "i < length (routines p @ waiting p)" "(routines p @ waiting p) ! i = q"
    unfolding in_set_conv_nth by blast
  with list_all2_nthD2 [OF l, of i] \<open>creatorGS q = Some g\<close> show "createdFrom gsb g" by (simp add: creatorOrigin_def)
qed

lemma creator_calls: "c \<in># callsOf (creatorTrace b q) \<Longrightarrow> \<exists>g. c = CallCreate g \<and> creatorGS q = Some g"
  by (cases "(b, q)" rule: creatorTrace.cases) auto

text \<open>Whatever they have done so far, also before a panic, the goroutines only asked for GameServers of the build.\<close>

lemma creation_calls:
  assumes run: "creationRuns api cfg gsb ms (start_pool (creationJobs cfg (gsb_Spec gsb) c) (s, [])) p"
  obtains cs where "b_calls (fst (shared p)) = b_calls s @ cs" "\<forall>x \<in> set cs. isCreate gsb x"
    "mset cs = (\<Sum>q \<leftarrow> routines p @ waiting p. callsOf (creatorTrace (gsb_Name gsb) q))"
    "keeps gsb s (shared p)"
proof -
  obtain s' ch where p: "shared p = (s', ch)" by fastforce
  have k: "keeps gsb s (s', ch)" using creations.started(2) [OF run, of s] p by simp
  then obtain cs where cs: "b_calls s' = b_calls s @ cs" by (auto simp: keeps_def)
  have "traced id (s', ch) = traced id (s, []) + (\<Sum>q \<leftarrow> routines p @ waiting p. creatorTrace (gsb_Name gsb) q)"
    using creations.started_ledger [OF run] p by (simp add: creations.shares_def creationJobs_simps)
  from arg_cong [OF this, of callsOf]
  have m: "mset cs = (\<Sum>q \<leftarrow> routines p @ waiting p. callsOf (creatorTrace (gsb_Name gsb) q))" using cs by simp
  have "isCreate gsb x" if "x \<in> set cs" for x
  proof -
    from that m have "x \<in># (\<Sum>q \<leftarrow> routines p @ waiting p. callsOf (creatorTrace (gsb_Name gsb) q))"
      by (metis set_mset_mset)
    then obtain q where q: "q \<in> set (routines p @ waiting p)" "x \<in># callsOf (creatorTrace (gsb_Name gsb) q)"
      by (auto simp: set_mset_sum_list)
    from creator_calls [OF q(2)] creation_origins(1) [OF run q(1)] show ?thesis by (auto simp: isCreate_def)
  qed
  with that [of cs] cs m k p show thesis by simp
qed

lemma creation_outcome:
  assumes run: "creationRuns api cfg gsb ms (start_pool (creationJobs cfg (gsb_Spec gsb) c) (s, [])) p"
    and w: "waited creatorDone p" and p: "shared p = (s', [])"
  obtains gs where "b_calls s' = b_calls s @ map CallCreate gs" "list_all (createdFrom gsb) gs"
    "length gs = creationCount cfg (gsb_Spec gsb) c" "keeps gsb s (s', [] :: build_error list)"
    "underCreation gsb s' = underCreation gsb s \<union> gs_Name ` set gs"
proof (rule creation_calls [OF run])
  fix cs
  assume cs: "b_calls (fst (shared p)) = b_calls s @ cs"
    and m: "mset cs = (\<Sum>q \<leftarrow> routines p @ waiting p. callsOf (creatorTrace (gsb_Name gsb) q))"
    and k: "keeps gsb s (shared p)"
  have wt: "waiting p = []" and D: "\<And>q. q \<in> set (routines p) \<Longrightarrow> creatorDone q"
    using w by (auto simp: waited_def list_all_iff)
  have "(\<Sum>q \<leftarrow> routines p. creatorSent q) = 0"
    using creation_errors.started_ledger [OF run] p wt
    by (simp add: creation_errors.shares_def creationJobs_simps)
  then have "\<exists>g. q = CFinished g" if "q \<in> set (routines p)" for q
    using that D [OF that] by (cases q) (force simp: sum_list_zero_iff)+
  then have "\<exists>gs. routines p = map CFinished gs" unfolding ex_map_conv by simp
  then obtain gs where r: "routines p = map CFinished gs" by blast
  have "mset cs = (\<Sum>g \<leftarrow> gs. {#CallCreate g#})" using m wt r by (simp add: comp_def)
  also have "\<dots> = mset (map CallCreate gs)" by (induction gs) simp_all
  finally obtain gs' where gs': "cs = map CallCreate gs'" "mset gs' = mset gs" by (rule reorder_map)
  have l: "length gs' = length gs" by (rule mset_eq_length [OF gs'(2)])
  have s: "set gs' = set gs" by (rule mset_eq_setD [OF gs'(2)])
  have "createdFrom gsb g" if "g \<in> set gs'" for g
    using creation_origins(1) [OF run, of "CFinished g" g] that r s by simp
  moreover have "length gs = creationCount cfg (gsb_Spec gsb) c" using creation_origins(2) [OF run] wt r by simp
  moreover have "underCreation gsb s' = underCreation gsb s \<union> gs_Name ` set gs'"
    using creation_claims.started_facts [OF run] p wt r s
    by (auto simp: creation_claims.claims_def creationJobs_simps)
  ultimately show thesis using that [of gs'] cs p gs'(1) k l by (simp add: list_all_iff)
qed

section \<open>A round with its goroutines\<close>

lemma pick_deletable:
  "permutes_lists f \<Longrightarrow> set (pickDeletions n (f gss)) \<subseteq> {g \<in> set gss. deletable g}"
  unfolding pickDeletions_eq
  by (rule subset_trans [OF set_take_subset]) (simp add: permutes_set)

lemma deletes_to_extends:
  assumes "permutes_lists (ba_sort api)" and "deletes_to api gsb gss n s s1 errCh"
  shows "extends (scaleDelete gss) s s1"
proof (rule deletion_outcome [OF assms(2)])
  fix ds
  assume ds: "b_calls s1 = b_calls s @ map versionedDelete ds" "mset ds = mset (pickDeletions n (ba_sort api gss))"
  show ?thesis
    by (rule scaleDelete_extends [OF ds(1)]) (use pick_deletable [OF assms(1)] mset_eq_setD [OF ds(2)] in simp)
qed

lemma scales_to_extends:
  assumes "permutes_lists (ba_sort api)" and "scales_to api cfg gsb gss c s s' r"
  shows "extends (allowedCall gsb gss) s s'"
proof -
  have d: "extends (allowedCall gsb gss) s s1"
    if "deletes_to api gsb gss (deletionAmount cfg (gsb_Spec gsb) c) s s1 errCh" for s1 errCh
    using deletes_to_extends [OF assms(1) that] by (rule extends_mono) (simp add: allowedCall_def)
  have c: "extends (allowedCall gsb gss) s1 (fst (shared p))"
    if "creationRuns api cfg gsb ms (start_pool (creationJobs cfg (gsb_Spec gsb) c) (s1, [])) p" for s1 ms p
    by (rule creation_calls [OF that]) (auto simp: extends_def allowedCall_def)
  have u: "extends (allowedCall gsb gss) s2 s3" if "updateStatus api gsb c s2 = (s3, r')" for s2 s3 r'
    using conjunct1 [OF updateStatus_extends [OF that]] by (rule extends_mono) (auto simp: allowedCall_def)
  from assms(2) show ?thesis
  proof cases
    case (scales_delete_error err errCh)
    then show ?thesis using d by blast
  next
    case scales_no_channel
    then show ?thesis using d by blast
  next
    case (scales_panic s1 ms p)
    then show ?thesis using extends_trans [OF d c] by blast
  next
    case (scales_create_error s1 ms p err errCh)
    then show ?thesis using extends_trans [OF d c [OF scales_create_error(4)]] by simp
  next
    case (scales_update s1 ms p s2)
    then show ?thesis using extends_trans [OF extends_trans [OF d c [OF scales_update(3)]] u] by simp
  qed
qed


text \<open>No goroutine blocks for ever on its channel, whose capacity is at least the number of senders.\<close>

lemma sum_list_less_length:
  assumes "\<And>q. q \<in> set qs \<Longrightarrow> f q \<le> (1 :: nat)" and "q \<in> set qs" "f q = 0"
  shows "(\<Sum>q \<leftarrow> qs. f q) < length qs"
  using assms
proof (induction qs)
  case (Cons a qs)
  have le: "(\<Sum>q \<leftarrow> qs. f q) \<le> length qs"
    using sum_list_mono [of qs f "\<lambda>q. 1"] Cons.prems(1) by (simp add: sum_list_triv)
  show ?case
  proof (cases "q = a")
    case True
    with le Cons.prems(3) show ?thesis by simp
  next
    case False
    with Cons have "(\<Sum>q \<leftarrow> qs. f q) < length qs" by simp
    moreover have "f a \<le> 1" using Cons.prems(1) by simp
    ultimately show ?thesis by simp
  qed
qed simp

lemma creation_unblocked:
  assumes run: "creationRuns api cfg gsb ms (start_pool (creationJobs cfg (gsb_Spec gsb) c) (s, [])) p"
    and stuck: "pool_stuck (creatorStep api gsb (nat (MaxNumberOfGameServersToAdd cfg))) p"
    and calm: "CPanicked \<notin> set (routines p)"
  shows "waited creatorDone p"
proof -
  obtain s' ch where p: "shared p = (s', ch)" by fastforce
  have w: "waiting p = []" using stuck by (simp add: pool_stuck_def)
  have sent: "length ch = (\<Sum>q \<leftarrow> routines p. creatorSent q)"
    using creation_errors.started_ledger [OF run] p w by (simp add: creation_errors.shares_def creationJobs_simps)
  have cap: "length (routines p) \<le> nat (MaxNumberOfGameServersToAdd cfg)"
    using creation_origins(2) [OF run] w by (auto simp: creationCount_def)
  have "creatorDone q" if q: "q \<in> set (routines p)" for q
  proof -
    from q obtain i where "i < length (routines p)" "routines p ! i = q" by (auto simp: in_set_conv_nth)
    with stuck p have n: "creatorStep api gsb (nat (MaxNumberOfGameServersToAdd cfg)) i q (s', ch) = None"
      by (auto simp: pool_stuck_def)
    show ?thesis
    proof (cases q)
      case CStart
      with n show ?thesis by (auto split: prod.splits sum.splits new_gs_error.splits)
    next
      case (CSending e m)
      have "creatorSent x \<le> 1" for x by (cases x) simp_all
      then have "length ch < length (routines p)"
        unfolding sent using q CSending by (intro sum_list_less_length) auto
      with cap n CSending show ?thesis by (simp split: if_splits)
    next
      case CPanicked
      with calm q show ?thesis by simp
    qed (use n in \<open>auto split: prod.splits\<close>)
  qed
  with w show ?thesis by (simp add: waited_def list_all_iff)
qed

lemma deletion_unblocked:
  assumes run: "deletionRuns api gsb n ms (start_pool (deletionJobs api gss n) (s, [])) p"
    and stuck: "pool_stuck (deleterStep api (gsb_Name gsb) (nat n)) p"
  shows "waited deleterDone p"
proof -
  obtain s' ch where p: "shared p = (s', ch)" by fastforce
  have w: "waiting p = []" using stuck by (simp add: pool_stuck_def)
  have sent: "length ch = (\<Sum>q \<leftarrow> routines p. deleterSent q)"
    using deletion_errors.started_ledger [OF run] p w by (simp add: deletion_errors.shares_def deletionJobs_simps)
  have "length (routines p) = length (pickDeletions n (ba_sort api gss))"
    using arg_cong [OF deletion_routines [OF run], of length] w by simp
  then have cap: "length (routines p) \<le> nat n" by (simp add: pickDeletions_eq)
  have "deleterDone q" if q: "q \<in> set (routines p)" for q
  proof -
    from q obtain i where "i < length (routines p)" "routines p ! i = q" by (auto simp: in_set_conv_nth)
    with stuck p have n: "deleterStep api (gsb_Name gsb) (nat n) i q (s', ch) = None"
      by (auto simp: pool_stuck_def)
    show ?thesis
    proof (cases q)
      case (DStart g)
      with n show ?thesis by (auto split: prod.splits option.splits)
    next
      case (DSending e g)
      have "deleterSent x \<le> 1" for x by (cases x) simp_all
      then have "length ch < length (routines p)"
        unfolding sent using q DSending by (intro sum_list_less_length) auto
      with cap n DSending show ?thesis by (simp split: if_splits)
    qed (use n in auto)
  qed
  with w show ?thesis by (simp add: waited_def list_all_iff)
qed

section \<open>The sequential round is one of the schedules\<close>

lemma run_middle:
  assumes "work (length rs) q x = Some (q', x')" and "\<not> list_ex crashed (rs @ q # rs')"
  shows "pool_step work crashed env (Routine (length rs)) \<lparr>waiting = W, routines = rs @ q # rs', shared = x\<rparr>
    \<lparr>waiting = W, routines = rs @ q' # rs', shared = x'\<rparr>"
  using pool_run [where p = "\<lparr>waiting = W, routines = rs @ q # rs', shared = x\<rparr>" and i = "length rs" and work = work
      and crashed = crashed and env = env and q = q' and s = x'] assms by simp

text \<open>One goroutine alone for \<open>n\<close> of its operations.\<close>

fun alone :: "('p, 's) work \<Rightarrow> ('p \<Rightarrow> bool) \<Rightarrow> nat \<Rightarrow> nat \<Rightarrow> 'p \<times> 's \<Rightarrow> ('p \<times> 's) option" where
  "alone work crashed i 0 x = Some x"
| "alone work crashed i (Suc n) (q, s) =
     (if crashed q then None else Option.bind (work i q s) (alone work crashed i n))"

lemma run_alone:
  assumes "alone work crashed (length rs) n (q, x) = Some (q', x')" and "\<not> list_ex crashed (rs @ rs')"
  shows "\<exists>ms. pool_runs work crashed env ms \<lparr>waiting = W, routines = rs @ q # rs', shared = x\<rparr>
    \<lparr>waiting = W, routines = rs @ q' # rs', shared = x'\<rparr>"
  using assms(1)
proof (induction n arbitrary: q x)
  case 0
  then show ?case by (auto intro: pool_stay)
next
  case (Suc n)
  then obtain q1 x1 where w: "work (length rs) q x = Some (q1, x1)" and c: "\<not> crashed q"
    and a: "alone work crashed (length rs) n (q1, x1) = Some (q', x')"
    by (auto simp: bind_eq_Some_conv split: if_splits)
  obtain ms where ms: "pool_runs work crashed env ms \<lparr>waiting = W, routines = rs @ q1 # rs', shared = x1\<rparr>
      \<lparr>waiting = W, routines = rs @ q' # rs', shared = x'\<rparr>" using Suc.IH [OF a] by blast
  have "pool_step work crashed env (Routine (length rs)) \<lparr>waiting = W, routines = rs @ q # rs', shared = x\<rparr>
      \<lparr>waiting = W, routines = rs @ q1 # rs', shared = x1\<rparr>"
    by (rule run_middle [where work = work and q = q and x = x]) (use w c assms(2) in auto)
  from pool_more [OF this ms] show ?case by blast
qed

lemma createOne_alone:
  assumes "createOne api gsb i s = Some (s1, es)" and "length ch < cap"
  shows "\<exists>n q. creatorDone q \<and>
    alone (creatorStep api gsb cap) (\<lambda>q. q = CPanicked) i n (CStart, (s, ch)) = Some (q, (s1, ch @ es))"
proof -
  obtain pr r where n: "NewGameServerForGameServerBuild (ba_rng api i) gsb (b_ports s) = (pr, r)" by fastforce
  show ?thesis
  proof (cases r)
    case (Inl e)
    with assms n obtain x where x: "e = PortError x" "s1 = s\<lparr>b_ports := pr\<rparr>" "es = [PortErr x]"
      by (cases e) (auto simp: createOne_def)
    with n Inl assms(2) show ?thesis
      by (intro exI [of _ "2"] exI [of _ "CFailed (PortErr x) None"]) (simp add: numeral_2_eq_2)
  next
    case (Inr g)
    obtain w e where c: "ba_create api (b_world s) g = (w, e)" by fastforce
    show ?thesis
    proof (cases e)
      case (Some err)
      with assms n Inr c show ?thesis
        by (intro exI [of _ "3"] exI [of _ "CFailed (ApiErr err) (Some g)"])
          (auto simp: createOne_def numeral_3_eq_3)
    next
      case None
      with assms n Inr c show ?thesis
        by (intro exI [of _ "5"] exI [of _ "CFinished g"])
          (auto simp: createOne_def eval_nat_numeral log_effects_def expectCreation_def)
    qed
  qed
qed

lemma createOne_panics:
  assumes "createOne api gsb i s = None"
  shows "\<exists>x. alone (creatorStep api gsb cap) (\<lambda>q. q = CPanicked) i 1 (CStart, (s, ch)) = Some (CPanicked, x)"
proof -
  obtain pr r where "NewGameServerForGameServerBuild (ba_rng api i) gsb (b_ports s) = (pr, r)" by fastforce
  with assms show ?thesis
    by (auto simp: createOne_def split: sum.splits new_gs_error.splits prod.splits option.splits)
qed

lemma calm_done: "list_all creatorDone rs \<Longrightarrow> \<not> list_ex (\<lambda>q. q = CPanicked) rs"
  by (induction rs) auto

lemma createLoop_scheduled:
  assumes "length rs = i" "list_all creatorDone rs" "length ch \<le> i"
    and "cap = nat (MaxNumberOfGameServersToAdd cfg)"
    and "W = replicate (creationCount cfg (gsb_Spec gsb) c - i) CStart"
  shows "\<exists>ms p. pool_runs (creatorStep api gsb cap) (\<lambda>q. q = CPanicked) env ms
      \<lparr>waiting = W, routines = rs, shared = (s, ch)\<rparr> p \<and>
    (case createLoop api cfg gsb c i s of
       None \<Rightarrow> CPanicked \<in> set (routines p)
     | Some (s', es) \<Rightarrow> waited creatorDone p \<and> shared p = (s', ch @ es))"
  using assms
proof (induction api cfg gsb c i s arbitrary: rs ch W rule: createLoop.induct)
  case (1 api cfg gsb c i s)
  let ?run = "pool_runs (creatorStep api gsb cap) (\<lambda>q. q = CPanicked) env"
  show ?case
  proof (cases "createCond cfg (gsb_Spec gsb) c i")
    case False
    with 1 have "W = []" by (simp add: createCond_iff)
    moreover from False have "createLoop api cfg gsb c i s = Some (s, [])" by (simp add: createLoop.simps)
    ultimately show ?thesis using 1(3)
      by (intro exI [of _ "[]"] exI [of _ "\<lparr>waiting = W, routines = rs, shared = (s, ch)\<rparr>"])
        (simp add: pool_stay waited_def)
  next
    case True
    let ?W = "replicate (creationCount cfg (gsb_Spec gsb) c - Suc i) CStart"
    have W: "W = CStart # ?W" using True 1(6) by (simp add: createCond_iff Suc_diff_Suc flip: replicate_Suc)
    have "int i < MaxNumberOfGameServersToAdd cfg" using True by (simp add: createCond_def)
    with 1(4,5) have cap: "length ch < cap" by linarith
    have calm: "\<not> list_ex (\<lambda>q. q = CPanicked) rs" by (rule calm_done [OF 1(3)])
    have spawn: "pool_step (creatorStep api gsb cap) (\<lambda>q. q = CPanicked) env Spawner
        \<lparr>waiting = W, routines = rs, shared = (s, ch)\<rparr> \<lparr>waiting = ?W, routines = rs @ [CStart], shared = (s, ch)\<rparr>"
      using pool_spawn [where p = "\<lparr>waiting = W, routines = rs, shared = (s, ch)\<rparr>" and j = CStart and js = ?W
          and work = "creatorStep api gsb cap" and env = env] calm W by simp
    show ?thesis
    proof (cases "createOne api gsb i s")
      case None
      then obtain x where a: "alone (creatorStep api gsb cap) (\<lambda>q. q = CPanicked) (length rs) 1 (CStart, (s, ch)) = Some (CPanicked, x)"
        using createOne_panics 1(2) by blast
      obtain ms where "?run ms \<lparr>waiting = ?W, routines = rs @ [CStart], shared = (s, ch)\<rparr>
          \<lparr>waiting = ?W, routines = rs @ [CPanicked], shared = x\<rparr>"
        using run_alone [OF a, where rs' = "[]" and env = env and W = ?W] calm by auto
      note run = pool_more [OF spawn this]
      have "createLoop api cfg gsb c i s = None" using True None by (simp add: createLoop.simps)
      then show ?thesis
        by (intro exI [of _ "Spawner # ms"] exI [of _ "\<lparr>waiting = ?W, routines = rs @ [CPanicked], shared = x\<rparr>"])
          (simp add: run)
    next
      case (Some r)
      obtain s1 es1 where o: "createOne api gsb i s = Some (s1, es1)" using Some by (cases r) simp
      obtain n q where q: "creatorDone q"
        and a: "alone (creatorStep api gsb cap) (\<lambda>q. q = CPanicked) (length rs) n (CStart, (s, ch)) = Some (q, (s1, ch @ es1))"
        using createOne_alone [OF o cap] 1(2) by blast
      obtain ms where ms: "?run ms \<lparr>waiting = ?W, routines = rs @ [CStart], shared = (s, ch)\<rparr>
          \<lparr>waiting = ?W, routines = rs @ [q], shared = (s1, ch @ es1)\<rparr>"
        using run_alone [OF a, where rs' = "[]" and env = env and W = ?W] calm by auto
      have "length es1 \<le> 1" using o by (auto simp: createOne_def split: prod.splits sum.splits new_gs_error.splits option.splits)
      with 1(2-5) q obtain ms' p where p: "?run ms' \<lparr>waiting = ?W, routines = rs @ [q], shared = (s1, ch @ es1)\<rparr> p"
        "case createLoop api cfg gsb c (Suc i) s1 of
           None \<Rightarrow> CPanicked \<in> set (routines p)
         | Some (s', es) \<Rightarrow> waited creatorDone p \<and> shared p = (s', (ch @ es1) @ es)"
        using 1(1) [OF True o refl, of "rs @ [q]" "ch @ es1" ?W] by auto
      note run = pool_more [OF spawn pool_runs_append [OF ms p(1)]]
      have "createLoop api cfg gsb c i s =
          map_option (\<lambda>(s2, es'). (s2, es1 @ es')) (createLoop api cfg gsb c (Suc i) s1)"
        using True o by (subst createLoop.simps) simp
      with p(2) show ?thesis
        by (intro exI [of _ "Spawner # ms @ ms'"] exI [of _ p])
          (cases "createLoop api cfg gsb c (Suc i) s1"; auto simp: run)
    qed
  qed
qed


lemma spawn_all:
  "\<exists>ms. pool_runs work (\<lambda>q. False) env ms \<lparr>waiting = js, routines = rs, shared = x\<rparr>
     \<lparr>waiting = [], routines = rs @ js, shared = x\<rparr>"
proof (induction js arbitrary: rs)
  case Nil
  then show ?case by (auto intro: pool_stay)
next
  case (Cons j js)
  have "pool_step work (\<lambda>q. False) env Spawner \<lparr>waiting = j # js, routines = rs, shared = x\<rparr>
      \<lparr>waiting = js, routines = rs @ [j], shared = x\<rparr>"
    using pool_spawn [where p = "\<lparr>waiting = j # js, routines = rs, shared = x\<rparr>" and j = j and js = js
        and work = work and env = env and crashed = "\<lambda>q. False"] by (simp add: list_ex_iff)
  with Cons.IH [of "rs @ [j]"] show ?case by (auto intro: pool_more)
qed

lemma delete_alone:
  assumes "deleteGameServer api gs s = (s1, e)" and "length ch < cap"
  shows "\<exists>n q. deleterDone q \<and>
    alone (deleterStep api build cap) (\<lambda>q. False) i n (DStart gs, (s, ch)) =
      Some (q, case e of
        None \<Rightarrow> (log_effects [Inc GameServersDeletedCounter [build],
                Event ''GameServer deleted'' (''GameServer '' @ gs_Name gs @ '' deleted'')]
              (expectDeletion build (gs_Name gs) s1), ch)
      | Some err \<Rightarrow> (s1, ch @ (if IsConflict err then [] else [err])))"
proof (cases e)
  case None
  with assms show ?thesis
    by (intro exI [of _ "4"] exI [of _ "DFinished gs"])
      (simp add: eval_nat_numeral log_effects_def expectDeletion_def)
next
  case (Some err)
  with assms show ?thesis
    by (intro exI [of _ "if IsConflict err then 1 else 2"] exI [of _ "if IsConflict err then DConflict gs else DFailed err gs"])
      (simp add: numeral_2_eq_2)
qed

lemma deleteAll_scheduled:
  assumes "deleteAll api build xs s = (s', es)"
    and "mset (filter (\<lambda>q. \<not> deleterDone q) rs) = mset (map DStart xs)"
    and "length ch + length xs \<le> cap"
  shows "\<exists>ms p. pool_runs (deleterStep api build cap) (\<lambda>q. False) env ms
      \<lparr>waiting = [], routines = rs, shared = (s, ch)\<rparr> p \<and> waited deleterDone p \<and> shared p = (s', ch @ es)"
  using assms
proof (induction xs arbitrary: s es rs ch)
  case Nil
  then have "list_all deleterDone rs" by (auto simp: list_all_iff filter_empty_conv)
  with Nil show ?case
    by (intro exI [of _ "[]"] exI [of _ "\<lparr>waiting = [], routines = rs, shared = (s, ch)\<rparr>"])
      (simp add: pool_stay waited_def)
next
  case (Cons gs xs)
  let ?run = "pool_runs (deleterStep api build cap) (\<lambda>q. False) env"
  have "DStart gs \<in> set rs" using mset_eq_setD [OF Cons.prems(2)] by auto
  then obtain us vs where rs: "rs = us @ DStart gs # vs" by (auto simp: in_set_conv_decomp)
  obtain s1 e where d: "deleteGameServer api gs s = (s1, e)" by fastforce
  define err where "err = (case e of Some x \<Rightarrow> if IsConflict x then [] else [x] | None \<Rightarrow> [])"
  define s2 where "s2 = (case e of Some x \<Rightarrow> s1 | None \<Rightarrow> log_effects [Inc GameServersDeletedCounter [build],
      Event ''GameServer deleted'' (''GameServer '' @ gs_Name gs @ '' deleted'')] (expectDeletion build (gs_Name gs) s1))"
  have "length ch < cap" using Cons.prems(3) by simp
  from delete_alone [OF d this, of build "length us"] obtain n q where q: "deleterDone q"
    and a: "alone (deleterStep api build cap) (\<lambda>q. False) (length us) n (DStart gs, (s, ch)) = Some (q, (s2, ch @ err))"
    by (cases e) (auto simp: err_def s2_def)
  obtain ms where ms: "?run ms \<lparr>waiting = [], routines = rs, shared = (s, ch)\<rparr>
      \<lparr>waiting = [], routines = us @ q # vs, shared = (s2, ch @ err)\<rparr>"
    using run_alone [OF a, where rs' = vs and env = env and W = "[]"] rs by (auto simp: list_ex_iff)
  obtain es2 where r: "deleteAll api build xs s2 = (s', es2)" and es: "es = err @ es2"
    using Cons.prems(1) d by (cases e) (auto simp: err_def s2_def Let_def split: prod.splits if_splits)
  have "length err \<le> 1" by (simp add: err_def split: option.split)
  with Cons.prems rs q Cons.IH [OF r, of "us @ q # vs" "ch @ err"] obtain ms' p where p: "?run ms' \<lparr>waiting = [], routines = us @ q # vs, shared = (s2, ch @ err)\<rparr> p"
    "waited deleterDone p" "shared p = (s', (ch @ err) @ es2)" by auto
  from pool_runs_append [OF ms p(1)] p(2,3) es show ?case by auto
qed

lemma deletes_scheduled:
  assumes "permutes_lists (ba_schedule api)"
    and "(if 0 < n then deleteNonActiveGameServers api (gsb_Name gsb) gss n s else (s, None)) = (s1, e)"
  shows "\<exists>es. deletes_to api gsb gss n s s1 es \<and> e = (case es of [] \<Rightarrow> None | x # _ \<Rightarrow> Some x)"
proof (cases "0 < n")
  case False
  with assms(2) show ?thesis by (intro exI [of _ "[]"]) (auto intro: deletes_none)
next
  case True
  let ?ds = "ba_schedule api (pickDeletions n (ba_sort api gss))" and ?x = "(s, [] :: api_error list)"
  obtain es where d: "deleteAll api (gsb_Name gsb) ?ds s = (s1, es)" "e = (case es of [] \<Rightarrow> None | x # _ \<Rightarrow> Some x)"
    using assms(2) True by (auto simp: deleteNonActiveGameServers_def Let_def split: prod.splits)
  have m: "mset ?ds = mset (pickDeletions n (ba_sort api gss))" using assms(1) by (simp add: permutes_lists_def)
  have "length ?ds \<le> nat n" using mset_eq_length [OF m] by (simp add: pickDeletions_eq)
  moreover have "filter (\<lambda>q. \<not> deleterDone q) (deletionJobs api gss n) = deletionJobs api gss n"
    by (auto simp: deletionJobs_def filter_map comp_def)
  ultimately obtain ms p where p: "deletionRuns api gsb n ms \<lparr>waiting = [], routines = deletionJobs api gss n, shared = ?x\<rparr> p"
    "waited deleterDone p" "shared p = (s1, es)"
    using deleteAll_scheduled [OF d(1), of "deletionJobs api gss n" "[]" "nat n" "others gsb"] m
    by (auto simp: deletionJobs_def)
  obtain ms0 where "deletionRuns api gsb n ms0 (start_pool (deletionJobs api gss n) ?x)
      \<lparr>waiting = [], routines = deletionJobs api gss n, shared = ?x\<rparr>"
    using spawn_all [of "deleterStep api (gsb_Name gsb) (nat n)" "others gsb" "deletionJobs api gss n" "[]" ?x]
    by (auto simp: start_pool_def)
  from deletes_some [OF True pool_runs_append [OF this p(1)] p(2,3)] d(2) show ?thesis by blast
qed

lemma scale_scheduled:
  assumes "permutes_lists (ba_schedule api)" and "scale api cfg gsb gss c s = (s', r)"
  shows "(r \<noteq> RCrash \<longrightarrow> scales_to api cfg gsb gss c s s' r) \<and>
    (r = RCrash \<longrightarrow> (\<exists>s''. scales_to api cfg gsb gss c s s'' RCrash))"
proof -
  let ?n = "deletionAmount cfg (gsb_Spec gsb) c"
  obtain s1 e where d: "(if 0 < ?n then deleteNonActiveGameServers api (gsb_Name gsb) gss ?n s else (s, None)) = (s1, e)"
    by fastforce
  from deletes_scheduled [OF assms(1) d] obtain es where es: "deletes_to api gsb gss ?n s s1 es"
    "e = (case es of [] \<Rightarrow> None | x # _ \<Rightarrow> Some x)" by blast
  show ?thesis
  proof (cases es)
    case (Cons err es')
    with es d assms(2) show ?thesis by (auto simp: scale_def Let_def intro: scales_delete_error)
  next
    case Nil
    then have D: "deletes_to api gsb gss ?n s s1 []" and e: "e = None" using es by simp_all
    show ?thesis
    proof (cases "MaxNumberOfGameServersToAdd cfg < 0")
      case True
      with d e assms(2) have "r = RCrash" by (simp add: scale_def Let_def createMissing_def)
      with scales_no_channel [OF D True] show ?thesis by blast
    next
      case False
      have "\<exists>ms p. creationRuns api cfg gsb ms (start_pool (creationJobs cfg (gsb_Spec gsb) c) (s1, [])) p \<and>
        (case createLoop api cfg gsb c 0 s1 of
           None \<Rightarrow> CPanicked \<in> set (routines p)
         | Some (s', es) \<Rightarrow> waited creatorDone p \<and> shared p = (s', es))"
        using createLoop_scheduled [of "[]" 0 "[]" "nat (MaxNumberOfGameServersToAdd cfg)" cfg
            "creationJobs cfg (gsb_Spec gsb) c" gsb c api "others gsb" s1]
        by (simp add: start_pool_def creationJobs_eq cong: option.case_cong)
      then obtain ms p where run: "creationRuns api cfg gsb ms (start_pool (creationJobs cfg (gsb_Spec gsb) c) (s1, [])) p"
        and p: "case createLoop api cfg gsb c 0 s1 of None \<Rightarrow> CPanicked \<in> set (routines p)
          | Some (s', es) \<Rightarrow> waited creatorDone p \<and> shared p = (s', es)" by blast
      have M: "createMissing api cfg gsb c s1 = createLoop api cfg gsb c 0 s1" using False by (simp add: createMissing_def)
      show ?thesis
      proof (cases "createLoop api cfg gsb c 0 s1")
        case None
        with d e assms(2) M have "r = RCrash" by (simp add: scale_def Let_def)
        moreover from None p have "CPanicked \<in> set (routines p)" by simp
        ultimately show ?thesis using scales_panic [OF D _ run] False by auto
      next
        case (Some q)
        obtain s2 es2 where q: "createLoop api cfg gsb c 0 s1 = Some (s2, es2)" using Some by (cases q) simp
        with p have w: "waited creatorDone p" "shared p = (s2, es2)" by simp_all
        show ?thesis
        proof (cases es2)
          case Nil
          with d e assms(2) M q have u: "updateStatus api gsb c s2 = (s', r)" by (simp add: scale_def Let_def)
          from scales_update [OF D _ run w(1) _ u] w(2) Nil False show ?thesis
            using conjunct2 [OF updateStatus_extends [OF u]] by auto
        next
          case (Cons err es3)
          with d e assms(2) M q have "s' = s2" "r = RError err" by (simp_all add: scale_def Let_def)
          with scales_create_error [OF D _ run w(1)] w(2) Cons False show ?thesis by auto
        qed
      qed
    qed
  qed
qed


section \<open>Properties\<close>

lemma pick_lowest:
  assumes "sorts_by_state (ba_sort api)" and "mset ds = mset (pickDeletions n (ba_sort api gss))"
  shows "lowest_first gss ds \<and> set ds \<subseteq> {g \<in> set gss. deletable g} \<and>
    length ds = min (nat n) (length (filter deletable gss))"
proof (intro conjI)
  have "lowest_first gss (pickDeletions n (ba_sort api gss))"
    using pickDeletions_lowest [of "api\<lparr>ba_schedule := id\<rparr>" gss n] assms(1) by (simp add: permutes_lists_def)
  then show "lowest_first gss ds"
    unfolding lowest_first_def set_mset_mset [symmetric] assms(2) by simp
  show "set ds \<subseteq> {g \<in> set gss. deletable g}"
    using pick_deletable [OF sorts_permutes [OF assms(1)]] mset_eq_setD [OF assms(2)] by simp
  have "mset (filter deletable (ba_sort api gss)) = mset (filter deletable gss)"
    using sorts_permutes [OF assms(1)] by (simp add: permutes_lists_def)
  then have "length (filter deletable (ba_sort api gss)) = length (filter deletable gss)" by (metis size_mset)
  then show "length ds = min (nat n) (length (filter deletable gss))"
    using mset_eq_length [OF assms(2)] by (simp add: pickDeletions_eq)
qed

lemma updateStatus_underCreation: "updateStatus api gsb c s = (s', r) \<Longrightarrow> underCreation b s' = underCreation b s"
  by (auto simp: updateStatus_def Let_def underCreation_def log_effects_def split: prod.splits option.splits if_splits)

lemma scales_to_done:
  assumes "sorts_by_state (ba_sort api)" and "scales_to api cfg gsb gss c s s' RDone"
  obtains ds gs ps where
    "b_calls s' = b_calls s @ map versionedDelete ds @ map CallCreate gs @ map CallPatchStatus ps"
    and "lowest_first gss ds \<and> set ds \<subseteq> {g \<in> set gss. deletable g} \<and>
      length ds = min (nat (deletionAmount cfg (gsb_Spec gsb) c)) (length (filter deletable gss))"
    and "list_all (createdFrom gsb) gs" and "length gs = creationCount cfg (gsb_Spec gsb) c"
    and "gs_Name ` set gs \<subseteq> underCreation gsb s'"
  using assms(2)
proof cases
  case (scales_update s1 ms p s2)
  obtain ds where ds: "b_calls s1 = b_calls s @ map versionedDelete ds"
    "mset ds = mset (pickDeletions (deletionAmount cfg (gsb_Spec gsb) c) (ba_sort api gss))"
    by (rule deletion_outcome [OF scales_update(1)])
  obtain gs where gs: "b_calls s2 = b_calls s1 @ map CallCreate gs" "list_all (createdFrom gsb) gs"
    "length gs = creationCount cfg (gsb_Spec gsb) c"
    "underCreation gsb s2 = underCreation gsb s1 \<union> gs_Name ` set gs"
    by (rule creation_outcome [OF scales_update(3-5)])
  from updateStatus_extends [OF scales_update(6)] obtain cs
    where cs: "b_calls s' = b_calls s2 @ cs" "\<forall>x \<in> set cs. \<exists>b. x = CallPatchStatus b"
    by (auto simp: extends_def)
  then have "\<exists>ps. cs = map CallPatchStatus ps" by (simp add: ex_map_conv)
  then obtain ps where ps: "cs = map CallPatchStatus ps" by blast
  show thesis
    by (rule that [OF _ pick_lowest [OF assms(1) ds(2)] gs(2,3)])
      (use ds(1) gs(1,4) cs(1) ps updateStatus_underCreation [OF scales_update(6)] in auto)
qed

lemma concurrent_cases:
  assumes "ba_getBuild api (b_world s) ns n = Inr gsb" and "\<not> stopsReconciling gsb"
    and "checkExpectations api gsb s = (s1, Inr True)" and "ba_listOwned api (b_world s) ns n = Inr gss"
    and "concurrent_Reconcile api cfg ns n s s' r"
  obtains (count_fails) e where "countLoop api (gsb_Name gsb) gss zero_counts s1 = (s', Inl e)" "r = RError (ApiErr e)"
  | (scaled) s2 where "countLoop api (gsb_Name gsb) gss zero_counts s1 = (s2, Inr (countsOf gss))"
    "scales_to api cfg gsb gss (countsOf gss) s2 s' r"
    "b_calls s2 = b_calls s @ map (\<lambda>g. CallDelete g None) (filter (\<lambda>g. ended (classify g)) gss)"
proof -
  obtain s2 q where q: "countLoop api (gsb_Name gsb) gss zero_counts s1 = (s2, q)" by fastforce
  note same = checkExpectations_same [OF assms(3)]
  show thesis
  proof (cases q)
    case (Inl e)
    with assms q same show thesis by (intro count_fails) (auto simp: concurrent_Reconcile_def)
  next
    case (Inr c)
    with assms q same have "scales_to api cfg gsb gss c s2 s' r" by (simp add: concurrent_Reconcile_def)
    with countLoop_ok [OF q [unfolded Inr]] same q Inr show thesis by (intro scaled) auto
  qed
qed


text \<open>The round of \<open>Build_Controller\<close> is one of the schedules; where it panics, a schedule does.\<close>

lemma round_scheduled:
  assumes "permutes_lists (ba_schedule api)" and "build_Reconcile api cfg ns n s = (s', r)"
  shows "(r \<noteq> RCrash \<longrightarrow> concurrent_Reconcile api cfg ns n s s' r) \<and>
    (r = RCrash \<longrightarrow> (\<exists>s''. concurrent_Reconcile api cfg ns n s s'' RCrash))"
proof -
  note S = scale_scheduled [OF assms(1)]
  have "concurrent_Reconcile api cfg ns n s s' r" if "r \<noteq> RCrash"
    using assms(2) S that
    by (auto simp: build_Reconcile_def concurrent_Reconcile_def split: sum.splits if_splits prod.splits bool.splits)
  moreover have "\<exists>s''. concurrent_Reconcile api cfg ns n s s'' RCrash" if "r = RCrash"
    using assms(2)
  proof (cases rule: build_Reconcile_cases)
    case early
    with that show ?thesis by simp
  next
    case (listed gsb s1 gss s2 q)
    with that obtain c where "q = Inr c" "scale api cfg gsb gss c s2 = (s', RCrash)" by (cases q) auto
    moreover from this S obtain s'' where "scales_to api cfg gsb gss c s2 s'' RCrash" by blast
    ultimately show ?thesis
      using listed checkExpectations_same [OF listed(2)] by (intro exI [of _ s'']) (simp add: concurrent_Reconcile_def)
  qed
  ultimately show ?thesis by blast
qed


text \<open>
  C23: the waits of a reconciliation end. In any schedule the goroutines of the creations make at most six
  moves for each GameServer that is missing, those of the deletions at most five for each that is
  deleted, however often others come between; and as long as one of them is not done, one of them
  can move, since a full channel never holds one back. Only a panic ends them before.
\<close>

theorem goroutines_end:
  assumes "creationRuns api cfg gsb ms (start_pool (creationJobs cfg (gsb_Spec gsb) c) (s, [])) p"
    and "deletionRuns api gsb n ns (start_pool (deletionJobs api gss n) (t, [])) d"
  shows "own_moves ms \<le> 6 * creationCount cfg (gsb_Spec gsb) c \<and>
    (waited creatorDone p \<or> CPanicked \<in> set (routines p) \<or>
      (\<exists>m p'. m \<noteq> Others \<and> creationRuns api cfg gsb (ms @ [m]) (start_pool (creationJobs cfg (gsb_Spec gsb) c) (s, [])) p')) \<and>
    own_moves ns \<le> 5 * nat n \<and>
    (waited deleterDone d \<or>
      (\<exists>m d'. m \<noteq> Others \<and> deletionRuns api gsb n (ns @ [m]) (start_pool (deletionJobs api gss n) (t, [])) d'))"
proof (intro conjI)
  show "own_moves ms \<le> 6 * creationCount cfg (gsb_Spec gsb) c"
    using creations.started(3) [OF assms(1)] by (simp add: creationJobs_eq sum_list_replicate)
  have "own_moves ns \<le> 5 * length (pickDeletions n (ba_sort api gss))"
    using deletions.started(3) [OF assms(2)] by (simp add: deletionJobs_def comp_def sum_list_triv)
  also have "\<dots> \<le> 5 * nat n" by (simp add: pickDeletions_eq)
  finally show "own_moves ns \<le> 5 * nat n" .
  show "waited creatorDone p \<or> CPanicked \<in> set (routines p) \<or>
      (\<exists>m p'. m \<noteq> Others \<and> creationRuns api cfg gsb (ms @ [m]) (start_pool (creationJobs cfg (gsb_Spec gsb) c) (s, [])) p')"
  proof (cases "CPanicked \<in> set (routines p) \<or> pool_stuck (creatorStep api gsb (nat (MaxNumberOfGameServersToAdd cfg))) p")
    case True
    with creation_unblocked [OF assms(1)] show ?thesis by blast
  next
    case False
    then have "\<not> list_ex (\<lambda>q. q = CPanicked) (routines p)" by (simp add: list_ex_iff)
    with False obtain m p' where "creations.steps api gsb (nat (MaxNumberOfGameServersToAdd cfg)) m p p'" "m \<noteq> Others"
      using pool_progress [where crashed = "\<lambda>q. q = CPanicked" and env = "others gsb"] by metis
    with pool_runs_append [OF assms(1) pool_one] show ?thesis by blast
  qed
  show "waited deleterDone d \<or>
      (\<exists>m d'. m \<noteq> Others \<and> deletionRuns api gsb n (ns @ [m]) (start_pool (deletionJobs api gss n) (t, [])) d')"
  proof (cases "pool_stuck (deleterStep api (gsb_Name gsb) (nat n)) d")
    case True
    with deletion_unblocked [OF assms(2)] show ?thesis by blast
  next
    case False
    then obtain m d' where "deletions.steps api gsb (nat n) m d d'" "m \<noteq> Others"
      using pool_progress [where crashed = "\<lambda>q. False" and env = "others gsb"] by (metis list_ex_iff)
    with pool_runs_append [OF assms(2) pool_one] show ?thesis by blast
  qed
qed

theorem goroutines_end_witness:
  "\<exists>m p'. m \<noteq> Others \<and>
     creationRuns (mem_build_api mem_build) mem_config mem_build [m]
       (start_pool (creationJobs mem_config (gsb_Spec mem_build) zero_counts) (mem_state [], [])) p'"
proof -
  let ?api = "mem_build_api mem_build" and ?p = "start_pool (creationJobs mem_config (gsb_Spec mem_build) zero_counts)
      (mem_state [], [] :: build_error list)"
  have "creationRuns ?api mem_config mem_build [] ?p ?p" "deletionRuns ?api mem_build 0 []
      (start_pool (deletionJobs ?api [] 0) (mem_state [], [])) (start_pool (deletionJobs ?api [] 0) (mem_state [], []))"
    by (rule pool_stay)+
  note stops = goroutines_end [of ?api mem_build mem_config "[]" zero_counts "mem_state []" ?p 0 "[]" "[]"
      "mem_state []" "start_pool (deletionJobs ?api [] 0) (mem_state [], [])", OF this]
  have "waited creatorDone ?p \<or> CPanicked \<in> set (routines ?p) \<or>
      (\<exists>m p'. m \<noteq> Others \<and> creationRuns ?api mem_config mem_build ([] @ [m]) ?p p')"
    by (rule stops [THEN conjunct2, THEN conjunct1])
  moreover have "creationCount mem_config (gsb_Spec mem_build) zero_counts = 1"
    by (simp add: creationCount_def mem_config_def zero_counts_def nonActive_def)
  then have "waiting ?p = [CStart]" "routines ?p = []" by (simp_all add: start_pool_def creationJobs_eq)
  ultimately show ?thesis by (simp add: waited_def)
qed

end
