(* ===== verification/Scale_Down_Races.thy ===== *)
theory Scale_Down_Races
  imports Build_Goroutines Allocation_Api
begin

text \<open>
  The allocation service and the build controller on the same GameServers. Both act on what a cache showed
  them: the one takes a StandingBy GameServer for a session, the other deletes StandingBy ones that are too many. The
  patch and the deletion carry the version they were decided on (\<open>deleteGameServer\<close> of
  \<open>gameserverbuild_controller.go\<close>, \<open>MergeFromWithOptimisticLock\<close> of \<open>allocation_api_server.go\<close>), so that at most one of
  them succeeds. The deletion of an unhealthy GameServer carries none, and the allocation does not look at the health.
\<close>

section \<open>Deletions with a precondition\<close>

text \<open>What the API server promises of a deletion with the version as a precondition.\<close>

definition conditional_delete ::
    "('w \<Rightarrow> gs_store) \<Rightarrow> ('w \<Rightarrow> GameServer \<Rightarrow> string option \<Rightarrow> 'w \<times> api_error option) \<Rightarrow> bool" where
  "conditional_delete cur del \<longleftrightarrow>
     (\<forall>w g v w' r. del w g (Some v) = (w', r) \<longrightarrow>
        (case r of
           Some e \<Rightarrow> cur w' = cur w
         | None \<Rightarrow> (\<exists>h. cur w (gsKey g) = Some h \<and> om_ResourceVersion (gs_Meta h) = v \<and>
             cur w' = (cur w)(gsKey g := None))))"

lemma conditional_deleteGameServer:
  assumes "conditional_delete cur (ba_delete api)" and "deleteGameServer api g s = (s', r)"
    and "is_version versions g" and "store_consistent versions (cur (b_world s))"
  shows "case r of Some e \<Rightarrow> cur (b_world s') = cur (b_world s)
    | None \<Rightarrow> cur (b_world s) (gsKey g) = Some g \<and> cur (b_world s') = (cur (b_world s))(gsKey g := None)"
proof -
  obtain w where d: "ba_delete api (b_world s) g (Some (om_ResourceVersion (gs_Meta g))) = (w, r)" and w: "b_world s' = w"
    using assms(2) by (auto simp: deleteGameServer_def call_delete_def Let_def split: prod.splits)
  note C = assms(1) [unfolded conditional_delete_def, rule_format, OF d]
  show ?thesis
  proof (cases r)
    case (Some e)
    with C w show ?thesis by simp
  next
    case None
    with C obtain h where h: "cur (b_world s) (gsKey g) = Some h" "om_ResourceVersion (gs_Meta h) = om_ResourceVersion (gs_Meta g)"
      "cur w = (cur (b_world s))(gsKey g := None)" by auto
    from assms(4) [unfolded store_consistent_def, rule_format, OF h(1)] have k: "gsKey h = gsKey g" "is_version versions h"
      by simp_all
    from k(2) assms(3) have "h = g" unfolding is_version_def k(1) h(2) by simp
    with None h w show ?thesis by simp
  qed
qed

lemma deleterStep_store:
  assumes "conditional_delete cur (ba_delete api)" and "deleterStep api build cap i q (s, ch) = Some (q', (s', ch'))"
    and "is_version versions (deleterGS q)" and "store_consistent versions (cur (b_world s))"
  shows "cur (b_world s') = cur (b_world s) \<or>
    (cur (b_world s) (gsKey (deleterGS q)) = Some (deleterGS q) \<and>
     cur (b_world s') = (cur (b_world s))(gsKey (deleterGS q) := None))"
proof (cases q)
  case (DStart g)
  obtain s1 r where d: "deleteGameServer api g s = (s1, r)" by fastforce
  note D = conditional_deleteGameServer [OF assms(1) d _ assms(4)]
  from assms(3) DStart have v: "is_version versions g" by simp
  show ?thesis
  proof (cases r)
    case None
    with assms(2) DStart d have "s' = s1" by simp
    with D [OF v] None DStart show ?thesis by simp
  next
    case (Some e)
    with assms(2) DStart d have "s' = s1" by simp
    with D [OF v] Some show ?thesis by simp
  qed
next
  case (DDeleted g)
  with assms(2) show ?thesis by (auto simp: log_effects_def)
next
  case (DCounted g)
  with assms(2) show ?thesis by (auto simp: expectDeletion_def)
next
  case (DExpected g)
  with assms(2) show ?thesis by (auto simp: log_effects_def)
next
  case (DSending e g)
  with assms(2) show ?thesis by (auto split: if_splits)
qed (use assms(2) in simp_all)

text \<open>A try for a GameServer that is gone fails, sends its name back and leaves the cluster as it is.\<close>

lemma removed_not_allocated:
  assumes "optimistic_patch cur (al_patchStatus api)" and "cur (as_world t) (qKey x) = None"
    and "gsq_PopFromQueue (as_queue t) (aa_BuildID args) = (q, Some x)"
  shows "\<exists>e t'. allocLoop api args (Suc m) j err t = allocLoop api args m (Suc j) (Some e) t' \<and>
    as_queue t' = q \<and> as_events t' = as_events t @ [qKey x] \<and> cur (as_world t') = cur (as_world t)"
proof -
  obtain w r where p: "al_patchStatus api (as_world t) (alloc_base x) (alloc_new args (al_now api) x) = (w, r)" by fastforce
  from assms(1) [unfolded optimistic_patch_def, rule_format, OF p] assms(2) obtain e where
    e: "r = Inl e" "cur w = cur (as_world t)" by (cases r) auto
  with p assms(3) show ?thesis
    by (intro exI [of _ e] exI [of _ "emit [Inc (patch_error_metric e) [[]]]
        (t\<lparr>as_queue := q, as_world := w, as_events := as_events t @ [qKey x]\<rparr>)"]) simp
qed

section \<open>Properties\<close>

text \<open>
  C8: scaling down and allocating exclude each other. In any interleaving of the goroutines of a scale-down
  with each other and with the rest of the cluster, a move of one of them removes nothing but a GameServer that is
  still exactly as it was listed, without a state, Initializing or StandingBy: one that became Active in the
  meantime, or changed in any way, stays. And a try of an allocation that pops the queue entry of a GameServer that the
  move removed, before one of that name is there again, changes no GameServer, sends the name back to be reconciled and goes on with the
  next entry, with one try less.
\<close>

theorem scale_down_spares_allocated:
  assumes "conditional_delete cur (ba_delete api)" and "optimistic_patch cur (al_patchStatus aapi)"
    and "permutes_lists (ba_sort api)" and "\<forall>g \<in> set gss. is_version versions g"
    and "deletionRuns api gsb n ms (start_pool (deletionJobs api gss n) (s, [])) p"
    and "store_consistent versions (cur (b_world (fst (shared p))))"
    and "pool_step (deleterStep api (gsb_Name gsb) (nat n)) (\<lambda>q. False) (others gsb) (Routine i) p p'"
  defines "before \<equiv> cur (b_world (fst (shared p)))" and "after \<equiv> cur (b_world (fst (shared p')))"
  shows "(after = before \<or> (\<exists>g \<in> set gss. deletable g \<and> before (gsKey g) = Some g \<and> after = before(gsKey g := None))) \<and>
    (\<forall>k h. before k = Some h \<and> gs_State h = GameServerStateActive \<longrightarrow> after k = Some h) \<and>
    (\<forall>x args m j err t q. after (qKey x) = None \<and> cur (as_world t) (qKey x) = after (qKey x) \<and>
       gsq_PopFromQueue (as_queue t) (aa_BuildID args) = (q, Some x) \<longrightarrow>
       (\<exists>e t'. allocLoop aapi args (Suc m) j err t = allocLoop aapi args m (Suc j) (Some e) t' \<and>
          as_queue t' = q \<and> as_events t' = as_events t @ [qKey x] \<and> cur (as_world t') = cur (as_world t)))"
proof -
  from assms(7) obtain q y where i: "i < length (routines p)"
    and w: "deleterStep api (gsb_Name gsb) (nat n) i (routines p ! i) (shared p) = Some (q, y)" and p': "shared p' = y"
    by (cases rule: pool_step.cases) auto
  let ?g = "deleterGS (routines p ! i)"
  have "?g \<in> set (map deleterGS (routines p @ waiting p))" using i by simp
  then have g: "?g \<in> set gss" "deletable ?g"
    unfolding deletion_routines [OF assms(5)] using pick_deletable [OF assms(3), of n gss] by blast+
  then have v: "is_version versions ?g" using assms(4) by blast
  obtain s1 ch s2 ch2 where s: "shared p = (s1, ch)" "y = (s2, ch2)" by fastforce
  from deleterStep_store [OF assms(1) w [unfolded s] v] assms(6) s p'
  have A: "after = before \<or> (before (gsKey ?g) = Some ?g \<and> after = before(gsKey ?g := None))"
    by (simp add: before_def after_def)
  have "after k = Some h" if "before k = Some h" "gs_State h = GameServerStateActive" for k h
  proof -
    have "h \<noteq> ?g" using that(2) g(2) by (auto simp: deletable_def)
    with A that(1) show ?thesis by auto
  qed
  moreover have "\<exists>e t'. allocLoop aapi args (Suc m) j err t = allocLoop aapi args m (Suc j) (Some e) t' \<and>
      as_queue t' = q \<and> as_events t' = as_events t @ [qKey x] \<and> cur (as_world t') = cur (as_world t)"
    if "after (qKey x) = None" "cur (as_world t) (qKey x) = after (qKey x)" "gsq_PopFromQueue (as_queue t) (aa_BuildID args) = (q, Some x)"
    for x args m j err t q
    using removed_not_allocated [OF assms(2) _ that(3)] that(1,2) by simp
  ultimately show ?thesis using A g by blast
qed

text \<open>
  C18: the health of a GameServer does not keep it from an allocation. One that stands by and was marked
  Unhealthy, as the node agent marks a silent one, is put in the queue like any other; an allocation that takes it makes it Active
  with the session and leaves it Unhealthy; and the next count of the build controller deletes it, Active as it
  is, without a precondition on its version.
\<close>

theorem unhealthy_server_allocated:
  assumes "gs_State gs = GameServerStateStandingBy" and "gs_Health gs = GameServerUnhealthy"
    and "gsq_inv q" and "gs_Name gs \<notin> q_Name ` set_mset (contents q (gss_BuildID (gs_Spec gs)))"
    and "alloc_Reconcile (gs_Namespace gs) (gs_Name gs) (Inr gs) q = (q', e)"
    and "optimistic_patch cur (al_patchStatus aapi)" and "aa_SessionID args \<noteq> []"
    and "cur w (gsKey gs) = Some gs"
    and "al_patchStatus aapi w (alloc_base (forQueue gs)) (alloc_new args now (forQueue gs)) = (w', Inr g')"
    and "call_delete bapi g' None s = (s1, None)" and "countLoop bapi build (g' # gss) c s = (s', r)"
  shows "e = None \<and> forQueue gs \<in># contents q' (gss_BuildID (gs_Spec gs)) \<and>
    cur w' (gsKey gs) = Some g' \<and> gs_State g' = GameServerStateActive \<and>
    st_SessionID (gs_Status g') = aa_SessionID args \<and> gs_Health g' = GameServerUnhealthy \<and>
    (\<exists>cs. b_calls s' = b_calls s @ CallDelete g' None # cs)"
proof -
  from assms(5) have q: "e = None" "q' = gsq_PushToQueue q (forQueue gs)"
    using assms(1) by (simp_all add: alloc_Reconcile_def)
  have "q_BuildID (forQueue gs) = gss_BuildID (gs_Spec gs)" "q_Name (forQueue gs) = gs_Name gs"
    by (simp_all add: forQueue_def)
  with gsq_push(2) [OF assms(3), of "forQueue gs"] assms(4) have "forQueue gs \<in># contents q' (gss_BuildID (gs_Spec gs))"
    by (simp add: q(2))
  moreover from assms(6) [unfolded optimistic_patch_def, rule_format, OF assms(9)]
  obtain g where g: "cur w (gsKey gs) = Some g" "gs_Spec g' = gs_Spec g" "om_Labels (gs_Meta g') = om_Labels (gs_Meta g)"
    "gsKey g' = gsKey gs" "cur w' = (cur w)(gsKey gs \<mapsto> g')"
    "gs_Status g' = merge_status (gs_Status (alloc_base (forQueue gs))) (gs_Status (alloc_new args now (forQueue gs))) (gs_Status g)"
    by (auto simp: forQueue_def)
  then have "g = gs" using assms(8) by simp
  with merge_alloc [OF assms(7) g(6) g(2) g(3)] g(4) have a: "allocated args now gs g'" by simp
  moreover from a assms(2) have "classify g' = GsUnhealthy" by (simp add: allocated_def classify_def)
  then have "countLoop bapi build gss (countGameServer GsUnhealthy c)
      (log_effects (endEffects build g' GsUnhealthy) (expectDeletion build (gs_Name g') s1)) = (s', r)"
    using assms(10,11) by (simp add: ended_def Let_def)
  from countLoop_extends [OF this] have "\<exists>cs. b_calls s' = b_calls s1 @ cs" by (auto simp: extends_def)
  with call_delete_calls [OF assms(10)] have "\<exists>cs. b_calls s' = b_calls s @ CallDelete g' None # cs" by auto
  ultimately show ?thesis using q(1) g(5) assms(2) by (simp add: allocated_def)
qed

section \<open>A cluster with one GameServer\<close>

definition mem_delete :: "gs_store \<Rightarrow> GameServer \<Rightarrow> string option \<Rightarrow> gs_store \<times> api_error option" where
  "mem_delete m g v =
     (case m (gsKey g) of
        None \<Rightarrow> (m, Some (NotFound ''not found''))
      | Some h \<Rightarrow>
          if v = None \<or> v = Some (om_ResourceVersion (gs_Meta h)) then (m(gsKey g := None), None)
          else (m, Some (Conflict ''conflict'')))"

lemma mem_delete_conditional: "conditional_delete id mem_delete"
  by (auto simp: conditional_delete_def mem_delete_def split: option.splits if_splits)

definition store_build_api :: "gs_store build_api" where
  "store_build_api =
     \<lparr>ba_getBuild = (\<lambda>w ns n. Inr mem_build), ba_getGS = (\<lambda>w ns n. Inl (NotFound ''not found'')),
      ba_listOwned = (\<lambda>w ns n. Inr []), ba_delete = mem_delete, ba_create = (\<lambda>w g. (w, None)),
      ba_patchStatus = (\<lambda>w a b. (w, None)), ba_order = (\<lambda>S. []), ba_sort = id, ba_schedule = id,
      ba_rng = (\<lambda>i k n. 0)\<rparr>"

definition store_state :: "gs_store \<Rightarrow> gs_store build_state" where
  "store_state m =
     \<lparr>b_world = m, b_expectations = NewGameServerExpectations, b_crashes = Map.empty,
      b_ports = small_registry, b_effects = [], b_calls = []\<rparr>"

text \<open>The GameServer of \<open>standing_gs\<close> after an allocation.\<close>

definition taken_gs :: GameServer where
  "taken_gs = standing_gs\<lparr>gs_Meta := (gs_Meta standing_gs)\<lparr>om_ResourceVersion := ''2''\<rparr>,
     gs_Status := (gs_Status standing_gs)\<lparr>st_State := GameServerStateActive, st_SessionID := sample_session\<rparr>\<rparr>"

definition two_versions :: versions where
  "two_versions k v = (if k = (''default'', ''gs'') then (if v = ''1'' then Some standing_gs
     else if v = ''2'' then Some taken_gs else None) else None)"

theorem scale_down_spares_allocated_witness:
  "\<exists>p'. pool_step (deleterStep store_build_api ''build'' 1) (\<lambda>q. False) (others mem_build) (Routine 0)
       \<lparr>waiting = [], routines = [DStart standing_gs], shared = (store_state [(''default'', ''gs'') \<mapsto> taken_gs], [])\<rparr> p' \<and>
     b_world (fst (shared p')) (''default'', ''gs'') = Some taken_gs"
proof -
  let ?m = "[(''default'', ''gs'') \<mapsto> taken_gs]"
  let ?s = "(store_state ?m, [] :: api_error list)"
  let ?begun = "start_pool (deletionJobs store_build_api [standing_gs] 1) ?s"
  let ?p = "\<lparr>waiting = [], routines = [DStart standing_gs], shared = ?s\<rparr>"
  have j: "deletionJobs store_build_api [standing_gs] 1 = [DStart standing_gs]"
    by (simp add: deletionJobs_def deletable_def store_build_api_def)
  have p0: "?begun = \<lparr>waiting = [DStart standing_gs], routines = [], shared = ?s\<rparr>" by (simp only: start_pool_def j)
  have "pool_step (deleterStep store_build_api ''build'' 1) (\<lambda>q. False) (others mem_build) Spawner
      ?begun (?begun\<lparr>waiting := [], routines := routines ?begun @ [DStart standing_gs]\<rparr>)"
    by (rule pool_spawn) (simp_all add: p0)
  then have "pool_step (deleterStep store_build_api ''build'' 1) (\<lambda>q. False) (others mem_build) Spawner ?begun ?p"
    unfolding p0 by simp
  from pool_one [OF this] have run: "deletionRuns store_build_api mem_build 1 [Spawner] ?begun ?p" by simp
  have key: "gsKey taken_gs = (''default'', ''gs'')" "om_ResourceVersion (gs_Meta taken_gs) = ''2''"
    by (simp_all add: taken_gs_def)
  then have sc: "store_consistent two_versions (id (b_world (fst (shared ?p))))"
    by (simp add: store_consistent_def is_version_def two_versions_def store_state_def)
  have v: "\<forall>g \<in> set [standing_gs]. is_version two_versions g" by (simp add: is_version_def two_versions_def)
  have "\<exists>q y. deleterStep store_build_api ''build'' 1 0 (DStart standing_gs) ?s = Some (q, y)"
    by (auto split: prod.splits option.splits)
  then obtain q y where w: "deleterStep store_build_api ''build'' 1 0 (DStart standing_gs) ?s = Some (q, y)" by blast
  have step: "pool_step (deleterStep store_build_api ''build'' 1) (\<lambda>q. False) (others mem_build) (Routine 0) ?p (?p\<lparr>routines := [q], shared := y\<rparr>)"
    using pool_run [where p = ?p and i = 0 and work = "deleterStep store_build_api ''build'' 1" and env = "others mem_build"
        and crashed = "\<lambda>q. False" and q = q and s = y] w by simp
  have opt: "optimistic_patch id (al_patchStatus sample_api)" by (simp add: sample_listing mem_patch_optimistic)
  have del: "conditional_delete id (ba_delete store_build_api)" "permutes_lists (ba_sort store_build_api)"
    by (simp_all add: store_build_api_def mem_delete_conditional permutes_lists_def)
  have step': "pool_step (deleterStep store_build_api (gsb_Name mem_build) (nat 1)) (\<lambda>q. False) (others mem_build) (Routine 0) ?p
      (?p\<lparr>routines := [q], shared := y\<rparr>)" using step by simp
  have "gs_State taken_gs = GameServerStateActive" by (simp add: taken_gs_def)
  with scale_down_spares_allocated [OF del(1) opt del(2) v run sc step'] step show ?thesis
    by (intro exI [of _ "?p\<lparr>routines := [q], shared := y\<rparr>"]) (simp add: store_state_def)
qed

text \<open>The same GameServer, marked Unhealthy before the allocation.\<close>

definition silent_gs :: GameServer where
  "silent_gs = standing_gs\<lparr>gs_Status := (gs_Status standing_gs)\<lparr>st_Health := GameServerUnhealthy\<rparr>\<rparr>"

theorem unhealthy_server_allocated_witness:
  "\<exists>g' w' s'. mem_patch [(''default'', ''gs'') \<mapsto> silent_gs] (alloc_base (forQueue silent_gs))
       (alloc_new \<lparr>aa_SessionID = sample_session, aa_BuildID = sample_build_id, aa_SessionCookie = [], aa_InitialPlayers = []\<rparr> 7
         (forQueue silent_gs)) = (w', Inr g') \<and>
     gs_State g' = GameServerStateActive \<and> st_SessionID (gs_Status g') = sample_session \<and>
     fst (countLoop store_build_api ''build'' [g'] zero_counts (store_state w')) = s' \<and>
     CallDelete g' None \<in> set (b_calls s')"
proof -
  let ?args = "\<lparr>aa_SessionID = sample_session, aa_BuildID = sample_build_id, aa_SessionCookie = [], aa_InitialPlayers = []\<rparr>"
  let ?m = "[(''default'', ''gs'') \<mapsto> silent_gs]"
  have k: "gsKey silent_gs = (''default'', ''gs'')" "gs_State silent_gs = GameServerStateStandingBy"
    "gs_Health silent_gs = GameServerUnhealthy" "om_ResourceVersion (gs_Meta silent_gs) = ''1''"
    by (simp_all add: silent_gs_def)
  obtain w' g' where p: "mem_patch ?m (alloc_base (forQueue silent_gs)) (alloc_new ?args 7 (forQueue silent_gs)) = (w', Inr g')"
    and g': "gsKey g' = (''default'', ''gs'')" "w' = [(''default'', ''gs'') \<mapsto> g']"
    using k by (simp add: mem_patch_def forQueue_def alloc_base_def zero_GameServer_def zero_Meta_def Let_def)
  have P: "al_patchStatus sample_api ?m (alloc_base (forQueue silent_gs)) (alloc_new ?args 7 (forQueue silent_gs)) = (w', Inr g')"
    using p by (simp add: sample_listing)
  have opt: "optimistic_patch id (al_patchStatus sample_api)" by (simp add: sample_listing mem_patch_optimistic)
  obtain q e where r: "alloc_Reconcile (gs_Namespace silent_gs) (gs_Name silent_gs) (Inr silent_gs) NewGameServersQueue = (q, e)" by fastforce
  obtain s1 where d: "call_delete store_build_api g' None (store_state w') = (s1, None)"
    using g' by (auto simp: call_delete_def store_build_api_def mem_delete_def store_state_def)
  obtain s' x where l: "countLoop store_build_api ''build'' [g'] zero_counts (store_state w') = (s', x)" by fastforce
  have q0: "gsq_inv NewGameServersQueue" "gs_Name silent_gs \<notin> q_Name ` set_mset (contents NewGameServersQueue (gss_BuildID (gs_Spec silent_gs)))"
    by (simp_all add: gsq_inv_def NewGameServersQueue_def contents_def)
  have c: "id ?m (gsKey silent_gs) = Some silent_gs" using k by simp
  have a: "aa_SessionID ?args \<noteq> []" by simp
  from unhealthy_server_allocated [OF k(2,3) q0 r opt a c P d l] show ?thesis
    using p l by (intro exI [of _ g'] exI [of _ w'] exI [of _ s']) auto
qed

end
