(* ===== verification/GameServer_Controller.thy ===== *)
theory GameServer_Controller
  imports Controller_Utils Node_Utils Metrics
begin

text \<open>
  The GameServer reconciler of \<open>pkg/operator/controllers/gameserver_controller.go\<close>: it creates
  the pod of a GameServer, reports the exit of its process, marks the pod as safe or unsafe to
  evict and fills in the address, the ports and the node. The API server is a parameter over an
  abstract world; a patch returns the object as the server stored it, which replaces the local
  copy. Every call is recorded with its outcome.
\<close>

section \<open>Parameters and state\<close>

datatype gs_call =
    CreatePod Pod "api_error option"
  | PatchStatus GameServer GameServer "api_error option"  \<comment> \<open>the base and the new object\<close>
  | PatchLabels GameServer GameServer "api_error option"
  | PatchPod Pod Pod "api_error option"

datatype gs_result = GDone | GError api_error

record 'w gs_api =
  ga_getGS :: "'w \<Rightarrow> string \<Rightarrow> string \<Rightarrow> api_error + GameServer"
  ga_getPod :: "'w \<Rightarrow> string \<Rightarrow> string \<Rightarrow> api_error + Pod"
  ga_getNode :: "'w \<Rightarrow> string \<Rightarrow> api_error + Node"
  ga_now :: "'w \<Rightarrow> int"
  ga_createPod :: "'w \<Rightarrow> Pod \<Rightarrow> 'w \<times> api_error option"
  ga_patchStatus :: "'w \<Rightarrow> GameServer \<Rightarrow> GameServer \<Rightarrow> 'w \<times> (api_error + GameServer)"
  ga_patchLabels :: "'w \<Rightarrow> GameServer \<Rightarrow> GameServer \<Rightarrow> 'w \<times> (api_error + GameServer)"
  ga_patchPod :: "'w \<Rightarrow> Pod \<Rightarrow> Pod \<Rightarrow> 'w \<times> (api_error + Pod)"
  ga_imageLinux :: string
  ga_imageWin :: string

record 'w gs_state =
  g_world :: 'w
  podsUnderCreation :: "string set"
  g_ports :: PortRegistry
  g_events :: "effect list"
  g_calls :: "gs_call list"

definition err_of :: "('a + 'b) \<Rightarrow> 'a option" where
  "err_of r = (case r of Inl e \<Rightarrow> Some e | Inr _ \<Rightarrow> None)"

definition log_event :: "string \<Rightarrow> string \<Rightarrow> 'w gs_state \<Rightarrow> 'w gs_state" where
  "log_event reason message s = s\<lparr>g_events := g_events s @ [Event reason message]\<rparr>"

definition call_createPod :: "'w gs_api \<Rightarrow> Pod \<Rightarrow> 'w gs_state \<Rightarrow> 'w gs_state \<times> api_error option" where
  "call_createPod api pod s =
     (let (w, e) = ga_createPod api (g_world s) pod
      in (s\<lparr>g_world := w, g_calls := g_calls s @ [CreatePod pod e]\<rparr>, e))"

definition call_patchStatus ::
    "'w gs_api \<Rightarrow> GameServer \<Rightarrow> GameServer \<Rightarrow> 'w gs_state \<Rightarrow> 'w gs_state \<times> (api_error + GameServer)" where
  "call_patchStatus api old new s =
     (let (w, r) = ga_patchStatus api (g_world s) old new
      in (s\<lparr>g_world := w, g_calls := g_calls s @ [PatchStatus old new (err_of r)]\<rparr>, r))"

definition call_patchLabels ::
    "'w gs_api \<Rightarrow> GameServer \<Rightarrow> GameServer \<Rightarrow> 'w gs_state \<Rightarrow> 'w gs_state \<times> (api_error + GameServer)" where
  "call_patchLabels api old new s =
     (let (w, r) = ga_patchLabels api (g_world s) old new
      in (s\<lparr>g_world := w, g_calls := g_calls s @ [PatchLabels old new (err_of r)]\<rparr>, r))"

definition call_patchPod ::
    "'w gs_api \<Rightarrow> Pod \<Rightarrow> Pod \<Rightarrow> 'w gs_state \<Rightarrow> 'w gs_state \<times> (api_error + Pod)" where
  "call_patchPod api old new s =
     (let (w, r) = ga_patchPod api (g_world s) old new
      in (s\<lparr>g_world := w, g_calls := g_calls s @ [PatchPod old new (err_of r)]\<rparr>, r))"

section \<open>The annotation for the cluster autoscaler\<close>

abbreviation SafeToEvictPodAttribute :: string where
  "SafeToEvictPodAttribute \<equiv> ''cluster-autoscaler.kubernetes.io/safe-to-evict''"

definition FormatBool :: "bool \<Rightarrow> string" where
  "FormatBool b = (if b then ''true'' else ''false'')"

definition withSafeToEvict :: "bool \<Rightarrow> Pod \<Rightarrow> Pod" where
  "withSafeToEvict safe pod =
     pod\<lparr>pod_Meta := (pod_Meta pod)
       \<lparr>om_Annotations := (om_Annotations (pod_Meta pod))(SafeToEvictPodAttribute \<mapsto> FormatBool safe)\<rparr>\<rparr>"

text \<open>The pod that is returned is the caller's copy after the call.\<close>

definition patchPodSafeToEvictAnnotation ::
    "'w gs_api \<Rightarrow> Pod \<Rightarrow> bool \<Rightarrow> 'w gs_state \<Rightarrow> 'w gs_state \<times> (api_error + Pod)" where
  "patchPodSafeToEvictAnnotation api pod safe s = call_patchPod api pod (withSafeToEvict safe pod) s"

definition addSafeToEvictAnnotationIfNecessary ::
    "'w gs_api \<Rightarrow> GameServer \<Rightarrow> Pod \<Rightarrow> 'w gs_state \<Rightarrow> 'w gs_state \<times> (api_error + Pod)" where
  "addSafeToEvictAnnotationIfNecessary api gs pod s =
     (let val = om_Annotations (pod_Meta pod) SafeToEvictPodAttribute
      in if gs_State gs = GameServerStateInitializing \<or> gs_State gs = GameServerStateStandingBy
         then (if val = None then patchPodSafeToEvictAnnotation api pod True s else (s, Inr pod))
         else if gs_State gs = GameServerStateActive
         then (if val = None \<or> val = Some (FormatBool True)
               then patchPodSafeToEvictAnnotation api pod False s else (s, Inr pod))
         else (s, Inr pod))"

section \<open>The parts of the reconciliation\<close>

text \<open>The exit code of the first container that is not ready and has terminated.\<close>

fun firstExit :: "ContainerStatus list \<Rightarrow> int option" where
  "firstExit [] = None"
| "firstExit (cs # css) =
     (if \<not> cs_Ready cs \<and> cs_Terminated cs \<noteq> None then cs_Terminated cs else firstExit css)"

definition setState :: "string \<Rightarrow> GameServer \<Rightarrow> GameServer" where
  "setState st gs = gs\<lparr>gs_Status := (gs_Status gs)\<lparr>st_State := st\<rparr>\<rparr>"

definition processExited ::
    "'w gs_api \<Rightarrow> GameServer \<Rightarrow> int \<Rightarrow> 'w gs_state \<Rightarrow> 'w gs_state \<times> gs_result" where
  "processExited api gs exitCode s =
     (let s1 = log_event ''GameServerProcessExited''
            (''GameServer process exited with code '' @ itoa exitCode) s;
          (s2, r) = call_patchStatus api gs
            (setState (if exitCode = 0 then GameServerStateGameCompleted else GameServerStateCrashed) gs) s1
      in case r of
           Inl e \<Rightarrow> (s2, if IsNotFound e then GDone else GError e)
         | Inr _ \<Rightarrow> (s2, GDone))"

definition withNodeDetails :: "string \<Rightarrow> string \<Rightarrow> int \<Rightarrow> string \<Rightarrow> GameServer \<Rightarrow> GameServer" where
  "withNodeDetails nodeName publicIP age ports gs =
     gs\<lparr>gs_Status := (gs_Status gs)
       \<lparr>st_PublicIP := publicIP, st_Ports := ports, st_NodeAge := age, st_NodeName := nodeName\<rparr>\<rparr>"

text \<open>The result is \<open>None\<close> when the reconciliation goes on, with the GameServer as it then is.\<close>

definition setPublicIP ::
    "'w gs_api \<Rightarrow> GameServer \<Rightarrow> Pod \<Rightarrow> 'w gs_state \<Rightarrow> 'w gs_state \<times> (gs_result + GameServer)" where
  "setPublicIP api gs pod s =
     (if st_PublicIP (gs_Status gs) = '''' then
        if ps_NodeName (pod_Spec pod) = '''' then (s, Inl GDone)
        else (case GetNodeDetails (ga_now api (g_world s)) (ga_getNode api (g_world s)) (ps_NodeName (pod_Spec pod)) of
                Inl e \<Rightarrow> (s, Inl (GError e))
              | Inr (nodeName, publicIP, age) \<Rightarrow>
                  (case call_patchStatus api gs
                       (withNodeDetails nodeName publicIP age (getContainerHostPortTuples pod) gs) s of
                     (s1, Inl e) \<Rightarrow> (s1, Inl (GError e))
                   | (s1, Inr gs') \<Rightarrow> (s1, Inr gs')))
      else (s, Inr gs))"

definition withNodeLabel :: "string \<Rightarrow> GameServer \<Rightarrow> GameServer" where
  "withNodeLabel node gs =
     gs\<lparr>gs_Meta := (gs_Meta gs)\<lparr>om_Labels := (om_Labels (gs_Meta gs))(LabelNodeName \<mapsto> node)\<rparr>\<rparr>"

definition addNodeLabel :: "'w gs_api \<Rightarrow> GameServer \<Rightarrow> Pod \<Rightarrow> 'w gs_state \<Rightarrow> 'w gs_state \<times> gs_result" where
  "addNodeLabel api gs pod s =
     (if om_Labels (gs_Meta gs) LabelNodeName = None then
        (case call_patchLabels api gs (withNodeLabel (ps_NodeName (pod_Spec pod)) gs) s of
           (s1, Inl e) \<Rightarrow> (s1, if IsNotFound e then GDone else GError e)
         | (s1, Inr _) \<Rightarrow> (s1, GDone))
      else (s, GDone))"

definition createThePod :: "'w gs_api \<Rightarrow> GameServer \<Rightarrow> 'w gs_state \<Rightarrow> 'w gs_state \<times> gs_result" where
  "createThePod api gs s =
     (let newPod = NewPodForGameServer gs (ga_imageLinux api) (ga_imageWin api)
      in case call_createPod api newPod s of
           (s1, Some e) \<Rightarrow> (s1, GError e)
         | (s1, None) \<Rightarrow>
             (log_event ''Created'' (''Created new pod '' @ om_Name (pod_Meta newPod) @ '' for GameServer '' @ gs_Name gs)
                (s1\<lparr>podsUnderCreation := insert (gs_Name gs) (podsUnderCreation s1)\<rparr>), GDone))"

definition updateEvent :: "GameServer \<Rightarrow> 'w gs_state \<Rightarrow> 'w gs_state" where
  "updateEvent gs =
     log_event ''Update'' (''Gameserver '' @ gs_Name gs @ '' state is '' @ gs_State gs @ '', health is '' @ gs_Health gs)"

definition podFound :: "'w gs_api \<Rightarrow> GameServer \<Rightarrow> Pod \<Rightarrow> 'w gs_state \<Rightarrow> 'w gs_state \<times> gs_result" where
  "podFound api gs pod s =
     (case firstExit (pod_ContainerStatuses pod) of
        Some exitCode \<Rightarrow> processExited api gs exitCode s
      | None \<Rightarrow>
          (case addSafeToEvictAnnotationIfNecessary api gs pod (updateEvent gs s) of
             (s1, Inl e) \<Rightarrow> (s1, GError e)
           | (s1, Inr pod') \<Rightarrow>
               (case setPublicIP api gs pod' s1 of
                  (s2, Inl r) \<Rightarrow> (s2, r)
                | (s2, Inr gs') \<Rightarrow> addNodeLabel api gs' pod' s2)))"

section \<open>Reconcile\<close>

definition gs_Reconcile ::
    "'w gs_api \<Rightarrow> string \<Rightarrow> string \<Rightarrow> 'w gs_state \<Rightarrow> 'w gs_state \<times> gs_result" where
  "gs_Reconcile api namespace name s =
     (case ga_getGS api (g_world s) namespace name of
        Inl e \<Rightarrow>
          if IsNotFound e
          then (s\<lparr>g_ports := fst (DeregisterPorts (g_ports s) namespace name)\<rparr>, GDone)
          else (s, GError e)
      | Inr gs \<Rightarrow>
          (case ga_getPod api (g_world s) (gs_Namespace gs) (gs_Name gs) of
             Inl e \<Rightarrow>
               if \<not> IsNotFound e then (s, GError e)
               else if gs_Name gs \<in> podsUnderCreation s then (s, GDone)
               else createThePod api gs s
           | Inr pod \<Rightarrow>
               podFound api gs pod (s\<lparr>podsUnderCreation := podsUnderCreation s - {gs_Name gs}\<rparr>)))"

text \<open>The index of pods by owner; \<open>metav1.GetControllerOf\<close> is a parameter.\<close>

definition podOwnerIndex :: "(Pod \<Rightarrow> OwnerReference option) \<Rightarrow> Pod \<Rightarrow> string list" where
  "podOwnerIndex GetControllerOf pod =
     (case GetControllerOf pod of
        None \<Rightarrow> []
      | Some owner \<Rightarrow>
          if or_APIVersion owner \<noteq> apiGVStr \<or> or_Kind owner \<noteq> GameServerKind then []
          else [or_Name owner])"


section \<open>The trace of calls\<close>

text \<open>The calls an operation makes, all of which satisfy \<open>P\<close>.\<close>

definition made :: "(gs_call \<Rightarrow> bool) \<Rightarrow> 'w gs_state \<Rightarrow> 'w gs_state \<Rightarrow> bool" where
  "made P s s' \<longleftrightarrow> (\<exists>cs. g_calls s' = g_calls s @ cs \<and> (\<forall>x \<in> set cs. P x))"

lemma made_refl [intro]: "g_calls s' = g_calls s \<Longrightarrow> made P s s'"
  by (auto simp: made_def)

lemma made_trans [trans]: "made P s s1 \<Longrightarrow> made P s1 s2 \<Longrightarrow> made P s s2"
  unfolding made_def by (metis Un_iff append.assoc set_append)

lemma made_snoc: "g_calls s' = g_calls s @ [x] \<Longrightarrow> P x \<Longrightarrow> made P s s'"
  by (auto simp: made_def)

lemma made_mono: "made P s s' \<Longrightarrow> (\<And>x. P x \<Longrightarrow> Q x) \<Longrightarrow> made Q s s'"
  unfolding made_def by blast

lemma log_event_simps [simp]:
  "g_calls (log_event r m s) = g_calls s" "podsUnderCreation (log_event r m s) = podsUnderCreation s"
  "g_world (log_event r m s) = g_world s" "g_ports (log_event r m s) = g_ports s"
  "g_calls (updateEvent gs s) = g_calls s" "podsUnderCreation (updateEvent gs s) = podsUnderCreation s"
  "g_world (updateEvent gs s) = g_world s"
  by (simp_all add: log_event_def updateEvent_def)

lemma call_simps:
  "call_createPod api pod s = (s1, e) \<Longrightarrow>
     g_calls s1 = g_calls s @ [CreatePod pod e] \<and> podsUnderCreation s1 = podsUnderCreation s"
  "call_patchStatus api old new s = (s1, r) \<Longrightarrow>
     g_calls s1 = g_calls s @ [PatchStatus old new (err_of r)] \<and> podsUnderCreation s1 = podsUnderCreation s"
  "call_patchLabels api old new s = (s1, r) \<Longrightarrow>
     g_calls s1 = g_calls s @ [PatchLabels old new (err_of r)] \<and> podsUnderCreation s1 = podsUnderCreation s"
  "call_patchPod api old' new' s = (s1, r') \<Longrightarrow>
     g_calls s1 = g_calls s @ [PatchPod old' new' (err_of r')] \<and> podsUnderCreation s1 = podsUnderCreation s"
  by (auto simp: call_createPod_def call_patchStatus_def call_patchLabels_def call_patchPod_def
      split: prod.splits)

lemma err_of_simps [simp]: "err_of (Inl e) = Some e" "err_of (Inr x) = None"
  by (simp_all add: err_of_def)

lemma NewPod_name [simp]: "om_Name (pod_Meta (NewPodForGameServer gs l w)) = gs_Name gs"
  by (simp add: NewPodForGameServer_def Let_def attachInitContainer_def attachToContainers_def
      createDataVolumeOnPod_def setPodRestartPolicyToNever_def podSkeleton_def)

section \<open>What each part may change\<close>

text \<open>The patches, given the container statuses of the pod that was found.\<close>

definition exitPatch :: "ContainerStatus list \<Rightarrow> gs_call \<Rightarrow> bool" where
  "exitPatch css x \<longleftrightarrow> (\<exists>gs code e. firstExit css = Some code \<and>
     x = PatchStatus gs (setState (if code = 0 then GameServerStateGameCompleted else GameServerStateCrashed) gs) e)"

definition detailsPatch :: "gs_call \<Rightarrow> bool" where
  "detailsPatch x \<longleftrightarrow> (\<exists>gs node ip age ports e. st_PublicIP (gs_Status gs) = '''' \<and>
     x = PatchStatus gs (withNodeDetails node ip age ports gs) e)"

definition labelPatch :: "gs_call \<Rightarrow> bool" where
  "labelPatch x \<longleftrightarrow> (\<exists>gs node e. om_Labels (gs_Meta gs) LabelNodeName = None \<and>
     x = PatchLabels gs (withNodeLabel node gs) e)"

definition evictPatch :: "gs_call \<Rightarrow> bool" where
  "evictPatch x \<longleftrightarrow> (\<exists>pod safe e. x = PatchPod pod (withSafeToEvict safe pod) e)"

lemma patch_intros:
  "firstExit css = Some code \<Longrightarrow> exitPatch css
     (PatchStatus gs (setState (if code = 0 then GameServerStateGameCompleted else GameServerStateCrashed) gs) e)"
  "st_PublicIP (gs_Status gs) = '''' \<Longrightarrow> detailsPatch (PatchStatus gs (withNodeDetails node ip age ports gs) e)"
  "om_Labels (gs_Meta gs) LabelNodeName = None \<Longrightarrow> labelPatch (PatchLabels gs (withNodeLabel node gs) e)"
  "evictPatch (PatchPod pod (withSafeToEvict safe pod) e)"
  unfolding exitPatch_def detailsPatch_def labelPatch_def evictPatch_def by blast+

lemma safeToEvict_made:
  "addSafeToEvictAnnotationIfNecessary api gs pod s = (s1, r) \<Longrightarrow>
   made evictPatch s s1 \<and> podsUnderCreation s1 = podsUnderCreation s"
  unfolding addSafeToEvictAnnotationIfNecessary_def patchPodSafeToEvictAnnotation_def Let_def
  by (auto split: if_splits dest!: call_simps(4) intro: made_snoc patch_intros)

lemma setPublicIP_made:
  "setPublicIP api gs pod s = (s1, r) \<Longrightarrow> made detailsPatch s s1 \<and> podsUnderCreation s1 = podsUnderCreation s"
  unfolding setPublicIP_def
  by (auto split: if_splits sum.splits prod.splits dest!: call_simps(2) intro: made_snoc patch_intros)

lemma addNodeLabel_made:
  "addNodeLabel api gs pod s = (s1, r) \<Longrightarrow> made labelPatch s s1 \<and> podsUnderCreation s1 = podsUnderCreation s"
  unfolding addNodeLabel_def
  by (auto split: if_splits sum.splits prod.splits dest!: call_simps(3) intro: made_snoc patch_intros)

lemma processExited_made:
  assumes "processExited api gs code s = (s1, r)" and "firstExit css = Some code"
  shows "made (exitPatch css) s s1 \<and> podsUnderCreation s1 = podsUnderCreation s"
proof -
  let ?gs' = "setState (if code = 0 then GameServerStateGameCompleted else GameServerStateCrashed) gs"
  obtain s2 q where q: "call_patchStatus api gs ?gs'
      (log_event ''GameServerProcessExited'' (''GameServer process exited with code '' @ itoa code) s) = (s2, q)"
    by fastforce
  with assms(1) have "s1 = s2" by (cases q) (simp_all add: processExited_def Let_def)
  with call_simps(2) [OF q] show ?thesis
    by (auto intro!: made_snoc patch_intros(1) [OF assms(2)])
qed

definition podPatch :: "ContainerStatus list \<Rightarrow> gs_call \<Rightarrow> bool" where
  "podPatch css x \<longleftrightarrow> exitPatch css x \<or>
     firstExit css = None \<and> (detailsPatch x \<or> labelPatch x \<or> evictPatch x)"

lemma podFound_made:
  assumes "podFound api gs pod s = (s1, r)"
  shows "made (podPatch (pod_ContainerStatuses pod)) s s1 \<and> podsUnderCreation s1 = podsUnderCreation s"
proof (cases "firstExit (pod_ContainerStatuses pod)")
  case (Some code)
  with assms have "processExited api gs code s = (s1, r)" by (simp add: podFound_def)
  from processExited_made [OF this Some] show ?thesis by (auto intro: made_mono simp: podPatch_def)
next
  case None
  let ?P = "podPatch (pod_ContainerStatuses pod)"
  have sub: "evictPatch x \<Longrightarrow> ?P x" "detailsPatch x \<Longrightarrow> ?P x" "labelPatch x \<Longrightarrow> ?P x" for x
    using None by (simp_all add: podPatch_def)
  obtain s2 q where q: "addSafeToEvictAnnotationIfNecessary api gs pod (updateEvent gs s) = (s2, q)" by fastforce
  from safeToEvict_made [OF q] have 1: "made ?P s s2" "podsUnderCreation s2 = podsUnderCreation s"
    by (auto simp: made_def intro: sub)
  show ?thesis
  proof (cases q)
    case (Inl e)
    with assms q 1 None show ?thesis by (simp add: podFound_def)
  next
    case (Inr pod')
    obtain s3 x where x: "setPublicIP api gs pod' s2 = (s3, x)" by fastforce
    from setPublicIP_made [OF x] have 2: "made ?P s2 s3" "podsUnderCreation s3 = podsUnderCreation s2"
      by (auto intro: made_mono sub)
    have 3: "made ?P s s3" by (rule made_trans [OF 1(1) 2(1)])
    show ?thesis
    proof (cases x)
      case (Inl e)
      with assms q x 1 2 3 Inr None show ?thesis by (simp add: podFound_def)
    next
      case (Inr gs')
      with assms q x \<open>q = Inr pod'\<close> None have "addNodeLabel api gs' pod' s3 = (s1, r)" by (simp add: podFound_def)
      from addNodeLabel_made [OF this] have "made ?P s3 s1" "podsUnderCreation s1 = podsUnderCreation s3"
        by (auto intro: made_mono sub)
      with 1 2 3 show ?thesis by (auto intro: made_trans)
    qed
  qed
qed


section \<open>At most one pod\<close>

fun createdNamed :: "string \<Rightarrow> gs_call \<Rightarrow> bool" where
  "createdNamed n (CreatePod pod e) = (e = None \<and> om_Name (pod_Meta pod) = n)"
| "createdNamed n _ = False"

definition podsCreated :: "string \<Rightarrow> 'w gs_state \<Rightarrow> nat" where
  "podsCreated n s = length (filter (createdNamed n) (g_calls s))"

text \<open>
  Steps during which the cache does not show a pod named \<open>n\<close>: reconciliations of any
  GameServer, and any change of the rest of the world.
\<close>

inductive unseen_step :: "'w gs_api \<Rightarrow> string \<Rightarrow> 'w gs_state \<Rightarrow> 'w gs_state \<Rightarrow> bool"
  for api :: "'w gs_api" and n :: string where
  unseen_world: "unseen_step api n s (s\<lparr>g_world := w\<rparr>)"
| unseen_reconcile: "\<forall>ns pod. ga_getPod api (g_world s) ns n \<noteq> Inr pod \<Longrightarrow>
     gs_Reconcile api ns m s = (s', r) \<Longrightarrow> unseen_step api n s s'"

inductive_cases unseen_stepE: "unseen_step api n s s'"

definition podBudget :: "string \<Rightarrow> 'w gs_state \<Rightarrow> nat" where
  "podBudget n s = podsCreated n s + (if n \<in> podsUnderCreation s then 0 else 1)"

lemma podPatch_not_created: "podPatch css x \<Longrightarrow> \<not> createdNamed n x"
  by (cases x) (auto simp: podPatch_def exitPatch_def detailsPatch_def labelPatch_def evictPatch_def)

lemma podsCreated_patches: "made (podPatch css) s s' \<Longrightarrow> podsCreated n s' = podsCreated n s"
  using podPatch_not_created unfolding made_def podsCreated_def by (auto simp: filter_empty_conv) blast

lemma createThePod_budget:
  assumes "createThePod api gs s = (s', r)" and "gs_Name gs \<notin> podsUnderCreation s"
  shows "podBudget n s' = podBudget n s"
proof -
  let ?pod = "NewPodForGameServer gs (ga_imageLinux api) (ga_imageWin api)"
  obtain s1 e where c: "call_createPod api ?pod s = (s1, e)" by fastforce
  note C = call_simps(1) [OF c]
  show ?thesis
  proof (cases e)
    case (Some err)
    with assms c C show ?thesis by (auto simp: createThePod_def podBudget_def podsCreated_def)
  next
    case None
    with assms(1) c C have "podsUnderCreation s' = insert (gs_Name gs) (podsUnderCreation s)"
      "g_calls s' = g_calls s @ [CreatePod ?pod None]" by (auto simp: createThePod_def Let_def)
    with assms(2) show ?thesis by (auto simp: podBudget_def podsCreated_def)
  qed
qed

lemma gs_Reconcile_cases:
  assumes "gs_Reconcile api ns m s = (s', r)"
  obtains (quiet) "g_calls s' = g_calls s" "podsUnderCreation s' = podsUnderCreation s"
  | (create) gs e where "ga_getGS api (g_world s) ns m = Inr gs"
    "ga_getPod api (g_world s) (gs_Namespace gs) (gs_Name gs) = Inl e" "IsNotFound e"
    "gs_Name gs \<notin> podsUnderCreation s" "createThePod api gs s = (s', r)"
  | (found) gs pod where "ga_getGS api (g_world s) ns m = Inr gs"
    "ga_getPod api (g_world s) (gs_Namespace gs) (gs_Name gs) = Inr pod"
    "podFound api gs pod (s\<lparr>podsUnderCreation := podsUnderCreation s - {gs_Name gs}\<rparr>) = (s', r)"
proof (cases "ga_getGS api (g_world s) ns m")
  case (Inl e)
  with assms show ?thesis by (intro quiet) (auto simp: gs_Reconcile_def split: if_splits)
next
  case gs: (Inr gs)
  show ?thesis
  proof (cases "ga_getPod api (g_world s) (gs_Namespace gs) (gs_Name gs)")
    case (Inl e)
    with gs assms show ?thesis
      by (cases "IsNotFound e"; cases "gs_Name gs \<in> podsUnderCreation s")
        (auto simp: gs_Reconcile_def intro: quiet create)
  next
    case (Inr pod)
    with gs assms show ?thesis by (intro found) (simp_all add: gs_Reconcile_def)
  qed
qed

lemma unseen_budget: "unseen_step api n s s' \<Longrightarrow> podBudget n s' = podBudget n s"
proof (erule unseen_stepE)
  fix w assume "s' = s\<lparr>g_world := w\<rparr>"
  then show ?thesis by (simp add: podBudget_def podsCreated_def)
next
  fix ns m r
  assume unseen: "\<forall>ns pod. ga_getPod api (g_world s) ns n \<noteq> Inr pod"
    and rec: "gs_Reconcile api ns m s = (s', r)"
  from rec show ?thesis
  proof (cases rule: gs_Reconcile_cases)
    case quiet
    then show ?thesis by (simp add: podBudget_def podsCreated_def)
  next
    case (create gs e)
    then show ?thesis by (intro createThePod_budget)
  next
    case (found gs pod)
    with unseen have "gs_Name gs \<noteq> n" by auto
    with podFound_made [OF found(3)] podsCreated_patches [of "pod_ContainerStatuses pod" _ s' n] show ?thesis
      by (auto simp: podBudget_def podsCreated_def)
  qed
qed

section \<open>Properties\<close>


fun permitted :: "'w gs_api \<Rightarrow> GameServer \<Rightarrow> (api_error + Pod) \<Rightarrow> gs_call \<Rightarrow> bool" where
  "permitted api gs view (CreatePod pod e) =
     ((\<exists>e'. view = Inl e' \<and> IsNotFound e') \<and>
      pod = NewPodForGameServer gs (ga_imageLinux api) (ga_imageWin api))"
| "permitted api gs view (PatchStatus old new e) =
     (st_Health (gs_Status new) = st_Health (gs_Status old) \<and>
      st_SessionID (gs_Status new) = st_SessionID (gs_Status old) \<and>
      st_InitialPlayers (gs_Status new) = st_InitialPlayers (gs_Status old) \<and>
      (gs_State new \<noteq> gs_State old \<longrightarrow>
         (\<exists>pod code. view = Inr pod \<and> firstExit (pod_ContainerStatuses pod) = Some code \<and>
            gs_State new = (if code = 0 then GameServerStateGameCompleted else GameServerStateCrashed))) \<and>
      (st_PublicIP (gs_Status new) \<noteq> st_PublicIP (gs_Status old) \<longrightarrow> st_PublicIP (gs_Status old) = ''''))"
| "permitted api gs view (PatchLabels old new e) =
     (gs_Status new = gs_Status old \<and> om_Labels (gs_Meta old) LabelNodeName = None \<and>
      (\<exists>node. om_Labels (gs_Meta new) = (om_Labels (gs_Meta old))(LabelNodeName \<mapsto> node)))"
| "permitted api gs view (PatchPod old new e) = (\<exists>safe. new = withSafeToEvict safe old)"

lemma podPatch_permitted: "podPatch (pod_ContainerStatuses pod) x \<Longrightarrow> permitted api gs (Inr pod) x"
  unfolding podPatch_def
  by (elim disjE conjE)
    (auto simp: exitPatch_def detailsPatch_def labelPatch_def evictPatch_def setState_def
      withNodeDetails_def withNodeLabel_def)


text \<open>
  What a complete set-up does: the autoscaler's annotation of a pod whose GameServer is Active is
  not left at true.
\<close>

lemma active_not_evictable:
  assumes "addSafeToEvictAnnotationIfNecessary api gs pod s = (s1, Inr pod')"
    and "gs_State gs = GameServerStateActive"
    and "\<And>w old new w' x. ga_patchPod api w old new = (w', Inr x) \<Longrightarrow> x = new"
  shows "\<exists>v. om_Annotations (pod_Meta pod') SafeToEvictPodAttribute = Some v \<and> v \<noteq> FormatBool True"
proof (cases "om_Annotations (pod_Meta pod) SafeToEvictPodAttribute = None \<or>
    om_Annotations (pod_Meta pod) SafeToEvictPodAttribute = Some (FormatBool True)")
  case True
  with assms(1,2) have "call_patchPod api pod (withSafeToEvict False pod) s = (s1, Inr pod')"
    by (auto simp: addSafeToEvictAnnotationIfNecessary_def patchPodSafeToEvictAnnotation_def Let_def)
  then have "pod' = withSafeToEvict False pod"
    by (auto simp: call_patchPod_def Let_def split: prod.splits dest: assms(3))
  then show ?thesis by (simp add: withSafeToEvict_def FormatBool_def)
next
  case False
  with assms(1,2) have "pod' = pod" by (auto simp: addSafeToEvictAnnotationIfNecessary_def Let_def)
  with False show ?thesis by auto
qed

section \<open>A concrete API server, for the witnesses\<close>

text \<open>The cache shows the GameServers but, as long as the flag of the world is false, no pod.\<close>

definition lagging_pod :: Pod where
  "lagging_pod = (NewPodForGameServer zero_GameServer ''linux'' ''win'')
     \<lparr>pod_ContainerStatuses := [\<lparr>cs_Ready = False, cs_Terminated = Some 1\<rparr>]\<rparr>"

definition lagging_api :: "bool gs_api" where
  "lagging_api =
     \<lparr>ga_getGS = (\<lambda>w ns n. Inr (zero_GameServer\<lparr>gs_Meta := zero_Meta\<lparr>om_Name := n, om_Namespace := ns\<rparr>\<rparr>)),
      ga_getPod = (\<lambda>w ns n. if w then Inr lagging_pod else Inl (NotFound ''not found'')),
      ga_getNode = (\<lambda>w n. Inl (NotFound ''not found'')), ga_now = (\<lambda>w. 0),
      ga_createPod = (\<lambda>w p. (w, None)), ga_patchStatus = (\<lambda>w old new. (w, Inr new)),
      ga_patchLabels = (\<lambda>w old new. (w, Inr new)), ga_patchPod = (\<lambda>w old new. (w, Inr new)),
      ga_imageLinux = ''linux'', ga_imageWin = ''win''\<rparr>"

definition start_state :: "bool \<Rightarrow> bool gs_state" where
  "start_state w = \<lparr>g_world = w, podsUnderCreation = {}, g_ports = small_registry, g_events = [], g_calls = []\<rparr>"



end
