(* ===== verification/Deep_Copy.thy ===== *)
theory Deep_Copy
  imports Api_Types
begin

text \<open>
  The copies of \<open>pkg/operator/api/v1alpha1/zz_generated.deepcopy.go\<close>, on an explicit memory: the other theories
  treat a custom resource as a value, although in the code it is a struct whose slices and pointers
  lead to memory that another struct may share. Here a struct is as it lies in memory, \<open>DeepCopyInto\<close>
  allocates what its source leads to, and reading a struct gives the value of \<open>Api_Types\<close>. Two structs are
  independent when no write through one changes what the other reads; this is what a patch base
  (\<open>client.MergeFrom(x.DeepCopy())\<close>) and the copied template of a new GameServer rely on. The copies of
  \<open>ObjectMeta\<close>, \<open>ListMeta\<close> and \<open>PodTemplateSpec\<close> are Kubernetes' and parameters.
\<close>

section \<open>Memory\<close>

type_synonym addr = nat

text \<open>An array with its length; the zero value of a slice or a pointer is \<open>nil\<close>.\<close>

type_synonym slice = "(addr \<times> nat) option"
type_synonym pointer = "addr option"

record TypeMeta =
  tm_Kind :: string
  tm_APIVersion :: string

record 't GameServerSpecM =
  mss_Template :: 't
  mss_TitleID :: string
  mss_BuildID :: string
  mss_PortsToExpose :: slice
  mss_BuildMetadata :: slice

record GameServerStatusM =
  mst_Health :: string
  mst_State :: string
  mst_PublicIP :: string
  mst_Ports :: string
  mst_SessionID :: string
  mst_SessionCookie :: string
  mst_InitialPlayers :: slice
  mst_NodeAge :: int
  mst_NodeName :: string
  mst_ReachedInitializingOn :: pointer
  mst_ReachedStandingByOn :: pointer
  mst_ReachedActiveOn :: pointer

record ('m, 't) GameServerM =
  mgs_TypeMeta :: TypeMeta
  mgs_ObjectMeta :: 'm
  mgs_Spec :: "'t GameServerSpecM"
  mgs_Status :: GameServerStatusM

record 't GameServerBuildSpecM =
  mbs_StandingBy :: int
  mbs_Max :: int
  mbs_Template :: 't
  mbs_TitleID :: string
  mbs_BuildID :: string
  mbs_PortsToExpose :: slice
  mbs_CrashesToMarkUnhealthy :: pointer
  mbs_BuildMetadata :: slice

record ('m, 't) GameServerBuildM =
  mgb_TypeMeta :: TypeMeta
  mgb_ObjectMeta :: 'm
  mgb_Spec :: "'t GameServerBuildSpecM"
  mgb_Status :: GameServerBuildStatus

record GameServerDetailSpecM =
  mds_ConnectedPlayersCount :: int
  mds_ConnectedPlayers :: slice

record 'm GameServerDetailM =
  mgd_TypeMeta :: TypeMeta
  mgd_ObjectMeta :: 'm
  mgd_Spec :: GameServerDetailSpecM

record 'l ListM =
  mls_TypeMeta :: TypeMeta
  mls_ListMeta :: 'l
  mls_Items :: slice

text \<open>What an array holds; a pointer leads to an array of one. \<open>EOther\<close> is Kubernetes' own memory.\<close>

datatype ('m, 't, 'l, 'k) elem =
    EInt int
  | EString string
  | ETime int
  | EItem BuildMetadataItem
  | EGameServer "('m, 't) GameServerM"
  | EBuild "('m, 't) GameServerBuildM"
  | EDetail "'m GameServerDetailM"
  | EList "'l ListM"
  | EOther 'k

record ('m, 't, 'l, 'k) memory =
  next_addr :: addr
  cells :: "addr \<rightharpoonup> ('m, 't, 'l, 'k) elem list"

definition memory_ok :: "('m, 't, 'l, 'k) memory \<Rightarrow> bool" where
  "memory_ok h \<longleftrightarrow> (\<forall>a \<in> dom (cells h). a < next_addr h)"

text \<open>\<open>make\<close> and \<open>new\<close>, with the contents that are copied in, and a write through an address.\<close>

definition alloc :: "('m, 't, 'l, 'k) elem list \<Rightarrow> ('m, 't, 'l, 'k) memory \<Rightarrow> ('m, 't, 'l, 'k) memory \<times> addr" where
  "alloc es h = (h\<lparr>next_addr := Suc (next_addr h), cells := (cells h)(next_addr h \<mapsto> es)\<rparr>, next_addr h)"

definition write_at :: "addr \<Rightarrow> ('m, 't, 'l, 'k) elem list \<Rightarrow> ('m, 't, 'l, 'k) memory \<Rightarrow> ('m, 't, 'l, 'k) memory" where
  "write_at a es h = h\<lparr>cells := (cells h)(a \<mapsto> es)\<rparr>"

definition sliced :: "('m, 't, 'l, 'k) memory \<Rightarrow> slice \<Rightarrow> ('m, 't, 'l, 'k) elem list" where
  "sliced h s = (case s of None \<Rightarrow> [] | Some (a, n) \<Rightarrow> (case cells h a of None \<Rightarrow> [] | Some es \<Rightarrow> take n es))"

definition pointed :: "('m, 't, 'l, 'k) memory \<Rightarrow> pointer \<Rightarrow> ('m, 't, 'l, 'k) elem option" where
  "pointed h p = (case p of None \<Rightarrow> None | Some a \<Rightarrow>
     (case cells h a of Some (e # _) \<Rightarrow> Some e | _ \<Rightarrow> None))"

definition slice_addrs :: "slice \<Rightarrow> addr set" where
  "slice_addrs s = (case s of None \<Rightarrow> {} | Some (a, _) \<Rightarrow> {a})"

section \<open>What a deep copy promises\<close>

text \<open>
  A copier with the value that its structs stand for and the addresses they lead to. The copy stands for the
  same value, leads only to memory that was not there before, leaves that memory alone, and a value depends
  on nothing but the contents of the addresses it leads to.
\<close>

type_synonym ('m, 't, 'l, 'k, 'a) copier = "('m, 't, 'l, 'k) memory \<Rightarrow> 'a \<Rightarrow> ('m, 't, 'l, 'k) memory \<times> 'a"

locale deep_copier =
  fixes copy :: "('m, 't, 'l, 'k, 'a) copier"
    and val :: "('m, 't, 'l, 'k) memory \<Rightarrow> 'a \<Rightarrow> 'v"
    and addrs :: "('m, 't, 'l, 'k) memory \<Rightarrow> 'a \<Rightarrow> addr set"
  assumes copy_val: "memory_ok h \<Longrightarrow> addrs h x \<subseteq> dom (cells h) \<Longrightarrow> copy h x = (h', x') \<Longrightarrow> val h' x' = val h x"
    and copy_grows: "memory_ok h \<Longrightarrow> addrs h x \<subseteq> dom (cells h) \<Longrightarrow> copy h x = (h', x') \<Longrightarrow>
      memory_ok h' \<and> cells h \<subseteq>\<^sub>m cells h' \<and> next_addr h \<le> next_addr h'"
    and copy_fresh: "memory_ok h \<Longrightarrow> addrs h x \<subseteq> dom (cells h) \<Longrightarrow> copy h x = (h', x') \<Longrightarrow>
      addrs h' x' \<subseteq> dom (cells h') \<inter> {next_addr h..<next_addr h'}"
    and val_local: "(\<And>a. a \<in> addrs h x \<Longrightarrow> cells h' a = cells h a) \<Longrightarrow> val h' x = val h x \<and> addrs h' x = addrs h x"
begin

lemma val_grows:
  assumes "addrs h x \<subseteq> dom (cells h)" and "cells h \<subseteq>\<^sub>m cells h'"
  shows "val h' x = val h x" "addrs h' x = addrs h x"
proof -
  have "cells h' a = cells h a" if "a \<in> addrs h x" for a
    using assms that by (metis map_le_def subsetD)
  from val_local [OF this] show "val h' x = val h x" "addrs h' x = addrs h x" by blast+
qed

text \<open>No write through the copy changes the original, and none elsewhere changes the copy.\<close>

lemma copy_independent:
  assumes "memory_ok h" "addrs h x \<subseteq> dom (cells h)" and "copy h x = (h', x')"
  shows "val h' x' = val h x" and "addrs h' x' \<inter> dom (cells h) = {}"
    and "a \<in> addrs h' x' \<Longrightarrow> val (write_at a es h') x = val h x"
    and "a \<notin> addrs h' x' \<Longrightarrow> val (write_at a es h') x' = val h x"
proof -
  note grows = copy_grows [OF assms] and fresh = copy_fresh [OF assms]
  show v: "val h' x' = val h x" by (rule copy_val [OF assms])
  show d: "addrs h' x' \<inter> dom (cells h) = {}" 
  proof (rule ccontr)
    assume "addrs h' x' \<inter> dom (cells h) \<noteq> {}"
    then obtain b where b: "b \<in> addrs h' x'" "b \<in> dom (cells h)" by blast
    from b(1) fresh have "next_addr h \<le> b" by auto
    moreover from b(2) assms(1) have "b < next_addr h" by (auto simp: memory_ok_def)
    ultimately show False by simp
  qed
  note old = val_grows [OF assms(2) conjunct1 [OF conjunct2 [OF grows]]]
  show "val (write_at a es h') x = val h x" if "a \<in> addrs h' x'"
    using val_local [of h' x "write_at a es h'"] old that d assms(2) by (fastforce simp: write_at_def)
  show "val (write_at a es h') x' = val h x" if "a \<notin> addrs h' x'"
  proof -
    have "cells (write_at a es h') b = cells h' b" if "b \<in> addrs h' x'" for b
      using that \<open>a \<notin> addrs h' x'\<close> by (auto simp: write_at_def)
    from val_local [OF this] v show ?thesis by simp
  qed
qed

end


section \<open>The copies\<close>

text \<open>A slice of values without pointers: \<open>make\<close> and \<open>copy\<close>; and a pointer to such a value.\<close>

definition copySlice :: "('m, 't, 'l, 'k, slice) copier" where
  "copySlice h s =
     (case s of None \<Rightarrow> (h, None)
      | Some (a, n) \<Rightarrow> (case alloc (sliced h s) h of (h', b) \<Rightarrow> (h', Some (b, n))))"

definition copyPointer :: "('m, 't, 'l, 'k, pointer) copier" where
  "copyPointer h p =
     (case p of None \<Rightarrow> (h, None)
      | Some a \<Rightarrow> (case alloc (case pointed h p of None \<Rightarrow> [] | Some e \<Rightarrow> [e]) h of (h', b) \<Rightarrow> (h', Some b)))"

definition GameServerSpec_DeepCopyInto ::
    "('m, 't, 'l, 'k, 't) copier \<Rightarrow> ('m, 't, 'l, 'k, 't GameServerSpecM) copier" where
  "GameServerSpec_DeepCopyInto copyTemplate h spec =
     (case copyTemplate h (mss_Template spec) of (h1, template) \<Rightarrow>
      case copySlice h1 (mss_PortsToExpose spec) of (h2, ports) \<Rightarrow>
      case copySlice h2 (mss_BuildMetadata spec) of (h3, metadata) \<Rightarrow>
        (h3, spec\<lparr>mss_Template := template, mss_PortsToExpose := ports, mss_BuildMetadata := metadata\<rparr>))"

definition GameServerStatus_DeepCopyInto :: "('m, 't, 'l, 'k, GameServerStatusM) copier" where
  "GameServerStatus_DeepCopyInto h st =
     (case copySlice h (mst_InitialPlayers st) of (h1, players) \<Rightarrow>
      case copyPointer h1 (mst_ReachedInitializingOn st) of (h2, initializing) \<Rightarrow>
      case copyPointer h2 (mst_ReachedStandingByOn st) of (h3, standingBy) \<Rightarrow>
      case copyPointer h3 (mst_ReachedActiveOn st) of (h4, active) \<Rightarrow>
        (h4, st\<lparr>mst_InitialPlayers := players, mst_ReachedInitializingOn := initializing,
           mst_ReachedStandingByOn := standingBy, mst_ReachedActiveOn := active\<rparr>))"

definition GameServer_DeepCopyInto ::
    "('m, 't, 'l, 'k, 'm) copier \<Rightarrow> ('m, 't, 'l, 'k, 't) copier \<Rightarrow> ('m, 't, 'l, 'k, ('m, 't) GameServerM) copier" where
  "GameServer_DeepCopyInto copyMeta copyTemplate h gs =
     (case copyMeta h (mgs_ObjectMeta gs) of (h1, om) \<Rightarrow>
      case GameServerSpec_DeepCopyInto copyTemplate h1 (mgs_Spec gs) of (h2, spec) \<Rightarrow>
      case GameServerStatus_DeepCopyInto h2 (mgs_Status gs) of (h3, st) \<Rightarrow>
        (h3, gs\<lparr>mgs_ObjectMeta := om, mgs_Spec := spec, mgs_Status := st\<rparr>))"

definition GameServerBuildSpec_DeepCopyInto ::
    "('m, 't, 'l, 'k, 't) copier \<Rightarrow> ('m, 't, 'l, 'k, 't GameServerBuildSpecM) copier" where
  "GameServerBuildSpec_DeepCopyInto copyTemplate h spec =
     (case copyTemplate h (mbs_Template spec) of (h1, template) \<Rightarrow>
      case copySlice h1 (mbs_PortsToExpose spec) of (h2, ports) \<Rightarrow>
      case copyPointer h2 (mbs_CrashesToMarkUnhealthy spec) of (h3, crashes) \<Rightarrow>
      case copySlice h3 (mbs_BuildMetadata spec) of (h4, metadata) \<Rightarrow>
        (h4, spec\<lparr>mbs_Template := template, mbs_PortsToExpose := ports, mbs_CrashesToMarkUnhealthy := crashes,
           mbs_BuildMetadata := metadata\<rparr>))"

definition GameServerBuild_DeepCopyInto ::
    "('m, 't, 'l, 'k, 'm) copier \<Rightarrow> ('m, 't, 'l, 'k, 't) copier \<Rightarrow> ('m, 't, 'l, 'k, ('m, 't) GameServerBuildM) copier" where
  "GameServerBuild_DeepCopyInto copyMeta copyTemplate h gsb =
     (case copyMeta h (mgb_ObjectMeta gsb) of (h1, om) \<Rightarrow>
      case GameServerBuildSpec_DeepCopyInto copyTemplate h1 (mgb_Spec gsb) of (h2, spec) \<Rightarrow>
        (h2, gsb\<lparr>mgb_ObjectMeta := om, mgb_Spec := spec\<rparr>))"

definition GameServerDetailSpec_DeepCopyInto :: "('m, 't, 'l, 'k, GameServerDetailSpecM) copier" where
  "GameServerDetailSpec_DeepCopyInto h spec =
     (case copySlice h (mds_ConnectedPlayers spec) of (h1, players) \<Rightarrow> (h1, spec\<lparr>mds_ConnectedPlayers := players\<rparr>))"

definition GameServerDetail_DeepCopyInto ::
    "('m, 't, 'l, 'k, 'm) copier \<Rightarrow> ('m, 't, 'l, 'k, 'm GameServerDetailM) copier" where
  "GameServerDetail_DeepCopyInto copyMeta h gsd =
     (case copyMeta h (mgd_ObjectMeta gsd) of (h1, om) \<Rightarrow>
      case GameServerDetailSpec_DeepCopyInto h1 (mgd_Spec gsd) of (h2, spec) \<Rightarrow>
        (h2, gsd\<lparr>mgd_ObjectMeta := om, mgd_Spec := spec\<rparr>))"

text \<open>The loop over the structs of a slice, and the slice made for them.\<close>

fun copyAll :: "('m, 't, 'l, 'k, 'a) copier \<Rightarrow> ('m, 't, 'l, 'k, 'a list) copier" where
  "copyAll copy h [] = (h, [])"
| "copyAll copy h (x # xs) =
     (case copy h x of (h1, y) \<Rightarrow> case copyAll copy h1 xs of (h2, ys) \<Rightarrow> (h2, y # ys))"

definition copyItems ::
    "('m, 't, 'l, 'k, ('m, 't, 'l, 'k) elem) copier \<Rightarrow> ('m, 't, 'l, 'k, slice) copier" where
  "copyItems copy h items =
     (case items of None \<Rightarrow> (h, None)
      | Some (a, n) \<Rightarrow>
          (case copyAll copy h (sliced h items) of (h1, es) \<Rightarrow>
           case alloc es h1 of (h2, b) \<Rightarrow> (h2, Some (b, n))))"

text \<open>A struct in an array or behind a pointer; memory is typed, so the other cases do not occur.\<close>

fun copyElem ::
    "('m, 't, 'l, 'k, 'm) copier \<Rightarrow> ('m, 't, 'l, 'k, 't) copier \<Rightarrow> ('m, 't, 'l, 'k, ('m, 't, 'l, 'k) elem) copier" where
  "copyElem cm ct h (EGameServer x) = (case GameServer_DeepCopyInto cm ct h x of (h', y) \<Rightarrow> (h', EGameServer y))"
| "copyElem cm ct h (EBuild x) = (case GameServerBuild_DeepCopyInto cm ct h x of (h', y) \<Rightarrow> (h', EBuild y))"
| "copyElem cm ct h (EDetail x) = (case GameServerDetail_DeepCopyInto cm h x of (h', y) \<Rightarrow> (h', EDetail y))"
| "copyElem cm ct h e = (h, e)"

definition List_DeepCopyInto ::
    "('m, 't, 'l, 'k, 'm) copier \<Rightarrow> ('m, 't, 'l, 'k, 't) copier \<Rightarrow> ('m, 't, 'l, 'k, 'l) copier \<Rightarrow>
     ('m, 't, 'l, 'k, 'l ListM) copier" where
  "List_DeepCopyInto cm ct copyListMeta h xs =
     (case copyListMeta h (mls_ListMeta xs) of (h1, lm) \<Rightarrow>
      case copyItems (copyElem cm ct) h1 (mls_Items xs) of (h2, items) \<Rightarrow>
        (h2, xs\<lparr>mls_ListMeta := lm, mls_Items := items\<rparr>))"

text \<open>\<open>DeepCopy\<close> of a pointer to a struct: nothing for \<open>nil\<close>, else a new struct that is written by \<open>DeepCopyInto\<close>.\<close>

fun intoNew ::
    "('m, 't, 'l, 'k, 'm) copier \<Rightarrow> ('m, 't, 'l, 'k, 't) copier \<Rightarrow> ('m, 't, 'l, 'k, 'l) copier \<Rightarrow>
     ('m, 't, 'l, 'k, ('m, 't, 'l, 'k) elem) copier" where
  "intoNew cm ct cl h (EList x) = (case List_DeepCopyInto cm ct cl h x of (h', y) \<Rightarrow> (h', EList y))"
| "intoNew cm ct cl h e = copyElem cm ct h e"

definition DeepCopy ::
    "('m, 't, 'l, 'k, 'm) copier \<Rightarrow> ('m, 't, 'l, 'k, 't) copier \<Rightarrow> ('m, 't, 'l, 'k, 'l) copier \<Rightarrow>
     ('m, 't, 'l, 'k, pointer) copier" where
  "DeepCopy cm ct cl h p =
     (case pointed h p of
        None \<Rightarrow> (h, None)
      | Some e \<Rightarrow> (case intoNew cm ct cl h e of (h1, e') \<Rightarrow> case alloc [e'] h1 of (h2, q) \<Rightarrow> (h2, Some q)))"

text \<open>As an object: a nil pointer becomes a nil interface.\<close>

definition DeepCopyObject ::
    "('m, 't, 'l, 'k, 'm) copier \<Rightarrow> ('m, 't, 'l, 'k, 't) copier \<Rightarrow> ('m, 't, 'l, 'k, 'l) copier \<Rightarrow>
     ('m, 't, 'l, 'k, pointer) copier" where
  "DeepCopyObject cm ct cl h p =
     (case DeepCopy cm ct cl h p of (h', None) \<Rightarrow> (h', None) | (h', Some q) \<Rightarrow> (h', Some q))"


section \<open>Copiers are put together\<close>

lemma alloc_simps [simp]:
  "fst (alloc es h) = h\<lparr>next_addr := Suc (next_addr h), cells := (cells h)(next_addr h \<mapsto> es)\<rparr>"
  "snd (alloc es h) = next_addr h"
  by (simp_all add: alloc_def)

lemma alloc_ok:
  assumes "memory_ok h" and "alloc es h = (h', b)"
  shows "memory_ok h'" "cells h \<subseteq>\<^sub>m cells h'" "next_addr h' = Suc (next_addr h)" "b = next_addr h" "cells h' b = Some es"
    "\<And>a. a \<noteq> b \<Longrightarrow> cells h' a = cells h a"
  using assms by (auto simp: alloc_def memory_ok_def map_le_def less_Suc_eq)

lemma sliced_local: "(\<And>a. a \<in> slice_addrs s \<Longrightarrow> cells h' a = cells h a) \<Longrightarrow> sliced h' s = sliced h s"
  by (auto simp: sliced_def slice_addrs_def split: option.splits)

lemma sliced_new: "cells h b = Some (sliced h0 (Some (a, n))) \<Longrightarrow> sliced h (Some (b, n)) = sliced h0 (Some (a, n))"
  by (auto simp: sliced_def split: option.splits)

definition pointer_addrs :: "pointer \<Rightarrow> addr set" where
  "pointer_addrs p = set_option p"

lemma copySlice_cases:
  assumes "copySlice h s = (h', s')"
  obtains (none) "s = None" "s' = None" "h' = h"
  | (some) a n b where "s = Some (a, n)" "s' = Some (b, n)" "alloc (sliced h s) h = (h', b)"
  using assms that by (auto simp: copySlice_def split: option.splits prod.splits)

interpretation slices: deep_copier copySlice sliced "\<lambda>h s. slice_addrs s"
proof
  fix h h' :: "('m, 't, 'l, 'k) memory" and s s'
  assume ok: "memory_ok h" and c: "copySlice h s = (h', s')"
  from c have "sliced h' s' = sliced h s \<and> (memory_ok h' \<and> cells h \<subseteq>\<^sub>m cells h' \<and> next_addr h \<le> next_addr h') \<and>
    slice_addrs s' \<subseteq> dom (cells h') \<inter> {next_addr h..<next_addr h'}"
  proof (cases rule: copySlice_cases)
    case none
    with ok show ?thesis by (simp add: sliced_def slice_addrs_def)
  next
    case (some a n b)
    note A = alloc_ok [OF ok some(3)]
    have "sliced h' s' = sliced h s" using sliced_new [OF A(5) [unfolded some(1)]] some(1,2) by simp
    with A some(2) show ?thesis by (auto simp: slice_addrs_def)
  qed
  then show "sliced h' s' = sliced h s" "memory_ok h' \<and> cells h \<subseteq>\<^sub>m cells h' \<and> next_addr h \<le> next_addr h'"
    "slice_addrs s' \<subseteq> dom (cells h') \<inter> {next_addr h..<next_addr h'}" by blast+
next
  fix h h' :: "('m, 't, 'l, 'k) memory" and s
  assume "\<And>a. a \<in> slice_addrs s \<Longrightarrow> cells h' a = cells h a"
  then show "sliced h' s = sliced h s \<and> slice_addrs s = slice_addrs s" using sliced_local by blast
qed

lemma pointed_local: "(\<And>a. a \<in> pointer_addrs p \<Longrightarrow> cells h' a = cells h a) \<Longrightarrow> pointed h' p = pointed h p"
  by (cases p) (simp_all add: pointed_def pointer_addrs_def)

interpretation pointers: deep_copier copyPointer pointed "\<lambda>h p. pointer_addrs p"
proof
  fix h h' :: "('m, 't, 'l, 'k) memory" and p p'
  assume ok: "memory_ok h" and c: "copyPointer h p = (h', p')"
  have "pointed h' p' = pointed h p \<and> (memory_ok h' \<and> cells h \<subseteq>\<^sub>m cells h' \<and> next_addr h \<le> next_addr h') \<and>
    pointer_addrs p' \<subseteq> dom (cells h') \<inter> {next_addr h..<next_addr h'}"
  proof (cases p)
    case None
    with ok c show ?thesis by (simp add: copyPointer_def pointed_def pointer_addrs_def)
  next
    case (Some a)
    with c obtain b where b: "alloc (case pointed h p of None \<Rightarrow> [] | Some e \<Rightarrow> [e]) h = (h', b)" "p' = Some b"
      by (auto simp: copyPointer_def split: prod.splits)
    note A = alloc_ok [OF ok b(1)]
    have "pointed h' p' = pointed h p" using A(5) b(2) by (simp add: pointed_def [of h'] split: option.splits)
    with A b(2) show ?thesis by (auto simp: pointer_addrs_def)
  qed
  then show "pointed h' p' = pointed h p" "memory_ok h' \<and> cells h \<subseteq>\<^sub>m cells h' \<and> next_addr h \<le> next_addr h'"
    "pointer_addrs p' \<subseteq> dom (cells h') \<inter> {next_addr h..<next_addr h'}" by blast+
next
  fix h h' :: "('m, 't, 'l, 'k) memory" and p
  assume "\<And>a. a \<in> pointer_addrs p \<Longrightarrow> cells h' a = cells h a"
  then show "pointed h' p = pointed h p \<and> pointer_addrs p = pointer_addrs p" using pointed_local by blast
qed

text \<open>Two fields after each other, and a struct by its fields.\<close>

definition copyPair :: "('m, 't, 'l, 'k, 'a) copier \<Rightarrow> ('m, 't, 'l, 'k, 'b) copier \<Rightarrow> ('m, 't, 'l, 'k, 'a \<times> 'b) copier" where
  "copyPair c d h p = (case c h (fst p) of (h1, x) \<Rightarrow> case d h1 (snd p) of (h2, y) \<Rightarrow> (h2, (x, y)))"

lemma copied:
  assumes "deep_copier c v A" "memory_ok h" "A h x \<subseteq> dom (cells h)" "c h x = (h', x')"
  shows "v h' x' = v h x" "memory_ok h'" "cells h \<subseteq>\<^sub>m cells h'" "next_addr h \<le> next_addr h'"
    "A h' x' \<subseteq> dom (cells h')" "A h' x' \<subseteq> {next_addr h..<next_addr h'}"
  using deep_copier.copy_val [OF assms] deep_copier.copy_grows [OF assms] deep_copier.copy_fresh [OF assms] by blast+

lemma deep_copier_pair:
  assumes c: "deep_copier c v A" and d: "deep_copier d w B"
  shows "deep_copier (copyPair c d) (\<lambda>h p. (v h (fst p), w h (snd p))) (\<lambda>h p. A h (fst p) \<union> B h (snd p))"
proof
  fix h h' :: "('a, 'b, 'c, 'd) memory" and p p'
  assume ok: "memory_ok h" and sub: "A h (fst p) \<union> B h (snd p) \<subseteq> dom (cells h)" and e: "copyPair c d h p = (h', p')"
  obtain h1 x y where x: "c h (fst p) = (h1, x)" and y: "d h1 (snd p) = (h', y)" and p': "p' = (x, y)"
    using e by (auto simp: copyPair_def split: prod.splits)
  have subA: "A h (fst p) \<subseteq> dom (cells h)" and subB: "B h (snd p) \<subseteq> dom (cells h)" using sub by simp_all
  note X = copied [OF c ok subA x]
  note keep = deep_copier.val_grows [OF d subB X(3)]
  have "B h1 (snd p) \<subseteq> dom (cells h1)" using keep(2) subB X(3) by (metis map_le_implies_dom_le subset_trans)
  note Y = copied [OF d X(2) this y]
  note keep' = deep_copier.val_grows [OF c X(5) Y(3)]
  show "(v h' (fst p'), w h' (snd p')) = (v h (fst p), w h (snd p))"
    using X(1) Y(1) keep(1) keep'(1) p' by simp
  show "memory_ok h' \<and> cells h \<subseteq>\<^sub>m cells h' \<and> next_addr h \<le> next_addr h'"
    using X(3,4) Y(2-4) by (auto intro: map_le_trans)
  have "A h' x \<subseteq> dom (cells h')" using keep'(2) X(5) Y(3) by (metis map_le_implies_dom_le subset_trans)
  moreover have "A h' x \<subseteq> {next_addr h..<next_addr h'}" unfolding keep'(2) using X(6) Y(4) by fastforce
  moreover have "B h' y \<subseteq> {next_addr h..<next_addr h'}" using Y(6) X(4) by fastforce
  ultimately show "A h' (fst p') \<union> B h' (snd p') \<subseteq> dom (cells h') \<inter> {next_addr h..<next_addr h'}"
    using Y(5) p' by simp
next
  fix h h' :: "('a, 'b, 'c, 'd) memory" and p
  assume l: "\<And>a. a \<in> A h (fst p) \<union> B h (snd p) \<Longrightarrow> cells h' a = cells h a"
  have "v h' (fst p) = v h (fst p) \<and> A h' (fst p) = A h (fst p)" by (rule deep_copier.val_local [OF c]) (simp add: l)
  moreover have "w h' (snd p) = w h (snd p) \<and> B h' (snd p) = B h (snd p)"
    by (rule deep_copier.val_local [OF d]) (simp add: l)
  ultimately show "(v h' (fst p), w h' (snd p)) = (v h (fst p), w h (snd p)) \<and>
    A h' (fst p) \<union> B h' (snd p) = A h (fst p) \<union> B h (snd p)" by simp
qed

lemma deep_copier_struct:
  assumes c: "deep_copier c v A"
    and copy: "\<And>h x. copy h x = (case c h (get x) of (h', y) \<Rightarrow> (h', put x y))"
    and get: "\<And>x y. get (put x y) = y" and flat: "\<And>x y w. V (put x y) w = V x w"
    and val: "\<And>h x. val h x = V x (v h (get x))" and addrs: "\<And>h x. addrs h x = A h (get x)"
  shows "deep_copier copy val addrs"
proof
  fix h h' :: "('a, 'b, 'c, 'd) memory" and x x'
  assume ok: "memory_ok h" and sub: "addrs h x \<subseteq> dom (cells h)" and e: "copy h x = (h', x')"
  obtain y where y: "c h (get x) = (h', y)" "x' = put x y" using e by (auto simp: copy split: prod.splits)
  note C = copied [OF c ok sub [unfolded addrs] y(1)]
  show "val h' x' = val h x" using C(1) y(2) by (simp add: val get flat)
  show "memory_ok h' \<and> cells h \<subseteq>\<^sub>m cells h' \<and> next_addr h \<le> next_addr h'" using C by simp
  show "addrs h' x' \<subseteq> dom (cells h') \<inter> {next_addr h..<next_addr h'}" using C(5,6) y(2) by (simp add: addrs get)
next
  fix h h' :: "('a, 'b, 'c, 'd) memory" and x
  assume l: "\<And>a. a \<in> addrs h x \<Longrightarrow> cells h' a = cells h a"
  have "v h' (get x) = v h (get x) \<and> A h' (get x) = A h (get x)"
    by (rule deep_copier.val_local [OF c]) (simp add: l addrs)
  then show "val h' x = val h x \<and> addrs h' x = addrs h x" by (simp add: val addrs)
qed

lemma deep_copier_all:
  assumes c: "deep_copier c v A"
  shows "deep_copier (copyAll c) (\<lambda>h. map (v h)) (\<lambda>h xs. \<Union>x \<in> set xs. A h x)"
proof
  fix h h' :: "('a, 'b, 'c, 'd) memory" and xs ys
  assume "memory_ok h" "(\<Union>x \<in> set xs. A h x) \<subseteq> dom (cells h)" "copyAll c h xs = (h', ys)"
  then have "map (v h') ys = map (v h) xs \<and> (memory_ok h' \<and> cells h \<subseteq>\<^sub>m cells h' \<and> next_addr h \<le> next_addr h') \<and>
    (\<Union>x \<in> set ys. A h' x) \<subseteq> dom (cells h') \<inter> {next_addr h..<next_addr h'}"
  proof (induction xs arbitrary: h ys)
    case Nil
    then show ?case by simp
  next
    case (Cons x xs)
    obtain h1 y zs where y: "c h x = (h1, y)" and zs: "copyAll c h1 xs = (h', zs)" and ys: "ys = y # zs"
      using Cons.prems(3) by (auto split: prod.splits)
    have sub: "A h x \<subseteq> dom (cells h)" using Cons.prems(2) by simp
    note X = copied [OF c Cons.prems(1) sub y]
    have keep: "v h1 z = v h z \<and> A h1 z = A h z \<and> A h1 z \<subseteq> dom (cells h1)" if "z \<in> set xs" for z
    proof -
      have sub: "A h z \<subseteq> dom (cells h)" using Cons.prems(2) that by auto
      from deep_copier.val_grows [OF c this X(3)] subset_trans [OF sub map_le_implies_dom_le [OF X(3)]]
      show ?thesis by simp
    qed
    then have "(\<Union>x \<in> set xs. A h1 x) \<subseteq> dom (cells h1)" by blast
    note I = Cons.IH [OF X(2) this zs]
    then have grows: "cells h1 \<subseteq>\<^sub>m cells h'" "next_addr h1 \<le> next_addr h'" by blast+
    note keep' = deep_copier.val_grows [OF c X(5) grows(1)]
    have "A h' y \<subseteq> dom (cells h')"
      unfolding keep'(2) by (rule subset_trans [OF X(5) map_le_implies_dom_le [OF grows(1)]])
    moreover have "A h' y \<subseteq> {next_addr h..<next_addr h'}"
      unfolding keep'(2) by (rule subset_trans [OF X(6)]) (use grows(2) in auto)
    ultimately have "A h' y \<subseteq> dom (cells h') \<inter> {next_addr h..<next_addr h'}" by simp
    moreover have "(\<Union>x \<in> set zs. A h' x) \<subseteq> dom (cells h') \<inter> {next_addr h1..<next_addr h'}" using I by simp
    then have "(\<Union>x \<in> set zs. A h' x) \<subseteq> dom (cells h') \<inter> {next_addr h..<next_addr h'}"
      by (rule subset_trans) (use X(4) in auto)
    ultimately have "(\<Union>x \<in> set ys. A h' x) \<subseteq> dom (cells h') \<inter> {next_addr h..<next_addr h'}"
      unfolding ys list.set UN_insert Un_subset_iff by (rule conjI)
    moreover have "map (v h') ys = map (v h) (x # xs)" using I keep X(1) keep'(1) ys by simp
    moreover have "memory_ok h' \<and> cells h \<subseteq>\<^sub>m cells h' \<and> next_addr h \<le> next_addr h'"
      using I X(3,4) by (auto intro: map_le_trans)
    ultimately show ?case by blast
  qed
  then show "map (v h') ys = map (v h) xs" "memory_ok h' \<and> cells h \<subseteq>\<^sub>m cells h' \<and> next_addr h \<le> next_addr h'"
    "(\<Union>x \<in> set ys. A h' x) \<subseteq> dom (cells h') \<inter> {next_addr h..<next_addr h'}" by blast+
next
  fix h h' :: "('a, 'b, 'c, 'd) memory" and xs
  assume l: "\<And>a. a \<in> (\<Union>x \<in> set xs. A h x) \<Longrightarrow> cells h' a = cells h a"
  have "v h' x = v h x \<and> A h' x = A h x" if "x \<in> set xs" for x
    by (rule deep_copier.val_local [OF c]) (use l that in blast)
  then show "map (v h') xs = map (v h) xs \<and> (\<Union>x \<in> set xs. A h' x) = (\<Union>x \<in> set xs. A h x)" by simp
qed


section \<open>The copies of the custom resources\<close>

text \<open>The values of slices, pointers and structs.\<close>

definition intOf :: "('m, 't, 'l, 'k) elem \<Rightarrow> int" where
  "intOf e = (case e of EInt i \<Rightarrow> i | ETime t \<Rightarrow> t | _ \<Rightarrow> 0)"

definition stringOf :: "('m, 't, 'l, 'k) elem \<Rightarrow> string" where
  "stringOf e = (case e of EString s \<Rightarrow> s | _ \<Rightarrow> [])"

definition itemOf :: "('m, 't, 'l, 'k) elem \<Rightarrow> BuildMetadataItem" where
  "itemOf e = (case e of EItem m \<Rightarrow> m | _ \<Rightarrow> \<lparr>bm_Key = [], bm_Value = []\<rparr>)"

type_synonym ('m, 't, 'l, 'k, 'a, 'v) reader = "('m, 't, 'l, 'k) memory \<Rightarrow> 'a \<Rightarrow> 'v"

definition readSpec ::
    "('m, 't, 'l, 'k, 't, PodTemplateSpec) reader \<Rightarrow> ('m, 't, 'l, 'k, 't GameServerSpecM, GameServerSpec) reader" where
  "readSpec readTemplate h s =
     \<lparr>gss_Template = readTemplate h (mss_Template s), gss_TitleID = mss_TitleID s, gss_BuildID = mss_BuildID s,
      gss_PortsToExpose = map intOf (sliced h (mss_PortsToExpose s)),
      gss_BuildMetadata = map itemOf (sliced h (mss_BuildMetadata s))\<rparr>"

definition readStatus :: "('m, 't, 'l, 'k, GameServerStatusM, GameServerStatus) reader" where
  "readStatus h st =
     \<lparr>st_Health = mst_Health st, st_State = mst_State st, st_PublicIP = mst_PublicIP st, st_Ports = mst_Ports st,
      st_SessionID = mst_SessionID st, st_SessionCookie = mst_SessionCookie st,
      st_InitialPlayers = map stringOf (sliced h (mst_InitialPlayers st)), st_NodeAge = mst_NodeAge st,
      st_NodeName = mst_NodeName st,
      st_ReachedInitializingOn = map_option intOf (pointed h (mst_ReachedInitializingOn st)),
      st_ReachedStandingByOn = map_option intOf (pointed h (mst_ReachedStandingByOn st)),
      st_ReachedActiveOn = map_option intOf (pointed h (mst_ReachedActiveOn st))\<rparr>"

definition readGameServer ::
    "('m, 't, 'l, 'k, 'm, ObjectMeta) reader \<Rightarrow> ('m, 't, 'l, 'k, 't, PodTemplateSpec) reader \<Rightarrow>
     ('m, 't, 'l, 'k, ('m, 't) GameServerM, GameServer) reader" where
  "readGameServer readMeta readTemplate h gs =
     \<lparr>gs_Meta = readMeta h (mgs_ObjectMeta gs), gs_Spec = readSpec readTemplate h (mgs_Spec gs),
      gs_Status = readStatus h (mgs_Status gs)\<rparr>"

definition readBuildSpec ::
    "('m, 't, 'l, 'k, 't, PodTemplateSpec) reader \<Rightarrow>
     ('m, 't, 'l, 'k, 't GameServerBuildSpecM, GameServerBuildSpec) reader" where
  "readBuildSpec readTemplate h s =
     \<lparr>bs_StandingBy = mbs_StandingBy s, bs_Max = mbs_Max s, bs_Template = readTemplate h (mbs_Template s),
      bs_TitleID = mbs_TitleID s, bs_BuildID = mbs_BuildID s,
      bs_PortsToExpose = map intOf (sliced h (mbs_PortsToExpose s)),
      bs_CrashesToMarkUnhealthy = map_option intOf (pointed h (mbs_CrashesToMarkUnhealthy s)),
      bs_BuildMetadata = map itemOf (sliced h (mbs_BuildMetadata s))\<rparr>"

definition readBuild ::
    "('m, 't, 'l, 'k, 'm, ObjectMeta) reader \<Rightarrow> ('m, 't, 'l, 'k, 't, PodTemplateSpec) reader \<Rightarrow>
     ('m, 't, 'l, 'k, ('m, 't) GameServerBuildM, GameServerBuild) reader" where
  "readBuild readMeta readTemplate h gsb =
     \<lparr>gsb_Meta = readMeta h (mgb_ObjectMeta gsb), gsb_Spec = readBuildSpec readTemplate h (mgb_Spec gsb),
      gsb_Status = mgb_Status gsb\<rparr>"

definition readDetail ::
    "('m, 't, 'l, 'k, 'm, ObjectMeta) reader \<Rightarrow> ('m, 't, 'l, 'k, 'm GameServerDetailM, GameServerDetail) reader" where
  "readDetail readMeta h gsd =
     \<lparr>gsd_Meta = readMeta h (mgd_ObjectMeta gsd),
      gsd_Spec = \<lparr>ds_ConnectedPlayersCount = mds_ConnectedPlayersCount (mgd_Spec gsd),
        ds_ConnectedPlayers = map stringOf (sliced h (mds_ConnectedPlayers (mgd_Spec gsd)))\<rparr>\<rparr>"

text \<open>The addresses a struct leads to.\<close>

type_synonym ('m, 't, 'l, 'k, 'a) leads = "('m, 't, 'l, 'k) memory \<Rightarrow> 'a \<Rightarrow> addr set"

definition specAddrs :: "('m, 't, 'l, 'k, 't) leads \<Rightarrow> ('m, 't, 'l, 'k, 't GameServerSpecM) leads" where
  "specAddrs A h s = A h (mss_Template s) \<union> (slice_addrs (mss_PortsToExpose s) \<union> slice_addrs (mss_BuildMetadata s))"

definition statusAddrs :: "('m, 't, 'l, 'k, GameServerStatusM) leads" where
  "statusAddrs h st = slice_addrs (mst_InitialPlayers st) \<union> (pointer_addrs (mst_ReachedInitializingOn st) \<union>
     (pointer_addrs (mst_ReachedStandingByOn st) \<union> pointer_addrs (mst_ReachedActiveOn st)))"

definition gameServerAddrs ::
    "('m, 't, 'l, 'k, 'm) leads \<Rightarrow> ('m, 't, 'l, 'k, 't) leads \<Rightarrow> ('m, 't, 'l, 'k, ('m, 't) GameServerM) leads" where
  "gameServerAddrs A B h gs = A h (mgs_ObjectMeta gs) \<union> (specAddrs B h (mgs_Spec gs) \<union> statusAddrs h (mgs_Status gs))"

definition buildSpecAddrs :: "('m, 't, 'l, 'k, 't) leads \<Rightarrow> ('m, 't, 'l, 'k, 't GameServerBuildSpecM) leads" where
  "buildSpecAddrs A h s = A h (mbs_Template s) \<union> (slice_addrs (mbs_PortsToExpose s) \<union>
     (pointer_addrs (mbs_CrashesToMarkUnhealthy s) \<union> slice_addrs (mbs_BuildMetadata s)))"

definition buildAddrs ::
    "('m, 't, 'l, 'k, 'm) leads \<Rightarrow> ('m, 't, 'l, 'k, 't) leads \<Rightarrow> ('m, 't, 'l, 'k, ('m, 't) GameServerBuildM) leads" where
  "buildAddrs A B h gsb = A h (mgb_ObjectMeta gsb) \<union> buildSpecAddrs B h (mgb_Spec gsb)"

definition detailAddrs :: "('m, 't, 'l, 'k, 'm) leads \<Rightarrow> ('m, 't, 'l, 'k, 'm GameServerDetailM) leads" where
  "detailAddrs A h gsd = A h (mgd_ObjectMeta gsd) \<union> slice_addrs (mds_ConnectedPlayers (mgd_Spec gsd))"


lemmas copier_defs = copyPair_def split_def Let_def

lemma spec_copier:
  assumes "deep_copier ct vt T"
  shows "deep_copier (GameServerSpec_DeepCopyInto ct) (readSpec vt) (specAddrs T)"
  by (rule deep_copier_struct [OF deep_copier_pair [OF assms
        deep_copier_pair [OF slices.deep_copier_axioms slices.deep_copier_axioms]],
      where get = "\<lambda>s. (mss_Template s, mss_PortsToExpose s, mss_BuildMetadata s)"
        and put = "\<lambda>s (t, p, m). s\<lparr>mss_Template := t, mss_PortsToExpose := p, mss_BuildMetadata := m\<rparr>"
        and V = "\<lambda>s (t, p, m). \<lparr>gss_Template = t, gss_TitleID = mss_TitleID s, gss_BuildID = mss_BuildID s,
          gss_PortsToExpose = map intOf p, gss_BuildMetadata = map itemOf m\<rparr>"])
    (simp_all add: GameServerSpec_DeepCopyInto_def readSpec_def specAddrs_def copier_defs)

lemma status_copier: "deep_copier GameServerStatus_DeepCopyInto readStatus statusAddrs"
  by (rule deep_copier_struct [OF deep_copier_pair [OF slices.deep_copier_axioms
        deep_copier_pair [OF pointers.deep_copier_axioms
          deep_copier_pair [OF pointers.deep_copier_axioms pointers.deep_copier_axioms]]],
      where get = "\<lambda>s. (mst_InitialPlayers s, mst_ReachedInitializingOn s, mst_ReachedStandingByOn s, mst_ReachedActiveOn s)"
        and put = "\<lambda>s (p, i, b, a). s\<lparr>mst_InitialPlayers := p, mst_ReachedInitializingOn := i,
          mst_ReachedStandingByOn := b, mst_ReachedActiveOn := a\<rparr>"
        and V = "\<lambda>st (p, i, b, a). \<lparr>st_Health = mst_Health st, st_State = mst_State st, st_PublicIP = mst_PublicIP st,
          st_Ports = mst_Ports st, st_SessionID = mst_SessionID st, st_SessionCookie = mst_SessionCookie st,
          st_InitialPlayers = map stringOf p, st_NodeAge = mst_NodeAge st, st_NodeName = mst_NodeName st,
          st_ReachedInitializingOn = map_option intOf i, st_ReachedStandingByOn = map_option intOf b,
          st_ReachedActiveOn = map_option intOf a\<rparr>"])
    (simp_all add: GameServerStatus_DeepCopyInto_def readStatus_def statusAddrs_def copier_defs)

text \<open>The value of an object is its type and the resource it stands for.\<close>

lemma gameserver_copier:
  assumes "deep_copier cm vm M" and "deep_copier ct vt T"
  shows "deep_copier (GameServer_DeepCopyInto cm ct) (\<lambda>h x. (mgs_TypeMeta x, readGameServer vm vt h x)) (gameServerAddrs M T)"
  by (rule deep_copier_struct [OF deep_copier_pair [OF assms(1) deep_copier_pair [OF spec_copier [OF assms(2)] status_copier]],
      where get = "\<lambda>s. (mgs_ObjectMeta s, mgs_Spec s, mgs_Status s)"
        and put = "\<lambda>s (m, p, t). s\<lparr>mgs_ObjectMeta := m, mgs_Spec := p, mgs_Status := t\<rparr>"
        and V = "\<lambda>s (m, p, t). (mgs_TypeMeta s, \<lparr>gs_Meta = m, gs_Spec = p, gs_Status = t\<rparr>)"])
    (simp_all add: GameServer_DeepCopyInto_def readGameServer_def gameServerAddrs_def copier_defs)

lemma build_spec_copier:
  assumes "deep_copier ct vt T"
  shows "deep_copier (GameServerBuildSpec_DeepCopyInto ct) (readBuildSpec vt) (buildSpecAddrs T)"
  by (rule deep_copier_struct [OF deep_copier_pair [OF assms
        deep_copier_pair [OF slices.deep_copier_axioms
          deep_copier_pair [OF pointers.deep_copier_axioms slices.deep_copier_axioms]]],
      where get = "\<lambda>s. (mbs_Template s, mbs_PortsToExpose s, mbs_CrashesToMarkUnhealthy s, mbs_BuildMetadata s)"
        and put = "\<lambda>s (t, p, c, m). s\<lparr>mbs_Template := t, mbs_PortsToExpose := p, mbs_CrashesToMarkUnhealthy := c, mbs_BuildMetadata := m\<rparr>"
        and V = "\<lambda>s (t, p, c, m). \<lparr>bs_StandingBy = mbs_StandingBy s, bs_Max = mbs_Max s, bs_Template = t,
          bs_TitleID = mbs_TitleID s, bs_BuildID = mbs_BuildID s, bs_PortsToExpose = map intOf p,
          bs_CrashesToMarkUnhealthy = map_option intOf c, bs_BuildMetadata = map itemOf m\<rparr>"])
    (simp_all add: GameServerBuildSpec_DeepCopyInto_def readBuildSpec_def buildSpecAddrs_def copier_defs)

lemma build_copier:
  assumes "deep_copier cm vm M" and "deep_copier ct vt T"
  shows "deep_copier (GameServerBuild_DeepCopyInto cm ct) (\<lambda>h x. (mgb_TypeMeta x, readBuild vm vt h x)) (buildAddrs M T)"
  by (rule deep_copier_struct [OF deep_copier_pair [OF assms(1) build_spec_copier [OF assms(2)]],
      where get = "\<lambda>s. (mgb_ObjectMeta s, mgb_Spec s)"
        and put = "\<lambda>s (m, p). s\<lparr>mgb_ObjectMeta := m, mgb_Spec := p\<rparr>"
        and V = "\<lambda>s (m, p). (mgb_TypeMeta s, \<lparr>gsb_Meta = m, gsb_Spec = p, gsb_Status = mgb_Status s\<rparr>)"])
    (simp_all add: GameServerBuild_DeepCopyInto_def readBuild_def buildAddrs_def copier_defs)

lemma detail_copier:
  assumes "deep_copier cm vm M"
  shows "deep_copier (GameServerDetail_DeepCopyInto cm) (\<lambda>h x. (mgd_TypeMeta x, readDetail vm h x)) (detailAddrs M)"
  by (rule deep_copier_struct [OF deep_copier_pair [OF assms slices.deep_copier_axioms],
      where get = "\<lambda>s. (mgd_ObjectMeta s, mds_ConnectedPlayers (mgd_Spec s))"
        and put = "\<lambda>s (m, p). s\<lparr>mgd_ObjectMeta := m, mgd_Spec := (mgd_Spec s)\<lparr>mds_ConnectedPlayers := p\<rparr>\<rparr>"
        and V = "\<lambda>s (m, p). (mgd_TypeMeta s, \<lparr>gsd_Meta = m,
          gsd_Spec = \<lparr>ds_ConnectedPlayersCount = mds_ConnectedPlayersCount (mgd_Spec s), ds_ConnectedPlayers = map stringOf p\<rparr>\<rparr>)"])
    (simp_all add: GameServerDetail_DeepCopyInto_def GameServerDetailSpec_DeepCopyInto_def readDetail_def detailAddrs_def copier_defs)

subsection \<open>Structs in arrays, and lists\<close>

datatype ('m, 't, 'l, 'k) resource =
    RGameServer "TypeMeta \<times> GameServer"
  | RBuild "TypeMeta \<times> GameServerBuild"
  | RDetail "TypeMeta \<times> GameServerDetail"
  | RPlain "('m, 't, 'l, 'k) elem"

fun elemVal ::
    "('m, 't, 'l, 'k, 'm, ObjectMeta) reader \<Rightarrow> ('m, 't, 'l, 'k, 't, PodTemplateSpec) reader \<Rightarrow>
     ('m, 't, 'l, 'k, ('m, 't, 'l, 'k) elem, ('m, 't, 'l, 'k) resource) reader" where
  "elemVal vm vt h (EGameServer x) = RGameServer (mgs_TypeMeta x, readGameServer vm vt h x)"
| "elemVal vm vt h (EBuild x) = RBuild (mgb_TypeMeta x, readBuild vm vt h x)"
| "elemVal vm vt h (EDetail x) = RDetail (mgd_TypeMeta x, readDetail vm h x)"
| "elemVal vm vt h e = RPlain e"

fun elemAddrs ::
    "('m, 't, 'l, 'k, 'm) leads \<Rightarrow> ('m, 't, 'l, 'k, 't) leads \<Rightarrow> ('m, 't, 'l, 'k, ('m, 't, 'l, 'k) elem) leads" where
  "elemAddrs M T h (EGameServer x) = gameServerAddrs M T h x"
| "elemAddrs M T h (EBuild x) = buildAddrs M T h x"
| "elemAddrs M T h (EDetail x) = detailAddrs M h x"
| "elemAddrs M T h e = {}"

lemma elem_copier:
  assumes "deep_copier cm vm M" and "deep_copier ct vt T"
  shows "deep_copier (copyElem cm ct) (elemVal vm vt) (elemAddrs M T)"
proof
  note G = gameserver_copier [OF assms] and B = build_copier [OF assms] and D = detail_copier [OF assms(1)]
  fix h h' :: "('a, 'b, 'c, 'd) memory" and x x'
  assume ok: "memory_ok h" and sub: "elemAddrs M T h x \<subseteq> dom (cells h)" and c: "copyElem cm ct h x = (h', x')"
  have "elemVal vm vt h' x' = elemVal vm vt h x \<and>
    (memory_ok h' \<and> cells h \<subseteq>\<^sub>m cells h' \<and> next_addr h \<le> next_addr h') \<and>
    elemAddrs M T h' x' \<subseteq> dom (cells h') \<inter> {next_addr h..<next_addr h'}"
  proof (cases x)
    case (EGameServer g)
    then obtain g' where "GameServer_DeepCopyInto cm ct h g = (h', g')" "x' = EGameServer g'"
      using c by (auto split: prod.splits)
    with copied [OF G ok _ this(1)] sub EGameServer show ?thesis by simp
  next
    case (EBuild g)
    then obtain g' where "GameServerBuild_DeepCopyInto cm ct h g = (h', g')" "x' = EBuild g'"
      using c by (auto split: prod.splits)
    with copied [OF B ok _ this(1)] sub EBuild show ?thesis by simp
  next
    case (EDetail g)
    then obtain g' where "GameServerDetail_DeepCopyInto cm h g = (h', g')" "x' = EDetail g'"
      using c by (auto split: prod.splits)
    with copied [OF D ok _ this(1)] sub EDetail show ?thesis by simp
  qed (use ok c in auto)
  then show "elemVal vm vt h' x' = elemVal vm vt h x"
    "memory_ok h' \<and> cells h \<subseteq>\<^sub>m cells h' \<and> next_addr h \<le> next_addr h'"
    "elemAddrs M T h' x' \<subseteq> dom (cells h') \<inter> {next_addr h..<next_addr h'}" by blast+
next
  note G = gameserver_copier [OF assms] and B = build_copier [OF assms] and D = detail_copier [OF assms(1)]
  fix h h' :: "('a, 'b, 'c, 'd) memory" and x
  assume l: "\<And>a. a \<in> elemAddrs M T h x \<Longrightarrow> cells h' a = cells h a"
  show "elemVal vm vt h' x = elemVal vm vt h x \<and> elemAddrs M T h' x = elemAddrs M T h x"
    using l deep_copier.val_local [OF G, of h _ h'] deep_copier.val_local [OF B, of h _ h']
      deep_copier.val_local [OF D, of h _ h'] by (cases x) simp_all
qed


lemma items_copier:
  assumes c: "deep_copier c v A"
  shows "deep_copier (copyItems c) (\<lambda>h s. map (v h) (sliced h s)) (\<lambda>h s. slice_addrs s \<union> (\<Union>e \<in> set (sliced h s). A h e))"
proof
  note L = deep_copier_all [OF c]
  fix h h' :: "('a, 'b, 'c, 'd) memory" and s s'
  assume ok: "memory_ok h" and sub: "slice_addrs s \<union> (\<Union>e \<in> set (sliced h s). A h e) \<subseteq> dom (cells h)"
    and cp: "copyItems c h s = (h', s')"
  have "map (v h') (sliced h' s') = map (v h) (sliced h s) \<and>
    (memory_ok h' \<and> cells h \<subseteq>\<^sub>m cells h' \<and> next_addr h \<le> next_addr h') \<and>
    slice_addrs s' \<union> (\<Union>e \<in> set (sliced h' s'). A h' e) \<subseteq> dom (cells h') \<inter> {next_addr h..<next_addr h'}"
  proof (cases s)
    case None
    with cp ok show ?thesis by (simp add: copyItems_def sliced_def slice_addrs_def)
  next
    case (Some p)
    then obtain a n h1 es b where s: "s = Some (a, n)" and es: "copyAll c h (sliced h s) = (h1, es)"
      and b: "alloc es h1 = (h', b)" and s': "s' = Some (b, n)"
      using cp by (cases p) (auto simp: copyItems_def split: prod.splits)
    have "(\<Union>e \<in> set (sliced h s). A h e) \<subseteq> dom (cells h)" using sub by simp
    note E = copied [OF L ok this es] and N = alloc_ok [OF copied(2) [OF L ok this es] b]
    have "length es = length (sliced h s)" using arg_cong [OF E(1), of length] by simp
    then have "take n es = es" using s by (simp add: sliced_def split: option.splits)
    then have sl: "sliced h' s' = es" using N(5) s' by (simp add: sliced_def)
    note keep = deep_copier.val_grows [OF L E(5) N(2)]
    have new: "b \<in> dom (cells h')" "next_addr h \<le> b" "b < next_addr h'" using N(3-5) E(4) by auto
    have "(\<Union>e \<in> set es. A h1 e) \<subseteq> dom (cells h')"
      by (rule subset_trans [OF E(5) map_le_implies_dom_le [OF N(2)]])
    moreover have "(\<Union>e \<in> set es. A h1 e) \<subseteq> {next_addr h..<next_addr h'}"
      by (rule subset_trans [OF E(6)]) (use N(3) in auto)
    ultimately have "slice_addrs s' \<union> (\<Union>e \<in> set es. A h' e) \<subseteq> dom (cells h') \<inter> {next_addr h..<next_addr h'}"
      unfolding keep(2) using new s' by (simp add: slice_addrs_def)
    moreover have "memory_ok h' \<and> cells h \<subseteq>\<^sub>m cells h' \<and> next_addr h \<le> next_addr h'"
      using N(1-3) E(3,4) by (auto intro: map_le_trans)
    ultimately show ?thesis using keep(1) E(1) sl by simp
  qed
  then show "map (v h') (sliced h' s') = map (v h) (sliced h s)"
    "memory_ok h' \<and> cells h \<subseteq>\<^sub>m cells h' \<and> next_addr h \<le> next_addr h'"
    "slice_addrs s' \<union> (\<Union>e \<in> set (sliced h' s'). A h' e) \<subseteq> dom (cells h') \<inter> {next_addr h..<next_addr h'}" by blast+
next
  fix h h' :: "('a, 'b, 'c, 'd) memory" and s
  assume l: "\<And>a. a \<in> slice_addrs s \<union> (\<Union>e \<in> set (sliced h s). A h e) \<Longrightarrow> cells h' a = cells h a"
  have "sliced h' s = sliced h s" by (rule sliced_local) (simp add: l)
  moreover have "v h' e = v h e \<and> A h' e = A h e" if "e \<in> set (sliced h s)" for e
    by (rule deep_copier.val_local [OF c]) (use l that in blast)
  ultimately show "map (v h') (sliced h' s) = map (v h) (sliced h s) \<and>
    slice_addrs s \<union> (\<Union>e \<in> set (sliced h' s). A h' e) = slice_addrs s \<union> (\<Union>e \<in> set (sliced h s). A h e)" by simp
qed

definition listVal where
  "listVal vm vt vl h xs = (mls_TypeMeta xs, vl h (mls_ListMeta xs), map (elemVal vm vt h) (sliced h (mls_Items xs)))"

definition listAddrs where
  "listAddrs M T L h xs = L h (mls_ListMeta xs) \<union>
     (slice_addrs (mls_Items xs) \<union> (\<Union>e \<in> set (sliced h (mls_Items xs)). elemAddrs M T h e))"

lemma list_copier:
  assumes "deep_copier cm vm M" and "deep_copier ct vt T" and "deep_copier cl vl L"
  shows "deep_copier (List_DeepCopyInto cm ct cl) (listVal vm vt vl) (listAddrs M T L)"
  by (rule deep_copier_struct [OF deep_copier_pair [OF assms(3) items_copier [OF elem_copier [OF assms(1,2)]]],
      where get = "\<lambda>s. (mls_ListMeta s, mls_Items s)"
        and put = "\<lambda>s (l, i). s\<lparr>mls_ListMeta := l, mls_Items := i\<rparr>"
        and V = "\<lambda>s (l, i). (mls_TypeMeta s, l, i)"])
    (simp_all add: List_DeepCopyInto_def listVal_def listAddrs_def copier_defs)

subsection \<open>Pointers to structs\<close>

fun newVal where
  "newVal vm vt vl h (EList x) = Inl (listVal vm vt vl h x)"
| "newVal vm vt vl h e = Inr (elemVal vm vt h e)"

fun newAddrs where
  "newAddrs M T L h (EList x) = listAddrs M T L h x"
| "newAddrs M T L h e = elemAddrs M T h e"

lemma new_copier:
  assumes "deep_copier cm vm M" and "deep_copier ct vt T" and "deep_copier cl vl L"
  shows "deep_copier (intoNew cm ct cl) (newVal vm vt vl) (newAddrs M T L)"
proof
  note E = elem_copier [OF assms(1,2)] and G = list_copier [OF assms]
  fix h h' :: "('a, 'b, 'c, 'd) memory" and x x'
  assume ok: "memory_ok h" and sub: "newAddrs M T L h x \<subseteq> dom (cells h)" and c: "intoNew cm ct cl h x = (h', x')"
  have "newVal vm vt vl h' x' = newVal vm vt vl h x \<and>
    (memory_ok h' \<and> cells h \<subseteq>\<^sub>m cells h' \<and> next_addr h \<le> next_addr h') \<and>
    newAddrs M T L h' x' \<subseteq> dom (cells h') \<inter> {next_addr h..<next_addr h'}"
  proof (cases "\<exists>y. x = EList y")
    case True
    then obtain y y' where "x = EList y" "List_DeepCopyInto cm ct cl h y = (h', y')" "x' = EList y'"
      using c by (auto split: prod.splits)
    with copied [OF G ok _ this(2)] sub show ?thesis by simp
  next
    case False
    then have n: "newVal vm vt vl k x = Inr (elemVal vm vt k x)" "newAddrs M T L k x = elemAddrs M T k x"
      "intoNew cm ct cl h x = copyElem cm ct h x" for k by (cases x; simp)+
    from False c n(3) have "\<not> (\<exists>y. x' = EList y)" by (cases x) (auto split: prod.splits)
    then have n': "newVal vm vt vl k x' = Inr (elemVal vm vt k x')" "newAddrs M T L k x' = elemAddrs M T k x'" for k
      by (cases x'; simp)+
    from copied [OF E ok sub [unfolded n] c [unfolded n]] n n' show ?thesis by simp
  qed
  then show "newVal vm vt vl h' x' = newVal vm vt vl h x"
    "memory_ok h' \<and> cells h \<subseteq>\<^sub>m cells h' \<and> next_addr h \<le> next_addr h'"
    "newAddrs M T L h' x' \<subseteq> dom (cells h') \<inter> {next_addr h..<next_addr h'}" by blast+
next
  note E = elem_copier [OF assms(1,2)] and G = list_copier [OF assms]
  fix h h' :: "('a, 'b, 'c, 'd) memory" and x
  assume l: "\<And>a. a \<in> newAddrs M T L h x \<Longrightarrow> cells h' a = cells h a"
  show "newVal vm vt vl h' x = newVal vm vt vl h x \<and> newAddrs M T L h' x = newAddrs M T L h x"
    using l deep_copier.val_local [OF E, of h x h'] deep_copier.val_local [OF G, of h _ h'] by (cases x) simp_all
qed

definition pointerVal where
  "pointerVal vm vt vl h p = map_option (newVal vm vt vl h) (pointed h p)"

definition pointerAddrs where
  "pointerAddrs M T L h p = pointer_addrs p \<union> (case pointed h p of None \<Rightarrow> {} | Some e \<Rightarrow> newAddrs M T L h e)"

lemma DeepCopy_copier:
  assumes "deep_copier cm vm M" and "deep_copier ct vt T" and "deep_copier cl vl L"
  shows "deep_copier (DeepCopy cm ct cl) (pointerVal vm vt vl) (pointerAddrs M T L)"
proof
  note E = new_copier [OF assms]
  fix h h' :: "('a, 'b, 'c, 'd) memory" and p q
  assume ok: "memory_ok h" and sub: "pointerAddrs M T L h p \<subseteq> dom (cells h)" and c: "DeepCopy cm ct cl h p = (h', q)"
  have "pointerVal vm vt vl h' q = pointerVal vm vt vl h p \<and>
    (memory_ok h' \<and> cells h \<subseteq>\<^sub>m cells h' \<and> next_addr h \<le> next_addr h') \<and>
    pointerAddrs M T L h' q \<subseteq> dom (cells h') \<inter> {next_addr h..<next_addr h'}"
  proof (cases "pointed h p")
    case None
    with c have "h' = h" "q = None" by (auto simp: DeepCopy_def)
    moreover have "pointed h None = None" by (simp add: pointed_def)
    ultimately show ?thesis using ok None by (simp add: pointerVal_def pointerAddrs_def pointer_addrs_def)
  next
    case (Some e)
    then obtain h1 e' b where e: "intoNew cm ct cl h e = (h1, e')" and b: "alloc [e'] h1 = (h', b)" "q = Some b"
      using c by (auto simp: DeepCopy_def split: prod.splits)
    have "newAddrs M T L h e \<subseteq> dom (cells h)" using sub Some by (simp add: pointerAddrs_def)
    note C = copied [OF E ok this e] and N = alloc_ok [OF copied(2) [OF E ok this e] b(1)]
    have p: "pointed h' q = Some e'" using N(5) b(2) by (simp add: pointed_def)
    note keep = deep_copier.val_grows [OF E C(5) N(2)]
    have "newAddrs M T L h1 e' \<subseteq> dom (cells h')" by (rule subset_trans [OF C(5) map_le_implies_dom_le [OF N(2)]])
    moreover have "newAddrs M T L h1 e' \<subseteq> {next_addr h..<next_addr h'}"
      by (rule subset_trans [OF C(6)]) (use N(3) in auto)
    moreover have "b \<in> dom (cells h')" "next_addr h \<le> b" "b < next_addr h'" using N(3-5) C(4) by auto
    ultimately have "pointerAddrs M T L h' q \<subseteq> dom (cells h') \<inter> {next_addr h..<next_addr h'}"
      unfolding pointerAddrs_def p using keep(2) b(2) by (simp add: pointer_addrs_def)
    moreover have "memory_ok h' \<and> cells h \<subseteq>\<^sub>m cells h' \<and> next_addr h \<le> next_addr h'"
      using N(1-3) C(3,4) by (auto intro: map_le_trans)
    ultimately show ?thesis using keep(1) C(1) p Some by (simp add: pointerVal_def)
  qed
  then show "pointerVal vm vt vl h' q = pointerVal vm vt vl h p"
    "memory_ok h' \<and> cells h \<subseteq>\<^sub>m cells h' \<and> next_addr h \<le> next_addr h'"
    "pointerAddrs M T L h' q \<subseteq> dom (cells h') \<inter> {next_addr h..<next_addr h'}" by blast+
next
  note E = new_copier [OF assms]
  fix h h' :: "('a, 'b, 'c, 'd) memory" and p
  assume l: "\<And>a. a \<in> pointerAddrs M T L h p \<Longrightarrow> cells h' a = cells h a"
  have p: "pointed h' p = pointed h p" by (rule pointed_local) (simp add: l pointerAddrs_def)
  show "pointerVal vm vt vl h' p = pointerVal vm vt vl h p \<and> pointerAddrs M T L h' p = pointerAddrs M T L h p"
  proof (cases "pointed h p")
    case (Some e)
    with l have "\<And>a. a \<in> newAddrs M T L h e \<Longrightarrow> cells h' a = cells h a" by (simp add: pointerAddrs_def)
    from deep_copier.val_local [OF E this] p Some show ?thesis by (simp add: pointerVal_def pointerAddrs_def)
  qed (simp add: pointerVal_def pointerAddrs_def p)
qed


section \<open>Properties\<close>

lemma DeepCopyObject_eq: "DeepCopyObject cm ct cl h p = DeepCopy cm ct cl h p"
  by (auto simp: DeepCopyObject_def split: prod.splits option.splits)

text \<open>The template of a new GameServer is a copy of the build's: what is written into it does not reach the build.\<close>

lemma template_copy_private:
  assumes "deep_copier ct vt T" "memory_ok h" "T h template \<subseteq> dom (cells h)" "ct h template = (h', template')"
    and "a \<in> T h' template'"
  shows "vt (write_at a es h') template = vt h template"
  by (rule deep_copier.copy_independent(3) [OF assms])

text \<open>
  C28: the deep copies of the custom resources, as patch bases use them. The copy of a GameServer, a
  GameServerBuild, a GameServerDetail or a list of them stands for the same resource, and shares no memory with the
  original: after any write to memory that was there before, by which a handler changes the original's
  state, players, ports or times, the copy still stands for the original resource, and no write through the copy
  changes what the original stands for. \<open>nil\<close> is copied to \<open>nil\<close>, also as an object. It rests
  on the same of the copies of Kubernetes' own types.
\<close>

theorem deep_copies_independent:
  assumes "deep_copier cm vm M" and "deep_copier ct vt T" and "deep_copier cl vl L"
    and "memory_ok h" and "pointerAddrs M T L h p \<subseteq> dom (cells h)" and "DeepCopyObject cm ct cl h p = (h', q)"
  shows "pointerVal vm vt vl h' q = pointerVal vm vt vl h p \<and>
    (\<forall>gs. pointed h p = Some (EGameServer gs) \<longrightarrow>
       (\<exists>gs'. pointed h' q = Some (EGameServer gs') \<and> readGameServer vm vt h' gs' = readGameServer vm vt h gs)) \<and>
    pointerAddrs M T L h' q \<inter> dom (cells h) = {} \<and> cells h \<subseteq>\<^sub>m cells h' \<and>
    (\<forall>a \<in> dom (cells h). \<forall>es. pointerVal vm vt vl (write_at a es h') q = pointerVal vm vt vl h p) \<and>
    (\<forall>a \<in> pointerAddrs M T L h' q. \<forall>es. pointerVal vm vt vl (write_at a es h') p = pointerVal vm vt vl h p) \<and>
    (p = None \<longrightarrow> q = None)"
proof -
  note D = DeepCopy_copier [OF assms(1-3)]
  have c: "DeepCopy cm ct cl h p = (h', q)" using assms(6) by (simp add: DeepCopyObject_eq)
  note I = deep_copier.copy_independent [OF D assms(4,5) c]
  have "\<exists>gs'. pointed h' q = Some (EGameServer gs') \<and> readGameServer vm vt h' gs' = readGameServer vm vt h gs"
    if "pointed h p = Some (EGameServer gs)" for gs
  proof -
    from I(1) that obtain e where e: "pointed h' q = Some e"
      "newVal vm vt vl h' e = Inr (RGameServer (mgs_TypeMeta gs, readGameServer vm vt h gs))"
      by (auto simp: pointerVal_def)
    from e(2) show ?thesis using e(1) by (cases e) auto
  qed
  moreover have "pointerVal vm vt vl (write_at a es h') q = pointerVal vm vt vl h p" if "a \<in> dom (cells h)" for a es
    by (rule I(4)) (use I(2) that in blast)
  moreover have "p = None \<longrightarrow> q = None" using c by (auto simp: DeepCopy_def pointed_def)
  ultimately show ?thesis using I(1-3) copied(3) [OF D assms(4,5) c] by blast
qed

text \<open>
  A GameServer with two exposed ports and a player, its name and its template's labels in memory, in a memory whose copies
  of Kubernetes' types copy an array; a later write to the ports of the original does not reach the copy.
\<close>

definition named_meta :: "('m, 't, 'l, 'k, slice, ObjectMeta) reader" where
  "named_meta h s = zero_Meta\<lparr>om_Name := concat (map stringOf (sliced h s))\<rparr>"

definition labelled_template :: "('m, 't, 'l, 'k, slice, PodTemplateSpec) reader" where
  "labelled_template h s =
     zero_Template\<lparr>pt_Labels := map_of (map (\<lambda>e. (bm_Key (itemOf e), bm_Value (itemOf e))) (sliced h s))\<rparr>"

interpretation named: deep_copier copySlice named_meta "\<lambda>h s. slice_addrs s"
  by (rule deep_copier_struct [OF slices.deep_copier_axioms, where get = id and put = "\<lambda>_ y. y"
        and V = "\<lambda>_ es. zero_Meta\<lparr>om_Name := concat (map stringOf es)\<rparr>"])
    (simp_all add: named_meta_def split_def)

interpretation labelled: deep_copier copySlice labelled_template "\<lambda>h s. slice_addrs s"
  by (rule deep_copier_struct [OF slices.deep_copier_axioms, where get = id and put = "\<lambda>_ y. y"
        and V = "\<lambda>_ es. zero_Template\<lparr>pt_Labels := map_of (map (\<lambda>e. (bm_Key (itemOf e), bm_Value (itemOf e))) es)\<rparr>"])
    (simp_all add: labelled_template_def split_def)

definition memory_gs :: "(slice, slice) GameServerM" where
  "memory_gs =
     \<lparr>mgs_TypeMeta = \<lparr>tm_Kind = ''GameServer'', tm_APIVersion = ''v1alpha1''\<rparr>, mgs_ObjectMeta = Some (1, 1),
      mgs_Spec = \<lparr>mss_Template = Some (2, 1), mss_TitleID = ''title'', mss_BuildID = ''build'',
        mss_PortsToExpose = Some (3, 2), mss_BuildMetadata = None\<rparr>,
      mgs_Status = \<lparr>mst_Health = GameServerHealthy, mst_State = GameServerStateStandingBy, mst_PublicIP = [],
        mst_Ports = [], mst_SessionID = [], mst_SessionCookie = [], mst_InitialPlayers = Some (4, 1), mst_NodeAge = 0,
        mst_NodeName = [], mst_ReachedInitializingOn = None, mst_ReachedStandingByOn = Some 5, mst_ReachedActiveOn = None\<rparr>\<rparr>"

definition memory_one :: "(slice, slice, unit, unit) memory" where
  "memory_one =
     \<lparr>next_addr = 6,
      cells = [0 \<mapsto> [EGameServer memory_gs], 1 \<mapsto> [EString ''gs-1''], 2 \<mapsto> [EItem \<lparr>bm_Key = ''app'', bm_Value = ''game''\<rparr>],
        3 \<mapsto> [EInt 80, EInt 443], 4 \<mapsto> [EString ''alice''], 5 \<mapsto> [ETime 7]]\<rparr>"

definition unit_copy :: "(slice, slice, unit, unit, unit) copier" where
  "unit_copy h x = (h, x)"

lemma unit_copier: "deep_copier unit_copy (\<lambda>h x. ()) (\<lambda>h x. {})"
  by unfold_locales (auto simp: unit_copy_def)

theorem deep_copies_independent_witness:
  "\<exists>h' q gs'. DeepCopyObject copySlice copySlice unit_copy memory_one (Some 0) = (h', q) \<and>
     pointed h' q = Some (EGameServer gs') \<and>
     gss_PortsToExpose (gs_Spec (readGameServer named_meta labelled_template h' gs')) = [80, 443] \<and>
     (\<forall>es. pointerVal named_meta labelled_template (\<lambda>h x. ()) (write_at 3 es h') q =
        pointerVal named_meta labelled_template (\<lambda>h x. ()) memory_one (Some 0))"
proof -
  obtain h' q where d: "DeepCopyObject copySlice copySlice unit_copy memory_one (Some 0) = (h', q)" by fastforce
  have ok: "memory_ok memory_one" by (auto simp: memory_ok_def memory_one_def split: if_splits)
  have p: "pointed memory_one (Some 0) = Some (EGameServer memory_gs)" by (simp add: pointed_def memory_one_def)
  have sub: "pointerAddrs (\<lambda>h s. slice_addrs s) (\<lambda>h s. slice_addrs s) (\<lambda>h x. {}) memory_one (Some 0) \<subseteq> dom (cells memory_one)"
    unfolding pointerAddrs_def p
    by (auto simp: pointer_addrs_def gameServerAddrs_def specAddrs_def statusAddrs_def slice_addrs_def memory_gs_def memory_one_def)
  note I = deep_copies_independent [OF named.deep_copier_axioms labelled.deep_copier_axioms unit_copier ok sub d]
  from I p obtain gs' where "pointed h' q = Some (EGameServer gs')"
    "readGameServer named_meta labelled_template h' gs' = readGameServer named_meta labelled_template memory_one memory_gs" by blast
  moreover have "gss_PortsToExpose (gs_Spec (readGameServer named_meta labelled_template memory_one memory_gs)) = [80, 443]"
    by (simp add: readGameServer_def readSpec_def memory_gs_def memory_one_def sliced_def intOf_def)
  moreover have "3 \<in> dom (cells memory_one)" by (simp add: memory_one_def)
  ultimately show ?thesis using I d by auto
qed

end
