(* ===== verification/Node_Agent_Utils.thy ===== *)
theory Node_Agent_Utils
  imports Controller_Utils
begin

text \<open>
  The types and helper functions of the node agent: \<open>cmd/nodeagent/types.go\<close>,
  \<open>utilities.go\<close> and the environment readers of \<open>main.go\<close>. An unstructured GameServer is the
  record of the nested fields that the agent reads, each of which is missing, of a wrong type or
  present (\<open>unstructured.NestedString\<close>). A patch is what \<open>encoding/json\<close> makes of its struct:
  every field of the status and of the detail carries \<open>omitempty\<close>, so a zero value is left out.
\<close>

section \<open>Types\<close>

type_synonym GameState = string

abbreviation GameStateInvalid :: GameState where "GameStateInvalid \<equiv> ''Invalid''"
abbreviation GameStateInitializing :: GameState where "GameStateInitializing \<equiv> ''Initializing''"
abbreviation GameStateStandingBy :: GameState where "GameStateStandingBy \<equiv> ''StandingBy''"
abbreviation GameStateActive :: GameState where "GameStateActive \<equiv> ''Active''"
abbreviation GameStateTerminating :: GameState where "GameStateTerminating \<equiv> ''Terminating''"
abbreviation GameStateTerminated :: GameState where "GameStateTerminated \<equiv> ''Terminated''"
abbreviation GameStateQuarantined :: GameState where "GameStateQuarantined \<equiv> ''Quarantined''"

datatype GameOperation =
  GameOperationInvalid | GameOperationContinue | GameOperationActive | GameOperationTerminate

record GsdkVersionInfo =
  gi_Flavor :: string
  gi_Version :: string

record HeartbeatRequest =
  CurrentGameState :: GameState
  CurrentGameHealth :: string
  CurrentPlayers :: "string list"  \<comment> \<open>the players' ids\<close>

record SessionConfig =
  sc_SessionId :: string
  sc_SessionCookie :: string
  sc_InitialPlayers :: "string list"

record HeartbeatResponse =
  hr_SessionConfig :: SessionConfig
  hr_Operation :: GameOperation

record GameServerInfo =
  IsActive :: bool
  SessionID :: string
  SessionCookie :: string
  InitialPlayers :: "string list"
  PreviousGameState :: GameState
  PreviousGameHealth :: string
  GameServerNamespace :: string
  ConnectedPlayersCount :: int
  GsUid :: string
  CreationTime :: int
  LastHeartbeatTime :: int
  MarkedUnhealthy :: bool
  BuildName :: string

datatype agent_effect =
    SetGameServerStates string string int
  | SetConnectedPlayers string string string int
  | SetReachedStandingBy string int
  | SetReachedInitializing string int

section \<open>Environment\<close>

type_synonym environment = "string \<rightharpoonup> string"

definition ParseInt64FromEnv :: "environment \<Rightarrow> string \<Rightarrow> int \<Rightarrow> int" where
  "ParseInt64FromEnv env envVar defaultValue =
     (case env envVar of
        None \<Rightarrow> defaultValue
      | Some value \<Rightarrow> (case atoi value of Some v \<Rightarrow> v | None \<Rightarrow> defaultValue))"

text \<open>\<open>None\<close> is the fatal exit when a required variable is missing.\<close>

definition getEnv :: "environment \<Rightarrow> string \<Rightarrow> bool \<Rightarrow> string option" where
  "getEnv env key required =
     (case env key of Some value \<Rightarrow> Some value | None \<Rightarrow> if required then None else Some [])"

definition getNumericEnv :: "environment \<Rightarrow> string \<Rightarrow> int \<Rightarrow> int" where
  "getNumericEnv env key fallback =
     (case getEnv env key False of
        Some strValue \<Rightarrow>
          if strValue \<noteq> [] then (case atoi strValue of Some v \<Rightarrow> v | None \<Rightarrow> fallback) else fallback
      | None \<Rightarrow> fallback)"

definition ParseBool :: "string \<Rightarrow> bool option" where
  "ParseBool s =
     (if s \<in> {''1'', ''t'', ''T'', ''TRUE'', ''true'', ''True''} then Some True
      else if s \<in> {''0'', ''f'', ''F'', ''FALSE'', ''false'', ''False''} then Some False
      else None)"

definition getBooleanEnv :: "environment \<Rightarrow> string \<Rightarrow> bool \<Rightarrow> bool" where
  "getBooleanEnv env key fallback =
     (case getEnv env key False of
        Some strValue \<Rightarrow>
          if strValue \<noteq> [] then (case ParseBool strValue of Some v \<Rightarrow> v | None \<Rightarrow> fallback) else fallback
      | None \<Rightarrow> fallback)"

section \<open>Responses\<close>

datatype response =
    TextResponse nat string
  | HeartbeatOk HeartbeatResponse  \<comment> \<open>200, with the marshalled response\<close>
  | EmptyOk
  | HandlerPanic  \<comment> \<open>the connection is closed by the server's recovery\<close>

definition internalServerErrorResponse :: "string \<Rightarrow> string \<Rightarrow> response" where
  "internalServerErrorResponse err msg = TextResponse 500 (''500 - '' @ msg @ '' '' @ err)"

definition badRequestResponse :: "string \<Rightarrow> string \<Rightarrow> response" where
  "badRequestResponse err msg = TextResponse 400 (''400 - '' @ msg @ '' '' @ err)"

definition healthzHandler :: response where
  "healthzHandler = TextResponse 200 ''OK''"

section \<open>Heartbeats\<close>

text \<open>The request as the validation leaves it, or the error.\<close>

definition validateHeartbeatRequest :: "HeartbeatRequest \<Rightarrow> string + HeartbeatRequest" where
  "validateHeartbeatRequest hb =
     (let hb' = (if CurrentGameHealth hb = [] then hb\<lparr>CurrentGameHealth := ''Healthy''\<rparr> else hb)
      in if CurrentGameState hb = [] then Inl '' - CurrentGameState cannot be empty'' else Inr hb')"

definition isValidStateTransition :: "GameState \<Rightarrow> GameState \<Rightarrow> bool" where
  "isValidStateTransition old new =
     (if old = [] \<and> new = GameStateInitializing then True
      else if old = [] \<and> new = GameStateStandingBy then True
      else if old = GameStateInitializing \<and> new = GameStateStandingBy then True
      else if old = GameStateStandingBy \<and> new = GameStateActive then True
      else old = new)"

definition sanitize :: "string \<Rightarrow> string" where
  "sanitize s = remove_char carriage_return (remove_char newline s)"

section \<open>Unstructured GameServers\<close>

datatype 'a nested = Missing | WrongType string | Value 'a

record gs_object =
  uo_Name :: string
  uo_Namespace :: string
  uo_UID :: string
  uo_BuildName :: "string nested"
  uo_State :: "string nested"
  uo_Health :: "string nested"
  uo_SessionID :: "string nested"
  uo_SessionCookie :: "string nested"
  uo_InitialPlayers :: "string list nested"

fun nested_or :: "'a \<Rightarrow> 'a nested \<Rightarrow> 'a" where
  "nested_or z (Value x) = x"
| "nested_or z _ = z"

definition parseSessionDetails :: "gs_object \<Rightarrow> string \<times> string \<times> string list" where
  "parseSessionDetails u =
     (nested_or [] (uo_SessionID u), nested_or [] (uo_SessionCookie u), nested_or [] (uo_InitialPlayers u))"

abbreviation ErrBuildNameNotExists :: string where "ErrBuildNameNotExists \<equiv> ''build name does not exist''"
abbreviation ErrStateNotExists :: string where "ErrStateNotExists \<equiv> ''state does not exist''"
abbreviation ErrHealthNotExists :: string where "ErrHealthNotExists \<equiv> ''health does not exist''"

definition parseStateHealth :: "gs_object \<Rightarrow> string + string \<times> string" where
  "parseStateHealth u =
     (case uo_State u of
        WrongType e \<Rightarrow> Inl e
      | Missing \<Rightarrow> Inl ErrStateNotExists
      | Value state \<Rightarrow>
          (case uo_Health u of
             WrongType e \<Rightarrow> Inl e
           | Missing \<Rightarrow> Inl ErrHealthNotExists
           | Value health \<Rightarrow> Inr (state, health)))"

definition parseBuildName :: "gs_object \<Rightarrow> string + string" where
  "parseBuildName u =
     (case uo_BuildName u of
        WrongType e \<Rightarrow> Inl e | Missing \<Rightarrow> Inl ErrBuildNameNotExists | Value b \<Rightarrow> Inr b)"

section \<open>Patches\<close>

definition omitempty :: "'a \<Rightarrow> 'a \<Rightarrow> 'a option" where
  "omitempty z x = (if x = z then None else Some x)"

record status_payload =
  sp_Health :: "string option"
  sp_State :: "string option"
  sp_PublicIP :: "string option"
  sp_Ports :: "string option"
  sp_SessionID :: "string option"
  sp_SessionCookie :: "string option"
  sp_InitialPlayers :: "string list option"
  sp_NodeAge :: "int option"
  sp_NodeName :: "string option"
  sp_ReachedInitializingOn :: "int option"
  sp_ReachedStandingByOn :: "int option"
  sp_ReachedActiveOn :: "int option"

definition marshal_status :: "GameServerStatus \<Rightarrow> status_payload" where
  "marshal_status st =
     \<lparr>sp_Health = omitempty [] (st_Health st), sp_State = omitempty [] (st_State st),
      sp_PublicIP = omitempty [] (st_PublicIP st), sp_Ports = omitempty [] (st_Ports st),
      sp_SessionID = omitempty [] (st_SessionID st), sp_SessionCookie = omitempty [] (st_SessionCookie st),
      sp_InitialPlayers = omitempty [] (st_InitialPlayers st), sp_NodeAge = omitempty 0 (st_NodeAge st),
      sp_NodeName = omitempty [] (st_NodeName st), sp_ReachedInitializingOn = st_ReachedInitializingOn st,
      sp_ReachedStandingByOn = st_ReachedStandingByOn st, sp_ReachedActiveOn = st_ReachedActiveOn st\<rparr>"

record detail_payload =
  dp_ConnectedPlayersCount :: "int option"
  dp_ConnectedPlayers :: "string list option"

definition marshal_detail :: "GameServerDetailSpec \<Rightarrow> detail_payload" where
  "marshal_detail spec =
     \<lparr>dp_ConnectedPlayersCount = omitempty 0 (ds_ConnectedPlayersCount spec),
      dp_ConnectedPlayers = omitempty [] (ds_ConnectedPlayers spec)\<rparr>"

text \<open>What a JSON merge patch with a payload makes of the stored object.\<close>

definition patched :: "'a option \<Rightarrow> 'a \<Rightarrow> 'a" where
  "patched p old = (case p of None \<Rightarrow> old | Some x \<Rightarrow> x)"

definition merge_status_payload :: "status_payload \<Rightarrow> GameServerStatus \<Rightarrow> GameServerStatus" where
  "merge_status_payload p st =
     \<lparr>st_Health = patched (sp_Health p) (st_Health st), st_State = patched (sp_State p) (st_State st),
      st_PublicIP = patched (sp_PublicIP p) (st_PublicIP st), st_Ports = patched (sp_Ports p) (st_Ports st),
      st_SessionID = patched (sp_SessionID p) (st_SessionID st),
      st_SessionCookie = patched (sp_SessionCookie p) (st_SessionCookie st),
      st_InitialPlayers = patched (sp_InitialPlayers p) (st_InitialPlayers st),
      st_NodeAge = patched (sp_NodeAge p) (st_NodeAge st), st_NodeName = patched (sp_NodeName p) (st_NodeName st),
      st_ReachedInitializingOn = (case sp_ReachedInitializingOn p of None \<Rightarrow> st_ReachedInitializingOn st | x \<Rightarrow> x),
      st_ReachedStandingByOn = (case sp_ReachedStandingByOn p of None \<Rightarrow> st_ReachedStandingByOn st | x \<Rightarrow> x),
      st_ReachedActiveOn = (case sp_ReachedActiveOn p of None \<Rightarrow> st_ReachedActiveOn st | x \<Rightarrow> x)\<rparr>"

definition merge_detail_payload :: "detail_payload \<Rightarrow> GameServerDetailSpec \<Rightarrow> GameServerDetailSpec" where
  "merge_detail_payload p spec =
     \<lparr>ds_ConnectedPlayersCount = patched (dp_ConnectedPlayersCount p) (ds_ConnectedPlayersCount spec),
      ds_ConnectedPlayers = patched (dp_ConnectedPlayers p) (ds_ConnectedPlayers spec)\<rparr>"

section \<open>Facts\<close>

lemma omitempty_simps [simp]: "omitempty z z = None" "x \<noteq> z \<Longrightarrow> omitempty z x = Some x"
  by (simp_all add: omitempty_def)

lemma patched_simps [simp]: "patched None old = old" "patched (Some x) old = x"
  by (simp_all add: patched_def)

lemma patched_omitempty: "patched (omitempty z x) old = (if x = z then old else x)"
  by (simp add: omitempty_def)

lemma sanitize_no_breaks: "newline \<notin> set (sanitize s) \<and> carriage_return \<notin> set (sanitize s)"
  by (simp add: sanitize_def remove_char_def)

lemma marshal_detail_zero: "merge_detail_payload (marshal_detail \<lparr>ds_ConnectedPlayersCount = 0, ds_ConnectedPlayers = []\<rparr>) spec = spec"
  by (simp add: merge_detail_payload_def marshal_detail_def)

text \<open>The rank of a state: what a valid transition never lowers.\<close>

definition stateRank :: "GameState \<Rightarrow> nat" where
  "stateRank s =
     (if s = [] then 0 else if s = GameStateInitializing then 1 else if s = GameStateStandingBy then 2 else 3)"

lemma valid_transition_rank: "isValidStateTransition old new \<Longrightarrow> stateRank old \<le> stateRank new"
  by (auto simp: isValidStateTransition_def stateRank_def split: if_splits)

definition game_states :: "GameState set" where
  "game_states = {[], GameStateInitializing, GameStateStandingBy, GameStateActive}"

lemma valid_transition_states: "isValidStateTransition old new \<Longrightarrow> old \<in> game_states \<Longrightarrow> new \<in> game_states"
  by (auto simp: isValidStateTransition_def game_states_def split: if_splits)

end
