(* ===== verification/Node_Agent.thy ===== *)
theory Node_Agent
  imports Node_Agent_Utils
begin

text \<open>
  The node agent of \<open>cmd/nodeagent/nodeagentmanager.go\<close>: it keeps an entry per GameServer of its
  node, answers the heartbeats of the game server processes, reports their state and health to
  the API server, and marks those that stopped sending heartbeats. Each handler is one step on
  the agent's state; the API server is a parameter over an abstract world, and every call is
  recorded with its outcome. The clock is read from the world, in milliseconds.
\<close>

section \<open>Parameters and state\<close>

datatype agent_call =
    PatchGameServer string string status_payload "api_error option"  \<comment> \<open>namespace, name\<close>
  | PatchDetail string string detail_payload "api_error option"
  | CreateDetail GameServerDetail "api_error option"

record 'w agent_api =
  aa_nowFunc :: "'w \<Rightarrow> int"
  aa_timeNow :: "'w \<Rightarrow> int"
  aa_patchGameServer :: "'w \<Rightarrow> string \<Rightarrow> string \<Rightarrow> status_payload \<Rightarrow> 'w \<times> api_error option"
  aa_patchDetail :: "'w \<Rightarrow> string \<Rightarrow> string \<Rightarrow> detail_payload \<Rightarrow> 'w \<times> api_error option"
  aa_createDetail :: "'w \<Rightarrow> GameServerDetail \<Rightarrow> 'w \<times> api_error option"

record agent_config =
  nodeName :: string
  logEveryHeartbeat :: bool
  ignoreHealthFromHeartbeat :: bool
  heartbeatTimeout :: int
  firstHeartbeatTimeout :: int

record 'w agent =
  ag_world :: 'w
  gameServerMap :: "string \<rightharpoonup> GameServerInfo"
  ag_effects :: "agent_effect list"
  ag_calls :: "agent_call list"

definition NewNodeAgentManager :: "environment \<Rightarrow> string \<Rightarrow> bool \<Rightarrow> bool \<Rightarrow> agent_config" where
  "NewNodeAgentManager env node logEvery ignoreHealth =
     \<lparr>nodeName = node, logEveryHeartbeat = logEvery, ignoreHealthFromHeartbeat = ignoreHealth,
      heartbeatTimeout = ParseInt64FromEnv env ''HEARTBEAT_TIMEOUT'' 5000,
      firstHeartbeatTimeout = ParseInt64FromEnv env ''FIRST_HEARTBEAT_TIMEOUT'' 60000\<rparr>"

definition new_agent :: "'w \<Rightarrow> 'w agent" where
  "new_agent w = \<lparr>ag_world = w, gameServerMap = Map.empty, ag_effects = [], ag_calls = []\<rparr>"

text \<open>The configuration \<open>main\<close> makes; \<open>None\<close> without the name of the node.\<close>

definition agent_main :: "environment \<Rightarrow> (int \<times> agent_config) option" where
  "agent_main env =
     (case getEnv env ''NODE_NAME'' True of
        None \<Rightarrow> None
      | Some node \<Rightarrow>
          Some (getNumericEnv env ''AGENT_PORT'' 56001,
            NewNodeAgentManager env node (getBooleanEnv env ''LOG_EVERY_HEARTBEAT'' False)
              (getBooleanEnv env ''IGNORE_HEALTH_FROM_HEARTBEAT'' False)))"

text \<open>The selector of the watch.\<close>

definition watchSelector :: "agent_config \<Rightarrow> string" where
  "watchSelector cfg = ''NodeName='' @ nodeName cfg"

definition add_effect :: "agent_effect \<Rightarrow> 'w agent \<Rightarrow> 'w agent" where
  "add_effect e s = s\<lparr>ag_effects := ag_effects s @ [e]\<rparr>"

definition put_info :: "string \<Rightarrow> GameServerInfo \<Rightarrow> 'w agent \<Rightarrow> 'w agent" where
  "put_info name gsd s = s\<lparr>gameServerMap := (gameServerMap s)(name \<mapsto> gsd)\<rparr>"

definition call_patchGameServer ::
    "'w agent_api \<Rightarrow> string \<Rightarrow> string \<Rightarrow> GameServerStatus \<Rightarrow> 'w agent \<Rightarrow> 'w agent \<times> api_error option" where
  "call_patchGameServer api namespace name status s =
     (let p = marshal_status status; (w, e) = aa_patchGameServer api (ag_world s) namespace name p
      in (s\<lparr>ag_world := w, ag_calls := ag_calls s @ [PatchGameServer namespace name p e]\<rparr>, e))"

definition call_patchDetail ::
    "'w agent_api \<Rightarrow> string \<Rightarrow> string \<Rightarrow> GameServerDetailSpec \<Rightarrow> 'w agent \<Rightarrow> 'w agent \<times> api_error option" where
  "call_patchDetail api namespace name spec s =
     (let p = marshal_detail spec; (w, e) = aa_patchDetail api (ag_world s) namespace name p
      in (s\<lparr>ag_world := w, ag_calls := ag_calls s @ [PatchDetail namespace name p e]\<rparr>, e))"

section \<open>Details of a GameServer\<close>

text \<open>\<open>None\<close> is the nil slice of the source.\<close>

definition newGameServerDetail :: "string \<Rightarrow> string \<Rightarrow> string \<Rightarrow> string \<Rightarrow> string list option \<Rightarrow> GameServerDetail" where
  "newGameServerDetail gsuid gsname gsnamespace gsbuildname connectedPlayers =
     (let gs = zero_Meta\<lparr>om_Name := gsname, om_Namespace := gsnamespace, om_UID := gsuid\<rparr>
      in \<lparr>gsd_Meta = zero_Meta\<lparr>om_Name := gsname, om_Namespace := gsnamespace,
            om_OwnerReferences := [NewControllerRef gs GameServerKind],
            om_Labels := [''BuildName'' \<mapsto> gsbuildname]\<rparr>,
          gsd_Spec =
            (case connectedPlayers of
               None \<Rightarrow> \<lparr>ds_ConnectedPlayersCount = 0, ds_ConnectedPlayers = []\<rparr>
             | Some ps \<Rightarrow> \<lparr>ds_ConnectedPlayersCount = int (length ps), ds_ConnectedPlayers = ps\<rparr>)\<rparr>)"

definition createGameServerDetails ::
    "'w agent_api \<Rightarrow> string \<Rightarrow> string \<Rightarrow> string \<Rightarrow> string \<Rightarrow> string list option \<Rightarrow>
     'w agent \<Rightarrow> 'w agent \<times> api_error option" where
  "createGameServerDetails api gsuid gsname gsnamespace gsbuildname connectedPlayers s =
     (let d = newGameServerDetail gsuid gsname gsnamespace gsbuildname connectedPlayers;
          (w, e) = aa_createDetail api (ag_world s) d
      in (s\<lparr>ag_world := w, ag_calls := ag_calls s @ [CreateDetail d e]\<rparr>, e))"

section \<open>Heartbeat timeouts\<close>

datatype HeartbeatState = gotHeartbeat | noHeartbeatEver | noHeartbeatSince

definition heartbeatState :: "agent_config \<Rightarrow> int \<Rightarrow> GameServerInfo \<Rightarrow> HeartbeatState" where
  "heartbeatState cfg currentTime gsi =
     (if LastHeartbeatTime gsi = 0 \<and> CreationTime gsi \<noteq> 0 \<and>
         firstHeartbeatTimeout cfg < currentTime - CreationTime gsi \<and>
         PreviousGameHealth gsi \<noteq> GameServerUnhealthy
      then noHeartbeatEver
      else if LastHeartbeatTime gsi \<noteq> 0 \<and>
         heartbeatTimeout cfg < currentTime - LastHeartbeatTime gsi \<and>
         PreviousGameHealth gsi \<noteq> GameServerUnhealthy
      then noHeartbeatSince
      else gotHeartbeat)"

definition markGameServerUnhealthy :: "'w agent_api \<Rightarrow> string \<Rightarrow> string \<Rightarrow> 'w agent \<Rightarrow> 'w agent \<times> api_error option" where
  "markGameServerUnhealthy api name namespace s =
     call_patchGameServer api namespace name (zero_Status\<lparr>st_Health := GameServerUnhealthy\<rparr>) s"

text \<open>The body of the \<open>Range\<close> over the map, for one key.\<close>

definition checkHeartbeat :: "'w agent_api \<Rightarrow> agent_config \<Rightarrow> string \<Rightarrow> 'w agent \<Rightarrow> 'w agent" where
  "checkHeartbeat api cfg name s =
     (case gameServerMap s name of
        None \<Rightarrow> s
      | Some gsi \<Rightarrow>
          if \<not> MarkedUnhealthy gsi \<and> heartbeatState cfg (aa_nowFunc api (ag_world s)) gsi \<noteq> gotHeartbeat
          then (case markGameServerUnhealthy api name (GameServerNamespace gsi) s of
                  (s1, None) \<Rightarrow> put_info name (gsi\<lparr>MarkedUnhealthy := True\<rparr>) s1
                | (s1, Some e) \<Rightarrow> s1)
          else s)"

text \<open>The range visits the keys of the map in an order that is a parameter.\<close>

definition HeartbeatTimeChecker ::
    "'w agent_api \<Rightarrow> agent_config \<Rightarrow> (string set \<Rightarrow> string list) \<Rightarrow> 'w agent \<Rightarrow> 'w agent" where
  "HeartbeatTimeChecker api cfg order s = fold (checkHeartbeat api cfg) (order (dom (gameServerMap s))) s"

section \<open>Changes of the GameServers\<close>

definition freshInfo :: "gs_object \<Rightarrow> int \<Rightarrow> string \<Rightarrow> GameServerInfo" where
  "freshInfo obj now build =
     \<lparr>IsActive = False, SessionID = [], SessionCookie = [], InitialPlayers = [], PreviousGameState = [],
      PreviousGameHealth = [], GameServerNamespace = uo_Namespace obj, ConnectedPlayersCount = 0,
      GsUid = uo_UID obj, CreationTime = now, LastHeartbeatTime = 0, MarkedUnhealthy = False,
      BuildName = build\<rparr>"

definition activated :: "gs_object \<Rightarrow> GameServerInfo \<Rightarrow> GameServerInfo" where
  "activated obj gsd =
     (let (sessionID, sessionCookie, initialPlayers) = parseSessionDetails obj
      in gsd\<lparr>IsActive := True, SessionCookie := sessionCookie, SessionID := sessionID,
             InitialPlayers := initialPlayers\<rparr>)"

definition gameServerCreatedOrUpdated :: "'w agent_api \<Rightarrow> gs_object \<Rightarrow> 'w agent \<Rightarrow> 'w agent" where
  "gameServerCreatedOrUpdated api obj s =
     (let name = uo_Name obj;
          build = (case parseBuildName obj of Inr b \<Rightarrow> b | Inl e \<Rightarrow> []);
          gsd = (case gameServerMap s name of
                   Some gsd \<Rightarrow> gsd | None \<Rightarrow> freshInfo obj (aa_nowFunc api (ag_world s)) build);
          s1 = put_info name gsd s;
          (state, health) = (case parseStateHealth obj of Inr sh \<Rightarrow> sh | Inl e \<Rightarrow> ([], []))
      in if state \<noteq> GameStateActive \<or> health \<noteq> GameServerHealthy then s1
         else (let (s2, e) = createGameServerDetails api (uo_UID obj) name (uo_Namespace obj) build None s1;
                   s3 = add_effect (SetGameServerStates name state 1) s2;
                   s4 = (if PreviousGameState gsd \<noteq> []
                         then add_effect (SetGameServerStates name (PreviousGameState gsd) 0) s3 else s3)
               in put_info name (activated obj gsd) s4))"

definition gameServerDeleted :: "gs_object \<Rightarrow> 'w agent \<Rightarrow> 'w agent" where
  "gameServerDeleted obj s =
     (let build = (case parseBuildName obj of Inr b \<Rightarrow> b | Inl e \<Rightarrow> []);
          s1 = add_effect (SetConnectedPlayers (uo_Namespace obj) (uo_Name obj) build 0) s
      in s1\<lparr>gameServerMap := (gameServerMap s1)(uo_Name obj := None)\<rparr>)"

section \<open>Heartbeats\<close>

definition reportedStatus :: "HeartbeatRequest \<Rightarrow> int \<Rightarrow> GameServerStatus" where
  "reportedStatus hb now =
     (let st = zero_Status\<lparr>st_State := CurrentGameState hb, st_Health := CurrentGameHealth hb\<rparr>
      in if CurrentGameHealth hb = GameServerHealthy
         then (if CurrentGameState hb = GameStateInitializing then st\<lparr>st_ReachedInitializingOn := Some now\<rparr>
               else if CurrentGameState hb = GameStateStandingBy then st\<lparr>st_ReachedStandingByOn := Some now\<rparr>
               else st)
         else st)"

definition reachedEffects :: "HeartbeatRequest \<Rightarrow> GameServerInfo \<Rightarrow> int \<Rightarrow> agent_effect list" where
  "reachedEffects hb gsd now =
     (if CurrentGameHealth hb = GameServerHealthy
      then (if CurrentGameState hb = GameStateInitializing
            then [SetReachedInitializing (BuildName gsd) (now - CreationTime gsd)]
            else if CurrentGameState hb = GameStateStandingBy
            then [SetReachedStandingBy (BuildName gsd) (now - CreationTime gsd)]
            else [])
      else [])"

text \<open>The allocation itself has set the state: it is not reported again.\<close>

definition wasAllocated :: "GameServerInfo \<Rightarrow> HeartbeatRequest \<Rightarrow> bool" where
  "wasAllocated gsd hb \<longleftrightarrow> PreviousGameState gsd = GameStateStandingBy \<and>
     CurrentGameState hb = GameStateActive \<and> PreviousGameHealth gsd = CurrentGameHealth hb"

definition updateHealthAndStateIfNeeded ::
    "'w agent_api \<Rightarrow> HeartbeatRequest \<Rightarrow> string \<Rightarrow> GameServerInfo \<Rightarrow> 'w agent \<Rightarrow>
     'w agent \<times> GameServerInfo \<times> string option" where
  "updateHealthAndStateIfNeeded api hb name gsd s =
     (if PreviousGameHealth gsd = CurrentGameHealth hb \<and> PreviousGameState gsd = CurrentGameState hb
      then (s, gsd, None)
      else
        (let gsd1 = (if CurrentGameState hb = GameStateActive \<and> PreviousGameState gsd = []
                     then gsd\<lparr>PreviousGameState := GameStateActive\<rparr> else gsd);
             gsd2 = gsd1\<lparr>PreviousGameHealth := CurrentGameHealth hb, PreviousGameState := CurrentGameState hb\<rparr>
         in if \<not> isValidStateTransition (PreviousGameState gsd1) (CurrentGameState hb)
            then (s, gsd1, Some (''invalid state transition from '' @ PreviousGameState gsd1 @ '' to '' @ CurrentGameState hb))
            else if wasAllocated gsd1 hb then (s, gsd2, None)
            else (let s1 = s\<lparr>ag_effects := ag_effects s @ reachedEffects hb gsd1 (aa_timeNow api (ag_world s))\<rparr>
                  in case call_patchGameServer api (GameServerNamespace gsd1) name
                         (reportedStatus hb (aa_nowFunc api (ag_world s))) s1 of
                       (s2, Some e) \<Rightarrow> (s2, gsd1, Some (err_text e))
                     | (s2, None) \<Rightarrow> (s2, gsd2, None))))"

definition updateConnectedPlayersIfNeeded ::
    "'w agent_api \<Rightarrow> HeartbeatRequest \<Rightarrow> string \<Rightarrow> GameServerInfo \<Rightarrow> 'w agent \<Rightarrow>
     'w agent \<times> GameServerInfo \<times> string option" where
  "updateConnectedPlayersIfNeeded api hb name gsd s =
     (let n = int (length (CurrentPlayers hb))
      in if CurrentGameState hb \<noteq> GameStateActive \<or> ConnectedPlayersCount gsd = n then (s, gsd, None)
         else
           (let s1 = add_effect (SetConnectedPlayers (GameServerNamespace gsd) name (BuildName gsd) n) s
            in case call_patchDetail api (GameServerNamespace gsd) name
                   \<lparr>ds_ConnectedPlayersCount = n, ds_ConnectedPlayers = CurrentPlayers hb\<rparr> s1 of
                 (s2, None) \<Rightarrow> (s2, gsd\<lparr>ConnectedPlayersCount := n\<rparr>, None)
               | (s2, Some e) \<Rightarrow>
                   if IsNotFound e
                   then (case createGameServerDetails api (GsUid gsd) name (GameServerNamespace gsd)
                             (BuildName gsd) (Some (CurrentPlayers hb)) s2 of
                           (s3, Some e') \<Rightarrow> (s3, gsd, Some (err_text e'))
                         | (s3, None) \<Rightarrow> (s3, gsd, Some (err_text e)))
                   else (s2, gsd, Some (err_text e))))"

text \<open>The last occurrence of a word, with what follows it, and the text up to the first one.\<close>

fun after_last :: "string \<Rightarrow> string \<Rightarrow> string option" where
  "after_last w [] = (if w = [] then Some [] else None)"
| "after_last w (c # cs) =
     (case after_last w cs of
        Some r \<Rightarrow> Some r
      | None \<Rightarrow> if take (length w) (c # cs) = w then Some (drop (length w) (c # cs)) else None)"

fun upto_first :: "string \<Rightarrow> string \<Rightarrow> string" where
  "upto_first w [] = []"
| "upto_first w (c # cs) = (if take (length w) (c # cs) = w then [] else c # upto_first w cs)"

text \<open>
  The match of \<open>.*/v1/sessionHosts\/(.*?)(/heartbeats|$)\<close> and of its counterpart for the metrics
  on a request URI, which has no line breaks: the greedy prefix takes the last occurrence of the
  path, and the name is what precedes the first suffix, or all of the rest.
\<close>

definition match_path :: "string \<Rightarrow> string \<Rightarrow> string \<Rightarrow> string option" where
  "match_path path suffix uri = map_option (upto_first suffix) (after_last path uri)"

definition heartbeatResponse :: "HeartbeatRequest \<Rightarrow> GameServerInfo \<Rightarrow> HeartbeatResponse" where
  "heartbeatResponse hb gsd =
     \<lparr>hr_SessionConfig = \<lparr>sc_SessionId = SessionID gsd, sc_SessionCookie = SessionCookie gsd,
        sc_InitialPlayers = InitialPlayers gsd\<rparr>,
      hr_Operation = (if CurrentGameState hb = GameStateStandingBy \<and> IsActive gsd
                      then GameOperationActive else GameOperationContinue)\<rparr>"

text \<open>The handler on a valid request for a GameServer that has an entry.\<close>

definition handleHeartbeat ::
    "'w agent_api \<Rightarrow> agent_config \<Rightarrow> HeartbeatRequest \<Rightarrow> string \<Rightarrow> GameServerInfo \<Rightarrow> 'w agent \<Rightarrow> 'w agent \<times> response" where
  "handleHeartbeat api cfg hb name gsd s =
     (let gsd1 = gsd\<lparr>LastHeartbeatTime := aa_nowFunc api (ag_world s)\<rparr>;
          hb1 = (if ignoreHealthFromHeartbeat cfg then hb\<lparr>CurrentGameHealth := GameServerHealthy\<rparr> else hb)
      in case updateHealthAndStateIfNeeded api hb1 name gsd1 s of
           (s1, gsd2, Some e) \<Rightarrow> (put_info name gsd2 s1, internalServerErrorResponse e ''error updating health/state'')
         | (s1, gsd2, None) \<Rightarrow>
             (case updateConnectedPlayersIfNeeded api hb1 name gsd2 s1 of
                (s2, gsd3, Some e) \<Rightarrow>
                  (put_info name gsd3 s2, internalServerErrorResponse e ''error updating connected players count'')
              | (s2, gsd3, None) \<Rightarrow> (put_info name gsd3 s2, HeartbeatOk (heartbeatResponse hb1 gsd3))))"

text \<open>The body of the request is what the JSON decoder made of it.\<close>

definition heartbeatHandler ::
    "'w agent_api \<Rightarrow> agent_config \<Rightarrow> string \<Rightarrow> (string + HeartbeatRequest) \<Rightarrow> 'w agent \<Rightarrow> 'w agent \<times> response" where
  "heartbeatHandler api cfg uri body s =
     (case match_path ''/v1/sessionHosts/'' ''/heartbeats'' uri of
        None \<Rightarrow> (s, badRequestResponse ''invalid request URI'' ''cannot parse game server name'')
      | Some name \<Rightarrow>
          (case body of
             Inl e \<Rightarrow> (s, badRequestResponse e ''cannot deserialize json'')
           | Inr hb \<Rightarrow>
               (case validateHeartbeatRequest hb of
                  Inl e \<Rightarrow> (s, badRequestResponse e ''invalid heartbeat request'')
                | Inr hb' \<Rightarrow>
                    (case gameServerMap s name of
                       None \<Rightarrow> (s, internalServerErrorResponse (''game server '' @ name @ '' not found'') ''gameserver not found'')
                     | Some gsd \<Rightarrow> handleHeartbeat api cfg hb' name gsd s))))"

definition metricsHandler :: "string \<Rightarrow> (string + GsdkVersionInfo) \<Rightarrow> response" where
  "metricsHandler uri body =
     (case match_path ''/v1/metrics/'' ''/gsdkinfo'' uri of
        None \<Rightarrow> HandlerPanic
      | Some name \<Rightarrow>
          (case body of Inl e \<Rightarrow> badRequestResponse e ''cannot deserialize json'' | Inr gi \<Rightarrow> EmptyOk))"


section \<open>Basic facts\<close>

lemma put_info_simps [simp]:
  "gameServerMap (put_info n g s) = (gameServerMap s)(n \<mapsto> g)" "ag_world (put_info n g s) = ag_world s"
  "ag_calls (put_info n g s) = ag_calls s" "ag_effects (put_info n g s) = ag_effects s"
  "gameServerMap (add_effect e s) = gameServerMap s" "ag_world (add_effect e s) = ag_world s"
  "ag_calls (add_effect e s) = ag_calls s"
  by (simp_all add: put_info_def add_effect_def)

lemma agent_calls:
  "call_patchGameServer api ns n st s = (s1, e) \<Longrightarrow>
     ag_calls s1 = ag_calls s @ [PatchGameServer ns n (marshal_status st) e] \<and> gameServerMap s1 = gameServerMap s"
  "call_patchDetail api ns n sp s = (s1, e) \<Longrightarrow>
     ag_calls s1 = ag_calls s @ [PatchDetail ns n (marshal_detail sp) e] \<and> gameServerMap s1 = gameServerMap s"
  "createGameServerDetails api u n ns b ps s = (s1, e) \<Longrightarrow>
     ag_calls s1 = ag_calls s @ [CreateDetail (newGameServerDetail u n ns b ps) e] \<and> gameServerMap s1 = gameServerMap s"
  by (auto simp: call_patchGameServer_def call_patchDetail_def createGameServerDetails_def Let_def split: prod.splits)

lemma markGameServerUnhealthy_calls:
  "markGameServerUnhealthy api n ns s = (s1, e) \<Longrightarrow>
   ag_calls s1 = ag_calls s @ [PatchGameServer ns n (marshal_status (zero_Status\<lparr>st_Health := GameServerUnhealthy\<rparr>)) e] \<and>
   gameServerMap s1 = gameServerMap s"
  unfolding markGameServerUnhealthy_def by (rule agent_calls)

text \<open>What the two updates leave: the entry they return, and the map of the agent.\<close>

lemma updateHealth_cases:
  assumes "updateHealthAndStateIfNeeded api hb n gsd s = (s', gsd', r)"
  obtains (same) "s' = s" "gsd' = gsd" "r = None"
      "PreviousGameHealth gsd = CurrentGameHealth hb" "PreviousGameState gsd = CurrentGameState hb"
  | (invalid) e where "s' = s" "gsd' = gsd" "r = Some e" "\<not> isValidStateTransition (PreviousGameState gsd) (CurrentGameState hb)"
  | (allocated) "s' = s" "r = None" "wasAllocated gsd hb"
      "gsd' = gsd\<lparr>PreviousGameHealth := CurrentGameHealth hb, PreviousGameState := CurrentGameState hb\<rparr>"
  | (sent) prev e where "ag_calls s' = ag_calls s @
        [PatchGameServer (GameServerNamespace gsd) n (marshal_status (reportedStatus hb (aa_nowFunc api (ag_world s)))) e]"
      "gameServerMap s' = gameServerMap s"
      "prev = (if CurrentGameState hb = GameStateActive \<and> PreviousGameState gsd = [] then GameStateActive else PreviousGameState gsd)"
      "isValidStateTransition prev (CurrentGameState hb)"
      "gsd' = (if e = None
         then gsd\<lparr>PreviousGameHealth := CurrentGameHealth hb, PreviousGameState := CurrentGameState hb\<rparr>
         else gsd\<lparr>PreviousGameState := prev\<rparr>)"
      "r = map_option err_text e"
proof (cases "PreviousGameHealth gsd = CurrentGameHealth hb \<and> PreviousGameState gsd = CurrentGameState hb")
  case True
  with assms show ?thesis by (intro same) (simp_all add: updateHealthAndStateIfNeeded_def)
next
  case diff: False
  define gsd1 where "gsd1 = (if CurrentGameState hb = GameStateActive \<and> PreviousGameState gsd = []
      then gsd\<lparr>PreviousGameState := GameStateActive\<rparr> else gsd)"
  note U = assms [unfolded updateHealthAndStateIfNeeded_def Let_def, folded gsd1_def]
  show ?thesis
  proof (cases "isValidStateTransition (PreviousGameState gsd1) (CurrentGameState hb)")
    case False
    then have "gsd1 = gsd" by (auto simp: gsd1_def isValidStateTransition_def)
    with False U diff show ?thesis by (intro invalid) auto
  next
    case valid: True
    show ?thesis
    proof (cases "wasAllocated gsd1 hb")
      case True
      then have "gsd1 = gsd" by (auto simp: gsd1_def wasAllocated_def split: if_splits)
      with True valid U diff show ?thesis by (intro allocated) auto
    next
      case False
      let ?s1 = "s\<lparr>ag_effects := ag_effects s @ reachedEffects hb gsd1 (aa_timeNow api (ag_world s))\<rparr>"
      obtain s2 e where c: "call_patchGameServer api (GameServerNamespace gsd1) n
          (reportedStatus hb (aa_nowFunc api (ag_world s))) ?s1 = (s2, e)" by fastforce
      have r: "s' = s2" "r = map_option err_text e" "gsd' = (case e of None \<Rightarrow>
          gsd1\<lparr>PreviousGameHealth := CurrentGameHealth hb, PreviousGameState := CurrentGameState hb\<rparr> | Some _ \<Rightarrow> gsd1)"
        using U diff valid False c by (auto split: option.splits)
      have ns: "GameServerNamespace gsd1 = GameServerNamespace gsd" by (simp add: gsd1_def)
      show ?thesis
        by (rule sent [of e "PreviousGameState gsd1"])
          (use agent_calls(1) [OF c] r valid ns in \<open>auto simp: gsd1_def split: option.splits\<close>)
    qed
  qed
qed

lemma updatePlayers_cases:
  assumes "updateConnectedPlayersIfNeeded api hb n gsd s = (s', gsd', r)"
  obtains (same) "s' = s" "gsd' = gsd" "r = None"
      "CurrentGameState hb \<noteq> GameStateActive \<or> ConnectedPlayersCount gsd = int (length (CurrentPlayers hb))"
  | (patched) "ag_calls s' = ag_calls s @ [PatchDetail (GameServerNamespace gsd) n
        (marshal_detail \<lparr>ds_ConnectedPlayersCount = int (length (CurrentPlayers hb)),
           ds_ConnectedPlayers = CurrentPlayers hb\<rparr>) None]"
      "gameServerMap s' = gameServerMap s" "r = None"
      "gsd' = gsd\<lparr>ConnectedPlayersCount := int (length (CurrentPlayers hb))\<rparr>"
  | (failed) cs e where "ag_calls s' = ag_calls s @ cs" "\<forall>ns m p e. PatchGameServer ns m p e \<notin> set cs"
      "gameServerMap s' = gameServerMap s" "gsd' = gsd" "r = Some e"
proof (cases "CurrentGameState hb \<noteq> GameStateActive \<or> ConnectedPlayersCount gsd = int (length (CurrentPlayers hb))")
  case True
  with assms show ?thesis by (intro same) (auto simp: updateConnectedPlayersIfNeeded_def Let_def)
next
  case False
  let ?spec = "\<lparr>ds_ConnectedPlayersCount = int (length (CurrentPlayers hb)), ds_ConnectedPlayers = CurrentPlayers hb\<rparr>"
  obtain s2 e where c: "call_patchDetail api (GameServerNamespace gsd) n ?spec
      (add_effect (SetConnectedPlayers (GameServerNamespace gsd) n (BuildName gsd) (int (length (CurrentPlayers hb)))) s) = (s2, e)"
    by fastforce
  note C = agent_calls(2) [OF c]
  show ?thesis
  proof (cases e)
    case None
    with assms c False C show ?thesis
      by (intro patched) (auto simp: updateConnectedPlayersIfNeeded_def Let_def)
  next
    case (Some err)
    show ?thesis
    proof (cases "IsNotFound err")
      case nf: True
      obtain s3 e' where d: "createGameServerDetails api (GsUid gsd) n (GameServerNamespace gsd) (BuildName gsd)
          (Some (CurrentPlayers hb)) s2 = (s3, e')" by fastforce
      note D = agent_calls(3) [OF d]
      from assms c False Some nf d have r: "s' = s3" "gsd' = gsd" "\<exists>x. r = Some x"
        by (auto simp: updateConnectedPlayersIfNeeded_def Let_def split: option.splits)
      then obtain x where "r = Some x" by blast
      from failed [OF _ _ _ r(2) this] r(1) C D show ?thesis by auto
    next
      case nf: False
      with assms c False Some have "s' = s2" "gsd' = gsd" "r = Some (err_text err)"
        by (auto simp: updateConnectedPlayersIfNeeded_def Let_def)
      with failed C show ?thesis by auto
    qed
  qed
qed


section \<open>The agent as a transition system\<close>

inductive agent_step ::
    "'w agent_api \<Rightarrow> agent_config \<Rightarrow> (string set \<Rightarrow> string list) \<Rightarrow> 'w agent \<Rightarrow> 'w agent \<Rightarrow> bool"
  for api :: "'w agent_api" and cfg :: agent_config and order :: "string set \<Rightarrow> string list" where
  step_heartbeat: "heartbeatHandler api cfg uri body s = (s', r) \<Longrightarrow> agent_step api cfg order s s'"
| step_changed: "agent_step api cfg order s (gameServerCreatedOrUpdated api obj s)"
| step_deleted: "agent_step api cfg order s (gameServerDeleted obj s)"
| step_check: "agent_step api cfg order s (HeartbeatTimeChecker api cfg order s)"
| step_world: "agent_step api cfg order s (s\<lparr>ag_world := w\<rparr>)"

inductive_cases agent_stepE: "agent_step api cfg order s s'"

definition advances :: "GameServerInfo \<Rightarrow> GameServerInfo \<Rightarrow> bool" where
  "advances g g' \<longleftrightarrow>
     stateRank (PreviousGameState g) \<le> stateRank (PreviousGameState g') \<and>
     (IsActive g \<longrightarrow> IsActive g') \<and> (MarkedUnhealthy g \<longrightarrow> MarkedUnhealthy g') \<and>
     GameServerNamespace g' = GameServerNamespace g \<and> GsUid g' = GsUid g \<and> CreationTime g' = CreationTime g"

definition info_ok :: "GameServerInfo \<Rightarrow> bool" where
  "info_ok g \<longleftrightarrow> PreviousGameState g \<in> game_states \<and> 0 \<le> ConnectedPlayersCount g"

fun call_ok :: "agent_call \<Rightarrow> bool" where
  "call_ok (PatchGameServer ns n p e) =
     (case sp_State p of None \<Rightarrow> True | Some st \<Rightarrow> st \<in> game_states - {[]})"
| "call_ok _ = True"

lemma advances_refl [simp]: "advances g g"
  by (simp add: advances_def)

lemma advances_trans: "advances g g1 \<Longrightarrow> advances g1 g2 \<Longrightarrow> advances g g2"
  by (auto simp: advances_def)

text \<open>A step that only adds good calls and good entries, and lets the entries advance.\<close>

definition good_step :: "'w agent \<Rightarrow> 'w agent \<Rightarrow> bool" where
  "good_step s s' \<longleftrightarrow>
     (\<forall>n g'. gameServerMap s' n = Some g' \<longrightarrow>
        info_ok g' \<and> (\<forall>g. gameServerMap s n = Some g \<longrightarrow> advances g g')) \<and>
     (\<exists>cs. ag_calls s' = ag_calls s @ cs \<and> list_all call_ok cs)"

definition infos_ok :: "'w agent \<Rightarrow> bool" where
  "infos_ok s \<longleftrightarrow> (\<forall>n g. gameServerMap s n = Some g \<longrightarrow> info_ok g)"

lemma good_stepI:
  assumes "infos_ok s" and "\<And>g'. gameServerMap s' n = Some g' \<Longrightarrow>
      info_ok g' \<and> (\<forall>g. gameServerMap s n = Some g \<longrightarrow> advances g g')"
    and "\<And>m. m \<noteq> n \<Longrightarrow> gameServerMap s' m = gameServerMap s m"
    and "ag_calls s' = ag_calls s @ cs" "list_all call_ok cs"
  shows "good_step s s'"
  unfolding good_step_def
proof (intro conjI allI impI)
  show "\<exists>cs. ag_calls s' = ag_calls s @ cs \<and> list_all call_ok cs" using assms(4,5) by blast
  fix m g' assume m: "gameServerMap s' m = Some g'"
  show "info_ok g'" using m assms(1-3) by (cases "m = n") (auto simp: infos_ok_def)
  fix g assume g: "gameServerMap s m = Some g"
  show "advances g g'" using m g assms(2,3) by (cases "m = n") auto
qed

lemma good_step_trans:
  assumes "good_step s s1" "good_step s1 s2" and "dom (gameServerMap s) \<subseteq> dom (gameServerMap s1)"
  shows "good_step s s2"
  unfolding good_step_def
proof (intro conjI allI impI)
  from assms(1,2) obtain cs cs' where "ag_calls s1 = ag_calls s @ cs" "list_all call_ok cs"
    "ag_calls s2 = ag_calls s1 @ cs'" "list_all call_ok cs'" unfolding good_step_def by blast
  then show "\<exists>cs. ag_calls s2 = ag_calls s @ cs \<and> list_all call_ok cs"
    by (intro exI [of _ "cs @ cs'"]) simp
  fix n g' assume g': "gameServerMap s2 n = Some g'"
  with assms(2) show "info_ok g'" by (auto simp: good_step_def)
  fix g assume g: "gameServerMap s n = Some g"
  with assms(3) obtain g1 where "gameServerMap s1 n = Some g1" by auto
  with g g' assms(1,2) show "advances g g'" unfolding good_step_def by (blast intro: advances_trans)
qed

lemma good_step_infos: "good_step s s' \<Longrightarrow> infos_ok s'"
  by (auto simp: good_step_def infos_ok_def)

lemma updateHealth_good:
  assumes "updateHealthAndStateIfNeeded api hb n gsd s = (s', gsd', r)" and "info_ok gsd" and "CurrentGameState hb \<noteq> []"
  shows "advances gsd gsd' \<and> info_ok gsd' \<and> gameServerMap s' = gameServerMap s \<and>
    (\<exists>cs. ag_calls s' = ag_calls s @ cs \<and> list_all call_ok cs) \<and>
    (r = None \<longrightarrow> PreviousGameState gsd' = CurrentGameState hb \<and> PreviousGameHealth gsd' = CurrentGameHealth hb)"
  using assms(1)
proof (cases rule: updateHealth_cases)
  case allocated
  with assms(2) show ?thesis
    by (auto simp: wasAllocated_def advances_def info_ok_def game_states_def stateRank_def)
next
  case (sent prev e)
  have prev: "prev \<in> game_states" "stateRank (PreviousGameState gsd) \<le> stateRank prev"
    using sent(3) assms(2) by (auto simp: game_states_def info_ok_def stateRank_def)
  note v = valid_transition_states [OF sent(4) prev(1)] valid_transition_rank [OF sent(4)]
  have "call_ok (PatchGameServer (GameServerNamespace gsd) n (marshal_status (reportedStatus hb (aa_nowFunc api (ag_world s)))) e)"
    using v(1) assms(3) by (auto simp: marshal_status_def reportedStatus_def Let_def omitempty_def game_states_def)
  with sent prev v assms(2) show ?thesis
    by (cases e) (auto simp: advances_def info_ok_def)
qed (use assms(2) in auto)

lemma updatePlayers_good:
  assumes "updateConnectedPlayersIfNeeded api hb n gsd s = (s', gsd', r)" and "info_ok gsd"
  shows "advances gsd gsd' \<and> info_ok gsd' \<and> gameServerMap s' = gameServerMap s \<and>
    (\<exists>cs. ag_calls s' = ag_calls s @ cs \<and> list_all call_ok cs) \<and>
    PreviousGameState gsd' = PreviousGameState gsd"
  using assms(1)
proof (cases rule: updatePlayers_cases)
  case patched
  with assms(2) show ?thesis by (simp add: advances_def info_ok_def)
next
  case (failed cs e)
  have "call_ok c" if "c \<in> set cs" for c using that failed(2) by (cases c rule: call_ok.cases) auto
  with failed assms(2) show ?thesis by (auto simp: list_all_iff)
qed (use assms(2) in auto)

lemma handleHeartbeat_good:
  assumes "handleHeartbeat api cfg hb n gsd s = (s', r)" and "gameServerMap s n = Some gsd"
    and "infos_ok s" and "CurrentGameState hb \<noteq> []"
  shows "good_step s s'"
proof -
  let ?g1 = "gsd\<lparr>LastHeartbeatTime := aa_nowFunc api (ag_world s)\<rparr>"
  let ?hb = "if ignoreHealthFromHeartbeat cfg then hb\<lparr>CurrentGameHealth := GameServerHealthy\<rparr> else hb"
  have ok: "info_ok ?g1" "advances gsd ?g1" "CurrentGameState ?hb \<noteq> []"
    using assms by (auto simp: infos_ok_def info_ok_def advances_def)
  obtain s1 g2 q where u: "updateHealthAndStateIfNeeded api ?hb n ?g1 s = (s1, g2, q)" by (metis prod_cases3)
  from updateHealth_good [OF u ok(1,3)] obtain cs where U: "advances ?g1 g2" "info_ok g2"
    "gameServerMap s1 = gameServerMap s" "ag_calls s1 = ag_calls s @ cs" "list_all call_ok cs" by blast
  show ?thesis
  proof (cases q)
    case (Some e)
    with assms(1) u have s': "s' = put_info n g2 s1" by (simp add: handleHeartbeat_def Let_def)
    show ?thesis
      by (rule good_stepI [OF assms(3), where n = n and cs = cs])
        (use U ok assms(2) in \<open>auto simp: s' intro: advances_trans\<close>)
  next
    case None
    obtain s2 g3 q2 where p: "updateConnectedPlayersIfNeeded api ?hb n g2 s1 = (s2, g3, q2)" by (metis prod_cases3)
    from updatePlayers_good [OF p U(2)] obtain cs2 where P: "advances g2 g3" "info_ok g3"
      "gameServerMap s2 = gameServerMap s1" "ag_calls s2 = ag_calls s1 @ cs2" "list_all call_ok cs2" by blast
    from assms(1) u None p have s': "s' = put_info n g3 s2"
      by (cases q2) (simp_all add: handleHeartbeat_def Let_def)
    show ?thesis
      by (rule good_stepI [OF assms(3), where n = n and cs = "cs @ cs2"])
        (use U P ok assms(2) in \<open>auto simp: s' intro: advances_trans\<close>)
  qed
qed


lemma heartbeatHandler_good:
  assumes "heartbeatHandler api cfg uri body s = (s', r)" and "infos_ok s"
  shows "good_step s s'"
proof -
  have same: "good_step s s" using assms(2) by (auto simp: good_step_def infos_ok_def)
  show ?thesis
  proof (cases "match_path ''/v1/sessionHosts/'' ''/heartbeats'' uri")
    case None
    with assms(1) same show ?thesis by (simp add: heartbeatHandler_def)
  next
    case name: (Some n)
    show ?thesis
    proof (cases body)
      case (Inl e)
      with assms(1) same name show ?thesis by (simp add: heartbeatHandler_def)
    next
      case (Inr hb)
      show ?thesis
      proof (cases "validateHeartbeatRequest hb")
        case (Inl e)
        with assms(1) same name Inr show ?thesis by (simp add: heartbeatHandler_def)
      next
        case v: (Inr hb')
        then have st: "CurrentGameState hb' \<noteq> []"
          by (auto simp: validateHeartbeatRequest_def Let_def split: if_splits)
        show ?thesis
        proof (cases "gameServerMap s n")
          case None
          with assms(1) same name Inr v show ?thesis by (simp add: heartbeatHandler_def)
        next
          case (Some gsd)
          with assms(1) name Inr v have "handleHeartbeat api cfg hb' n gsd s = (s', r)"
            by (simp add: heartbeatHandler_def)
          from handleHeartbeat_good [OF this Some assms(2) st] show ?thesis .
        qed
      qed
    qed
  qed
qed

lemma changed_good:
  assumes "infos_ok s"
  shows "good_step s (gameServerCreatedOrUpdated api obj s)"
proof -
  let ?n = "uo_Name obj"
  define build where "build = (case parseBuildName obj of Inr b \<Rightarrow> b | Inl e \<Rightarrow> [])"
  define gsd where "gsd = (case gameServerMap s ?n of Some gsd \<Rightarrow> gsd
      | None \<Rightarrow> freshInfo obj (aa_nowFunc api (ag_world s)) build)"
  have gsd: "info_ok gsd" "\<And>g. gameServerMap s ?n = Some g \<Longrightarrow> gsd = g"
    using assms by (auto simp: gsd_def infos_ok_def info_ok_def freshInfo_def game_states_def split: option.splits)
  have act: "info_ok (activated obj gsd)" "advances gsd (activated obj gsd)"
    using gsd(1) by (auto simp: activated_def Let_def info_ok_def advances_def split: prod.splits)
  obtain state health where sh: "(case parseStateHealth obj of Inr sh \<Rightarrow> sh | Inl e \<Rightarrow> ([], [])) = (state, health)"
    by fastforce
  obtain s2 e where c: "createGameServerDetails api (uo_UID obj) ?n (uo_Namespace obj) build None (put_info ?n gsd s) = (s2, e)"
    by fastforce
  note C = agent_calls(3) [OF c]
  note U = gameServerCreatedOrUpdated_def [of api obj s, unfolded Let_def, folded build_def, folded gsd_def, unfolded sh prod.case]
  show ?thesis
  proof (cases "state \<noteq> GameStateActive \<or> health \<noteq> GameServerHealthy")
    case True
    have s': "gameServerCreatedOrUpdated api obj s = put_info ?n gsd s"
      unfolding U using True by auto
    show ?thesis
      by (rule good_stepI [OF assms, where n = ?n and cs = "[]"]) (use gsd in \<open>auto simp: s'\<close>)
  next
    case False
    have s': "gameServerMap (gameServerCreatedOrUpdated api obj s) = (gameServerMap s)(?n \<mapsto> activated obj gsd)"
      "ag_calls (gameServerCreatedOrUpdated api obj s) = ag_calls s @ [CreateDetail (newGameServerDetail (uo_UID obj) ?n (uo_Namespace obj) build None) e]"
      unfolding U using False C c by auto
    show ?thesis
      by (rule good_stepI [OF assms _ _ s'(2), where n = ?n]) (use gsd act in \<open>auto simp: s'(1)\<close>)
  qed
qed

lemma deleted_good: "infos_ok s \<Longrightarrow> good_step s (gameServerDeleted obj s)"
  by (auto simp: good_step_def gameServerDeleted_def infos_ok_def Let_def add_effect_def split: if_splits)

text \<open>One key of the range.\<close>

lemma checkHeartbeat_cases:
  obtains (kept) "checkHeartbeat api cfg n s = s"
      "\<And>g. gameServerMap s n = Some g \<Longrightarrow>
         MarkedUnhealthy g \<or> heartbeatState cfg (aa_nowFunc api (ag_world s)) g = gotHeartbeat"
  | (marked) g e where "gameServerMap s n = Some g" "\<not> MarkedUnhealthy g"
      "heartbeatState cfg (aa_nowFunc api (ag_world s)) g \<noteq> gotHeartbeat"
      "ag_calls (checkHeartbeat api cfg n s) = ag_calls s @
         [PatchGameServer (GameServerNamespace g) n (marshal_status (zero_Status\<lparr>st_Health := GameServerUnhealthy\<rparr>)) e]"
      "gameServerMap (checkHeartbeat api cfg n s) =
         (if e = None then (gameServerMap s)(n \<mapsto> g\<lparr>MarkedUnhealthy := True\<rparr>) else gameServerMap s)"
proof (cases "gameServerMap s n")
  case None
  then show ?thesis by (intro kept) (auto simp: checkHeartbeat_def)
next
  case (Some g)
  show ?thesis
  proof (cases "\<not> MarkedUnhealthy g \<and> heartbeatState cfg (aa_nowFunc api (ag_world s)) g \<noteq> gotHeartbeat")
    case False
    with Some show ?thesis by (intro kept) (auto simp: checkHeartbeat_def)
  next
    case True
    obtain s1 e where m: "markGameServerUnhealthy api n (GameServerNamespace g) s = (s1, e)" by fastforce
    from True Some m markGameServerUnhealthy_calls [OF m] show ?thesis
      by (intro marked [of g e]) (auto simp: checkHeartbeat_def split: option.splits)
  qed
qed

lemma checkHeartbeat_good: "infos_ok s \<Longrightarrow> good_step s (checkHeartbeat api cfg n s)"
proof (cases rule: checkHeartbeat_cases [of api cfg n s])
  case kept
  assume "infos_ok s"
  with kept show ?thesis by (auto simp: good_step_def infos_ok_def)
next
  case (marked g e)
  assume s: "infos_ok s"
  with marked(1) have "info_ok g" by (auto simp: infos_ok_def)
  with marked show ?thesis
    by (intro good_stepI [OF s _ _ marked(4), where n = n])
      (auto simp: info_ok_def advances_def marshal_status_def zero_Status_def split: if_splits)
qed

lemma checkHeartbeat_dom: "dom (gameServerMap (checkHeartbeat api cfg n s)) = dom (gameServerMap s)"
  by (cases rule: checkHeartbeat_cases [of api cfg n s]) auto

lemma fold_check_good:
  "infos_ok s \<Longrightarrow> good_step s (fold (checkHeartbeat api cfg) ns s) \<and>
   dom (gameServerMap (fold (checkHeartbeat api cfg) ns s)) = dom (gameServerMap s)"
proof (induction ns arbitrary: s)
  case Nil
  then show ?case by (auto simp: good_step_def infos_ok_def)
next
  case (Cons n ns)
  note G = checkHeartbeat_good [OF Cons.prems, of api cfg n]
  note I = Cons.IH [OF good_step_infos [OF G]]
  have "good_step s (fold (checkHeartbeat api cfg) ns (checkHeartbeat api cfg n s))"
    by (rule good_step_trans [OF G conjunct1 [OF I]]) (simp add: checkHeartbeat_dom)
  with I show ?case by (simp add: checkHeartbeat_dom)
qed

lemma agent_step_good: "agent_step api cfg order s s' \<Longrightarrow> infos_ok s \<Longrightarrow> good_step s s'"
proof (induction rule: agent_step.induct)
  case (step_world s w)
  then show ?case by (auto simp: good_step_def infos_ok_def)
qed (auto intro: heartbeatHandler_good changed_good deleted_good simp: HeartbeatTimeChecker_def fold_check_good)

definition agent_inv :: "'w agent \<Rightarrow> bool" where
  "agent_inv s \<longleftrightarrow> infos_ok s \<and> list_all call_ok (ag_calls s)"

lemma agent_inv_step: "agent_inv s \<Longrightarrow> agent_step api cfg order s s' \<Longrightarrow> agent_inv s'"
  using agent_step_good [of api cfg order s s'] good_step_infos [of s s']
  by (auto simp: agent_inv_def good_step_def)

interpretation agent_system: invariant_system
  "\<lambda>s. \<exists>w. s = new_agent w" "agent_step api cfg order" agent_inv
  for api :: "'w agent_api" and cfg order
proof unfold_locales
  show "agent_inv s" if "\<exists>w. s = new_agent w" for s :: "'w agent"
    using that by (auto simp: agent_inv_def infos_ok_def new_agent_def)
  show "agent_inv t" if "agent_inv s" "agent_step api cfg order s t" for s t
    using that by (rule agent_inv_step)
qed

section \<open>Properties\<close>



section \<open>Timeouts\<close>

fun callFor :: "string \<Rightarrow> agent_call \<Rightarrow> bool" where
  "callFor n (PatchGameServer ns m p e) = (m = n)"
| "callFor n (PatchDetail ns m p e) = (m = n)"
| "callFor n (CreateDetail d e) = (om_Name (gsd_Meta d) = n)"

definition silent :: "agent_config \<Rightarrow> int \<Rightarrow> GameServerInfo \<Rightarrow> bool" where
  "silent cfg now g \<longleftrightarrow>
     \<not> MarkedUnhealthy g \<and> PreviousGameHealth g \<noteq> GameServerUnhealthy \<and>
     (if LastHeartbeatTime g = 0
      then CreationTime g \<noteq> 0 \<and> firstHeartbeatTimeout cfg < now - CreationTime g
      else heartbeatTimeout cfg < now - LastHeartbeatTime g)"

lemma silent_iff: "silent cfg now g \<longleftrightarrow> \<not> MarkedUnhealthy g \<and> heartbeatState cfg now g \<noteq> gotHeartbeat"
  by (auto simp: silent_def heartbeatState_def)

definition unhealthyPayload :: status_payload where
  "unhealthyPayload = marshal_status (zero_Status\<lparr>st_Health := GameServerUnhealthy\<rparr>)"

definition outcome ::
    "agent_config \<Rightarrow> int \<Rightarrow> string \<Rightarrow> GameServerInfo option \<Rightarrow> agent_call list \<Rightarrow> GameServerInfo option \<Rightarrow> bool" where
  "outcome cfg now n g cs g' \<longleftrightarrow>
     (case g of
        None \<Rightarrow> filter (callFor n) cs = [] \<and> g' = None
      | Some x \<Rightarrow>
          if silent cfg now x
          then (\<exists>e. filter (callFor n) cs = [PatchGameServer (GameServerNamespace x) n unhealthyPayload e] \<and>
                  g' = Some (if e = None then x\<lparr>MarkedUnhealthy := True\<rparr> else x))
          else filter (callFor n) cs = [] \<and> g' = Some x)"

lemma outcome_cong:
  "filter (callFor n) cs = filter (callFor n) cs' \<Longrightarrow> outcome cfg now n g cs g' = outcome cfg now n g cs' g'"
  by (simp only: outcome_def)

lemma check_one:
  assumes "\<And>w. aa_nowFunc api w = now"
  shows "\<exists>cs. ag_calls (checkHeartbeat api cfg n s) = ag_calls s @ cs \<and>
    outcome cfg now n (gameServerMap s n) cs (gameServerMap (checkHeartbeat api cfg n s) n) \<and>
    (\<forall>m. m \<noteq> n \<longrightarrow> filter (callFor m) cs = [] \<and> gameServerMap (checkHeartbeat api cfg n s) m = gameServerMap s m)"
proof (cases rule: checkHeartbeat_cases [of api cfg n s])
  case kept
  then show ?thesis
    by (intro exI [of _ "[]"]) (auto simp: outcome_def silent_iff assms split: option.splits)
next
  case (marked g e)
  then have "silent cfg now g" by (simp add: silent_iff assms)
  with marked show ?thesis
    by (intro exI [of _ "[PatchGameServer (GameServerNamespace g) n unhealthyPayload e]"])
      (auto simp: outcome_def unhealthyPayload_def)
qed

lemma check_all:
  assumes "\<And>w. aa_nowFunc api w = now" and "distinct ns"
  shows "\<exists>cs. ag_calls (fold (checkHeartbeat api cfg) ns s) = ag_calls s @ cs \<and>
    (\<forall>n. if n \<in> set ns
       then outcome cfg now n (gameServerMap s n) cs (gameServerMap (fold (checkHeartbeat api cfg) ns s) n)
       else filter (callFor n) cs = [] \<and> gameServerMap (fold (checkHeartbeat api cfg) ns s) n = gameServerMap s n)"
  using assms(2)
proof (induction ns arbitrary: s)
  case Nil
  then show ?case by simp
next
  case (Cons n ns)
  let ?s1 = "checkHeartbeat api cfg n s"
  obtain c1 where 1: "ag_calls ?s1 = ag_calls s @ c1"
    "outcome cfg now n (gameServerMap s n) c1 (gameServerMap ?s1 n)"
    "\<And>m. m \<noteq> n \<Longrightarrow> filter (callFor m) c1 = [] \<and> gameServerMap ?s1 m = gameServerMap s m"
    using check_one [OF assms(1)] by blast
  from Cons.prems have n: "n \<notin> set ns" "distinct ns" by auto
  from Cons.IH [OF n(2), of ?s1] obtain c2 where 2: "ag_calls (fold (checkHeartbeat api cfg) ns ?s1) = ag_calls ?s1 @ c2"
    "\<And>m. if m \<in> set ns
       then outcome cfg now m (gameServerMap ?s1 m) c2 (gameServerMap (fold (checkHeartbeat api cfg) ns ?s1) m)
       else filter (callFor m) c2 = [] \<and> gameServerMap (fold (checkHeartbeat api cfg) ns ?s1) m = gameServerMap ?s1 m"
    by blast
  have "if m \<in> set (n # ns)
      then outcome cfg now m (gameServerMap s m) (c1 @ c2) (gameServerMap (fold (checkHeartbeat api cfg) ns ?s1) m)
      else filter (callFor m) (c1 @ c2) = [] \<and> gameServerMap (fold (checkHeartbeat api cfg) ns ?s1) m = gameServerMap s m" for m
  proof (cases "m = n")
    case True
    from 2(2) [of n] n(1) have "filter (callFor n) c2 = []"
      "gameServerMap (fold (checkHeartbeat api cfg) ns ?s1) n = gameServerMap ?s1 n" by simp_all
    moreover from this(1) have "outcome cfg now n g (c1 @ c2) g' = outcome cfg now n g c1 g'" for g g'
      by (intro outcome_cong) simp
    ultimately show ?thesis using 1(2) True by simp
  next
    case False
    from 1(3) [OF False] have "outcome cfg now m g (c1 @ c2) g' = outcome cfg now m g c2 g'" for g g'
      by (intro outcome_cong) simp
    with 2(2) [of m] 1(3) [OF False] False show ?thesis by (cases "m \<in> set ns") simp_all
  qed
  then show ?case unfolding fold_simps(2)
    by (intro exI [of _ "c1 @ c2"] conjI allI) (simp add: 1(1) 2(1))
qed

text \<open>What a check owes to an entry: \<open>cs\<close> are its calls, \<open>g'\<close> is what it leaves of the entry.\<close>

definition checkedEntry ::
    "agent_config \<Rightarrow> int \<Rightarrow> agent_call list \<Rightarrow> string \<Rightarrow> GameServerInfo \<Rightarrow> GameServerInfo option \<Rightarrow> bool" where
  "checkedEntry cfg now cs n g g' \<longleftrightarrow>
     (if \<not> MarkedUnhealthy g \<and> PreviousGameHealth g \<noteq> GameServerUnhealthy \<and>
         (if LastHeartbeatTime g = 0
          then CreationTime g \<noteq> 0 \<and> firstHeartbeatTimeout cfg < now - CreationTime g
          else heartbeatTimeout cfg < now - LastHeartbeatTime g)
      then \<exists>p e. filter (callFor n) cs = [PatchGameServer (GameServerNamespace g) n p e] \<and>
        (\<forall>st. merge_status_payload p st = st\<lparr>st_Health := GameServerUnhealthy\<rparr>) \<and>
        g' = Some (if e = None then g\<lparr>MarkedUnhealthy := True\<rparr> else g)
      else filter (callFor n) cs = [] \<and> g' = Some g)"

lemma outcome_checked: "outcome cfg now n (Some g) cs g' \<Longrightarrow> checkedEntry cfg now cs n g g'"
proof -
  assume o: "outcome cfg now n (Some g) cs g'"
  have p: "merge_status_payload unhealthyPayload st = st\<lparr>st_Health := GameServerUnhealthy\<rparr>" for st
    by (simp add: merge_status_payload_def unhealthyPayload_def marshal_status_def zero_Status_def)
  show ?thesis
  proof (cases "silent cfg now g")
    case True
    with o obtain e where "filter (callFor n) cs = [PatchGameServer (GameServerNamespace g) n unhealthyPayload e]"
      "g' = Some (if e = None then g\<lparr>MarkedUnhealthy := True\<rparr> else g)"
      by (auto simp: outcome_def)
    with p have "\<exists>p e. filter (callFor n) cs = [PatchGameServer (GameServerNamespace g) n p e] \<and>
        (\<forall>st. merge_status_payload p st = st\<lparr>st_Health := GameServerUnhealthy\<rparr>) \<and>
        g' = Some (if e = None then g\<lparr>MarkedUnhealthy := True\<rparr> else g)" by blast
    with True show ?thesis unfolding checkedEntry_def silent_def by simp
  next
    case False
    with o have "filter (callFor n) cs = [] \<and> g' = Some g" by (simp add: outcome_def)
    with False show ?thesis unfolding checkedEntry_def silent_def by auto
  qed
qed

text \<open>
  C19: the heartbeat timeouts. A check, during which the clock stands still, sends for every entry
  that is silent (its last heartbeat is older than the timeout, or it never had one and is
  older than the first timeout, and it was neither marked nor reported Unhealthy before) exactly one patch,
  which sets the GameServer's health to Unhealthy and nothing else, and marks the entry exactly
  when the patch succeeded; it sends nothing for any other entry and leaves it as it is.
\<close>

theorem timeouts_mark_silent:
  assumes "\<And>w. aa_nowFunc api w = now"
    and "distinct (order (dom (gameServerMap s)))" "set (order (dom (gameServerMap s))) = dom (gameServerMap s)"
    and "HeartbeatTimeChecker api cfg order s = s'"
  shows "\<exists>cs. ag_calls s' = ag_calls s @ cs \<and> dom (gameServerMap s') = dom (gameServerMap s) \<and>
    (\<forall>n g. gameServerMap s n = Some g \<longrightarrow> checkedEntry cfg now cs n g (gameServerMap s' n))"
proof -
  let ?ns = "order (dom (gameServerMap s))"
  have s': "s' = fold (checkHeartbeat api cfg) ?ns s" using assms(4) by (simp add: HeartbeatTimeChecker_def)
  obtain cs where cs: "ag_calls s' = ag_calls s @ cs"
    "\<And>n. if n \<in> set ?ns then outcome cfg now n (gameServerMap s n) cs (gameServerMap s' n)
       else filter (callFor n) cs = [] \<and> gameServerMap s' n = gameServerMap s n"
    using check_all [OF assms(1,2), of cfg s] unfolding s' by blast
  have "gameServerMap s' n = None \<longleftrightarrow> gameServerMap s n = None" for n
    using cs(2) [of n] assms(3) by (auto simp: outcome_def split: option.splits if_splits)
  then have d: "dom (gameServerMap s') = dom (gameServerMap s)" by (auto simp: dom_def)
  have "checkedEntry cfg now cs n g (gameServerMap s' n)" if "gameServerMap s n = Some g" for n g
  proof (rule outcome_checked)
    have "n \<in> set ?ns" using that assms(3) by auto
    with cs(2) [of n] that show "outcome cfg now n (Some g) cs (gameServerMap s' n)" by simp
  qed
  with cs(1) d show ?thesis by blast
qed

text \<open>
  C39: the last player never leaves. When an Active GameServer that had players reports none,
  the patch of its GameServerDetail is empty, as both fields are omitted when they are zero, so it
  leaves the stored players as they are; the agent nevertheless remembers no players once the
  patch succeeded and does not send another one.
\<close>

theorem last_player_never_leaves:
  assumes "handleHeartbeat api cfg hb n g s = (s', r)"
    and "CurrentGameState hb = GameStateActive" "CurrentGameHealth hb = GameServerHealthy" "CurrentPlayers hb = []"
    and "PreviousGameState g = GameStateActive" "PreviousGameHealth g = GameServerHealthy"
    and "0 < ConnectedPlayersCount g"
  shows "\<exists>p e rest. ag_calls s' = ag_calls s @ PatchDetail (GameServerNamespace g) n p e # rest \<and>
    (\<forall>spec. merge_detail_payload p spec = spec) \<and>
    (e = None \<longrightarrow> rest = [] \<and>
       (\<exists>g'. gameServerMap s' n = Some g' \<and> ConnectedPlayersCount g' = 0 \<and>
          (\<forall>s2 r2. handleHeartbeat api cfg hb n g' s' = (s2, r2) \<longrightarrow> ag_calls s2 = ag_calls s')))"
proof -
  let ?g1 = "g\<lparr>LastHeartbeatTime := aa_nowFunc api (ag_world s)\<rparr>"
  let ?hb = "if ignoreHealthFromHeartbeat cfg then hb\<lparr>CurrentGameHealth := GameServerHealthy\<rparr> else hb"
  let ?zero = "\<lparr>ds_ConnectedPlayersCount = 0, ds_ConnectedPlayers = []\<rparr>"
  have hb: "CurrentGameState ?hb = GameStateActive" "CurrentGameHealth ?hb = GameServerHealthy" "CurrentPlayers ?hb = []"
    using assms(2-4) by simp_all
  have quiet: "updateHealthAndStateIfNeeded api ?hb n x t = (t, x, None)"
    if "PreviousGameState x = GameStateActive" "PreviousGameHealth x = GameServerHealthy" for x t
    unfolding updateHealthAndStateIfNeeded_def hb using that by simp
  have u: "updateHealthAndStateIfNeeded api ?hb n ?g1 s = (s, ?g1, None)"
    by (rule quiet) (use assms(5,6) in simp_all)
  obtain s2 e where c: "call_patchDetail api (GameServerNamespace g) n ?zero
      (add_effect (SetConnectedPlayers (GameServerNamespace g) n (BuildName g) 0) s) = (s2, e)" by fastforce
  note C = agent_calls(2) [OF c]
  obtain s3 g3 q where p: "updateConnectedPlayersIfNeeded api ?hb n ?g1 s = (s3, g3, q)" by (metis prod_cases3)
  have s': "s' = put_info n g3 s3"
    using assms(1) u p by (cases q) (auto simp: handleHeartbeat_def Let_def)
  have m: "\<forall>spec. merge_detail_payload (marshal_detail ?zero) spec = spec" by (simp add: marshal_detail_zero)
  show ?thesis
  proof (cases e)
    case None
    have "s3 = s2" "g3 = ?g1\<lparr>ConnectedPlayersCount := 0\<rparr>"
      using p c None assms(7) unfolding updateConnectedPlayersIfNeeded_def hb by (simp_all add: Let_def)
    moreover from this have "ag_calls s4 = ag_calls s'" if "handleHeartbeat api cfg hb n g3 s' = (s4, r2)" for s4 r2
    proof -
      let ?g4 = "g3\<lparr>LastHeartbeatTime := aa_nowFunc api (ag_world s')\<rparr>"
      have "updateHealthAndStateIfNeeded api ?hb n ?g4 s' = (s', ?g4, None)"
        by (rule quiet) (use assms(5,6) \<open>g3 = _\<close> in simp_all)
      moreover have "updateConnectedPlayersIfNeeded api ?hb n ?g4 s' = (s', ?g4, None)"
        unfolding updateConnectedPlayersIfNeeded_def hb using \<open>g3 = _\<close> by (simp add: Let_def)
      ultimately show ?thesis using that by (auto simp: handleHeartbeat_def Let_def)
    qed
    ultimately show ?thesis
      using C m None by (intro exI [of _ "marshal_detail ?zero"] exI [of _ None] exI [of _ "[]"]) (auto simp: s')
  next
    case (Some err)
    have "\<exists>rest. ag_calls s3 = ag_calls s2 @ rest"
    proof (cases "IsNotFound err")
      case True
      obtain s5 e5 where d: "createGameServerDetails api (GsUid ?g1) n (GameServerNamespace ?g1) (BuildName ?g1) (Some []) s2 = (s5, e5)"
        by fastforce
      have "s3 = s5" using p c Some assms(7) True d unfolding updateConnectedPlayersIfNeeded_def hb
        by (cases e5) (simp_all add: Let_def)
      with agent_calls(3) [OF d] show ?thesis by blast
    next
      case False
      then have "s3 = s2" using p c Some assms(7) unfolding updateConnectedPlayersIfNeeded_def hb by (simp add: Let_def)
      then show ?thesis by simp
    qed
    with C m Some show ?thesis
      by (auto simp: s' intro!: exI [of _ "marshal_detail ?zero"])
  qed
qed


section \<open>Answers\<close>

definition keeps_session :: "GameServerInfo \<Rightarrow> GameServerInfo \<Rightarrow> bool" where
  "keeps_session g g' \<longleftrightarrow> IsActive g' = IsActive g \<and> SessionID g' = SessionID g \<and>
     SessionCookie g' = SessionCookie g \<and> InitialPlayers g' = InitialPlayers g \<and>
     LastHeartbeatTime g' = LastHeartbeatTime g"

lemma updateHealth_session:
  assumes "updateHealthAndStateIfNeeded api hb n gsd s = (s', gsd', r)"
  shows "keeps_session gsd gsd' \<and> (r = None \<longrightarrow> PreviousGameState gsd' = CurrentGameState hb)"
  using assms
proof (cases rule: updateHealth_cases)
  case (sent prev e)
  then show ?thesis by (cases e) (simp_all add: keeps_session_def)
qed (simp_all add: keeps_session_def)

lemma updatePlayers_session:
  assumes "updateConnectedPlayersIfNeeded api hb n gsd s = (s', gsd', r)"
  shows "keeps_session gsd gsd' \<and> PreviousGameState gsd' = PreviousGameState gsd"
  using assms by (cases rule: updatePlayers_cases) (simp_all add: keeps_session_def)

lemma handleHeartbeat_answers:
  assumes "handleHeartbeat api cfg hb n g s = (s', r)"
  shows "(\<exists>m g'. r = TextResponse 500 m \<and> gameServerMap s' n = Some g' \<and> IsActive g' = IsActive g) \<or>
    (\<exists>h g'. r = HeartbeatOk h \<and> gameServerMap s' n = Some g' \<and>
      hr_Operation h = (if CurrentGameState hb = GameStateStandingBy \<and> IsActive g
                        then GameOperationActive else GameOperationContinue) \<and>
      hr_SessionConfig h = \<lparr>sc_SessionId = SessionID g, sc_SessionCookie = SessionCookie g,
        sc_InitialPlayers = InitialPlayers g\<rparr> \<and>
      PreviousGameState g' = CurrentGameState hb \<and> IsActive g' = IsActive g \<and>
      LastHeartbeatTime g' = aa_nowFunc api (ag_world s))"
proof -
  let ?g1 = "g\<lparr>LastHeartbeatTime := aa_nowFunc api (ag_world s)\<rparr>"
  let ?hb = "if ignoreHealthFromHeartbeat cfg then hb\<lparr>CurrentGameHealth := GameServerHealthy\<rparr> else hb"
  have hb: "CurrentGameState ?hb = CurrentGameState hb" by simp
  obtain s1 g2 q where u: "updateHealthAndStateIfNeeded api ?hb n ?g1 s = (s1, g2, q)" by (metis prod_cases3)
  note U = updateHealth_session [OF u, unfolded hb keeps_session_def]
  show ?thesis
  proof (cases q)
    case (Some e)
    with assms u U show ?thesis by (auto simp: handleHeartbeat_def Let_def internalServerErrorResponse_def)
  next
    case None
    obtain s2 g3 q2 where p: "updateConnectedPlayersIfNeeded api ?hb n g2 s1 = (s2, g3, q2)" by (metis prod_cases3)
    note P = updatePlayers_session [OF p, unfolded keeps_session_def]
    show ?thesis
    proof (cases q2)
      case (Some e)
      with assms u None p U P show ?thesis
        by (auto simp: handleHeartbeat_def Let_def internalServerErrorResponse_def)
    next
      case none2: None
      with assms u None p have "r = HeartbeatOk (heartbeatResponse ?hb g3)" "s' = put_info n g3 s2"
        by (simp_all add: handleHeartbeat_def Let_def)
      with U P None hb show ?thesis by (auto simp: heartbeatResponse_def)
    qed
  qed
qed



section \<open>A restarted agent\<close>

text \<open>
  An entry that a restarted agent made has no last state, so the first StandingBy heartbeat is
  reported, whatever the state of the GameServer; an agent that remembers StandingBy reports nothing.
\<close>

lemma first_standby_reported:
  assumes "handleHeartbeat api cfg hb n g s = (s', r)"
    and "CurrentGameState hb = GameStateStandingBy" "CurrentGameHealth hb = GameServerHealthy"
    and "PreviousGameState g = []"
  shows "\<exists>p e. ag_calls s' = ag_calls s @ [PatchGameServer (GameServerNamespace g) n p e] \<and>
    (\<forall>st. \<exists>now. merge_status_payload p st =
       st\<lparr>st_State := GameServerStateStandingBy, st_Health := GameServerHealthy, st_ReachedStandingByOn := Some now\<rparr>)"
proof -
  let ?g1 = "g\<lparr>LastHeartbeatTime := aa_nowFunc api (ag_world s)\<rparr>"
  let ?hb = "if ignoreHealthFromHeartbeat cfg then hb\<lparr>CurrentGameHealth := GameServerHealthy\<rparr> else hb"
  have hb: "CurrentGameState ?hb = GameStateStandingBy" "CurrentGameHealth ?hb = GameServerHealthy"
    using assms(2,3) by simp_all
  obtain s1 g2 q where u: "updateHealthAndStateIfNeeded api ?hb n ?g1 s = (s1, g2, q)" by (metis prod_cases3)
  let ?p = "marshal_status (reportedStatus ?hb (aa_nowFunc api (ag_world s)))"
  have "\<exists>e. ag_calls s1 = ag_calls s @ [PatchGameServer (GameServerNamespace g) n ?p e]"
    using u
  proof (cases rule: updateHealth_cases)
    case (invalid e)
    with hb assms(4) show ?thesis by (simp add: isValidStateTransition_def)
  next
    case (sent prev e)
    then show ?thesis by auto
  qed (use hb assms(4) in \<open>auto simp: wasAllocated_def\<close>)
  moreover have "ag_calls s' = ag_calls s1"
  proof (cases q)
    case (Some e)
    with assms(1) u show ?thesis by (auto simp: handleHeartbeat_def Let_def)
  next
    case None
    moreover have "updateConnectedPlayersIfNeeded api ?hb n g2 s1 = (s1, g2, None)"
      unfolding updateConnectedPlayersIfNeeded_def hb by (simp add: Let_def)
    ultimately show ?thesis using assms(1) u by (auto simp: handleHeartbeat_def Let_def)
  qed
  moreover have "merge_status_payload ?p st =
       st\<lparr>st_State := GameServerStateStandingBy, st_Health := GameServerHealthy,
          st_ReachedStandingByOn := Some (aa_nowFunc api (ag_world s))\<rparr>" for st
    unfolding reportedStatus_def hb by (simp add: merge_status_payload_def marshal_status_def zero_Status_def)
  ultimately show ?thesis by auto
qed

lemma remembered_standby_silent:
  assumes "CurrentGameState hb = GameStateStandingBy" "CurrentGameHealth hb = PreviousGameHealth g"
    and "PreviousGameState g = GameStateStandingBy"
  shows "updateHealthAndStateIfNeeded api hb n g s = (s, g, None)"
  using assms by (simp add: updateHealthAndStateIfNeeded_def)

text \<open>
  The gauge of the states: when the watch reports a GameServer that the agent knows to be Active,
  its Active gauge is set to one and then to zero.
\<close>

lemma active_gauge_zeroed:
  assumes "gameServerMap s (uo_Name obj) = Some g" "PreviousGameState g = GameStateActive"
    and "uo_State obj = Value GameStateActive" "uo_Health obj = Value GameServerHealthy"
  shows "\<exists>es. ag_effects (gameServerCreatedOrUpdated api obj s) =
    es @ [SetGameServerStates (uo_Name obj) GameStateActive 1, SetGameServerStates (uo_Name obj) GameStateActive 0]"
  using assms by (auto simp: gameServerCreatedOrUpdated_def parseStateHealth_def Let_def add_effect_def put_info_def
      split: prod.split)

section \<open>A concrete agent, for the witnesses\<close>

definition calm_api :: "int agent_api" where
  "calm_api =
     \<lparr>aa_nowFunc = (\<lambda>w. 100000), aa_timeNow = (\<lambda>w. 100000), aa_patchGameServer = (\<lambda>w ns n p. (w, None)),
      aa_patchDetail = (\<lambda>w ns n p. (w, None)), aa_createDetail = (\<lambda>w d. (w, None))\<rparr>"

definition calm_config :: agent_config where
  "calm_config = NewNodeAgentManager Map.empty ''node'' False False"

definition active_object :: gs_object where
  "active_object =
     \<lparr>uo_Name = ''gs'', uo_Namespace = ''default'', uo_UID = ''uid'', uo_BuildName = Value ''build'',
      uo_State = Value GameStateActive, uo_Health = Value GameServerHealthy, uo_SessionID = Value ''session'',
      uo_SessionCookie = Missing, uo_InitialPlayers = Missing\<rparr>"

definition quiet_info :: GameServerInfo where
  "quiet_info = (freshInfo active_object 1 ''build'')"

definition playing_info :: GameServerInfo where
  "playing_info = quiet_info\<lparr>IsActive := True, PreviousGameState := GameStateActive,
     PreviousGameHealth := GameServerHealthy, ConnectedPlayersCount := 2, LastHeartbeatTime := 99000\<rparr>"

definition empty_heartbeat :: HeartbeatRequest where
  "empty_heartbeat = \<lparr>CurrentGameState = GameStateActive, CurrentGameHealth = GameServerHealthy, CurrentPlayers = []\<rparr>"

definition standby_heartbeat :: HeartbeatRequest where
  "standby_heartbeat = \<lparr>CurrentGameState = GameStateStandingBy, CurrentGameHealth = GameServerHealthy, CurrentPlayers = []\<rparr>"


theorem timeouts_mark_silent_witness:
  "\<exists>p e. filter (callFor ''gs'') (ag_calls (HeartbeatTimeChecker calm_api calm_config (\<lambda>S. [''gs''])
       (put_info ''gs'' quiet_info (new_agent 0)))) = [PatchGameServer ''default'' ''gs'' p e]"
proof -
  let ?s = "put_info ''gs'' quiet_info (new_agent (0::int))"
  let ?s' = "HeartbeatTimeChecker calm_api calm_config (\<lambda>S. [''gs'']) ?s"
  have now: "aa_nowFunc calm_api w = 100000" for w by (simp add: calm_api_def)
  have d: "dom (gameServerMap ?s) = {''gs''}" by (simp add: new_agent_def)
  have g: "gameServerMap ?s ''gs'' = Some quiet_info" by simp
  have o: "distinct ((\<lambda>S. [''gs'']) (dom (gameServerMap ?s)))"
    "set ((\<lambda>S. [''gs'']) (dom (gameServerMap ?s))) = dom (gameServerMap ?s)"
    unfolding d by simp_all
  have silent: "\<not> MarkedUnhealthy quiet_info" "PreviousGameHealth quiet_info = []" "LastHeartbeatTime quiet_info = 0"
    "CreationTime quiet_info = 1" "GameServerNamespace quiet_info = ''default''" "firstHeartbeatTimeout calm_config = 60000"
    by (simp_all add: quiet_info_def freshInfo_def active_object_def calm_config_def NewNodeAgentManager_def ParseInt64FromEnv_def)
  from timeouts_mark_silent [OF now o refl, of calm_config] g obtain cs where "ag_calls ?s' = ag_calls ?s @ cs"
    "checkedEntry calm_config 100000 cs ''gs'' quiet_info (gameServerMap ?s' ''gs'')" by blast
  then show ?thesis by (auto simp: checkedEntry_def silent new_agent_def)
qed

theorem last_player_never_leaves_witness:
  "\<exists>p e rest. ag_calls (fst (handleHeartbeat calm_api calm_config empty_heartbeat ''gs'' playing_info (new_agent 0))) =
     PatchDetail ''default'' ''gs'' p e # rest \<and> (\<forall>spec. merge_detail_payload p spec = spec)"
proof -
  obtain s' r where h: "handleHeartbeat calm_api calm_config empty_heartbeat ''gs'' playing_info (new_agent 0) = (s', r)"
    by fastforce
  have "CurrentGameState empty_heartbeat = GameStateActive" "CurrentGameHealth empty_heartbeat = GameServerHealthy"
    "CurrentPlayers empty_heartbeat = []" "PreviousGameState playing_info = GameStateActive"
    "PreviousGameHealth playing_info = GameServerHealthy" "0 < ConnectedPlayersCount playing_info"
    by (simp_all add: empty_heartbeat_def playing_info_def)
  from last_player_never_leaves [OF h this] h show ?thesis
    by (auto simp: new_agent_def playing_info_def quiet_info_def freshInfo_def active_object_def)
qed


end
