(* ===== verification/Heartbeat_Loop.thy ===== *)
theory Heartbeat_Loop
  imports Node_Agent
begin

text \<open>
  The goroutine of \<open>runHeartbeatTimeCheckerLoop\<close> in \<open>cmd/nodeagent/nodeagentmanager.go\<close>: a check, a sleep of
  the heartbeat timeout, and so on for ever, with the agent's handlers in between. The clock is the world's and
  moves during a check too, since a patch takes its time.
\<close>

section \<open>The loop\<close>

definition clock :: "'w agent_api \<Rightarrow> 'w agent \<Rightarrow> int" where
  "clock api s = aa_nowFunc api (ag_world s)"

text \<open>\<open>S k\<close> is the agent when the check number \<open>k\<close> begins.\<close>

definition checkerLoop ::
    "'w agent_api \<Rightarrow> agent_config \<Rightarrow> (string set \<Rightarrow> string list) \<Rightarrow> (nat \<Rightarrow> 'w agent) \<Rightarrow> bool" where
  "checkerLoop api cfg order S \<longleftrightarrow>
     (\<forall>k. let s = HeartbeatTimeChecker api cfg order (S k)
          in (agent_step api cfg order)\<^sup>*\<^sup>* s (S (Suc k)) \<and> clock api s + heartbeatTimeout cfg \<le> clock api (S (Suc k)))"

text \<open>How late the loop is: a check takes at most \<open>D\<close>, and the sleep is at most \<open>d\<close> too long.\<close>

definition timely :: "'w agent_api \<Rightarrow> agent_config \<Rightarrow> (string set \<Rightarrow> string list) \<Rightarrow> int \<Rightarrow> int \<Rightarrow> (nat \<Rightarrow> 'w agent) \<Rightarrow> bool" where
  "timely api cfg order D d S \<longleftrightarrow>
     (\<forall>k. let s = HeartbeatTimeChecker api cfg order (S k)
          in clock api s \<le> clock api (S k) + D \<and> clock api (S (Suc k)) \<le> clock api s + heartbeatTimeout cfg + d)"

text \<open>The calls of a check for one GameServer.\<close>

definition callsIn :: "'w agent_api \<Rightarrow> agent_config \<Rightarrow> (string set \<Rightarrow> string list) \<Rightarrow> string \<Rightarrow> 'w agent \<Rightarrow> agent_call list" where
  "callsIn api cfg order n s =
     filter (callFor n) (drop (length (ag_calls s)) (ag_calls (HeartbeatTimeChecker api cfg order s)))"

section \<open>One check, with the clock running\<close>

definition patches_take_time :: "'w agent_api \<Rightarrow> bool" where
  "patches_take_time api \<longleftrightarrow>
     (\<forall>w ns n p w' e. aa_patchGameServer api w ns n p = (w', e) \<longrightarrow> aa_nowFunc api w \<le> aa_nowFunc api w')"

lemma mark_clock:
  "patches_take_time api \<Longrightarrow> markGameServerUnhealthy api m ns s = (s1, e) \<Longrightarrow> clock api s \<le> clock api s1"
  by (auto simp: patches_take_time_def markGameServerUnhealthy_def call_patchGameServer_def clock_def Let_def split: prod.splits)
    blast

lemma check_clock:
  assumes "patches_take_time api"
  shows "clock api s \<le> clock api (checkHeartbeat api cfg n s)"
  using mark_clock [OF assms, of n _ s]
  by (auto simp: checkHeartbeat_def put_info_def split: option.splits prod.splits) (auto simp: clock_def)

lemma fold_clock:
  assumes "patches_take_time api"
  shows "clock api s \<le> clock api (fold (checkHeartbeat api cfg) ns s)"
proof (induction ns arbitrary: s)
  case (Cons n ns)
  from order_trans [OF check_clock [OF assms] Cons.IH] show ?case by simp
qed simp

text \<open>Other keys of the range leave an entry alone, and call nothing for it.\<close>

lemma check_other:
  assumes "m \<noteq> n"
  shows "\<exists>cs. ag_calls (checkHeartbeat api cfg m s) = ag_calls s @ cs \<and> filter (callFor n) cs = [] \<and>
    gameServerMap (checkHeartbeat api cfg m s) n = gameServerMap s n"
  by (cases rule: checkHeartbeat_cases [of api cfg m s]) (use assms in auto)

lemma fold_other:
  assumes "n \<notin> set ms"
  shows "\<exists>cs. ag_calls (fold (checkHeartbeat api cfg) ms s) = ag_calls s @ cs \<and> filter (callFor n) cs = [] \<and>
    gameServerMap (fold (checkHeartbeat api cfg) ms s) n = gameServerMap s n"
  using assms
proof (induction ms arbitrary: s)
  case (Cons m ms)
  from Cons.prems have n: "m \<noteq> n" "n \<notin> set ms" by auto
  from check_other [OF n(1), of api cfg s] Cons.IH [OF n(2), of "checkHeartbeat api cfg m s"] show ?case by auto
qed simp

lemma check_itself:
  "\<exists>cs. ag_calls (checkHeartbeat api cfg n s) = ag_calls s @ cs \<and>
    outcome cfg (clock api s) n (gameServerMap s n) cs (gameServerMap (checkHeartbeat api cfg n s) n)"
proof (cases rule: checkHeartbeat_cases [of api cfg n s])
  case kept
  then show ?thesis by (cases "gameServerMap s n") (auto simp: outcome_def silent_iff clock_def)
next
  case (marked g e)
  then have "silent cfg (clock api s) g" by (simp add: silent_iff clock_def)
  with marked show ?thesis by (auto simp: outcome_def unhealthyPayload_def)
qed

text \<open>The range visits every key once.\<close>

definition visits_all :: "(string set \<Rightarrow> string list) \<Rightarrow> 'w agent \<Rightarrow> bool" where
  "visits_all order s \<longleftrightarrow>
     distinct (order (dom (gameServerMap s))) \<and> set (order (dom (gameServerMap s))) = dom (gameServerMap s)"

text \<open>An entry is checked at some moment of the check.\<close>

lemma checked_at:
  assumes "patches_take_time api" and "visits_all order s" and "gameServerMap s n = Some g"
  obtains now where "clock api s \<le> now" "now \<le> clock api (HeartbeatTimeChecker api cfg order s)"
    "outcome cfg now n (Some g) (callsIn api cfg order n s) (gameServerMap (HeartbeatTimeChecker api cfg order s) n)"
proof -
  let ?C = "checkHeartbeat api cfg"
  from assms(2,3) have "n \<in> set (order (dom (gameServerMap s)))" by (auto simp: visits_all_def)
  then obtain xs ys where o: "order (dom (gameServerMap s)) = xs @ n # ys" by (meson split_list)
  with assms(2) have n: "n \<notin> set xs" "n \<notin> set ys" by (auto simp: visits_all_def)
  define s1 where "s1 = fold ?C xs s"
  define s2 where "s2 = ?C n s1"
  have end_is: "HeartbeatTimeChecker api cfg order s = fold ?C ys s2" by (simp add: HeartbeatTimeChecker_def o s1_def s2_def)
  from fold_other [OF n(1), of api cfg s] obtain c1 where 1: "ag_calls s1 = ag_calls s @ c1" "filter (callFor n) c1 = []"
    "gameServerMap s1 n = Some g" unfolding s1_def assms(3) by blast
  from check_itself [of api cfg n s1] obtain c2 where 2: "ag_calls s2 = ag_calls s1 @ c2"
    "outcome cfg (clock api s1) n (Some g) c2 (gameServerMap s2 n)" unfolding s2_def 1(3) by blast
  from fold_other [OF n(2), of api cfg s2] obtain c3 where 3: "ag_calls (fold ?C ys s2) = ag_calls s2 @ c3"
    "filter (callFor n) c3 = []" "gameServerMap (fold ?C ys s2) n = gameServerMap s2 n" by blast
  have "callsIn api cfg order n s = filter (callFor n) c2" by (simp add: callsIn_def end_is 1 2 3)
  then have "outcome cfg (clock api s1) n (Some g) (callsIn api cfg order n s) (gameServerMap (fold ?C ys s2) n)"
    using 2(2) unfolding 3(3) by (subst outcome_cong [of n _ c2]) simp_all
  moreover have "clock api s \<le> clock api s1" unfolding s1_def by (rule fold_clock [OF assms(1)])
  moreover have "clock api s1 \<le> clock api (fold ?C ys s2)"
    unfolding s2_def by (rule order_trans [OF check_clock [OF assms(1)] fold_clock [OF assms(1)]])
  ultimately show thesis by (intro that [of "clock api s1"]) (simp_all add: end_is)
qed

section \<open>Silence over time\<close>

text \<open>When an entry becomes silent: the first heartbeat has a timeout of its own.\<close>

definition deadline :: "agent_config \<Rightarrow> GameServerInfo \<Rightarrow> int" where
  "deadline cfg g =
     (if LastHeartbeatTime g = 0 then CreationTime g + firstHeartbeatTimeout cfg
      else LastHeartbeatTime g + heartbeatTimeout cfg)"

definition unmarked :: "GameServerInfo \<Rightarrow> bool" where
  "unmarked g \<longleftrightarrow> \<not> MarkedUnhealthy g \<and> PreviousGameHealth g \<noteq> GameServerUnhealthy \<and> CreationTime g \<noteq> 0"

lemma silent_deadline: "unmarked g \<Longrightarrow> silent cfg now g \<longleftrightarrow> deadline cfg g < now"
  by (auto simp: silent_def deadline_def unmarked_def)

abbreviation unhealthyPatch :: "string \<Rightarrow> GameServerInfo \<Rightarrow> api_error option \<Rightarrow> agent_call" where
  "unhealthyPatch n g e \<equiv> PatchGameServer (GameServerNamespace g) n unhealthyPayload e"

lemma outcome_unmarked:
  assumes "outcome cfg now n (Some g) (filter (callFor n) cs) g'" and "unmarked g"
  shows "if deadline cfg g < now
    then \<exists>e. filter (callFor n) cs = [unhealthyPatch n g e] \<and> g' = Some (if e = None then g\<lparr>MarkedUnhealthy := True\<rparr> else g)
    else filter (callFor n) cs = [] \<and> g' = Some g"
proof (cases "deadline cfg g < now")
  case True
  with assms silent_deadline [OF assms(2), of cfg now] show ?thesis by (simp add: outcome_def)
next
  case False
  with assms silent_deadline [OF assms(2), of cfg now] show ?thesis by (simp add: outcome_def)
qed

text \<open>An entry that was marked is not checked again, whatever it reported since.\<close>

lemma marked_never_checked:
  assumes "patches_take_time api" and "visits_all order s" and "gameServerMap s n = Some g" "MarkedUnhealthy g"
  shows "callsIn api cfg order n s = []" "gameServerMap (HeartbeatTimeChecker api cfg order s) n = Some g"
proof -
  obtain now where "outcome cfg now n (Some g) (callsIn api cfg order n s)
      (gameServerMap (HeartbeatTimeChecker api cfg order s) n)" using checked_at [OF assms(1-3)] by blast
  with assms(4) show "callsIn api cfg order n s = []" "gameServerMap (HeartbeatTimeChecker api cfg order s) n = Some g"
    by (simp_all add: outcome_def silent_def callsIn_def)
qed

text \<open>The first check after the timeout, and the time it may take until it.\<close>

lemma first_late_check:
  assumes "\<And>k. clock api (S k) + T \<le> clock api (S (Suc k))" and "0 < T" and "clock api (S 0) \<le> limit"
  obtains k where "limit < clock api (S (Suc k))" "clock api (S k) \<le> limit"
proof -
  have up: "clock api (S 0) + int k * T \<le> clock api (S k)" for k
  proof (induction k)
    case (Suc k)
    with assms(1) [of k] show ?case by (simp add: algebra_simps)
  qed simp
  have "\<exists>k. limit < clock api (S k)"
  proof (intro exI)
    let ?k = "Suc (nat (limit - clock api (S 0)))"
    have "limit - clock api (S 0) < int ?k * 1" using assms(3) by simp
    also have "\<dots> \<le> int ?k * T" using assms(2) by (intro mult_left_mono) auto
    finally show "limit < clock api (S ?k)" using up [of ?k] by linarith
  qed
  define m where "m = (LEAST k. limit < clock api (S k))"
  from \<open>\<exists>k. limit < clock api (S k)\<close> have m: "limit < clock api (S m)" unfolding m_def by (rule LeastI_ex)
  then obtain k where k: "m = Suc k" using assms(3) by (cases m) auto
  have "\<not> limit < clock api (S k)" using not_less_Least [of k "\<lambda>k. limit < clock api (S k)"] k by (simp add: m_def)
  with m k that show thesis by simp
qed

section \<open>Properties\<close>

text \<open>
  C20: how long a silent GameServer goes unnoticed. When the process of a GameServer sends nothing more and its
  entry is left alone, a check of the loop reports it Unhealthy, none before its deadline, and at most one more timeout,
  two durations of a check and the lateness of a sleep after it. If the patch succeeds, no later
  check sends another; if it fails, the next check sends it again.
\<close>

theorem silence_detected:
  assumes "checkerLoop api cfg order S" and "timely api cfg order D d S" and "patches_take_time api"
    and "0 < heartbeatTimeout cfg"
    and "\<forall>k. visits_all order (S k)"
    and "gameServerMap (S 1) n = Some g" and "unmarked g" and "clock api (S 0) \<le> deadline cfg g"
    and "\<forall>k \<ge> 1. gameServerMap (S (Suc k)) n = gameServerMap (HeartbeatTimeChecker api cfg order (S k)) n"
  shows "\<exists>k e. 1 \<le> k \<and> callsIn api cfg order n (S k) = [unhealthyPatch n g e] \<and>
    deadline cfg g < clock api (HeartbeatTimeChecker api cfg order (S k)) \<and>
    clock api (HeartbeatTimeChecker api cfg order (S k)) \<le> deadline cfg g + heartbeatTimeout cfg + 2 * D + d \<and>
    (\<forall>j. 1 \<le> j \<and> j < k \<longrightarrow> callsIn api cfg order n (S j) = []) \<and>
    (if e = None then \<forall>j > k. callsIn api cfg order n (S j) = []
     else \<exists>e'. callsIn api cfg order n (S (Suc k)) = [unhealthyPatch n g e'])"
proof -
  let ?H = "HeartbeatTimeChecker api cfg order" and ?c = "\<lambda>k. callsIn api cfg order n (S k)"
  let ?T = "heartbeatTimeout cfg"
  have order: "visits_all order (S k)" for k using assms(5) by simp
  have sleep: "clock api (?H (S k)) + ?T \<le> clock api (S (Suc k))" for k
    using assms(1) by (simp add: checkerLoop_def Let_def)
  have late: "clock api (?H (S k)) \<le> clock api (S k) + D" "clock api (S (Suc k)) \<le> clock api (?H (S k)) + ?T + d" for k
    using assms(2) by (simp_all add: timely_def Let_def)
  have during: "clock api (S k) \<le> clock api (?H (S k))" for k
    unfolding HeartbeatTimeChecker_def by (rule fold_clock [OF assms(3)])
  note check = checked_at [OF assms(3) order]
  have step: "if deadline cfg g < now
      then \<exists>e. ?c k = [unhealthyPatch n g e] \<and> gameServerMap (?H (S k)) n = Some (if e = None then g\<lparr>MarkedUnhealthy := True\<rparr> else g)
      else ?c k = [] \<and> gameServerMap (?H (S k)) n = Some g"
    if "outcome cfg now n (Some g) (?c k) (gameServerMap (?H (S k)) n)" for now k
    using outcome_unmarked [OF that [unfolded callsIn_def] assms(7)] by (simp add: callsIn_def)
  have at: "gameServerMap (S (Suc k)) n = Some g" if "\<forall>i. 1 \<le> i \<and> i \<le> k \<longrightarrow> ?c i = []" for k
    using that
  proof (induction k)
    case (Suc k)
    then have "gameServerMap (S (Suc k)) n = Some g" by simp
    from check [OF this] obtain now where "outcome cfg now n (Some g) (?c (Suc k)) (gameServerMap (?H (S (Suc k))) n)" by blast
    from step [OF this] Suc.prems assms(9) show ?case by (auto split: if_splits)
  qed (use assms(6) in simp)
  obtain m where m: "deadline cfg g < clock api (S (Suc m))" "clock api (S m) \<le> deadline cfg g"
    by (rule first_late_check [of api S ?T, OF _ assms(4,8)]) (use order_trans [OF add_right_mono [OF during] sleep] in blast)
  have "\<exists>k. 1 \<le> k \<and> k \<le> Suc m \<and> ?c k \<noteq> []"
  proof (rule ccontr)
    assume none: "\<not> ?thesis"
    then have "gameServerMap (S (Suc m)) n = Some g" by (intro at) auto
    from check [OF this] obtain now where "clock api (S (Suc m)) \<le> now"
      "outcome cfg now n (Some g) (?c (Suc m)) (gameServerMap (?H (S (Suc m))) n)" by blast
    with step [OF this(2)] m(1) none show False by (auto split: if_splits)
  qed
  then have E: "\<exists>k. 1 \<le> k \<and> k \<le> Suc m \<and> ?c k \<noteq> []" .
  define k where "k = (LEAST k. 1 \<le> k \<and> k \<le> Suc m \<and> ?c k \<noteq> [])"
  have k: "1 \<le> k" "k \<le> Suc m" "?c k \<noteq> []" using LeastI_ex [OF E] unfolding k_def by blast+
  have least: "?c j = []" if "1 \<le> j" "j < k" for j
    using not_less_Least [OF that(2) [unfolded k_def]] that k(2) by auto
  have here: "gameServerMap (S k) n = Some g" using at [of "k - 1"] k(1) least by (cases k) auto
  from check [OF here] obtain now where now: "now \<le> clock api (?H (S k))"
    "outcome cfg now n (Some g) (?c k) (gameServerMap (?H (S k)) n)" by blast
  have "deadline cfg g < now" using step [OF now(2)] k(3) by presburger
  with step [OF now(2)] obtain e where e: "?c k = [unhealthyPatch n g e]" "deadline cfg g < now"
    "gameServerMap (?H (S k)) n = Some (if e = None then g\<lparr>MarkedUnhealthy := True\<rparr> else g)" by meson
  have mono: "clock api (?H (S i)) \<le> clock api (?H (S (i + j)))" for i j
  proof (induction j)
    case (Suc j)
    from Suc sleep [of "i + j"] during [of "Suc (i + j)"] assms(4) show ?case by simp
  qed simp
  have "clock api (?H (S k)) \<le> clock api (?H (S (Suc m)))" using mono [of k "Suc m - k"] k(2) by simp
  also have "\<dots> \<le> deadline cfg g + ?T + 2 * D + d" using late(1) [of "Suc m"] late [of m] m(2) by linarith
  finally have bound: "clock api (?H (S k)) \<le> deadline cfg g + ?T + 2 * D + d" .
  have next_is: "gameServerMap (S (Suc k)) n = Some (if e = None then g\<lparr>MarkedUnhealthy := True\<rparr> else g)"
    using assms(9) k(1) e(3) by simp
  have after: "if e = None then \<forall>j > k. ?c j = [] else \<exists>e'. ?c (Suc k) = [unhealthyPatch n g e']"
  proof (cases "e = None")
    case True
    have "gameServerMap (S (Suc (k + j))) n = Some (g\<lparr>MarkedUnhealthy := True\<rparr>)" for j
    proof (induction j)
      case (Suc j)
      from marked_never_checked(2) [OF assms(3) order Suc] assms(9) show ?case by simp
    qed (use next_is True in simp)
    then have "?c (Suc (k + j)) = []" for j using marked_never_checked(1) [OF assms(3) order] by simp
    with True show ?thesis by (metis less_iff_Suc_add)
  next
    case False
    with next_is have "gameServerMap (S (Suc k)) n = Some g" by simp
    from check [OF this] obtain now' where "clock api (S (Suc k)) \<le> now'"
      "outcome cfg now' n (Some g) (?c (Suc k)) (gameServerMap (?H (S (Suc k))) n)" by blast
    moreover have "deadline cfg g < clock api (S (Suc k))" using e(2) now(1) sleep [of k] assms(4) by linarith
    ultimately show ?thesis using step [of now' "Suc k"] False by auto
  qed
  show ?thesis using k(1) e(1,2) now(1) bound least after by (intro exI [of _ k] exI [of _ e]) auto
qed

text \<open>An agent whose clock moves with the sleeps, and a process that never sends a heartbeat.\<close>

definition ticking_api :: "int agent_api" where
  "ticking_api =
     \<lparr>aa_nowFunc = (\<lambda>w. w), aa_timeNow = (\<lambda>w. w), aa_patchGameServer = (\<lambda>w ns n p. (w, None)),
      aa_patchDetail = (\<lambda>w ns n p. (w, None)), aa_createDetail = (\<lambda>w d. (w, None))\<rparr>"

definition fresh_object :: gs_object where
  "fresh_object = active_object\<lparr>uo_State := Missing, uo_Health := Missing, uo_SessionID := Missing\<rparr>"

definition keys_of :: "string set \<Rightarrow> string list" where
  "keys_of A = (if A = {} then [] else [''gs''])"

definition after_sleep :: "int agent \<Rightarrow> int agent" where
  "after_sleep s = s\<lparr>ag_world := ag_world s + 5000\<rparr>"

primrec quiet_loop :: "nat \<Rightarrow> int agent" where
  "quiet_loop 0 = new_agent 1000"
| "quiet_loop (Suc k) =
     (let s = after_sleep (HeartbeatTimeChecker ticking_api calm_config keys_of (quiet_loop k))
      in if k = 0 then gameServerCreatedOrUpdated ticking_api fresh_object s else s)"

lemma ticking_simps [simp]:
  "clock ticking_api s = ag_world s" "patches_take_time ticking_api" "heartbeatTimeout calm_config = 5000"
  "firstHeartbeatTimeout calm_config = 60000"
  by (simp_all add: clock_def ticking_api_def patches_take_time_def calm_config_def NewNodeAgentManager_def ParseInt64FromEnv_def)

lemma ticking_check [simp]: "ag_world (HeartbeatTimeChecker ticking_api cfg order s) = ag_world s"
proof -
  have one: "ag_world (checkHeartbeat ticking_api cfg n s) = ag_world s" for n s
    by (auto simp: checkHeartbeat_def markGameServerUnhealthy_def call_patchGameServer_def ticking_api_def put_info_def Let_def
        split: option.splits)
  have "ag_world (fold (checkHeartbeat ticking_api cfg) ns s) = ag_world s" for ns
    by (induction ns arbitrary: s) (simp_all add: one)
  then show ?thesis by (simp add: HeartbeatTimeChecker_def)
qed

lemma fresh_created:
  "gameServerCreatedOrUpdated ticking_api fresh_object s =
     put_info ''gs'' (case gameServerMap s ''gs'' of Some g \<Rightarrow> g | None \<Rightarrow> freshInfo fresh_object (ag_world s) ''build'') s"
proof -
  have "aa_nowFunc ticking_api w = w" for w by (simp add: ticking_api_def)
  moreover have "uo_Name fresh_object = ''gs''" "parseBuildName fresh_object = Inr ''build''"
    "\<exists>e. parseStateHealth fresh_object = Inl e"
    by (simp_all add: fresh_object_def active_object_def parseStateHealth_def parseBuildName_def)
  ultimately show ?thesis
    by (cases "gameServerMap s ''gs''") (auto simp: gameServerCreatedOrUpdated_def Let_def)
qed

lemma quiet_loop_dom: "dom (gameServerMap (quiet_loop k)) = (if k = 0 then {} else {''gs''})"
proof (induction k)
  case (Suc k)
  have "dom (gameServerMap (fold (checkHeartbeat ticking_api calm_config) ns s)) = dom (gameServerMap s)" for ns s
    by (induction ns arbitrary: s) (simp_all add: checkHeartbeat_dom)
  then have "dom (gameServerMap (HeartbeatTimeChecker ticking_api calm_config keys_of (quiet_loop k))) = dom (gameServerMap (quiet_loop k))"
    by (simp add: HeartbeatTimeChecker_def)
  with Suc show ?case by (auto simp: Let_def fresh_created after_sleep_def put_info_def)
qed (simp add: new_agent_def)

lemma quiet_loop_runs: "checkerLoop ticking_api calm_config keys_of quiet_loop"
  "timely ticking_api calm_config keys_of 0 0 quiet_loop"
proof -
  let ?H = "HeartbeatTimeChecker ticking_api calm_config keys_of"
  have w: "ag_world (quiet_loop (Suc k)) = ag_world (quiet_loop k) + 5000" for k
    by (simp add: Let_def fresh_created after_sleep_def put_info_def)
  have "(agent_step ticking_api calm_config keys_of)\<^sup>*\<^sup>* (?H (quiet_loop k)) (quiet_loop (Suc k))" for k
  proof -
    have s: "agent_step ticking_api calm_config keys_of (?H (quiet_loop k)) (after_sleep (?H (quiet_loop k)))"
      unfolding after_sleep_def by (rule step_world)
    show ?thesis
    proof (cases "k = 0")
      case True
      from r_into_rtranclp [of "agent_step ticking_api calm_config keys_of", OF s] step_changed
      show ?thesis unfolding True by (simp add: Let_def) (rule rtranclp.rtrancl_into_rtrancl)
    next
      case False
      from r_into_rtranclp [of "agent_step ticking_api calm_config keys_of", OF s] False show ?thesis by (simp add: Let_def)
    qed
  qed
  with w show "checkerLoop ticking_api calm_config keys_of quiet_loop" "timely ticking_api calm_config keys_of 0 0 quiet_loop"
    by (simp_all add: checkerLoop_def timely_def)
qed

theorem silence_detected_witness:
  "\<exists>k e. 1 \<le> k \<and> callsIn ticking_api calm_config keys_of ''gs'' (quiet_loop k) =
       [PatchGameServer ''default'' ''gs'' unhealthyPayload e] \<and>
     66000 < ag_world (quiet_loop k) \<and> ag_world (quiet_loop k) \<le> 71000"
proof -
  let ?g = "freshInfo fresh_object 6000 ''build''"
  have "visits_all keys_of (quiet_loop k)" for k
    by (auto simp: visits_all_def quiet_loop_dom keys_of_def)
  then have v: "\<forall>k. visits_all keys_of (quiet_loop k)" by blast
  have none: "HeartbeatTimeChecker ticking_api calm_config keys_of (new_agent w) = new_agent w" for w
    by (simp add: HeartbeatTimeChecker_def new_agent_def keys_of_def)
  have g: "gameServerMap (quiet_loop 1) ''gs'' = Some ?g"
    by (simp add: Let_def none fresh_created after_sleep_def put_info_def) (simp add: new_agent_def)
  have u: "unmarked ?g" "deadline calm_config ?g = 66000" "GameServerNamespace ?g = ''default''"
    by (simp_all add: unmarked_def deadline_def freshInfo_def fresh_object_def active_object_def)
  have k: "\<forall>k \<ge> 1. gameServerMap (quiet_loop (Suc k)) ''gs'' =
      gameServerMap (HeartbeatTimeChecker ticking_api calm_config keys_of (quiet_loop k)) ''gs''"
    by (simp add: Let_def after_sleep_def)
  have c: "clock ticking_api (quiet_loop 0) \<le> deadline calm_config ?g" by (simp add: u new_agent_def)
  from silence_detected [OF quiet_loop_runs ticking_simps(2) _ v g u(1) c k] show ?thesis by (auto simp: u(2,3))
qed

end
