(* ===== verification/Server_Lifecycle.thy ===== *)
theory Server_Lifecycle
  imports Node_Agent_Utils
begin

text \<open>
  How the HTTP servers end: \<open>Start\<close> of \<open>pkg/operator/controllers/allocation_api_server.go\<close> and \<open>main\<close> of
  \<open>cmd/nodeagent/main.go\<close>. Each has two goroutines, one that serves and one that shuts the server down. The
  server is \<open>net/http\<close>'s: \<open>ListenAndServe\<close> returns \<open>ErrServerClosed\<close> as soon as \<open>Shutdown\<close> is called,
  while \<open>Shutdown\<close> itself returns when the requests are answered or its context has expired.
\<close>

section \<open>The server\<close>

datatype listen_error = ServerClosed | ListenFailed string

record http_server =
  hs_shutdown :: bool  \<comment> \<open>\<open>Shutdown\<close> was called\<close>
  hs_requests :: nat  \<comment> \<open>requests that are being handled\<close>

datatype http_step = RequestBegins | RequestEnds

fun http_next :: "http_step \<Rightarrow> http_server \<Rightarrow> http_server option" where
  "http_next RequestBegins s = (if hs_shutdown s then None else Some (s\<lparr>hs_requests := Suc (hs_requests s)\<rparr>))"
| "http_next RequestEnds s = (case hs_requests s of 0 \<Rightarrow> None | Suc n \<Rightarrow> Some (s\<lparr>hs_requests := n\<rparr>))"

definition new_server :: http_server where
  "new_server = \<lparr>hs_shutdown = False, hs_requests = 0\<rparr>"

text \<open>What \<open>ListenAndServe\<close> may return, and \<open>Shutdown\<close>: true when the requests are answered.\<close>

definition listen_may_return :: "http_server \<Rightarrow> listen_error \<Rightarrow> bool" where
  "listen_may_return s e \<longleftrightarrow> (case e of ServerClosed \<Rightarrow> hs_shutdown s | ListenFailed _ \<Rightarrow> True)"

definition shutdown_may_return :: "http_server \<Rightarrow> bool \<Rightarrow> bool" where
  "shutdown_may_return s drained \<longleftrightarrow> hs_shutdown s \<and> (drained \<longrightarrow> hs_requests s = 0)"

section \<open>The allocation server\<close>

text \<open>The goroutine that waits for the context, and \<open>Start\<close> itself.\<close>

datatype closer = WaitContext | Stopping | CloseDone bool | Closed bool

datatype starter = Serving | Served listen_error | WaitDone | Returned "string option"

record start_state =
  ss_server :: http_server
  ss_closer :: closer
  ss_starter :: starter

definition start_init :: "start_state \<Rightarrow> bool" where
  "start_init s \<longleftrightarrow> s = \<lparr>ss_server = new_server, ss_closer = WaitContext, ss_starter = Serving\<rparr>"

inductive start_step :: "start_state \<Rightarrow> start_state \<Rightarrow> bool" where
  start_http: "http_next x (ss_server s) = Some h \<Longrightarrow> start_step s (s\<lparr>ss_server := h\<rparr>)"
| start_context_done: "ss_closer s = WaitContext \<Longrightarrow>
    start_step s (s\<lparr>ss_server := (ss_server s)\<lparr>hs_shutdown := True\<rparr>, ss_closer := Stopping\<rparr>)"
| start_stopped: "ss_closer s = Stopping \<Longrightarrow> shutdown_may_return (ss_server s) drained \<Longrightarrow>
    start_step s (s\<lparr>ss_closer := CloseDone drained\<rparr>)"
| start_close: "ss_closer s = CloseDone drained \<Longrightarrow> start_step s (s\<lparr>ss_closer := Closed drained\<rparr>)"
| start_served: "ss_starter s = Serving \<Longrightarrow> listen_may_return (ss_server s) e \<Longrightarrow>
    start_step s (s\<lparr>ss_starter := Served e\<rparr>)"
| start_checks: "ss_starter s = Served e \<Longrightarrow>
    start_step s (s\<lparr>ss_starter := (case e of ServerClosed \<Rightarrow> WaitDone | ListenFailed x \<Rightarrow> Returned (Some x))\<rparr>)"
| start_done: "ss_starter s = WaitDone \<Longrightarrow> ss_closer s = Closed drained \<Longrightarrow>
    start_step s (s\<lparr>ss_starter := Returned None\<rparr>)"


definition start_inv :: "start_state \<Rightarrow> bool" where
  "start_inv s \<longleftrightarrow>
     (hs_shutdown (ss_server s) \<longleftrightarrow> ss_closer s \<noteq> WaitContext) \<and>
     (ss_closer s = CloseDone True \<longrightarrow> hs_requests (ss_server s) = 0) \<and>
     (ss_closer s = Closed True \<longrightarrow> hs_requests (ss_server s) = 0) \<and>
     (ss_starter s = Returned None \<longrightarrow> (\<exists>drained. ss_closer s = Closed drained))"

lemma http_next_shutdown: "http_next x s = Some h \<Longrightarrow> hs_shutdown h = hs_shutdown s"
  by (cases x) (auto split: if_splits nat.splits)

lemma http_next_drained: "http_next x s = Some h \<Longrightarrow> hs_shutdown s \<Longrightarrow> hs_requests s = 0 \<Longrightarrow> hs_requests h = 0"
  by (cases x) (auto split: nat.splits)

lemma start_inv_step:
  assumes i: "start_inv s" and "start_step s t"
  shows "start_inv t"
  using assms(2)
proof cases
  case (start_http x h)
  show ?thesis
    using i http_next_shutdown [OF start_http(2)] http_next_drained [OF start_http(2)] unfolding start_http(1) start_inv_def by auto
qed (use i in \<open>simp_all add: start_inv_def shutdown_may_return_def split: listen_error.splits\<close>)

interpretation start_system: invariant_system start_init start_step start_inv
proof unfold_locales
  show "start_init s \<Longrightarrow> start_inv s" for s by (simp add: start_init_def start_inv_def new_server_def)
qed (rule start_inv_step)

section \<open>The node agent\<close>

text \<open>
  \<open>startHttpServer\<close>'s goroutine treats every error that \<open>ListenAndServe\<close> returns as fatal, which ends the
  process with status 1; \<open>main\<close> waits for a signal, shuts the server down and closes the watch.
\<close>

datatype agent_main_pc = WaitSignal | InShutdown | CloseWatch bool | MainDone bool

datatype agent_server_pc = AgentServing | AgentServed listen_error

record life_state =
  lf_server :: http_server
  lf_main :: agent_main_pc
  lf_goroutine :: agent_server_pc
  lf_watching :: bool
  lf_exit :: "int option"

definition life_init :: "life_state \<Rightarrow> bool" where
  "life_init s \<longleftrightarrow>
     s = \<lparr>lf_server = new_server, lf_main = WaitSignal, lf_goroutine = AgentServing, lf_watching = True, lf_exit = None\<rparr>"

inductive life_step :: "life_state \<Rightarrow> life_state \<Rightarrow> bool" where
  life_http: "lf_exit s = None \<Longrightarrow> http_next x (lf_server s) = Some h \<Longrightarrow> life_step s (s\<lparr>lf_server := h\<rparr>)"
| life_signal: "lf_exit s = None \<Longrightarrow> lf_main s = WaitSignal \<Longrightarrow>
    life_step s (s\<lparr>lf_server := (lf_server s)\<lparr>hs_shutdown := True\<rparr>, lf_main := InShutdown\<rparr>)"
| life_stopped: "lf_exit s = None \<Longrightarrow> lf_main s = InShutdown \<Longrightarrow> shutdown_may_return (lf_server s) drained \<Longrightarrow>
    life_step s (s\<lparr>lf_main := CloseWatch drained\<rparr>)"
| life_close: "lf_exit s = None \<Longrightarrow> lf_main s = CloseWatch drained \<Longrightarrow>
    life_step s (s\<lparr>lf_main := MainDone drained, lf_watching := False, lf_exit := Some 0\<rparr>)"
| life_served: "lf_exit s = None \<Longrightarrow> lf_goroutine s = AgentServing \<Longrightarrow> listen_may_return (lf_server s) e \<Longrightarrow>
    life_step s (s\<lparr>lf_goroutine := AgentServed e\<rparr>)"
| life_fatal: "lf_exit s = None \<Longrightarrow> lf_goroutine s = AgentServed e \<Longrightarrow> life_step s (s\<lparr>lf_exit := Some 1\<rparr>)"


definition life_inv :: "life_state \<Rightarrow> bool" where
  "life_inv s \<longleftrightarrow>
     (hs_shutdown (lf_server s) \<longleftrightarrow> lf_main s \<noteq> WaitSignal) \<and>
     (lf_main s = CloseWatch True \<longrightarrow> hs_requests (lf_server s) = 0) \<and>
     (lf_main s = MainDone True \<longrightarrow> hs_requests (lf_server s) = 0) \<and>
     (lf_exit s = Some 0 \<longleftrightarrow> \<not> lf_watching s) \<and>
     (lf_exit s = Some 0 \<longrightarrow> (\<exists>drained. lf_main s = MainDone drained))"

lemma life_inv_step:
  assumes i: "life_inv s" and "life_step s t"
  shows "life_inv t"
  using assms(2)
proof cases
  case (life_http x h)
  show ?thesis
    using i http_next_shutdown [OF life_http(3)] http_next_drained [OF life_http(3)] unfolding life_http(1) life_inv_def by auto
qed (use i in \<open>simp_all add: life_inv_def shutdown_may_return_def split: listen_error.splits\<close>)

interpretation life_system: invariant_system life_init life_step life_inv
proof unfold_locales
  show "life_init s \<Longrightarrow> life_inv s" for s by (simp add: life_init_def life_inv_def new_server_def)
qed (rule life_inv_step)

text \<open>The level of the logs; the parsing of a level's name is logrus' and a parameter.\<close>

definition setLogLevel :: "(string \<Rightarrow> 'l option) \<Rightarrow> 'l \<Rightarrow> environment \<Rightarrow> 'l" where
  "setLogLevel ParseLevel InfoLevel env =
     (case ParseLevel (map_get env [] ''LOG_LEVEL'') of None \<Rightarrow> InfoLevel | Some l \<Rightarrow> l)"

section \<open>Properties\<close>

text \<open>A run of the agent in which the goroutine that serves is faster than \<open>main\<close>.\<close>

lemma fatal_run:
  assumes "lf_exit s = None" "lf_main s = InShutdown" "lf_goroutine s = AgentServing" "hs_shutdown (lf_server s)"
  shows "life_step\<^sup>*\<^sup>* s (s\<lparr>lf_goroutine := AgentServed ServerClosed, lf_exit := Some 1\<rparr>)"
proof -
  have "life_step\<^sup>*\<^sup>* s (s\<lparr>lf_goroutine := AgentServed ServerClosed\<rparr>)"
    by (rule r_into_rtranclp, rule life_served) (use assms in \<open>simp_all add: listen_may_return_def\<close>)
  also have "life_step (s\<lparr>lf_goroutine := AgentServed ServerClosed\<rparr>) (s\<lparr>lf_goroutine := AgentServed ServerClosed, lf_exit := Some 1\<rparr>)"
    using life_fatal [of "s\<lparr>lf_goroutine := AgentServed ServerClosed\<rparr>" ServerClosed] assms by simp
  finally show ?thesis by blast
qed

lemma reach_steps: "reach init step s \<Longrightarrow> step\<^sup>*\<^sup>* s t \<Longrightarrow> reach init step t"
  by (rotate_tac, induction rule: rtranclp_induct) (auto intro: reach_step)


text \<open>An agent that is handling a request when the signal arrives.\<close>

definition busy_agent :: life_state where
  "busy_agent = \<lparr>lf_server = \<lparr>hs_shutdown = False, hs_requests = 1\<rparr>, lf_main = WaitSignal,
     lf_goroutine = AgentServing, lf_watching = True, lf_exit = None\<rparr>"


end
