(* ===== verification/Forecaster.thy ===== *)
theory Forecaster
  imports Api_Types
begin

text \<open>
  The standby forecaster of \<open>cmd/standby-forecaster\<close>: it turns a forecast of a metric into a total
  number of servers and sets the StandingBy number of a build, under a cool-off, a circuit breaker
  and a minimum. Times and durations are nanoseconds. The floating-point operations, the
  forecasting libraries and the API server are parameters; \<open>'f\<close> is the type of the floats.
\<close>

section \<open>Parameters\<close>

record 'f float_ops =
  f_lit :: "int \<Rightarrow> int \<Rightarrow> 'f"  \<comment> \<open>the float nearest to a fraction\<close>
  f_max :: "'f \<Rightarrow> 'f \<Rightarrow> 'f"
  f_negative :: "'f \<Rightarrow> bool"
  f_div :: "'f \<Rightarrow> 'f \<Rightarrow> 'f"
  f_mul :: "'f \<Rightarrow> 'f \<Rightarrow> 'f"
  f_ceil :: "'f \<Rightarrow> 'f"
  f_int :: "'f \<Rightarrow> int"  \<comment> \<open>the conversion to \<open>int\<close>\<close>

record 'f point =
  pt_time :: int
  pt_value :: 'f

record 'f forecast_libs =
  holtwinters :: "'f list \<Rightarrow> 'f \<Rightarrow> 'f \<Rightarrow> 'f \<Rightarrow> int \<Rightarrow> int \<Rightarrow> string + 'f list"
  regression_predict :: "(int \<times> 'f) list \<Rightarrow> int \<Rightarrow> string + 'f"  \<comment> \<open>train, run and predict\<close>

record 'f forecaster_config =
  QueryUrl :: string
  MetricQuery :: string
  ForecastFrequency :: int
  ForecastedPoints :: int
  Port :: int
  HistoricalQueryRange :: int
  AlphaConstant :: 'f
  BetaConstant :: 'f
  GammaConstant :: 'f
  SeasonLength :: int
  EnableHoltWintersForecast :: bool
  EnableLongLinearForecast :: bool
  EnableShortlinearForecast :: bool
  LongLinearHistoryPoints :: int
  LongLinearForecastedPoints :: int
  ShortLinearHistoryPoints :: int
  ShortLinearForecastedPoints :: int
  ForecastMinimumServers :: int
  ForecastBufferServers :: int
  DatapointGranularity :: int
  EnableScaleDownCircuitBreaker :: bool
  MaxScaleDownStepSize :: int
  EnableScaleDownCoolOff :: bool
  ScaleDownCoolOffPeriod :: int
  TargetGameServerBuildName :: string
  TargetGameServerBuildNamespace :: string
  MetricToServerConversionOperation :: string
  MetricToServerConversionOperationValue :: 'f
  K8s_RunInCluster :: bool
  K8s_KubeConfig :: string

abbreviation second :: int where "second \<equiv> 1000000000"
abbreviation minute :: int where "minute \<equiv> 60 * second"

text \<open>The defaults of the flags; the home directory is a parameter.\<close>

definition RegisterFlags :: "'f float_ops \<Rightarrow> string \<Rightarrow> 'f forecaster_config" where
  "RegisterFlags ops home =
     \<lparr>QueryUrl = ''http://localhost:9090'', MetricQuery = ''sum(simulated_instances)'',
      ForecastFrequency = 15 * second, ForecastedPoints = 10, Port = 8080,
      HistoricalQueryRange = 6 * 24 * 60 * minute, AlphaConstant = f_lit ops 6 10,
      BetaConstant = f_lit ops 6 10, GammaConstant = f_lit ops 45 100, SeasonLength = 60,
      EnableHoltWintersForecast = True, EnableLongLinearForecast = True, EnableShortlinearForecast = True,
      LongLinearHistoryPoints = 30, LongLinearForecastedPoints = 10, ShortLinearHistoryPoints = 10,
      ShortLinearForecastedPoints = 5, ForecastMinimumServers = 1, ForecastBufferServers = 0,
      DatapointGranularity = minute, EnableScaleDownCircuitBreaker = True, MaxScaleDownStepSize = 1,
      EnableScaleDownCoolOff = True, ScaleDownCoolOffPeriod = 5 * minute,
      TargetGameServerBuildName = ''gameserverbuild-sample-netcore'', TargetGameServerBuildNamespace = ''default'',
      MetricToServerConversionOperation = ''divide'', MetricToServerConversionOperationValue = f_lit ops 1 1,
      K8s_RunInCluster = False, K8s_KubeConfig = (if home = [] then [] else home @ ''/.kube/config'')\<rparr>"

section \<open>Forecast\<close>

datatype 'a outcome_of = Ok 'a | Fails string | Panics

text \<open>\<open>xs[len(xs)-n:]\<close> panics unless the index is within the slice.\<close>

definition last_points :: "int \<Rightarrow> 'a list \<Rightarrow> 'a list option" where
  "last_points n xs =
     (if 0 \<le> int (length xs) - n \<and> 0 \<le> n then Some (drop (length xs - nat n) xs) else None)"

definition unix_seconds :: "int \<Rightarrow> int" where
  "unix_seconds t = t div second"

definition getLinearRegressionPrediction :: "'f forecast_libs \<Rightarrow> 'f point list \<Rightarrow> int \<Rightarrow> string + 'f" where
  "getLinearRegressionPrediction libs data timeToForecast =
     regression_predict libs (map (\<lambda>p. (unix_seconds (pt_time p), pt_value p)) data) timeToForecast"

text \<open>
  The regression over the last \<open>history\<close> points, at \<open>ahead\<close> data points after the last one; the
  caller has checked that the series is not empty. The product is far below \<open>2\<^sup>6\<^sup>3\<close>.
\<close>

definition linearForecast ::
    "'f forecast_libs \<Rightarrow> 'f forecaster_config \<Rightarrow> 'f point list \<Rightarrow> int \<Rightarrow> int \<Rightarrow> 'f outcome_of" where
  "linearForecast libs cfg series history ahead =
     (case last_points history series of
        None \<Rightarrow> Panics
      | Some data \<Rightarrow>
          if series = [] then Panics
          else (case getLinearRegressionPrediction libs data
                    (unix_seconds (pt_time (last series) + ahead * DatapointGranularity cfg)) of
                  Inl e \<Rightarrow> Fails e
                | Inr x \<Rightarrow> Ok x))"

definition convertToServers :: "'f float_ops \<Rightarrow> 'f forecaster_config \<Rightarrow> 'f \<Rightarrow> int" where
  "convertToServers ops cfg forecastValue =
     (if MetricToServerConversionOperation cfg = ''divide''
      then f_int ops (f_ceil ops (f_div ops forecastValue (MetricToServerConversionOperationValue cfg)))
      else if MetricToServerConversionOperation cfg = ''multiply''
      then f_int ops (f_ceil ops (f_mul ops forecastValue (MetricToServerConversionOperationValue cfg)))
      else f_int ops forecastValue)"

definition getForecastedServerCount ::
    "'f float_ops \<Rightarrow> 'f forecast_libs \<Rightarrow> 'f point list \<Rightarrow> 'f forecaster_config \<Rightarrow> int outcome_of" where
  "getForecastedServerCount ops libs series cfg =
     (case holtwinters libs (map pt_value series) (AlphaConstant cfg) (BetaConstant cfg) (GammaConstant cfg)
          (SeasonLength cfg) (ForecastedPoints cfg) of
        Inl e \<Rightarrow> Fails e
      | Inr [] \<Rightarrow> Panics
      | Inr forecastedSeries \<Rightarrow>
          (case linearForecast libs cfg series (LongLinearHistoryPoints cfg) (LongLinearForecastedPoints cfg) of
             Fails e \<Rightarrow> Fails e
           | Panics \<Rightarrow> Panics
           | Ok longLinear \<Rightarrow>
               (case linearForecast libs cfg series (ShortLinearHistoryPoints cfg) (ShortLinearForecastedPoints cfg) of
                  Fails e \<Rightarrow> Fails e
                | Panics \<Rightarrow> Panics
                | Ok shortLinear \<Rightarrow>
                    (let v = f_max ops (last forecastedSeries) (f_max ops longLinear shortLinear);
                         v' = (if f_negative ops v then f_lit ops 0 1 else v)
                     in Ok (convertToServers ops cfg v')))))"

text \<open>What the query returned: an error, a value that is no matrix, or the series of a matrix.\<close>

datatype 'f query_result = QueryError string | NotMatrix | Matrix "(int \<times> 'f) list list"

definition queryPrometheusMetrics :: "string \<Rightarrow> 'f query_result \<Rightarrow> 'f point list outcome_of" where
  "queryPrometheusMetrics metricQuery r =
     (case r of
        QueryError e \<Rightarrow> Fails e
      | NotMatrix \<Rightarrow> Panics
      | Matrix [] \<Rightarrow> Fails (''no results returned for query '' @ metricQuery)
      | Matrix (ps # _) \<Rightarrow> Ok (map (\<lambda>(t, v). \<lparr>pt_time = t, pt_value = v\<rparr>) ps))"

section \<open>Scaling\<close>

record 'w scale_api =
  sa_client :: "'w \<Rightarrow> string option"  \<comment> \<open>the error of making a client, if any\<close>
  sa_get :: "'w \<Rightarrow> string + GameServerBuild"
  sa_update :: "'w \<Rightarrow> GameServerBuild \<Rightarrow> 'w \<times> (string + GameServerBuild)"

text \<open>\<open>time.Time{}\<close> and \<open>time.Since\<close>, which saturates.\<close>

definition zero_time :: int where
  "zero_time = - 62135596800 * second"

definition since :: "int \<Rightarrow> int \<Rightarrow> int" where
  "since now t = max (- 9223372036854775808) (min 9223372036854775807 (now - t))"

text \<open>
  The new StandingBy number before the buffer, and whether the servers are scaled down;
  \<open>None\<close> while the cool-off has not expired.
\<close>

definition desiredStandby ::
    "'f forecaster_config \<Rightarrow> int \<Rightarrow> GameServerBuildStatus \<Rightarrow> int \<Rightarrow> int \<Rightarrow> (int \<times> bool) option" where
  "desiredStandby cfg totalServersNeeded status now lastScaleDownTime =
     (let current = bst_CurrentStandingBy status;
          desired = totalServersNeeded - bst_CurrentActive status
      in if desired < current
         then (if EnableScaleDownCoolOff cfg \<and> since now lastScaleDownTime < ScaleDownCoolOffPeriod cfg then None
               else (let d1 = (if EnableScaleDownCircuitBreaker cfg \<and> MaxScaleDownStepSize cfg < current - desired
                               then current - MaxScaleDownStepSize cfg else desired);
                         d2 = (if d1 < ForecastMinimumServers cfg then ForecastMinimumServers cfg else d1)
                     in Some (d2, True)))
         else Some (desired, False))"

definition withBuffer :: "'f forecaster_config \<Rightarrow> int \<Rightarrow> int" where
  "withBuffer cfg n = (if 0 < ForecastBufferServers cfg then n + ForecastBufferServers cfg else n)"

definition scaleGameServerBuild ::
    "'w scale_api \<Rightarrow> 'f forecaster_config \<Rightarrow> int \<Rightarrow> int \<Rightarrow> int \<Rightarrow> 'w \<Rightarrow> 'w \<times> int \<times> string option" where
  "scaleGameServerBuild api cfg now totalServersNeeded lastScaleDownTime w =
     (case sa_client api w of
        Some e \<Rightarrow> (w, zero_time, Some e)
      | None \<Rightarrow>
          (case sa_get api w of
             Inl e \<Rightarrow> (w, zero_time, Some e)
           | Inr gsb \<Rightarrow>
               (case desiredStandby cfg totalServersNeeded (gsb_Status gsb) now lastScaleDownTime of
                  None \<Rightarrow> (w, lastScaleDownTime, None)
                | Some (desired, wasScaleDown) \<Rightarrow>
                    (let gsb' = gsb\<lparr>gsb_Spec := (gsb_Spec gsb)\<lparr>bs_StandingBy := withBuffer cfg desired\<rparr>\<rparr>
                     in case sa_update api w gsb' of
                          (w', Inl e) \<Rightarrow> (w', zero_time, Some e)
                        | (w', Inr _) \<Rightarrow> (w', if wasScaleDown then now else lastScaleDownTime, None)))))"

section \<open>The main loop\<close>

text \<open>
  One tick, from the last scale-down time: \<open>None\<close> is a panic, which ends the process. A failed
  query or forecast leaves the time as it is, a failed scaling does not.
\<close>

definition forecaster_tick ::
    "'f float_ops \<Rightarrow> 'f forecast_libs \<Rightarrow> 'w scale_api \<Rightarrow> 'f forecaster_config \<Rightarrow> int \<Rightarrow> 'f query_result \<Rightarrow>
     'w \<times> int \<Rightarrow> ('w \<times> int) option" where
  "forecaster_tick ops libs api cfg now r s =
     (let (w, lastScaleDownTime) = s
      in case queryPrometheusMetrics (MetricQuery cfg) r of
           Fails e \<Rightarrow> Some s
         | Panics \<Rightarrow> None
         | Ok series \<Rightarrow>
             (case getForecastedServerCount ops libs series cfg of
                Fails e \<Rightarrow> Some s
              | Panics \<Rightarrow> None
              | Ok n \<Rightarrow> (let (w', t, e) = scaleGameServerBuild api cfg now n lastScaleDownTime w in Some (w', t))))"


section \<open>Basic facts\<close>

lemma desiredStandby_cases:
  assumes "desiredStandby cfg n status now t = r"
  defines "cur \<equiv> bst_CurrentStandingBy status" and "d \<equiv> n - bst_CurrentActive status"
  obtains (up) "cur \<le> d" "r = Some (d, False)"
  | (waits) "d < cur" "EnableScaleDownCoolOff cfg" "since now t < ScaleDownCoolOffPeriod cfg" "r = None"
  | (down) s where "d < cur" "\<not> (EnableScaleDownCoolOff cfg \<and> since now t < ScaleDownCoolOffPeriod cfg)"
      "r = Some (s, True)"
      "s = max (ForecastMinimumServers cfg)
        (if EnableScaleDownCircuitBreaker cfg \<and> MaxScaleDownStepSize cfg < cur - d
         then cur - MaxScaleDownStepSize cfg else d)"
proof -
  note D = assms(1) [unfolded desiredStandby_def Let_def, folded cur_def d_def]
  show ?thesis
  proof (cases "d < cur")
    case False
    with D up show ?thesis by auto
  next
    case True
    show ?thesis
    proof (cases "EnableScaleDownCoolOff cfg \<and> since now t < ScaleDownCoolOffPeriod cfg")
      case w: True
      with D True waits show ?thesis by auto
    next
      case False
      show ?thesis
        by (rule down [OF True False]) (use D True False in \<open>auto simp: max_def\<close>)
    qed
  qed
qed

text \<open>A failed scaling forgets the last scale-down, so the cool-off no longer holds the next one back.\<close>

lemma failed_scaling_forgets:
  assumes "scaleGameServerBuild api cfg now n t w = (w', t', Some e)"
  shows "t' = zero_time"
  using assms by (auto simp: scaleGameServerBuild_def Let_def split: option.splits sum.splits prod.splits)

lemma forgotten_cool_off:
  assumes "0 \<le> now" and "ScaleDownCoolOffPeriod cfg \<le> 9223372036854775807"
  shows "\<not> since now zero_time < ScaleDownCoolOffPeriod cfg"
  using assms by (simp add: since_def zero_time_def)

section \<open>Properties\<close>


text \<open>
  The world is the build, which the operator has brought to its StandingBy number before the next
  scaling.
\<close>

definition settled_api :: "GameServerBuild scale_api" where
  "settled_api =
     \<lparr>sa_client = (\<lambda>w. None), sa_get = Inr,
      sa_update = (\<lambda>w g. (g\<lparr>gsb_Status := (gsb_Status g)\<lparr>bst_CurrentStandingBy := bs_StandingBy (gsb_Spec g)\<rparr>\<rparr>, Inr g))\<rparr>"

fun scalings :: "'f forecaster_config \<Rightarrow> int \<Rightarrow> (nat \<Rightarrow> int) \<Rightarrow> nat \<Rightarrow> GameServerBuild \<times> int \<Rightarrow> GameServerBuild \<times> int" where
  "scalings cfg n now 0 s = s"
| "scalings cfg n now (Suc k) s =
     (let (w, t) = scalings cfg n now k s; (w', t', e) = scaleGameServerBuild settled_api cfg (now k) n t w
      in (w', t'))"

lemma scaling_step:
  assumes "EnableScaleDownCircuitBreaker cfg" and "0 < ForecastBufferServers cfg"
    and "0 \<le> MaxScaleDownStepSize cfg"
    and "MaxScaleDownStepSize cfg < bst_CurrentStandingBy (gsb_Status w) - (n - bst_CurrentActive (gsb_Status w))"
    and "ForecastMinimumServers cfg \<le> bst_CurrentStandingBy (gsb_Status w) - MaxScaleDownStepSize cfg"
    and "ScaleDownCoolOffPeriod cfg \<le> since now t"
    and "scaleGameServerBuild settled_api cfg now n t w = (w', t', e)"
  shows "bst_CurrentStandingBy (gsb_Status w') =
      bst_CurrentStandingBy (gsb_Status w) + (ForecastBufferServers cfg - MaxScaleDownStepSize cfg) \<and>
    bst_CurrentActive (gsb_Status w') = bst_CurrentActive (gsb_Status w) \<and> t' = now"
  using assms by (auto simp: scaleGameServerBuild_def settled_api_def desiredStandby_def withBuffer_def Let_def)

text \<open>
  A buffer larger than the step of the circuit breaker makes the standby servers grow without
  bound. The buffer is added to every result, also to one that the breaker computed from a number that
  already has it: once the standby servers exceed a constant demand by more than one
  step, each scale-down adds the difference, so that \<open>k\<close> of them add \<open>k\<close> times as much.
\<close>

lemma buffer_outgrows_breaker:
  assumes "EnableScaleDownCircuitBreaker cfg" and "0 \<le> MaxScaleDownStepSize cfg"
    and "MaxScaleDownStepSize cfg < ForecastBufferServers cfg"
    and "MaxScaleDownStepSize cfg < bst_CurrentStandingBy (gsb_Status w) - (n - bst_CurrentActive (gsb_Status w))"
    and "ForecastMinimumServers cfg \<le> bst_CurrentStandingBy (gsb_Status w) - MaxScaleDownStepSize cfg"
    and "\<And>k. ScaleDownCoolOffPeriod cfg \<le> since (now (Suc k)) (now k)"
    and "ScaleDownCoolOffPeriod cfg \<le> since (now 0) t"
    and "scalings cfg n now k (w, t) = (w', t')"
  shows "bst_CurrentStandingBy (gsb_Status w') =
    bst_CurrentStandingBy (gsb_Status w) + int k * (ForecastBufferServers cfg - MaxScaleDownStepSize cfg)"
proof -
  let ?g = "ForecastBufferServers cfg - MaxScaleDownStepSize cfg"
  have "bst_CurrentStandingBy (gsb_Status w') = bst_CurrentStandingBy (gsb_Status w) + int k * ?g \<and>
    bst_CurrentActive (gsb_Status w') = bst_CurrentActive (gsb_Status w) \<and>
    t' = (case k of 0 \<Rightarrow> t | Suc j \<Rightarrow> now j)"
    using assms(8)
  proof (induction k arbitrary: w' t')
    case 0
    then show ?case by simp
  next
    case (Suc k)
    obtain w1 t1 where 1: "scalings cfg n now k (w, t) = (w1, t1)" by fastforce
    obtain e where s: "scaleGameServerBuild settled_api cfg (now k) n t1 w1 = (w', t', e)"
      using Suc.prems 1 by (auto simp: Let_def split: prod.splits)
    note IH = Suc.IH [OF 1]
    have g: "0 \<le> int k * ?g" using assms(3) by simp
    have "ScaleDownCoolOffPeriod cfg \<le> since (now k) t1"
      using IH assms(6,7) by (cases k) auto
    moreover have "0 < ForecastBufferServers cfg" using assms(2,3) by simp
    ultimately have "bst_CurrentStandingBy (gsb_Status w') = bst_CurrentStandingBy (gsb_Status w1) + ?g \<and>
      bst_CurrentActive (gsb_Status w') = bst_CurrentActive (gsb_Status w1) \<and> t' = now k"
      using IH g assms(4,5) by (intro scaling_step [OF assms(1) _ assms(2) _ _ _ s]) linarith+
    with IH show ?case by (simp add: algebra_simps)
  qed
  then show ?thesis by blast
qed


section \<open>A concrete configuration, for the witnesses\<close>

definition whole_ops :: "int float_ops" where
  "whole_ops = \<lparr>f_lit = (\<lambda>a b. a div b), f_max = max, f_negative = (\<lambda>x. x < 0), f_div = (div), f_mul = (*),
     f_ceil = id, f_int = id\<rparr>"

definition buffered_config :: "int forecaster_config" where
  "buffered_config = (RegisterFlags whole_ops [])\<lparr>ForecastBufferServers := 5\<rparr>"

definition build_at :: "int \<Rightarrow> int \<Rightarrow> GameServerBuild" where
  "build_at standby active = zero_GameServerBuild
     \<lparr>gsb_Status := zero_BuildStatus\<lparr>bst_CurrentStandingBy := standby, bst_CurrentActive := active\<rparr>\<rparr>"

lemma buffered_simps [simp]:
  "EnableScaleDownCircuitBreaker buffered_config" "MaxScaleDownStepSize buffered_config = 1"
  "ForecastBufferServers buffered_config = 5" "ForecastMinimumServers buffered_config = 1"
  "ScaleDownCoolOffPeriod buffered_config = 5 * minute" "EnableScaleDownCoolOff buffered_config"
  by (simp_all add: buffered_config_def RegisterFlags_def)

lemma build_at_simps [simp]:
  "bst_CurrentStandingBy (gsb_Status (build_at s a)) = s" "bst_CurrentActive (gsb_Status (build_at s a)) = a"
  by (simp_all add: build_at_def)


lemma buffer_outgrows_breaker_witness:
  "\<exists>w' t'. scalings buffered_config 10 (\<lambda>k. (int k + 1) * (10 * minute)) 25 (build_at 15 0, 0) = (w', t') \<and>
     bst_CurrentStandingBy (gsb_Status w') = 115"
proof -
  let ?now = "\<lambda>k. (int k + 1) * (10 * minute)"
  obtain w' t' where s: "scalings buffered_config 10 ?now 25 (build_at 15 0, 0) = (w', t')" by fastforce
  have "5 * minute \<le> since (?now (Suc k)) (?now k)" for k
  proof -
    have "?now (Suc k) - ?now k = 10 * minute" by (simp add: algebra_simps)
    then show ?thesis by (simp add: since_def)
  qed
  moreover have "5 * minute \<le> since (?now 0) 0" by (simp add: since_def)
  ultimately show ?thesis
    using buffer_outgrows_breaker [OF buffered_simps(1) _ _ _ _ _ _ s] s by simp
qed

end
