(* ===== verification/Config_File.thy ===== *)
theory Config_File
  imports Node_Agent_Utils "HOL-Library.Sublist"
begin

text \<open>
  \<open>pkg/config/config.go\<close>, which finds the configuration file on a command line before the flags
  are parsed and expands variables in it, and \<open>pkg/log/log.go\<close>. The parsing of one flag of the
  \<open>flag\<close> package, \<open>os.Expand\<close> and \<open>strings.SplitN\<close> are written out for what these files use.
\<close>

section \<open>The flag package\<close>

text \<open>The two variables of the flag set.\<close>

record config_flags =
  configFile :: string
  expandENV :: bool

definition ConfigFileParam :: string where "ConfigFileParam = ''config-file''"
definition ExpandENVParam :: string where "ExpandENVParam = ''config-expand-env''"

text \<open>
  The name of a flag and its value, if it has one: one or two dashes, then a name that begins
  neither with a dash nor with an equals sign. The value begins after the first equals sign that is
  not the first character. \<open>None\<close> when the argument is no flag.
\<close>

definition splitValue :: "string \<Rightarrow> string \<times> string option" where
  "splitValue s =
     (let rest = dropWhile (\<lambda>c. c \<noteq> CHR ''='') (tl s)
      in case rest of
           [] \<Rightarrow> (s, None)
         | _ # v \<Rightarrow> (hd s # takeWhile (\<lambda>c. c \<noteq> CHR ''='') (tl s), Some v))"

definition flagOf :: "string \<Rightarrow> (string \<times> string option) option" where
  "flagOf s =
     (if length s < 2 \<or> hd s \<noteq> CHR ''-'' then None
      else (let name = (if s ! 1 = CHR ''-'' then drop 2 s else drop 1 s)
            in if name = [] \<or> hd name = CHR ''-'' \<or> hd name = CHR ''='' then None else Some (splitValue name)))"

text \<open>
  One flag at the front of the arguments: the variables, what is left, and whether to go on. An
  argument that is no flag, an unknown flag, and a missing or a bad value end the parsing. A bad
  boolean still sets the variable, to false.
\<close>

definition parseOne :: "string list \<Rightarrow> config_flags \<Rightarrow> config_flags \<times> string list \<times> bool" where
  "parseOne args v =
     (case args of
        [] \<Rightarrow> (v, [], False)
      | s # rest \<Rightarrow>
          (case flagOf s of
             None \<Rightarrow> (v, rest, False)
           | Some (name, value) \<Rightarrow>
               if name = ExpandENVParam then
                 (case value of
                    None \<Rightarrow> (v\<lparr>expandENV := True\<rparr>, rest, True)
                  | Some x \<Rightarrow>
                      (case ParseBool x of
                         Some b \<Rightarrow> (v\<lparr>expandENV := b\<rparr>, rest, True)
                       | None \<Rightarrow> (v\<lparr>expandENV := False\<rparr>, rest, False)))
               else if name = ConfigFileParam then
                 (case value of
                    Some x \<Rightarrow> (v\<lparr>configFile := x\<rparr>, rest, True)
                  | None \<Rightarrow>
                      (case rest of
                         [] \<Rightarrow> (v, [], False)
                       | x # rest' \<Rightarrow> (v\<lparr>configFile := x\<rparr>, rest', True)))
               else (v, rest, False)))"

lemma parseOne_shorter [simp]:
  "parseOne args v = (v', rest, True) \<Longrightarrow> length rest < length args"
  by (cases args) (auto simp: parseOne_def split: option.splits if_splits list.splits)

function flagsParse :: "string list \<Rightarrow> config_flags \<Rightarrow> config_flags" where
  "flagsParse args v =
     (case parseOne args v of (v', rest, goOn) \<Rightarrow> if goOn then flagsParse rest v' else v')"
  by pat_completeness auto
termination by (relation "measure (length \<circ> fst)") (auto dest: parseOne_shorter [OF sym])

declare flagsParse.simps [simp del]

section \<open>ParseConfigFileAndEnvParams\<close>

fun parseSuffixes :: "string list \<Rightarrow> config_flags \<Rightarrow> config_flags" where
  "parseSuffixes [] v = v"
| "parseSuffixes (a # args) v = parseSuffixes args (flagsParse (a # args) v)"

definition ParseConfigFileAndEnvParams :: "string list \<Rightarrow> string \<times> bool" where
  "ParseConfigFileAndEnvParams args =
     (let v = parseSuffixes args \<lparr>configFile = [], expandENV = False\<rparr> in (configFile v, expandENV v))"

section \<open>ExpandEnvInConfigFile\<close>

definition isShellSpecialVar :: "char \<Rightarrow> bool" where
  "isShellSpecialVar c \<longleftrightarrow> c \<in> set ''*#$@!?-0123456789''"

definition isAlphaNum :: "char \<Rightarrow> bool" where
  "isAlphaNum c \<longleftrightarrow>
     (let n = of_char c :: nat
      in c = CHR ''_'' \<or> 48 \<le> n \<and> n \<le> 57 \<or> 97 \<le> n \<and> n \<le> 122 \<or> 65 \<le> n \<and> n \<le> 90)"

text \<open>\<open>getShellName\<close> on what follows a dollar: the name, and how many characters it takes.\<close>

definition getShellName :: "string \<Rightarrow> string \<times> nat" where
  "getShellName s =
     (if hd s = CHR ''{'' then
        (if 2 < length s \<and> isShellSpecialVar (s ! 1) \<and> s ! 2 = CHR ''}'' then ([s ! 1], 3)
         else (let name = takeWhile (\<lambda>c. c \<noteq> CHR ''}'') (tl s)
               in if length name = length (tl s) then ([], 1)
                  else if name = [] then ([], 2) else (name, length name + 2)))
      else if isShellSpecialVar (hd s) then ([hd s], 1)
      else (let name = takeWhile isAlphaNum s in (name, length name)))"

function osExpand :: "(string \<Rightarrow> string) \<Rightarrow> string \<Rightarrow> string" where
  "osExpand f [] = []"
| "osExpand f (c # s) =
     (if c = CHR ''$'' \<and> s \<noteq> [] then
        (case getShellName s of
           (name, w) \<Rightarrow>
             (if name = [] \<and> 0 < w then [] else if name = [] then [c] else f name) @ osExpand f (drop w s))
      else c # osExpand f s)"
  by pat_completeness auto
termination by (relation "measure (length \<circ> snd)") auto

text \<open>\<open>strings.SplitN(s, ":", 2)\<close>: the part before the first colon, and what follows it.\<close>

definition splitDefault :: "string \<Rightarrow> string \<times> string option" where
  "splitDefault s =
     (case dropWhile (\<lambda>c. c \<noteq> CHR '':'') s of
        [] \<Rightarrow> (s, None)
      | _ # d \<Rightarrow> (takeWhile (\<lambda>c. c \<noteq> CHR '':'') s, Some d))"

definition envValue :: "environment \<Rightarrow> string \<Rightarrow> string" where
  "envValue env s =
     (case splitDefault s of
        (name, d) \<Rightarrow> (case env name of Some v \<Rightarrow> v | None \<Rightarrow> (case d of Some v \<Rightarrow> v | None \<Rightarrow> [])))"

definition ExpandEnvInConfigFile :: "environment \<Rightarrow> string \<Rightarrow> string" where
  "ExpandEnvInConfigFile env config = osExpand (envValue env) config"

section \<open>getLogFields\<close>

text \<open>The rendering of a key (\<open>%v\<close>) is a parameter. A last key without a value is dropped.\<close>

fun logFields :: "('a \<Rightarrow> string) \<Rightarrow> 'a list \<Rightarrow> (string \<rightharpoonup> 'a) \<Rightarrow> (string \<rightharpoonup> 'a)" where
  "logFields sprint (k # v # args) m = logFields sprint args (m(sprint k \<mapsto> v))"
| "logFields sprint _ m = m"

definition getLogFields :: "('a \<Rightarrow> string) \<Rightarrow> 'a list \<Rightarrow> (string \<rightharpoonup> 'a)" where
  "getLogFields sprint args = logFields sprint args Map.empty"

section \<open>Every position is parsed on its own\<close>

text \<open>What the flag at the front of the arguments assigns to each variable.\<close>

definition setsFile :: "string list \<Rightarrow> string option" where
  "setsFile args =
     (case args of
        [] \<Rightarrow> None
      | s # rest \<Rightarrow>
          (case flagOf s of
             Some (name, value) \<Rightarrow>
               if name = ConfigFileParam
               then (case value of Some x \<Rightarrow> Some x | None \<Rightarrow> (case rest of [] \<Rightarrow> None | x # _ \<Rightarrow> Some x))
               else None
           | None \<Rightarrow> None))"

definition setsExpand :: "string list \<Rightarrow> bool option" where
  "setsExpand args =
     (case args of
        [] \<Rightarrow> None
      | s # _ \<Rightarrow>
          (case flagOf s of
             Some (name, value) \<Rightarrow>
               if name = ExpandENVParam
               then Some (case value of None \<Rightarrow> True | Some x \<Rightarrow> ParseBool x = Some True)
               else None
           | None \<Rightarrow> None))"

definition orOld :: "'a option \<Rightarrow> 'a \<Rightarrow> 'a" where
  "orOld x old = (case x of Some y \<Rightarrow> y | None \<Rightarrow> old)"

lemma orOld_simps [simp]: "orOld (Some y) old = y" "orOld None old = old"
  by (simp_all add: orOld_def)

lemma params_differ [simp]: "ConfigFileParam \<noteq> ExpandENVParam" "ExpandENVParam \<noteq> ConfigFileParam"
  by (simp_all add: ConfigFileParam_def ExpandENVParam_def)

lemma parseOne_sets:
  "fst (parseOne args v) =
     \<lparr>configFile = orOld (setsFile args) (configFile v), expandENV = orOld (setsExpand args) (expandENV v)\<rparr>"
  by (cases v) (auto simp: parseOne_def setsFile_def setsExpand_def split: list.splits option.splits)

text \<open>The last position that assigns a variable, over all positions.\<close>

fun lastSet :: "(string list \<Rightarrow> 'a option) \<Rightarrow> string list \<Rightarrow> 'a option" where
  "lastSet f [] = None"
| "lastSet f (a # args) = (case lastSet f args of Some x \<Rightarrow> Some x | None \<Rightarrow> f (a # args))"

lemma lastSet_suffix:
  "suffix rest args \<Longrightarrow> rest \<noteq> [] \<Longrightarrow> f rest = Some x \<Longrightarrow> \<exists>y. lastSet f args = Some y"
  by (induction args) (auto simp: suffix_Cons split: option.splits)

lemma orOld_lastSet:
  assumes "suffix rest args" and "rest \<noteq> []"
  shows "orOld (lastSet f args) (orOld (f rest) old) = orOld (lastSet f args) old"
proof (cases "f rest")
  case (Some x)
  then show ?thesis using lastSet_suffix [of rest args f x] assms by auto
qed simp

lemma orOld_step: "orOld (lastSet f args) (orOld (f (a # args)) old) = orOld (lastSet f (a # args)) old"
  by (cases "lastSet f args") simp_all

definition parsedBy :: "string list \<Rightarrow> config_flags \<Rightarrow> config_flags" where
  "parsedBy args v =
     \<lparr>configFile = orOld (lastSet setsFile args) (configFile v),
      expandENV = orOld (lastSet setsExpand args) (expandENV v)\<rparr>"

lemma parsedBy_parseOne:
  assumes "suffix rest args" and "rest \<noteq> []"
  shows "parsedBy args (fst (parseOne rest v)) = parsedBy args v"
  by (simp add: parsedBy_def parseOne_sets orOld_lastSet [OF assms])

lemma parseOne_suffix: "parseOne args v = (v', rest, go) \<Longrightarrow> suffix rest args"
  by (cases args) (auto simp: parseOne_def suffix_Cons split: option.splits if_splits list.splits)

lemma flagsParse_Nil [simp]: "flagsParse [] v = v"
  by (simp add: flagsParse.simps [of "[]"] parseOne_def)

lemma parsedBy_flagsParse: "suffix rest args \<Longrightarrow> rest \<noteq> [] \<Longrightarrow> parsedBy args (flagsParse rest v) = parsedBy args v"
proof (induction rest v rule: flagsParse.induct)
  case (1 rest v)
  obtain v' rest' go where p: "parseOne rest v = (v', rest', go)" by (metis prod_cases3)
  have v': "parsedBy args v' = parsedBy args v"
    using parsedBy_parseOne [OF 1(2,3), of v] by (simp add: p)
  have "suffix rest' args" using parseOne_suffix [OF p] 1(2) by (rule suffix_order.trans)
  then have "parsedBy args (flagsParse rest' v') = parsedBy args v'" if "go" "rest' \<noteq> []"
    using 1(1) [OF p [symmetric] refl] that by simp
  then show ?case by (subst flagsParse.simps) (cases "rest' = []", auto simp: p v' flagsParse_Nil)
qed

lemma flagsParse_first:
  "parsedBy args (flagsParse (a # args) v) = parsedBy (a # args) v"
proof -
  obtain v' rest go where p: "parseOne (a # args) v = (v', rest, go)" by (metis prod_cases3)
  have "suffix rest args"
    using p by (auto simp: parseOne_def suffix_Cons split: option.splits if_splits list.splits)
  then have "parsedBy args (flagsParse rest v') = parsedBy args v'"
    by (cases "rest = []") (auto simp: parsedBy_flagsParse flagsParse_Nil)
  moreover have "parsedBy args v' = parsedBy (a # args) v"
    using parseOne_sets [of "a # args" v] by (simp add: p parsedBy_def orOld_step del: lastSet.simps)
  ultimately show ?thesis by (subst flagsParse.simps) (simp add: p)
qed

lemma parseSuffixes_eq: "parseSuffixes args v = parsedBy args v"
proof (induction args arbitrary: v)
  case Nil
  show ?case by (simp add: parsedBy_def)
next
  case (Cons a args)
  then show ?case by (simp add: flagsParse_first)
qed

text \<open>A line without a dollar is not changed; a braced name with a default is replaced by one of the two.\<close>

lemma osExpand_plain: "CHR ''$'' \<notin> set s \<Longrightarrow> osExpand f s = s"
  by (induction s) auto

lemma osExpand_braced:
  assumes "CHR ''}'' \<notin> set name" and "2 \<le> length name"
  shows "osExpand f (CHR ''$'' # CHR ''{'' # name @ CHR ''}'' # s) = f name @ osExpand f s"
proof -
  have t: "takeWhile (\<lambda>c. c \<noteq> CHR ''}'') (name @ CHR ''}'' # s) = name"
    using assms(1) by (induction name) auto
  have n1: "(name @ CHR ''}'' # s) ! 1 \<noteq> CHR ''}''"
  proof -
    have "1 < length name" using assms(2) by simp
    then have "(name @ CHR ''}'' # s) ! 1 \<in> set name" by (simp add: nth_append)
    with assms(1) show ?thesis by metis
  qed
  have "getShellName (CHR ''{'' # name @ CHR ''}'' # s) = (name, length name + 2)"
    using assms n1 unfolding getShellName_def Let_def by (simp add: t)
  then show ?thesis using assms by auto
qed

lemma expand_default:
  assumes "CHR ''}'' \<notin> set name" "CHR '':'' \<notin> set name" "CHR ''}'' \<notin> set d" "name \<noteq> []"
  shows "ExpandEnvInConfigFile env (''${'' @ name @ '':'' @ d @ ''}'' @ s) =
    (case env name of Some v \<Rightarrow> v | None \<Rightarrow> d) @ ExpandEnvInConfigFile env s"
proof -
  have "splitDefault (name @ CHR '':'' # d) = (name, Some d)"
  proof -
    have "dropWhile (\<lambda>c. c \<noteq> CHR '':'') (name @ CHR '':'' # d) = CHR '':'' # d"
      and "takeWhile (\<lambda>c. c \<noteq> CHR '':'') (name @ CHR '':'' # d) = name"
      using assms(2) by (induction name) auto
    then show ?thesis by (simp add: splitDefault_def)
  qed
  then have "envValue env (name @ CHR '':'' # d) = (case env name of Some v \<Rightarrow> v | None \<Rightarrow> d)"
    by (auto simp: envValue_def split: option.splits)
  moreover have "2 \<le> length (name @ CHR '':'' # d)" using assms(4) by (cases name) auto
  ultimately show ?thesis
    using osExpand_braced [of "name @ CHR '':'' # d" "envValue env" s] assms
    by (simp add: ExpandEnvInConfigFile_def)
qed

text \<open>
  The configuration file and the expansion flag are those of the last position on the
  command line that reads as one of the two flags, whatever stands before it. The code parses every suffix
  of the arguments; that is equivalent to looking at each position alone, so also the value of another
  flag counts when it reads like one of the two.
\<close>

lemma every_position_parsed:
  "ParseConfigFileAndEnvParams args =
     (orOld (lastSet setsFile args) [], orOld (lastSet setsExpand args) False)"
  by (simp add: ParseConfigFileAndEnvParams_def parseSuffixes_eq parsedBy_def)

lemma getLogFields_pairs:
  "getLogFields sprint (concat (map (\<lambda>(k, v). [k, v]) kvs) @ tail) =
    logFields sprint tail (map_of (rev (map (\<lambda>(k, v). (sprint k, v)) kvs)))"
proof -
  have "logFields sprint (concat (map (\<lambda>(k, v). [k, v]) kvs) @ tail) m =
      logFields sprint tail (m ++ map_of (rev (map (\<lambda>(k, v). (sprint k, v)) kvs)))" for m
    by (induction kvs arbitrary: m) (auto simp: map_add_assoc)
  then show ?thesis by (simp add: getLogFields_def)
qed

end
