(* ===== verification/Forecaster_Main.thy ===== *)
theory Forecaster_Main
  imports Forecaster Config_File
begin

text \<open>
  The start and the loop of \<open>cmd/standby-forecaster/main.go\<close>: the configuration is made of the defaults, the
  file that the command line names and the flags, in this order; then a timer drives \<open>forecaster_tick\<close> until
  a signal. The flags are those of \<open>config.go\<close>; the parsing of numbers, of YAML, the files and dskit's
  ignored flags are parameters.
\<close>

section \<open>The flags\<close>

record 'f flag_parsers =
  fp_int :: "string \<Rightarrow> int option"
  fp_duration :: "string \<Rightarrow> int option"
  fp_float :: "string \<Rightarrow> 'f option"

text \<open>A flag: whether it stands without a value, and what a value does; \<open>None\<close> for a bad value.\<close>

type_synonym 'f flag_entry = "bool \<times> (string \<Rightarrow> 'f forecaster_config \<Rightarrow> 'f forecaster_config option)"

definition stringVar :: "((string \<Rightarrow> string) \<Rightarrow> 'f forecaster_config \<Rightarrow> 'f forecaster_config) \<Rightarrow> 'f flag_entry" where
  "stringVar upd = (False, \<lambda>v c. Some (upd (\<lambda>_. v) c))"

definition parsedVar ::
    "(string \<Rightarrow> 'a option) \<Rightarrow> (('a \<Rightarrow> 'a) \<Rightarrow> 'f forecaster_config \<Rightarrow> 'f forecaster_config) \<Rightarrow> 'f flag_entry" where
  "parsedVar parse upd = (False, \<lambda>v c. map_option (\<lambda>x. upd (\<lambda>_. x) c) (parse v))"

definition boolVar :: "((bool \<Rightarrow> bool) \<Rightarrow> 'f forecaster_config \<Rightarrow> 'f forecaster_config) \<Rightarrow> 'f flag_entry" where
  "boolVar upd = (True, \<lambda>v c. map_option (\<lambda>b. upd (\<lambda>_. b) c) (ParseBool v))"

definition ignoredVar :: "bool \<Rightarrow> 'f flag_entry" where
  "ignoredVar standsAlone = (standsAlone, \<lambda>v c. Some c)"

definition flagTable :: "'f flag_parsers \<Rightarrow> (string \<times> 'f flag_entry) list" where
  "flagTable p =
     [(''queryUrl'', stringVar QueryUrl_update),
      (''metricQuery'', stringVar MetricQuery_update),
      (''points'', parsedVar (fp_int p) ForecastedPoints_update),
      (''port'', parsedVar (fp_int p) Port_update),
      (''forecast-frequency'', parsedVar (fp_duration p) ForecastFrequency_update),
      (''historical-query-range'', parsedVar (fp_duration p) HistoricalQueryRange_update),
      (''alpha'', parsedVar (fp_float p) AlphaConstant_update),
      (''beta'', parsedVar (fp_float p) BetaConstant_update),
      (''gamma'', parsedVar (fp_float p) GammaConstant_update),
      (''seasonLength'', parsedVar (fp_int p) SeasonLength_update),
      (''enableHoltWintersForecast'', boolVar EnableHoltWintersForecast_update),
      (''enableLongLinearForecast'', boolVar EnableLongLinearForecast_update),
      (''enableShortLinearForecast'', boolVar EnableShortlinearForecast_update),
      (''longLinearHistoryPoints'', parsedVar (fp_int p) LongLinearHistoryPoints_update),
      (''longLinearForecastedPoints'', parsedVar (fp_int p) LongLinearForecastedPoints_update),
      (''shortLinearHistoryPoints'', parsedVar (fp_int p) ShortLinearHistoryPoints_update),
      (''shortLinearForecastedPoints'', parsedVar (fp_int p) ShortLinearForecastedPoints_update),
      (''forecastMinimumServers'', parsedVar (fp_int p) ForecastMinimumServers_update),
      (''forecastBufferServers'', parsedVar (fp_int p) ForecastBufferServers_update),
      (''datapointGranularity'', parsedVar (fp_duration p) DatapointGranularity_update),
      (''enableScaleDownCircuitBreaker'', boolVar EnableScaleDownCircuitBreaker_update),
      (''maxScaleDownStepSize'', parsedVar (fp_int p) MaxScaleDownStepSize_update),
      (''enableScaleDownCoolOff'', boolVar EnableScaleDownCoolOff_update),
      (''scaleDownCoolOffPeriod'', parsedVar (fp_duration p) ScaleDownCoolOffPeriod_update),
      (''targetGameServerBuildName'', stringVar TargetGameServerBuildName_update),
      (''targetGameServerBuildNamespace'', stringVar TargetGameServerBuildNamespace_update),
      (''metricToServerConversionOperation'', stringVar MetricToServerConversionOperation_update),
      (''metricToServerConversionOperationValue'', parsedVar (fp_float p) MetricToServerConversionOperationValue_update),
      (''k8s.runInCluster'', boolVar K8s_RunInCluster_update),
      (''k8s.kubeConfig'', stringVar K8s_KubeConfig_update)]"

definition IgnoreConfigAndEnvParamsFromFlags :: "bool \<Rightarrow> (string \<times> 'f flag_entry) list \<Rightarrow> (string \<times> 'f flag_entry) list" where
  "IgnoreConfigAndEnvParamsFromFlags standsAlone flags =
     flags @ [(ConfigFileParam, ignoredVar standsAlone), (ExpandENVParam, ignoredVar standsAlone)]"

text \<open>
  \<open>flag.Parse\<close>: it stops at the first argument that is no flag; a bad flag, a flag that is not defined, a
  missing or a bad value end the process with status 2, the help with 0.
\<close>

datatype flag_arg = NoFlag | BadFlag | Flag string "string option"

definition argOf :: "string \<Rightarrow> flag_arg" where
  "argOf s =
     (if length s < 2 \<or> hd s \<noteq> CHR ''-'' \<or> s = ''--'' then NoFlag
      else (case flagOf s of None \<Rightarrow> BadFlag | Some (n, v) \<Rightarrow> Flag n v))"

definition setFlag ::
    "(string \<Rightarrow> 'f forecaster_config \<Rightarrow> 'f forecaster_config option) \<Rightarrow> string \<Rightarrow> 'f forecaster_config \<Rightarrow> int + 'f forecaster_config" where
  "setFlag put v c = (case put v c of None \<Rightarrow> Inl 2 | Some c' \<Rightarrow> Inr c')"

function parseFlags ::
    "(string \<times> 'f flag_entry) list \<Rightarrow> string list \<Rightarrow> 'f forecaster_config \<Rightarrow> int + 'f forecaster_config" where
  "parseFlags flags [] c = Inr c"
| "parseFlags flags (a # args) c =
     (case argOf a of
        NoFlag \<Rightarrow> Inr c
      | BadFlag \<Rightarrow> Inl 2
      | Flag n v \<Rightarrow>
          (case map_of flags n of
             None \<Rightarrow> Inl (if n = ''help'' \<or> n = ''h'' then 0 else 2)
           | Some (standsAlone, put) \<Rightarrow>
               (case v of
                  Some x \<Rightarrow> (case setFlag put x c of Inl e \<Rightarrow> Inl e | Inr c' \<Rightarrow> parseFlags flags args c')
                | None \<Rightarrow>
                    if standsAlone
                    then (case setFlag put ''true'' c of Inl e \<Rightarrow> Inl e | Inr c' \<Rightarrow> parseFlags flags args c')
                    else (case args of
                            [] \<Rightarrow> Inl 2
                          | x # args' \<Rightarrow>
                              (case setFlag put x c of Inl e \<Rightarrow> Inl e | Inr c' \<Rightarrow> parseFlags flags args' c')))))"
  by pat_completeness auto
termination by (relation "measure (\<lambda>(flags, args, c). length args)") auto

section \<open>The start\<close>

text \<open>\<open>errors.Wrap\<close> puts the message before the cause.\<close>

definition loadConfig ::
    "(string \<Rightarrow> string + string) \<Rightarrow> (string \<Rightarrow> 'f forecaster_config \<Rightarrow> string + 'f forecaster_config) \<Rightarrow> environment \<Rightarrow>
     string \<Rightarrow> bool \<Rightarrow> 'f forecaster_config \<Rightarrow> string + 'f forecaster_config" where
  "loadConfig readFile unmarshalStrict env filename expand cfg =
     (case readFile filename of
        Inl e \<Rightarrow> Inl (''Error reading config file: '' @ e)
      | Inr buf \<Rightarrow>
          (case unmarshalStrict (if expand then ExpandEnvInConfigFile env buf else buf) cfg of
             Inl e \<Rightarrow> Inl (''Error parsing config file: '' @ e)
           | Inr cfg' \<Rightarrow> Inr cfg'))"

datatype 'f forecaster_started =
    LoadError string  \<comment> \<open>what is printed before the exit with status 1\<close>
  | FlagExit int
  | TickerPanic  \<comment> \<open>\<open>NewTicker\<close> of a frequency that is not positive\<close>
  | Started "'f forecaster_config"

definition forecaster_start ::
    "'f float_ops \<Rightarrow> 'f flag_parsers \<Rightarrow> bool \<Rightarrow> (string \<Rightarrow> string + string) \<Rightarrow>
     (string \<Rightarrow> 'f forecaster_config \<Rightarrow> string + 'f forecaster_config) \<Rightarrow> environment \<Rightarrow> string \<Rightarrow> string list \<Rightarrow>
     'f forecaster_started" where
  "forecaster_start ops parsers standsAlone readFile unmarshalStrict env home args =
     (let (file, expand) = ParseConfigFileAndEnvParams args;
          cfg = RegisterFlags ops home
      in case (if file \<noteq> [] then loadConfig readFile unmarshalStrict env file expand cfg else Inr cfg) of
           Inl e \<Rightarrow> LoadError (''error loading config from '' @ file @ '': '' @ e @ [newline])
         | Inr cfg1 \<Rightarrow>
             (case parseFlags (IgnoreConfigAndEnvParamsFromFlags standsAlone (flagTable parsers)) args cfg1 of
                Inl status \<Rightarrow> FlagExit status
              | Inr cfg2 \<Rightarrow> if ForecastFrequency cfg2 \<le> 0 then TickerPanic else Started cfg2))"

section \<open>The loop\<close>

datatype 'f loop_event = Shutdown | Tick int "'f query_result"

text \<open>The loop from the time of the last scale-down, which is the start's at first; \<open>None\<close> is a panic.\<close>

fun mainloop ::
    "'f float_ops \<Rightarrow> 'f forecast_libs \<Rightarrow> 'w scale_api \<Rightarrow> 'f forecaster_config \<Rightarrow> 'f loop_event list \<Rightarrow> 'w \<times> int \<Rightarrow>
     ('w \<times> int) option" where
  "mainloop ops libs api cfg [] s = Some s"
| "mainloop ops libs api cfg (Shutdown # evs) s = Some s"
| "mainloop ops libs api cfg (Tick now r # evs) s =
     Option.bind (forecaster_tick ops libs api cfg now r s) (mainloop ops libs api cfg evs)"

section \<open>The client of the API server\<close>

text \<open>
  \<open>getKubeClient\<close> and \<open>gsbClient.go\<close>: the configuration of the cluster or of a file, with the group of the
  custom resources, and the two requests that are made with it. What client-go does with a configuration and a
  request is a parameter.
\<close>

record 'k rest_config =
  rc_base :: 'k
  rc_Group :: string
  rc_Version :: string
  rc_APIPath :: string

record 'c GameServerBuildClient =
  restClient :: 'c
  gbc_ns :: string

definition getKubeClient ::
    "(string + 'k) \<Rightarrow> (string \<Rightarrow> string + string) \<Rightarrow> (string \<Rightarrow> string + 'k) \<Rightarrow> ('k rest_config \<Rightarrow> string + 'c) \<Rightarrow>
     string \<Rightarrow> bool \<Rightarrow> string \<Rightarrow> string + 'c GameServerBuildClient" where
  "getKubeClient inClusterConfig readFile fromKubeConfig restClientFor namespace runInCluster kubeConfigPath =
     (case (if runInCluster then inClusterConfig
            else (case readFile kubeConfigPath of Inl e \<Rightarrow> Inl e | Inr bytes \<Rightarrow> fromKubeConfig bytes)) of
        Inl e \<Rightarrow> Inl e
      | Inr kubeConfig \<Rightarrow>
          (case restClientFor \<lparr>rc_base = kubeConfig, rc_Group = ''mps.playfab.com'', rc_Version = ''v1alpha1'',
                  rc_APIPath = ''/apis''\<rparr> of
             Inl e \<Rightarrow> Inl e
           | Inr client \<Rightarrow> Inr \<lparr>restClient = client, gbc_ns = namespace\<rparr>))"

datatype rest_verb = GET | PUT GameServerBuild

record rest_request =
  rq_Verb :: rest_verb
  rq_Namespace :: string
  rq_Resource :: string
  rq_Name :: string

definition gsbClient_Get :: "'c GameServerBuildClient \<Rightarrow> string \<Rightarrow> rest_request" where
  "gsbClient_Get g name =
     \<lparr>rq_Verb = GET, rq_Namespace = gbc_ns g, rq_Resource = ''gameserverbuilds'', rq_Name = name\<rparr>"

definition gsbClient_Update :: "'c GameServerBuildClient \<Rightarrow> GameServerBuild \<Rightarrow> rest_request" where
  "gsbClient_Update g gsb =
     \<lparr>rq_Verb = PUT gsb, rq_Namespace = gbc_ns g, rq_Resource = ''gameserverbuilds'', rq_Name = gsb_Name gsb\<rparr>"

text \<open>The requests of a scaling, in a world that records them; \<open>send\<close> is the client's round trip.\<close>

definition rest_scale_api ::
    "(string + 'c GameServerBuildClient) \<Rightarrow> ('c \<Rightarrow> 'w \<Rightarrow> rest_request \<Rightarrow> 'w \<times> (string + GameServerBuild)) \<Rightarrow>
     'f forecaster_config \<Rightarrow> ('w \<times> rest_request list) scale_api" where
  "rest_scale_api client send cfg =
     \<lparr>sa_client = (\<lambda>w. case client of Inl e \<Rightarrow> Some e | Inr _ \<Rightarrow> None),
      sa_get = (\<lambda>w. case client of Inl e \<Rightarrow> Inl e
         | Inr g \<Rightarrow> snd (send (restClient g) (fst w) (gsbClient_Get g (TargetGameServerBuildName cfg)))),
      sa_update = (\<lambda>w gsb. case client of Inl e \<Rightarrow> (w, Inl e)
         | Inr g \<Rightarrow> (case send (restClient g) (fst w) (gsbClient_Update g gsb) of
             (w', r) \<Rightarrow> ((w', snd w @ [gsbClient_Update g gsb]), r)))\<rparr>"

text \<open>A scaling writes at most once, to the build it read, and changes nothing of it but the StandingBy number.\<close>

lemma scaling_writes_target:
  assumes "scaleGameServerBuild (rest_scale_api (Inr g) send cfg) cfg now n t (w, rqs) = ((w', rqs'), t', e)"
  shows "rqs' = rqs \<or>
    (\<exists>gsb k. snd (send (restClient g) w (gsbClient_Get g (TargetGameServerBuildName cfg))) = Inr gsb \<and>
       rqs' = rqs @ [\<lparr>rq_Verb = PUT (gsb\<lparr>gsb_Spec := (gsb_Spec gsb)\<lparr>bs_StandingBy := k\<rparr>\<rparr>), rq_Namespace = gbc_ns g,
         rq_Resource = ''gameserverbuilds'', rq_Name = gsb_Name gsb\<rparr>])"
  using assms
  by (auto simp: scaleGameServerBuild_def rest_scale_api_def gsbClient_Update_def Let_def
      split: sum.splits option.splits prod.splits)

section \<open>What a tick does to the servers\<close>

datatype tick_kind = NoForecast | ScalingFailed | Held | ScaledUp | ScaledDown

definition tickKind ::
    "'f float_ops \<Rightarrow> 'f forecast_libs \<Rightarrow> 'w scale_api \<Rightarrow> 'f forecaster_config \<Rightarrow> int \<Rightarrow> 'f query_result \<Rightarrow>
     'w \<times> int \<Rightarrow> tick_kind" where
  "tickKind ops libs api cfg now r s =
     (case queryPrometheusMetrics (MetricQuery cfg) r of
        Ok series \<Rightarrow>
          (case getForecastedServerCount ops libs series cfg of
             Ok n \<Rightarrow>
               (case (scaleGameServerBuild api cfg now n (snd s) (fst s), sa_get api (fst s)) of
                  ((_, _, None), Inr gsb) \<Rightarrow>
                    (case desiredStandby cfg n (gsb_Status gsb) now (snd s) of
                       None \<Rightarrow> Held
                     | Some (_, down) \<Rightarrow> if down then ScaledDown else ScaledUp)
                | _ \<Rightarrow> ScalingFailed)
           | _ \<Rightarrow> NoForecast)
      | _ \<Rightarrow> NoForecast)"

text \<open>The ticks of a loop that runs, with their times: the loop is run event by event.\<close>

fun tickLog ::
    "'f float_ops \<Rightarrow> 'f forecast_libs \<Rightarrow> 'w scale_api \<Rightarrow> 'f forecaster_config \<Rightarrow> 'f loop_event list \<Rightarrow> 'w \<times> int \<Rightarrow>
     (int \<times> tick_kind) list" where
  "tickLog ops libs api cfg (Tick now r # evs) s =
     (case mainloop ops libs api cfg [Tick now r] s of
        None \<Rightarrow> []
      | Some s' \<Rightarrow> (now, tickKind ops libs api cfg now r s) # tickLog ops libs api cfg evs s')"
| "tickLog ops libs api cfg _ s = []"

lemma mainloop_append:
  "Shutdown \<notin> set evs \<Longrightarrow> mainloop ops libs api cfg (evs @ evs') s =
     Option.bind (mainloop ops libs api cfg evs s) (mainloop ops libs api cfg evs')"
proof (induction evs arbitrary: s)
  case (Cons ev evs)
  then show ?case by (cases ev) (auto split: Option.bind_splits)
qed simp

lemma one_tick: "mainloop ops libs api cfg [Tick now r] s = forecaster_tick ops libs api cfg now r s"
  by (cases "forecaster_tick ops libs api cfg now r s") simp_all

text \<open>Scale-downs keep a distance from each other, as long as no scaling fails.\<close>

fun spaced :: "int \<Rightarrow> int \<Rightarrow> (int \<times> tick_kind) list \<Rightarrow> bool" where
  "spaced p t [] = True"
| "spaced p t ((now, k) # l) =
     (case k of
        ScaledDown \<Rightarrow> p \<le> now - t \<and> spaced p now l
      | ScalingFailed \<Rightarrow> True
      | _ \<Rightarrow> spaced p t l)"

lemma tick_time:
  assumes "mainloop ops libs api cfg [Tick now r] s = Some s'"
  shows "snd s' = (case tickKind ops libs api cfg now r s of
      ScaledDown \<Rightarrow> now | ScalingFailed \<Rightarrow> zero_time | _ \<Rightarrow> snd s)"
  using assms unfolding one_tick
  by (cases s) (auto simp: forecaster_tick_def tickKind_def scaleGameServerBuild_def Let_def
      split: outcome_of.splits option.splits sum.splits prod.splits if_splits)

lemma tick_down:
  assumes "tickKind ops libs api cfg now r s = ScaledDown" and "EnableScaleDownCoolOff cfg"
  shows "ScaleDownCoolOffPeriod cfg \<le> since now (snd s)"
  using assms
  by (auto simp: tickKind_def desiredStandby_def Let_def split: outcome_of.splits option.splits sum.splits prod.splits if_splits)

lemma since_le: "p \<le> since now t \<Longrightarrow> - 9223372036854775808 < p \<Longrightarrow> p \<le> now - t"
  by (auto simp: since_def max_def min_def split: if_splits)

lemma ticks_spaced:
  assumes "EnableScaleDownCoolOff cfg" and "- 9223372036854775808 < ScaleDownCoolOffPeriod cfg"
  shows "spaced (ScaleDownCoolOffPeriod cfg) (snd s) (tickLog ops libs api cfg evs s)"
proof (induction evs arbitrary: s)
  case (Cons ev evs)
  show ?case
  proof (cases ev)
    case (Tick now r)
    show ?thesis
    proof (cases "mainloop ops libs api cfg [Tick now r] s")
      case (Some s')
      from tick_time [OF Some] Cons.IH [of s'] tick_down [OF _ assms(1), of ops libs api now r s] assms(2) Tick Some
      show ?thesis by (auto simp del: mainloop.simps split: tick_kind.splits intro: since_le)
    qed (simp add: Tick del: mainloop.simps)
  qed simp
qed simp

lemma held_waits:
  "tickKind ops libs api cfg now r s = Held \<Longrightarrow> since now (snd s) < ScaleDownCoolOffPeriod cfg"
  by (auto simp: tickKind_def desiredStandby_def Let_def split: outcome_of.splits option.splits sum.splits prod.splits if_splits)

lemma unheld_after_failure:
  assumes "ScaleDownCoolOffPeriod cfg \<le> 9223372036854775807"
  shows "tickLog ops libs api cfg evs s = xs @ (t1, ScalingFailed) # (t2, k) # ys \<Longrightarrow> 0 \<le> t2 \<Longrightarrow> k \<noteq> Held"
proof (induction evs arbitrary: s xs)
  case (Cons ev evs)
  then obtain now r s' where ev: "ev = Tick now r" and s': "mainloop ops libs api cfg [Tick now r] s = Some s'"
    by (cases ev) (auto simp del: mainloop.simps split: option.splits)
  show ?case
  proof (cases xs)
    case (Cons x xs')
    with Cons.prems ev s' Cons.IH [of s' xs'] show ?thesis by (simp del: mainloop.simps)
  next
    case Nil
    with Cons.prems ev s' have k: "tickKind ops libs api cfg now r s = ScalingFailed"
      and l: "tickLog ops libs api cfg evs s' = (t2, k) # ys" by (auto simp del: mainloop.simps)
    from tick_time [OF s'] k have z: "snd s' = zero_time" by simp
    from l obtain r2 evs' s2 where "evs = Tick t2 r2 # evs'" "k = tickKind ops libs api cfg t2 r2 s'"
      by (cases evs; cases "hd evs") (auto simp del: mainloop.simps split: option.splits)
    with held_waits [of ops libs api cfg t2 r2 s'] forgotten_cool_off [OF Cons.prems(2) assms] z show ?thesis by auto
  qed
qed simp

section \<open>The ignored flags\<close>

text \<open>
  The two flags of the configuration file are parsed before the others and then ignored. If dskit's ignored flag does
  not stand without a value, \<open>-config-expand-env\<close> takes the next flag as its value, and the flags after it are
  dropped without an error.
\<close>

lemma expand_flag_swallows:
  "parseFlags (IgnoreConfigAndEnvParamsFromFlags False (flagTable p)) [''-config-expand-env'', ''-port'', ''9090''] c = Inr c"
  "ParseConfigFileAndEnvParams [''-config-expand-env'', ''-port'', ''9090''] = ([], True)"
  by (simp add: argOf_def flagOf_def splitValue_def IgnoreConfigAndEnvParamsFromFlags_def flagTable_def
      ConfigFileParam_def ExpandENVParam_def ignoredVar_def setFlag_def, code_simp)

section \<open>Properties\<close>



text \<open>
  A forecaster with its defaults that is started at time 0 and sees a demand of ten servers, fifteen standing
  by: it waits for five minutes.
\<close>

definition ten_libs :: "int forecast_libs" where
  "ten_libs = \<lparr>holtwinters = (\<lambda>vs a b g s n. Inr [10]), regression_predict = (\<lambda>ps t. Inr 10)\<rparr>"

definition thirty_points :: "int query_result" where
  "thirty_points = Matrix [replicate 30 (0, 10)]"

definition no_parsers :: "int flag_parsers" where
  "no_parsers = \<lparr>fp_int = (\<lambda>s. None), fp_duration = (\<lambda>s. None), fp_float = (\<lambda>s. None)\<rparr>"

definition ten_servers :: "int forecaster_config" where
  "ten_servers = RegisterFlags whole_ops []"

lemma ten_count:
  "queryPrometheusMetrics (MetricQuery ten_servers) thirty_points = Ok (replicate 30 \<lparr>pt_time = 0, pt_value = 10\<rparr>)"
  "getForecastedServerCount whole_ops ten_libs (replicate 30 \<lparr>pt_time = 0, pt_value = 10\<rparr>) ten_servers = Ok 10"
  by (simp add: queryPrometheusMetrics_def thirty_points_def map_replicate_const)
    (simp add: getForecastedServerCount_def ten_libs_def whole_ops_def ten_servers_def RegisterFlags_def
      linearForecast_def last_points_def getLinearRegressionPrediction_def convertToServers_def)

lemma ten_servers_simps [simp]:
  "EnableScaleDownCoolOff ten_servers" "ScaleDownCoolOffPeriod ten_servers = 5 * minute" "ForecastBufferServers ten_servers = 0"
  "EnableScaleDownCircuitBreaker ten_servers" "MaxScaleDownStepSize ten_servers = 1" "ForecastMinimumServers ten_servers = 1"
  "ForecastFrequency ten_servers = 15 * second"
  by (simp_all add: ten_servers_def RegisterFlags_def)

lemma ten_log:
  "tickLog whole_ops ten_libs settled_api ten_servers [Tick minute thirty_points, Tick (6 * minute) thirty_points]
     (build_at 15 0, 0) = [(minute, Held), (6 * minute, ScaledDown)]"
  by (simp add: forecaster_tick_def tickKind_def ten_count scaleGameServerBuild_def settled_api_def desiredStandby_def
      since_def withBuffer_def)


end
