(* ===== verification/Load_Simulator.thy ===== *)
theory Load_Simulator
  imports Forecaster Complex_Main "HOL-Library.Signed_Division"
begin

text \<open>
  The demo load of \<open>cmd/server-load-simulator\<close>, which the forecaster is tried on: a sine wave with a random
  jitter, set to a gauge at every tick. The numbers are real numbers here, where the source has \<open>float64\<close>, so a value may
  differ from the gauge's where rounding takes it over an integer. A frequency of zero, whose inverse is
  infinite, gives no number.
\<close>

record sim_config =
  sim_MaxValue :: int
  sim_Frequency :: int
  sim_Jitter :: real
  sim_Port :: int

definition sim_RegisterFlags :: sim_config where
  "sim_RegisterFlags =
     \<lparr>sim_MaxValue = 100, sim_Frequency = 60 * minute, sim_Jitter = 15 / 100, sim_Port = 8080\<rparr>"

text \<open>The two draws are \<open>rand.Float64()\<close> and \<open>rand.Intn(1000)\<close>.\<close>

definition simulatedLoad :: "sim_config \<Rightarrow> real \<Rightarrow> real \<Rightarrow> int \<Rightarrow> int option" where
  "simulatedLoad config elapsedTime draw flipJitter =
     (if sim_Frequency config = 0 then None
      else let frequencySeconds = real_of_int (sim_Frequency config) / real_of_int second;
               load = real_of_int (sim_MaxValue config sdiv 2) *
                 (1 + sin (2 * pi * (1 / frequencySeconds) * elapsedTime));
               jitter = draw * sim_Jitter config;
               jitter' = (if flipJitter < 500 then - jitter else jitter)
           in Some \<lceil>load + jitter' * load\<rceil>)"

datatype sim_event = SimShutdown | SimTick real real int

text \<open>The values that the gauge is set to.\<close>

fun simulatorLoop :: "sim_config \<Rightarrow> sim_event list \<Rightarrow> int option list" where
  "simulatorLoop config [] = []"
| "simulatorLoop config (SimShutdown # evs) = []"
| "simulatorLoop config (SimTick elapsed draw flip # evs) =
     simulatedLoad config elapsed draw flip # simulatorLoop config evs"

lemma wave_bounds: "0 \<le> m \<Longrightarrow> 0 \<le> m * (1 + sin x) \<and> m * (1 + sin x) \<le> 2 * (m :: real)"
proof -
  have "0 \<le> 1 + sin x" "1 + sin x \<le> 2" using sin_ge_minus_one [of x] sin_le_one [of x] by linarith+
  moreover assume "0 \<le> m"
  ultimately show ?thesis using mult_left_mono [of "1 + sin x" 2 m] by (simp add: mult.commute)
qed

text \<open>
  A load is never negative, and at most the maximum with the jitter on top of it: the flag's "Maximum value of the load"
  is exceeded, by as much as the jitter.
\<close>

lemma load_bounds:
  assumes "simulatedLoad config elapsed draw flip = Some v" and "0 \<le> sim_MaxValue config"
    and "0 \<le> draw" "draw < 1" and "0 \<le> sim_Jitter config" "sim_Jitter config \<le> 1"
  shows "0 \<le> v \<and> v \<le> \<lceil>(1 + sim_Jitter config) * sim_MaxValue config\<rceil>"
proof -
  define m where "m = real_of_int (sim_MaxValue config sdiv 2)"
  define load where "load = m * (1 + sin (2 * pi * (1 / (real_of_int (sim_Frequency config) / real_of_int second)) * elapsed))"
  define j where "j = (if flip < 500 then - (draw * sim_Jitter config) else draw * sim_Jitter config)"
  have half: "sim_MaxValue config sdiv 2 = sim_MaxValue config div 2" using assms(2) by (simp add: signed_divide_int_def sgn_if)
  then have m: "0 \<le> m" "2 * m \<le> real_of_int (sim_MaxValue config)" using assms(2) by (auto simp: m_def)
  with wave_bounds [OF m(1)] have load: "0 \<le> load" "load \<le> real_of_int (sim_MaxValue config)" unfolding load_def by (blast, meson order_trans)
  have d: "0 \<le> draw * sim_Jitter config" "draw * sim_Jitter config \<le> sim_Jitter config"
    using assms(3-6) by (simp_all add: mult_left_le_one_le)
  then have j: "-1 \<le> j" "j \<le> sim_Jitter config" using assms(5,6) by (auto simp: j_def)
  have v: "v = \<lceil>(1 + j) * load\<rceil>"
    using assms(1) by (auto simp: simulatedLoad_def Let_def load_def m_def j_def algebra_simps split: if_splits)
  have "0 \<le> (1 + j) * load" using j load by simp
  moreover have "(1 + j) * load \<le> (1 + sim_Jitter config) * real_of_int (sim_MaxValue config)"
    using j load assms(5) by (intro mult_mono) auto
  ultimately show ?thesis unfolding v by (simp add: ceiling_mono)
qed

lemma default_load_exceeds_maximum: "simulatedLoad sim_RegisterFlags 900 (9 / 10) 500 = Some 114"
  by (simp add: simulatedLoad_def sim_RegisterFlags_def signed_divide_int_def sgn_if)

end
