(* ===== verification/Rest_Api.thy ===== *)
theory Rest_Api
  imports Webhooks
begin

text \<open>
  The REST service of \<open>cmd/gameserverapi/main.go\<close>: its routes and handlers over an abstract API
  server. The path parameters are given by the router; a JSON body is what the decoder made of
  it. The comparison of two JSON numbers and their conversion to \<open>int\<close> are parameters.
\<close>

section \<open>Parameters\<close>

datatype 'f json_value = JNumber 'f | JOther

record 'f json_numbers =
  j_greater :: "'f \<Rightarrow> 'f \<Rightarrow> bool"
  j_int :: "'f \<Rightarrow> int"

record 'w rest_client =
  rc_listBuilds :: "'w \<Rightarrow> api_error + GameServerBuild list"
  rc_getBuild :: "'w \<Rightarrow> string \<Rightarrow> string \<Rightarrow> api_error + GameServerBuild"  \<comment> \<open>namespace, name\<close>
  rc_createBuild :: "'w \<Rightarrow> GameServerBuild \<Rightarrow> 'w \<times> (api_error + GameServerBuild)"
  rc_patchBuild :: "'w \<Rightarrow> GameServerBuild \<Rightarrow> GameServerBuild \<Rightarrow> 'w \<times> (api_error + GameServerBuild)"
  rc_deleteBuild :: "'w \<Rightarrow> GameServerBuild \<Rightarrow> 'w \<times> api_error option"
  rc_listGameServers :: "'w \<Rightarrow> string option \<Rightarrow> api_error + GameServer list"  \<comment> \<open>with a build label\<close>
  rc_getGameServer :: "'w \<Rightarrow> string \<Rightarrow> string \<Rightarrow> api_error + GameServer"
  rc_deleteGameServer :: "'w \<Rightarrow> GameServer \<Rightarrow> 'w \<times> api_error option"
  rc_listDetails :: "'w \<Rightarrow> string \<Rightarrow> api_error + GameServerDetail list"
  rc_getDetail :: "'w \<Rightarrow> string \<Rightarrow> string \<Rightarrow> api_error + GameServerDetail"

datatype rest_response =
    JError nat string
  | JMessage nat string string  \<comment> \<open>the code, the key and the text\<close>
  | JBuild nat GameServerBuild
  | JBuilds nat "GameServerBuild list"
  | JGameServer nat GameServer
  | JGameServers nat "GameServer list"
  | JDetail nat GameServerDetail
  | JDetails nat "GameServerDetail list"
  | Aborted nat

fun status_code :: "rest_response \<Rightarrow> nat" where
  "status_code (JError c _) = c" | "status_code (JMessage c _ _) = c" | "status_code (JBuild c _) = c"
| "status_code (JBuilds c _) = c" | "status_code (JGameServer c _) = c" | "status_code (JGameServers c _) = c"
| "status_code (JDetail c _) = c" | "status_code (JDetails c _) = c" | "status_code (Aborted c) = c"

text \<open>What the handlers do with an error: 404 when the object is not found, and 500 otherwise.\<close>

definition error_response :: "api_error \<Rightarrow> rest_response" where
  "error_response e = JError (if IsNotFound e then 404 else 500) (err_text e)"

section \<open>Handlers\<close>

definition createGameServerBuild ::
    "'w rest_client \<Rightarrow> (string + GameServerBuild) \<Rightarrow> 'w \<Rightarrow> 'w \<times> rest_response" where
  "createGameServerBuild cl body w =
     (case body of
        Inl e \<Rightarrow> (w, JError 400 e)
      | Inr gsb \<Rightarrow>
          (case rc_createBuild cl w gsb of
             (w', Inl e) \<Rightarrow> (w', JError 500 (err_text e))
           | (w', Inr gsb') \<Rightarrow> (w', JBuild 201 gsb')))"

definition listGameServeBuilds :: "'w rest_client \<Rightarrow> 'w \<Rightarrow> rest_response" where
  "listGameServeBuilds cl w =
     (case rc_listBuilds cl w of Inl e \<Rightarrow> JError 500 (err_text e) | Inr bs \<Rightarrow> JBuilds 200 bs)"

definition getGameServerBuild :: "'w rest_client \<Rightarrow> string \<Rightarrow> string \<Rightarrow> 'w \<Rightarrow> rest_response" where
  "getGameServerBuild cl namespace buildName w =
     (case rc_getBuild cl w namespace buildName of Inl e \<Rightarrow> error_response e | Inr b \<Rightarrow> JBuild 200 b)"

definition listGameServers :: "'w rest_client \<Rightarrow> 'w \<Rightarrow> rest_response" where
  "listGameServers cl w =
     (case rc_listGameServers cl w None of Inl e \<Rightarrow> JError 500 (err_text e) | Inr gss \<Rightarrow> JGameServers 200 gss)"

text \<open>The namespace of the path is not read.\<close>

definition listGameServersForBuild :: "'w rest_client \<Rightarrow> string \<Rightarrow> string \<Rightarrow> 'w \<Rightarrow> rest_response" where
  "listGameServersForBuild cl namespace buildName w =
     (case rc_listGameServers cl w (Some buildName) of Inl e \<Rightarrow> error_response e | Inr gss \<Rightarrow> JGameServers 200 gss)"

definition getGameServer :: "'w rest_client \<Rightarrow> string \<Rightarrow> string \<Rightarrow> 'w \<Rightarrow> rest_response" where
  "getGameServer cl namespace gameServerName w =
     (case rc_getGameServer cl w namespace gameServerName of
        Inl e \<Rightarrow> error_response e | Inr gs \<Rightarrow> JGameServer 200 gs)"

definition rest_deleteGameServer :: "'w rest_client \<Rightarrow> string \<Rightarrow> string \<Rightarrow> 'w \<Rightarrow> 'w \<times> rest_response" where
  "rest_deleteGameServer cl namespace gameServerName w =
     (let gs = zero_GameServer\<lparr>gs_Meta := zero_Meta\<lparr>om_Name := gameServerName, om_Namespace := namespace\<rparr>\<rparr>
      in case rc_deleteGameServer cl w gs of
           (w', Some e) \<Rightarrow> (w', error_response e)
         | (w', None) \<Rightarrow> (w', JMessage 200 ''message'' ''Game server deleted''))"

definition withScale :: "int \<Rightarrow> int \<Rightarrow> GameServerBuild \<Rightarrow> GameServerBuild" where
  "withScale newMax newStandingBy gsb =
     gsb\<lparr>gsb_Spec := (gsb_Spec gsb)\<lparr>bs_Max := newMax, bs_StandingBy := newStandingBy\<rparr>\<rparr>"

text \<open>The body is the decoded object, or the error; a missing key reads as nil, which is no number.\<close>

definition patchGameServerBuild ::
    "'w rest_client \<Rightarrow> 'f json_numbers \<Rightarrow> string \<Rightarrow> string \<Rightarrow> (string + (string \<rightharpoonup> 'f json_value)) \<Rightarrow>
     'w \<Rightarrow> 'w \<times> rest_response" where
  "patchGameServerBuild cl nums namespace buildName body w =
     (case rc_getBuild cl w namespace buildName of
        Inl e \<Rightarrow> (w, error_response e)
      | Inr gsb \<Rightarrow>
          (case body of
             Inl e \<Rightarrow> (w, JError 400 e)
           | Inr m \<Rightarrow>
               (case m ''standingBy'' of
                  Some (JNumber newStandingBy) \<Rightarrow>
                    (case m ''max'' of
                       Some (JNumber newMax) \<Rightarrow>
                         if j_greater nums newStandingBy newMax then (w, JError 400 ''standingBy > max'')
                         else (case rc_patchBuild cl w gsb (withScale (j_int nums newMax) (j_int nums newStandingBy) gsb) of
                                 (w', Inl e) \<Rightarrow> (w', JError 500 (err_text e))
                               | (w', Inr gsb') \<Rightarrow> (w', JBuild 200 gsb'))
                     | _ \<Rightarrow> (w, JError 400 ''max not a number''))
                | _ \<Rightarrow> (w, JError 400 ''standingBy not a number''))))"

definition deleteGameServerBuild :: "'w rest_client \<Rightarrow> string \<Rightarrow> string \<Rightarrow> 'w \<Rightarrow> 'w \<times> rest_response" where
  "deleteGameServerBuild cl namespace buildName w =
     (case rc_getBuild cl w namespace buildName of
        Inl e \<Rightarrow> (w, error_response e)
      | Inr gsb \<Rightarrow>
          (case rc_deleteBuild cl w gsb of
             (w', Some e) \<Rightarrow> (w', JError 500 (err_text e))
           | (w', None) \<Rightarrow> (w', JMessage 200 ''message'' ''Game server build deleted'')))"

definition listGameServerDetailsForBuild :: "'w rest_client \<Rightarrow> string \<Rightarrow> string \<Rightarrow> 'w \<Rightarrow> rest_response" where
  "listGameServerDetailsForBuild cl namespace buildName w =
     (case rc_listDetails cl w buildName of Inl e \<Rightarrow> error_response e | Inr ds \<Rightarrow> JDetails 200 ds)"

definition getGameServerDetail :: "'w rest_client \<Rightarrow> string \<Rightarrow> string \<Rightarrow> 'w \<Rightarrow> rest_response" where
  "getGameServerDetail cl namespace gameServerDetailName w =
     (case rc_getDetail cl w namespace gameServerDetailName of Inl e \<Rightarrow> error_response e | Inr d \<Rightarrow> JDetail 200 d)"

definition healthz :: rest_response where
  "healthz = JMessage 200 ''status'' ''ok''"

section \<open>Routes\<close>

datatype http_method = POST | GET | DELETE | PATCH | OPTIONS | OtherMethod string

datatype route =
    CreateBuild | ListBuilds | GetBuild string string | DeleteBuild string string
  | ListServersOfBuild string string | ListServers | GetServer string string | DeleteServer string string
  | PatchBuild string string | ListDetailsOfBuild string string | GetDetail string string | Healthz
  | Swagger "string list"

text \<open>The table of the router, for the segments of a path; \<open>None\<close> is no route.\<close>

definition setupRouter :: "http_method \<Rightarrow> string list \<Rightarrow> route option" where
  "setupRouter method path =
     (case (method, path) of
        (POST, [a, v, r]) \<Rightarrow>
          if a = ''api'' \<and> v = ''v1'' \<and> r = ''gameserverbuilds'' then Some CreateBuild else None
      | (GET, [h]) \<Rightarrow> if h = ''healthz'' then Some Healthz else None
      | (GET, [a, v, r]) \<Rightarrow>
          if a = ''api'' \<and> v = ''v1'' \<and> r = ''gameserverbuilds'' then Some ListBuilds
          else if a = ''api'' \<and> v = ''v1'' \<and> r = ''gameservers'' then Some ListServers
          else if a = ''swagger'' then Some (Swagger [v, r]) else None
      | (GET, [a, v, r, ns, n]) \<Rightarrow>
          if a = ''api'' \<and> v = ''v1'' \<and> r = ''gameserverbuilds'' then Some (GetBuild ns n)
          else if a = ''api'' \<and> v = ''v1'' \<and> r = ''gameservers'' then Some (GetServer ns n)
          else if a = ''api'' \<and> v = ''v1'' \<and> r = ''gameserverdetails'' then Some (GetDetail ns n)
          else if a = ''swagger'' then Some (Swagger [v, r, ns, n]) else None
      | (GET, [a, v, r, ns, n, x]) \<Rightarrow>
          if a = ''api'' \<and> v = ''v1'' \<and> r = ''gameserverbuilds'' \<and> x = ''gameservers'' then Some (ListServersOfBuild ns n)
          else if a = ''api'' \<and> v = ''v1'' \<and> r = ''gameserverbuilds'' \<and> x = ''gameserverdetails''
          then Some (ListDetailsOfBuild ns n)
          else if a = ''swagger'' then Some (Swagger [v, r, ns, n, x]) else None
      | (GET, a # rest) \<Rightarrow> if a = ''swagger'' then Some (Swagger rest) else None
      | (DELETE, [a, v, r, ns, n]) \<Rightarrow>
          if a = ''api'' \<and> v = ''v1'' \<and> r = ''gameserverbuilds'' then Some (DeleteBuild ns n)
          else if a = ''api'' \<and> v = ''v1'' \<and> r = ''gameservers'' then Some (DeleteServer ns n) else None
      | (PATCH, [a, v, r, ns, n]) \<Rightarrow>
          if a = ''api'' \<and> v = ''v1'' \<and> r = ''gameserverbuilds'' then Some (PatchBuild ns n) else None
      | _ \<Rightarrow> None)"

text \<open>The headers of every response, and the answer to a preflight request.\<close>

definition cors_headers :: "(string \<times> string) list" where
  "cors_headers =
     [(''Content-Type'', ''application/json''), (''Access-Control-Allow-Origin'', ''*''),
      (''Access-Control-Max-Age'', ''86400''),
      (''Access-Control-Allow-Methods'', ''POST, GET, OPTIONS, PATCH, PUT, DELETE, UPDATE''),
      (''Access-Control-Allow-Headers'',
         ''Content-Type, Content-Length, Accept-Encoding, X-CSRF-Token, Authorization, X-Max''),
      (''Access-Control-Allow-Credentials'', ''true'')]"

definition CORSMiddleware :: "http_method \<Rightarrow> ('w \<Rightarrow> 'w \<times> rest_response) \<Rightarrow> 'w \<Rightarrow> 'w \<times> rest_response" where
  "CORSMiddleware method nxt w = (if method = OPTIONS then (w, Aborted 200) else nxt w)"

text \<open>The address the service listens on.\<close>

definition listenAddress :: "(string \<rightharpoonup> string) \<Rightarrow> string" where
  "listenAddress env = (let addr = map_get env [] ''PORT'' in if addr = [] then '':5001'' else addr)"

text \<open>One request: the body is decoded as the route wants it. The swagger pages are not modelled.\<close>

definition serve ::
    "'w rest_client \<Rightarrow> 'f json_numbers \<Rightarrow> http_method \<Rightarrow> string list \<Rightarrow> (string + GameServerBuild) \<Rightarrow>
     (string + (string \<rightharpoonup> 'f json_value)) \<Rightarrow> 'w \<Rightarrow> 'w \<times> rest_response option" where
  "serve cl nums method path buildBody patchBody w =
     (if method = OPTIONS then (w, Some (Aborted 200))
      else case setupRouter method path of
        None \<Rightarrow> (w, None)
      | Some (Swagger p) \<Rightarrow> (w, None)
      | Some CreateBuild \<Rightarrow> map_prod id Some (createGameServerBuild cl buildBody w)
      | Some ListBuilds \<Rightarrow> (w, Some (listGameServeBuilds cl w))
      | Some (GetBuild ns n) \<Rightarrow> (w, Some (getGameServerBuild cl ns n w))
      | Some (DeleteBuild ns n) \<Rightarrow> map_prod id Some (deleteGameServerBuild cl ns n w)
      | Some (ListServersOfBuild ns n) \<Rightarrow> (w, Some (listGameServersForBuild cl ns n w))
      | Some ListServers \<Rightarrow> (w, Some (listGameServers cl w))
      | Some (GetServer ns n) \<Rightarrow> (w, Some (getGameServer cl ns n w))
      | Some (DeleteServer ns n) \<Rightarrow> map_prod id Some (rest_deleteGameServer cl ns n w)
      | Some (PatchBuild ns n) \<Rightarrow> map_prod id Some (patchGameServerBuild cl nums ns n patchBody w)
      | Some (ListDetailsOfBuild ns n) \<Rightarrow> (w, Some (listGameServerDetailsForBuild cl ns n w))
      | Some (GetDetail ns n) \<Rightarrow> (w, Some (getGameServerDetail cl ns n w))
      | Some Healthz \<Rightarrow> (w, Some healthz))"


section \<open>Properties\<close>

lemma withScale_ports [simp]: "gsb_validatePortsToExpose (withScale mx sb gsb) = gsb_validatePortsToExpose gsb"
  by (simp add: gsb_validatePortsToExpose_def withScale_def)

lemma withScale_admitted:
  "gsb_validatePortsToExpose gsb = [] \<Longrightarrow> sb \<le> mx \<Longrightarrow> gsb_ValidateUpdate gsb (withScale mx sb gsb) = []"
  by (simp add: gsb_ValidateUpdate_def) (simp add: withScale_def)

text \<open>
  Scaling a build through the REST service. The service either answers with an error of the
  look-up or 400 and changes nothing, or asks the API server for exactly one patch of the build it read,
  which changes only Max and StandingBy, keeps StandingBy at most Max (the conversion of numbers
  being monotone) and, for a build whose ports are valid, is one that the admission webhook
  accepts; it then answers 200 with the stored build, or 500.
\<close>

lemma patch_build_admitted:
  assumes "\<And>a b. \<not> j_greater nums a b \<Longrightarrow> j_int nums a \<le> j_int nums b"
    and "patchGameServerBuild cl nums ns n body w = (w', r)"
  shows "w' = w \<and> ((\<exists>e. rc_getBuild cl w ns n = Inl e \<and> r = error_response e) \<or> status_code r = 400) \<or>
    (\<exists>gsb mx sb q. rc_getBuild cl w ns n = Inr gsb \<and> rc_patchBuild cl w gsb (withScale mx sb gsb) = (w', q) \<and>
      sb \<le> mx \<and> (gsb_validatePortsToExpose gsb = [] \<longrightarrow> gsb_ValidateUpdate gsb (withScale mx sb gsb) = []) \<and>
      r = (case q of Inl e \<Rightarrow> JError 500 (err_text e) | Inr stored \<Rightarrow> JBuild 200 stored))"
proof (cases "rc_getBuild cl w ns n")
  case (Inl e)
  with assms(2) show ?thesis by (simp add: patchGameServerBuild_def)
next
  case gsb: (Inr gsb)
  show ?thesis
  proof (cases "\<exists>m sb mx. body = Inr m \<and> m ''standingBy'' = Some (JNumber sb) \<and> m ''max'' = Some (JNumber mx) \<and>
      \<not> j_greater nums sb mx")
    case False
    with assms(2) gsb have "w' = w \<and> status_code r = 400"
      by (auto simp: patchGameServerBuild_def split: sum.splits option.splits json_value.splits if_splits)
    then show ?thesis by blast
  next
    case True
    then obtain m sb mx where m: "body = Inr m" "m ''standingBy'' = Some (JNumber sb)" "m ''max'' = Some (JNumber mx)"
      "\<not> j_greater nums sb mx" by blast
    let ?new = "withScale (j_int nums mx) (j_int nums sb) gsb"
    obtain w1 q where q: "rc_patchBuild cl w gsb ?new = (w1, q)" by fastforce
    with assms(2) gsb m have "w' = w1" "r = (case q of Inl e \<Rightarrow> JError 500 (err_text e) | Inr stored \<Rightarrow> JBuild 200 stored)"
      by (auto simp: patchGameServerBuild_def split: sum.splits)
    with gsb q assms(1) [OF m(4)] withScale_admitted show ?thesis by blast
  qed
qed

text \<open>A service over one build, for the witness.\<close>

definition one_build_client :: "GameServerBuild rest_client" where
  "one_build_client =
     \<lparr>rc_listBuilds = (\<lambda>w. Inr [w]), rc_getBuild = (\<lambda>w ns n. Inr w),
      rc_createBuild = (\<lambda>w b. (b, Inr b)), rc_patchBuild = (\<lambda>w old new. (new, Inr new)),
      rc_deleteBuild = (\<lambda>w b. (w, None)), rc_listGameServers = (\<lambda>w l. Inr []),
      rc_getGameServer = (\<lambda>w ns n. Inl (NotFound ''not found'')), rc_deleteGameServer = (\<lambda>w g. (w, None)),
      rc_listDetails = (\<lambda>w b. Inr []), rc_getDetail = (\<lambda>w ns n. Inl (NotFound ''not found''))\<rparr>"

lemma patch_build_admitted_witness:
  "\<exists>w' r. patchGameServerBuild one_build_client \<lparr>j_greater = (>), j_int = id\<rparr> ''default'' ''build''
       (Inr [''standingBy'' \<mapsto> JNumber 3, ''max'' \<mapsto> JNumber (7::int)]) (build_with [] []) = (w', r) \<and>
     bs_StandingBy (gsb_Spec w') \<le> bs_Max (gsb_Spec w') \<and> bs_Max (gsb_Spec w') = 7"
proof -
  let ?nums = "\<lparr>j_greater = (>), j_int = id\<rparr> :: int json_numbers"
  let ?body = "Inr [''standingBy'' \<mapsto> JNumber 3, ''max'' \<mapsto> JNumber (7::int)]"
  obtain w' r where p: "patchGameServerBuild one_build_client ?nums ''default'' ''build'' ?body (build_with [] []) = (w', r)"
    by fastforce
  have mono: "\<not> j_greater ?nums a b \<Longrightarrow> j_int ?nums a \<le> j_int ?nums b" for a b by simp
  have w': "w' = withScale 7 3 (build_with [] [])"
    using p by (simp add: patchGameServerBuild_def one_build_client_def)
  have "status_code r = 200" using p by (auto simp: patchGameServerBuild_def one_build_client_def)
  with patch_build_admitted [OF mono p] have "bs_StandingBy (gsb_Spec w') \<le> bs_Max (gsb_Spec w')"
    by (auto simp: one_build_client_def withScale_def error_response_def)
  with p w' show ?thesis by (auto simp: withScale_def)
qed

end
