(* ===== verification/Api_Document.thy ===== *)
theory Api_Document
  imports Rest_Api
begin

text \<open>
  The document that the REST service publishes of itself, \<open>cmd/gameserverapi/docs/docs.go\<close>: the operations
  with their paths, parameters, statuses and bodies, and the schemas of the custom resources. It is compared with
  what the service does: the router and the handlers of \<open>Rest_Api\<close>, and the JSON that \<open>encoding/json\<close> makes
  of their answers by the tags of \<open>pkg/operator/api/v1alpha1/*_types.go\<close>. Here the schemas of Kubernetes' types
  and their JSON are parameters (\<open>Document_Schemas\<close> has the document's own); the descriptions are left out.
\<close>

section \<open>The JSON of the resources\<close>

datatype json = NullJ | BoolJ bool | IntJ int | StrJ string | Arr "json list" | Obj "(string \<times> json) list"

text \<open>Kubernetes' part: the kind and the API version of an object, metadata, templates and times.\<close>

record k8s_json =
  kj_Type :: "string \<Rightarrow> string \<times> string"
  kj_Meta :: "ObjectMeta \<Rightarrow> json"
  kj_ListMeta :: json
  kj_Template :: "PodTemplateSpec \<Rightarrow> json"
  kj_Time :: "int \<Rightarrow> string"

text \<open>\<open>omitempty\<close> leaves out false, zero numbers, empty strings, empty slices and nil pointers, but no structs.\<close>

fun emptyValue :: "json \<Rightarrow> bool" where
  "emptyValue NullJ = True"
| "emptyValue (BoolJ b) = (\<not> b)"
| "emptyValue (IntJ n) = (n = 0)"
| "emptyValue (StrJ s) = (s = [])"
| "emptyValue (Arr js) = (js = [])"
| "emptyValue (Obj fs) = False"

definition omitempty :: "string \<Rightarrow> json \<Rightarrow> (string \<times> json) list" where
  "omitempty n j = (if emptyValue j then [] else [(n, j)])"

definition omitnil :: "string \<Rightarrow> ('a \<Rightarrow> json) \<Rightarrow> 'a option \<Rightarrow> (string \<times> json) list" where
  "omitnil n f p = (case p of None \<Rightarrow> [] | Some x \<Rightarrow> [(n, f x)])"

definition json_BuildMetadataItem :: "BuildMetadataItem \<Rightarrow> json" where
  "json_BuildMetadataItem x = Obj [(''key'', StrJ (bm_Key x)), (''value'', StrJ (bm_Value x))]"

definition json_GameServerSpec :: "k8s_json \<Rightarrow> GameServerSpec \<Rightarrow> json" where
  "json_GameServerSpec k s = Obj (
     [(''template'', kj_Template k (gss_Template s)), (''titleID'', StrJ (gss_TitleID s)),
      (''buildID'', StrJ (gss_BuildID s)), (''portsToExpose'', Arr (map IntJ (gss_PortsToExpose s)))] @
     omitempty ''buildMetadata'' (Arr (map json_BuildMetadataItem (gss_BuildMetadata s))))"

definition json_GameServerStatus :: "k8s_json \<Rightarrow> GameServerStatus \<Rightarrow> json" where
  "json_GameServerStatus k st = Obj (
     omitempty ''health'' (StrJ (st_Health st)) @
     omitempty ''state'' (StrJ (st_State st)) @
     omitempty ''publicIP'' (StrJ (st_PublicIP st)) @
     omitempty ''ports'' (StrJ (st_Ports st)) @
     omitempty ''sessionID'' (StrJ (st_SessionID st)) @
     omitempty ''sessionCookie'' (StrJ (st_SessionCookie st)) @
     omitempty ''initialPlayers'' (Arr (map StrJ (st_InitialPlayers st))) @
     omitempty ''nodeAge'' (IntJ (st_NodeAge st)) @
     omitempty ''nodeName'' (StrJ (st_NodeName st)) @
     omitnil ''ReachedInitializingOn'' (\<lambda>t. StrJ (kj_Time k t)) (st_ReachedInitializingOn st) @
     omitnil ''ReachedStandingByOn'' (\<lambda>t. StrJ (kj_Time k t)) (st_ReachedStandingByOn st) @
     omitnil ''ReachedActiveOn'' (\<lambda>t. StrJ (kj_Time k t)) (st_ReachedActiveOn st))"

definition json_TypeMeta :: "k8s_json \<Rightarrow> string \<Rightarrow> (string \<times> json) list" where
  "json_TypeMeta k n =
     (case kj_Type k n of (kind, version) \<Rightarrow> omitempty ''kind'' (StrJ kind) @ omitempty ''apiVersion'' (StrJ version))"

definition json_GameServer :: "k8s_json \<Rightarrow> GameServer \<Rightarrow> json" where
  "json_GameServer k gs = Obj (
     json_TypeMeta k ''GameServer'' @
     [(''metadata'', kj_Meta k (gs_Meta gs)), (''spec'', json_GameServerSpec k (gs_Spec gs)),
      (''status'', json_GameServerStatus k (gs_Status gs))])"

definition json_GameServerBuildSpec :: "k8s_json \<Rightarrow> GameServerBuildSpec \<Rightarrow> json" where
  "json_GameServerBuildSpec k s = Obj (
     [(''standingBy'', IntJ (bs_StandingBy s)), (''max'', IntJ (bs_Max s)),
      (''template'', kj_Template k (bs_Template s)), (''titleID'', StrJ (bs_TitleID s)),
      (''buildID'', StrJ (bs_BuildID s)), (''portsToExpose'', Arr (map IntJ (bs_PortsToExpose s)))] @
     omitnil ''crashesToMarkUnhealthy'' IntJ (bs_CrashesToMarkUnhealthy s) @
     omitempty ''buildMetadata'' (Arr (map json_BuildMetadataItem (bs_BuildMetadata s))))"

definition json_GameServerBuildStatus :: "GameServerBuildStatus \<Rightarrow> json" where
  "json_GameServerBuildStatus st = Obj (
     omitempty ''currentPending'' (IntJ (bst_CurrentPending st)) @
     omitempty ''currentInitializing'' (IntJ (bst_CurrentInitializing st)) @
     omitempty ''currentStandingBy'' (IntJ (bst_CurrentStandingBy st)) @
     omitempty ''currentStandingByReadyDesired'' (StrJ (bst_CurrentStandingByReadyDesired st)) @
     omitempty ''currentActive'' (IntJ (bst_CurrentActive st)) @
     omitempty ''crashesCount'' (IntJ (bst_CrashesCount st)) @
     omitempty ''health'' (StrJ (bst_Health st)))"

definition json_GameServerBuild :: "k8s_json \<Rightarrow> GameServerBuild \<Rightarrow> json" where
  "json_GameServerBuild k b = Obj (
     json_TypeMeta k ''GameServerBuild'' @
     [(''metadata'', kj_Meta k (gsb_Meta b)), (''spec'', json_GameServerBuildSpec k (gsb_Spec b)),
      (''status'', json_GameServerBuildStatus (gsb_Status b))])"

definition json_GameServerDetailSpec :: "GameServerDetailSpec \<Rightarrow> json" where
  "json_GameServerDetailSpec s = Obj (
     omitempty ''connectedPlayersCount'' (IntJ (ds_ConnectedPlayersCount s)) @
     omitempty ''connectedPlayers'' (Arr (map StrJ (ds_ConnectedPlayers s))))"

definition json_GameServerDetail :: "k8s_json \<Rightarrow> GameServerDetail \<Rightarrow> json" where
  "json_GameServerDetail k d = Obj (
     json_TypeMeta k ''GameServerDetail'' @
     [(''metadata'', kj_Meta k (gsd_Meta d)), (''spec'', json_GameServerDetailSpec (gsd_Spec d)),
      (''status'', Obj [])])"

text \<open>A list of the API server; its slice is never nil.\<close>

definition json_List :: "k8s_json \<Rightarrow> string \<Rightarrow> ('a \<Rightarrow> json) \<Rightarrow> 'a list \<Rightarrow> json" where
  "json_List k n f xs = Obj (
     json_TypeMeta k n @ [(''metadata'', kj_ListMeta k), (''items'', Arr (map f xs))])"

text \<open>The body of an answer; one that the middleware aborts has none.\<close>

fun response_body :: "k8s_json \<Rightarrow> rest_response \<Rightarrow> json" where
  "response_body k (JError _ e) = Obj [(''error'', StrJ e)]"
| "response_body k (JMessage _ key txt) = Obj [(key, StrJ txt)]"
| "response_body k (JBuild _ b) = json_GameServerBuild k b"
| "response_body k (JBuilds _ bs) = json_List k ''GameServerBuildList'' (json_GameServerBuild k) bs"
| "response_body k (JGameServer _ gs) = json_GameServer k gs"
| "response_body k (JGameServers _ gss) = json_List k ''GameServerList'' (json_GameServer k) gss"
| "response_body k (JDetail _ d) = json_GameServerDetail k d"
| "response_body k (JDetails _ ds) = json_List k ''GameServerDetailList'' (json_GameServerDetail k) ds"
| "response_body k (Aborted _) = NullJ"

section \<open>The schemas\<close>

text \<open>\<open>Anything\<close> is the empty schema, \<open>SOpen\<close> an object with any properties.\<close>

datatype schema =
    Anything | SString | SInteger | SBoolean | SArray schema | SMap schema | SOpen | SRef string
  | SObject "(string \<times> schema) list"

definition doc_BuildMetadataItem :: "(string \<times> schema) list" where
  "doc_BuildMetadataItem = [(''key'', SString), (''value'', SString)]"

definition doc_Object :: "schema \<Rightarrow> schema \<Rightarrow> (string \<times> schema) list" where
  "doc_Object spec st =
     [(''annotations'', SMap SString), (''apiVersion'', SString), (''clusterName'', SString),
      (''creationTimestamp'', SString), (''deletionGracePeriodSeconds'', SInteger), (''deletionTimestamp'', SString),
      (''finalizers'', SArray SString), (''generateName'', SString), (''generation'', SInteger), (''kind'', SString),
      (''labels'', SMap SString), (''managedFields'', SArray (SRef ''v1.ManagedFieldsEntry'')), (''name'', SString),
      (''namespace'', SString), (''ownerReferences'', SArray (SRef ''v1.OwnerReference'')),
      (''resourceVersion'', SString), (''selfLink'', SString), (''spec'', spec), (''status'', st), (''uid'', SString)]"

definition doc_GameServer :: "(string \<times> schema) list" where
  "doc_GameServer = doc_Object (SRef ''v1alpha1.GameServerSpec'') (SRef ''v1alpha1.GameServerStatus'')"

definition doc_GameServerBuild :: "(string \<times> schema) list" where
  "doc_GameServerBuild = doc_Object (SRef ''v1alpha1.GameServerBuildSpec'') (SRef ''v1alpha1.GameServerBuildStatus'')"

definition doc_GameServerDetail :: "(string \<times> schema) list" where
  "doc_GameServerDetail = doc_Object (SRef ''v1alpha1.GameServerDetailSpec'') (SRef ''v1alpha1.GameServerDetailStatus'')"

definition doc_List :: "string \<Rightarrow> (string \<times> schema) list" where
  "doc_List element =
     [(''apiVersion'', SString), (''continue'', SString), (''items'', SArray (SRef element)), (''kind'', SString),
      (''remainingItemCount'', SInteger), (''resourceVersion'', SString), (''selfLink'', SString)]"

definition doc_GameServerBuildList :: "(string \<times> schema) list" where
  "doc_GameServerBuildList = doc_List ''v1alpha1.GameServerBuild''"

definition doc_GameServerList :: "(string \<times> schema) list" where
  "doc_GameServerList = doc_List ''v1alpha1.GameServer''"

definition doc_GameServerDetailList :: "(string \<times> schema) list" where
  "doc_GameServerDetailList = doc_List ''v1alpha1.GameServerDetail''"

definition doc_GameServerBuildSpec :: "(string \<times> schema) list" where
  "doc_GameServerBuildSpec =
     [(''buildID'', SString), (''buildMetadata'', SArray (SRef ''v1alpha1.BuildMetadataItem'')),
      (''crashesToMarkUnhealthy'', SInteger), (''max'', SInteger), (''portsToExpose'', SArray SInteger),
      (''standingBy'', SInteger), (''template'', SRef ''v1.PodTemplateSpec''), (''titleID'', SString)]"

definition doc_GameServerBuildStatus :: "(string \<times> schema) list" where
  "doc_GameServerBuildStatus =
     [(''crashesCount'', SInteger), (''currentActive'', SInteger), (''currentInitializing'', SInteger),
      (''currentPending'', SInteger), (''currentStandingBy'', SInteger),
      (''currentStandingByReadyDesired'', SString), (''health'', SString)]"

definition doc_GameServerDetailSpec :: "(string \<times> schema) list" where
  "doc_GameServerDetailSpec = [(''connectedPlayers'', SArray SString), (''connectedPlayersCount'', SInteger)]"

definition doc_GameServerDetailStatus :: "(string \<times> schema) list" where
  "doc_GameServerDetailStatus = []"

definition doc_GameServerSpec :: "(string \<times> schema) list" where
  "doc_GameServerSpec =
     [(''buildID'', SString), (''buildMetadata'', SArray (SRef ''v1alpha1.BuildMetadataItem'')),
      (''portsToExpose'', SArray SInteger), (''template'', SRef ''v1.PodTemplateSpec''), (''titleID'', SString)]"

definition doc_GameServerStatus :: "(string \<times> schema) list" where
  "doc_GameServerStatus =
     [(''ReachedActiveOn'', SString), (''ReachedInitializingOn'', SString), (''ReachedStandingByOn'', SString),
      (''health'', SString), (''initialPlayers'', SArray SString), (''nodeAge'', SInteger), (''nodeName'', SString),
      (''ports'', SString), (''publicIP'', SString), (''sessionCookie'', SString), (''sessionID'', SString),
      (''state'', SString)]"

definition doc_definitions :: "(string \<times> (string \<times> schema) list) list" where
  "doc_definitions =
     [(''v1alpha1.BuildMetadataItem'', doc_BuildMetadataItem), (''v1alpha1.GameServer'', doc_GameServer),
      (''v1alpha1.GameServerBuild'', doc_GameServerBuild), (''v1alpha1.GameServerBuildList'', doc_GameServerBuildList),
      (''v1alpha1.GameServerBuildSpec'', doc_GameServerBuildSpec),
      (''v1alpha1.GameServerBuildStatus'', doc_GameServerBuildStatus),
      (''v1alpha1.GameServerDetail'', doc_GameServerDetail),
      (''v1alpha1.GameServerDetailList'', doc_GameServerDetailList),
      (''v1alpha1.GameServerDetailSpec'', doc_GameServerDetailSpec),
      (''v1alpha1.GameServerDetailStatus'', doc_GameServerDetailStatus),
      (''v1alpha1.GameServerList'', doc_GameServerList), (''v1alpha1.GameServerSpec'', doc_GameServerSpec),
      (''v1alpha1.GameServerStatus'', doc_GameServerStatus)]"

lemma size_member: "f \<in> set fs \<Longrightarrow> size (snd f) < Suc (size_list (size_prod (\<lambda>x. 0) size) fs)"
  by (induction fs) (auto simp: less_Suc_eq_le)

lemma size_element: "j \<in> set js \<Longrightarrow> size j < Suc (size_list size js)"
  by (induction js) auto

text \<open>
  When a value has a schema: as in OpenAPI every property is optional, and one that the schema does not
  name may have any value. \<open>ext\<close> is the meaning of the references to Kubernetes' types.
\<close>

function conforms :: "(string \<Rightarrow> json \<Rightarrow> bool) \<Rightarrow> schema \<Rightarrow> json \<Rightarrow> bool" where
  "conforms ext s j =
     (case s of
        Anything \<Rightarrow> True
      | SString \<Rightarrow> (case j of StrJ _ \<Rightarrow> True | _ \<Rightarrow> False)
      | SInteger \<Rightarrow> (case j of IntJ _ \<Rightarrow> True | _ \<Rightarrow> False)
      | SBoolean \<Rightarrow> (case j of BoolJ _ \<Rightarrow> True | _ \<Rightarrow> False)
      | SArray s' \<Rightarrow> (case j of Arr js \<Rightarrow> list_all (conforms ext s') js | _ \<Rightarrow> False)
      | SMap s' \<Rightarrow> (case j of Obj fs \<Rightarrow> list_all (\<lambda>f. conforms ext s' (snd f)) fs | _ \<Rightarrow> False)
      | SOpen \<Rightarrow> (case j of Obj _ \<Rightarrow> True | _ \<Rightarrow> False)
      | SObject ps \<Rightarrow>
          (case j of
             Obj fs \<Rightarrow> list_all (\<lambda>f. case map_of ps (fst f) of None \<Rightarrow> True | Some s' \<Rightarrow> conforms ext s' (snd f)) fs
           | _ \<Rightarrow> False)
      | SRef n \<Rightarrow>
          (case map_of doc_definitions n of Some ps \<Rightarrow> conforms ext (SObject ps) j | None \<Rightarrow> ext n j))"
  by pat_completeness auto

termination
  by (relation "measures [\<lambda>(ext, s, j). size j, \<lambda>(ext, s, j). case s of SRef _ \<Rightarrow> 1 | _ \<Rightarrow> 0]")
    (auto simp: size_member size_element)

declare conforms.simps [simp del]

section \<open>The operations\<close>

datatype segment = Lit string | Param string

datatype param_in = InPath | InBody

text \<open>Every parameter is required; those of a path are strings.\<close>

record doc_operation =
  op_Method :: http_method
  op_Path :: "segment list"
  op_Id :: string
  op_Params :: "(string \<times> param_in \<times> schema) list"
  op_Responses :: "(nat \<times> schema) list"

abbreviation pathParam :: "string \<Rightarrow> string \<times> param_in \<times> schema" where
  "pathParam n \<equiv> (n, InPath, SString)"

definition doc_gameserverbuilds :: "doc_operation list" where
  "doc_gameserverbuilds =
     [\<lparr>op_Method = GET, op_Path = [Lit ''gameserverbuilds''], op_Id = ''get-list-gameserverbuilds'', op_Params = [],
        op_Responses = [(200, SRef ''v1alpha1.GameServerBuildList''), (500, Anything)]\<rparr>,
      \<lparr>op_Method = POST, op_Path = [Lit ''gameserverbuilds''], op_Id = ''create-gameserverbuild'',
        op_Params = [(''data'', InBody, SRef ''v1alpha1.GameServerBuild'')],
        op_Responses = [(201, SRef ''v1alpha1.GameServerBuild''), (500, Anything)]\<rparr>]"

definition doc_gameserverbuild :: "doc_operation list" where
  "doc_gameserverbuild =
     [\<lparr>op_Method = GET, op_Path = [Lit ''gameserverbuilds'', Param ''namespace'', Param ''buildName''],
        op_Id = ''get-game-server-build-by-buildName&namespace'', op_Params = [pathParam ''namespace'', pathParam ''buildName''],
        op_Responses = [(200, SRef ''v1alpha1.GameServerBuild''), (404, Anything), (500, Anything)]\<rparr>,
      \<lparr>op_Method = DELETE, op_Path = [Lit ''gameserverbuilds'', Param ''namespace'', Param ''buildName''],
        op_Id = ''path-gameserverbuild-by-buildname-and-namespace'',
        op_Params = [pathParam ''buildName'', pathParam ''namespace''],
        op_Responses = [(200, SMap SString), (404, Anything), (500, Anything)]\<rparr>,
      \<lparr>op_Method = PATCH, op_Path = [Lit ''gameserverbuilds'', Param ''namespace'', Param ''buildName''],
        op_Id = ''path-gameserverbuild-by-buildname-and-namespace'',
        op_Params = [pathParam ''buildName'', pathParam ''namespace'', (''data'', InBody, SOpen)],
        op_Responses =
          [(200, SRef ''v1alpha1.GameServerBuild''), (400, Anything), (404, Anything), (500, Anything)]\<rparr>]"

definition doc_gameserverbuild_details :: doc_operation where
  "doc_gameserverbuild_details =
     \<lparr>op_Method = GET,
      op_Path = [Lit ''gameserverbuilds'', Param ''namespace'', Param ''buildName'', Lit ''gameserverdetails''],
      op_Id = ''get-gameserver-details-by-build'', op_Params = [pathParam ''buildName'', pathParam ''namespace''],
      op_Responses = [(200, SRef ''v1alpha1.GameServerDetailList''), (404, Anything), (500, Anything)]\<rparr>"

definition doc_gameserverbuild_gameservers :: doc_operation where
  "doc_gameserverbuild_gameservers =
     \<lparr>op_Method = GET,
      op_Path = [Lit ''gameserverbuilds'', Param ''namespace'', Param ''buildName'', Lit ''gameservers''],
      op_Id = ''get-list-gameservers-by-build'', op_Params = [pathParam ''buildName'', pathParam ''namespace''],
      op_Responses = [(200, SRef ''v1alpha1.GameServerList''), (404, Anything), (500, Anything)]\<rparr>"

definition doc_gameserverdetail :: doc_operation where
  "doc_gameserverdetail =
     \<lparr>op_Method = GET, op_Path = [Lit ''gameserverbuilds'', Param ''namespace'', Param ''gameServerDetailName''],
      op_Id = ''get-gameserver-details-by-gameserverdetailname-and-namespace'',
      op_Params = [pathParam ''gameServerDetailName'', pathParam ''namespace''],
      op_Responses = [(200, SRef ''v1alpha1.GameServerDetail''), (404, Anything), (500, Anything)]\<rparr>"

definition doc_gameservers :: doc_operation where
  "doc_gameservers =
     \<lparr>op_Method = GET, op_Path = [Lit ''gameservers''], op_Id = ''get-list-gameservers'', op_Params = [],
      op_Responses = [(200, SRef ''v1alpha1.GameServerList''), (404, Anything), (500, Anything)]\<rparr>"

definition doc_gameserver :: "doc_operation list" where
  "doc_gameserver =
     [\<lparr>op_Method = GET, op_Path = [Lit ''gameservers'', Param ''namespace'', Param ''gameServerName''],
        op_Id = ''get-gameserver-by-gameservername-and-namespace'',
        op_Params = [pathParam ''gameServerName'', pathParam ''namespace''],
        op_Responses = [(200, SRef ''v1alpha1.GameServer''), (404, Anything), (500, Anything)]\<rparr>,
      \<lparr>op_Method = DELETE, op_Path = [Lit ''gameservers'', Param ''namespace'', Param ''gameServerName''],
        op_Id = ''delete-gameserver-by-gameservername-and-namespace'',
        op_Params = [pathParam ''gameServerName'', pathParam ''namespace''],
        op_Responses = [(200, SMap SString), (404, Anything), (500, Anything)]\<rparr>]"

definition doc_paths :: "doc_operation list" where
  "doc_paths =
     doc_gameserverbuilds @ doc_gameserverbuild @
     [doc_gameserverbuild_details, doc_gameserverbuild_gameservers, doc_gameserverdetail, doc_gameservers] @
     doc_gameserver"

lemmas doc_paths_defs = doc_paths_def doc_gameserverbuilds_def doc_gameserverbuild_def doc_gameserverbuild_details_def
  doc_gameserverbuild_gameservers_def doc_gameserverdetail_def doc_gameservers_def doc_gameserver_def

text \<open>The middleware sets the base path of the document; a client fills in the parameters.\<close>

definition setSwaggerInfo :: "string list" where
  "setSwaggerInfo = [''api'', ''v1'']"

definition requestPath :: "doc_operation \<Rightarrow> (string \<Rightarrow> string) \<Rightarrow> string list" where
  "requestPath op vals =
     setSwaggerInfo @ map (\<lambda>s. case s of Lit x \<Rightarrow> x | Param n \<Rightarrow> vals n) (op_Path op)"

text \<open>The parameters of a path are declared, and no others; two operations have the same identifier.\<close>

lemma path_parameters_declared:
  "op \<in> set doc_paths \<Longrightarrow> {n. Param n \<in> set (op_Path op)} = {n. pathParam n \<in> set (op_Params op)}"
  by (auto simp: doc_paths_defs)

lemma operation_ids_repeat:
  "\<not> distinct (map op_Id doc_paths)" "distinct (map (\<lambda>op. (op_Method op, op_Path op)) doc_paths)"
  by (simp_all add: doc_paths_defs)

section \<open>What is answered has the documented schema\<close>

lemma conforms_simps [simp]:
  "conforms ext Anything j"
  "conforms ext SString (StrJ x)"
  "conforms ext SInteger (IntJ n)"
  "conforms ext (SArray s) (Arr js) \<longleftrightarrow> list_all (conforms ext s) js"
  "conforms ext (SMap s) (Obj fs) \<longleftrightarrow> list_all (\<lambda>f. conforms ext s (snd f)) fs"
  "conforms ext (SObject ps) (Obj fs) \<longleftrightarrow>
     list_all (\<lambda>f. case map_of ps (fst f) of None \<Rightarrow> True | Some s \<Rightarrow> conforms ext s (snd f)) fs"
  by (subst conforms.simps, simp)+

lemma conforms_ref: "map_of doc_definitions n = Some ps \<Longrightarrow> conforms ext (SRef n) j \<longleftrightarrow> conforms ext (SObject ps) j"
  by (subst conforms.simps) simp

lemma conforms_ext: "map_of doc_definitions n = None \<Longrightarrow> conforms ext (SRef n) j \<longleftrightarrow> ext n j"
  by (subst conforms.simps) simp

lemma doc_references [simp]:
  "conforms ext (SRef ''v1alpha1.BuildMetadataItem'') j \<longleftrightarrow> conforms ext (SObject doc_BuildMetadataItem) j"
  "conforms ext (SRef ''v1alpha1.GameServer'') j \<longleftrightarrow> conforms ext (SObject doc_GameServer) j"
  "conforms ext (SRef ''v1alpha1.GameServerBuild'') j \<longleftrightarrow> conforms ext (SObject doc_GameServerBuild) j"
  "conforms ext (SRef ''v1alpha1.GameServerBuildList'') j \<longleftrightarrow> conforms ext (SObject doc_GameServerBuildList) j"
  "conforms ext (SRef ''v1alpha1.GameServerBuildSpec'') j \<longleftrightarrow> conforms ext (SObject doc_GameServerBuildSpec) j"
  "conforms ext (SRef ''v1alpha1.GameServerBuildStatus'') j \<longleftrightarrow> conforms ext (SObject doc_GameServerBuildStatus) j"
  "conforms ext (SRef ''v1alpha1.GameServerDetail'') j \<longleftrightarrow> conforms ext (SObject doc_GameServerDetail) j"
  "conforms ext (SRef ''v1alpha1.GameServerDetailList'') j \<longleftrightarrow> conforms ext (SObject doc_GameServerDetailList) j"
  "conforms ext (SRef ''v1alpha1.GameServerDetailSpec'') j \<longleftrightarrow> conforms ext (SObject doc_GameServerDetailSpec) j"
  "conforms ext (SRef ''v1alpha1.GameServerDetailStatus'') j \<longleftrightarrow> conforms ext (SObject doc_GameServerDetailStatus) j"
  "conforms ext (SRef ''v1alpha1.GameServerList'') j \<longleftrightarrow> conforms ext (SObject doc_GameServerList) j"
  "conforms ext (SRef ''v1alpha1.GameServerSpec'') j \<longleftrightarrow> conforms ext (SObject doc_GameServerSpec) j"
  "conforms ext (SRef ''v1alpha1.GameServerStatus'') j \<longleftrightarrow> conforms ext (SObject doc_GameServerStatus) j"
  "conforms ext (SRef ''v1.PodTemplateSpec'') j \<longleftrightarrow> ext ''v1.PodTemplateSpec'' j"
  by (simp_all add: conforms_ref conforms_ext doc_definitions_def)

lemma list_all_omit [simp]:
  "P (n, j) \<Longrightarrow> list_all P (omitempty n j)"
  "(\<And>x. P (n, f x)) \<Longrightarrow> list_all P (omitnil n f p)"
  by (auto simp: omitempty_def omitnil_def split: option.splits)

lemma list_all_always: "(\<And>x. P x) \<Longrightarrow> list_all P xs"
  by (simp add: list_all_iff)

lemma json_metadata_items: "list_all (\<lambda>x. conforms ext (SObject doc_BuildMetadataItem) (json_BuildMetadataItem x)) xs"
  by (simp add: list_all_iff json_BuildMetadataItem_def doc_BuildMetadataItem_def)

lemma json_spec_conforms:
  "\<forall>t. ext ''v1.PodTemplateSpec'' (kj_Template k t) \<Longrightarrow> conforms ext (SObject doc_GameServerSpec) (json_GameServerSpec k s)"
  "\<forall>t. ext ''v1.PodTemplateSpec'' (kj_Template k t) \<Longrightarrow>
     conforms ext (SObject doc_GameServerBuildSpec) (json_GameServerBuildSpec k b)"
  "conforms ext (SObject doc_GameServerDetailSpec) (json_GameServerDetailSpec d)"
  by (simp_all add: json_GameServerSpec_def json_GameServerBuildSpec_def json_GameServerDetailSpec_def
      doc_GameServerSpec_def doc_GameServerBuildSpec_def doc_GameServerDetailSpec_def list.pred_map comp_def json_metadata_items
      list_all_always)

lemma json_status_conforms:
  "conforms ext (SObject doc_GameServerStatus) (json_GameServerStatus k st)"
  "conforms ext (SObject doc_GameServerBuildStatus) (json_GameServerBuildStatus bst)"
  by (simp_all add: json_GameServerStatus_def json_GameServerBuildStatus_def doc_GameServerStatus_def
      doc_GameServerBuildStatus_def list.pred_map comp_def list_all_always)

lemma json_objects_conform:
  assumes "\<forall>t. ext ''v1.PodTemplateSpec'' (kj_Template k t)"
  shows "conforms ext (SObject doc_GameServer) (json_GameServer k gs)"
    and "conforms ext (SObject doc_GameServerBuild) (json_GameServerBuild k b)"
    and "conforms ext (SObject doc_GameServerDetail) (json_GameServerDetail k d)"
  using json_spec_conforms(1,2) [where ext = ext and k = k, OF assms] json_spec_conforms(3) [of ext] json_status_conforms [of ext]
  by (simp_all add: json_GameServer_def json_GameServerBuild_def json_GameServerDetail_def doc_GameServer_def
      doc_GameServerBuild_def doc_GameServerDetail_def doc_Object_def doc_GameServerDetailStatus_def json_TypeMeta_def split: prod.splits)

lemma json_lists_conform:
  assumes "\<forall>t. ext ''v1.PodTemplateSpec'' (kj_Template k t)"
  shows "conforms ext (SObject doc_GameServerList) (json_List k n (json_GameServer k) gss)"
    and "conforms ext (SObject doc_GameServerBuildList) (json_List k n (json_GameServerBuild k) bs)"
    and "conforms ext (SObject doc_GameServerDetailList) (json_List k n (json_GameServerDetail k) ds)"
  using json_objects_conform [where ext = ext and k = k, OF assms]
  by (simp_all add: json_List_def doc_GameServerList_def doc_GameServerBuildList_def doc_GameServerDetailList_def
      doc_List_def json_TypeMeta_def list.pred_map comp_def list_all_always split: prod.splits)


lemma doc_schema_objects [simp]:
  assumes "\<forall>t. ext ''v1.PodTemplateSpec'' (kj_Template k t)"
  shows "conforms ext (SRef ''v1alpha1.GameServer'') (json_GameServer k gs)"
    and "conforms ext (SRef ''v1alpha1.GameServerBuild'') (json_GameServerBuild k b)"
    and "conforms ext (SRef ''v1alpha1.GameServerDetail'') (json_GameServerDetail k d)"
    and "conforms ext (SRef ''v1alpha1.GameServerList'') (json_List k n (json_GameServer k) gss)"
    and "conforms ext (SRef ''v1alpha1.GameServerBuildList'') (json_List k n (json_GameServerBuild k) bs)"
    and "conforms ext (SRef ''v1alpha1.GameServerDetailList'') (json_List k n (json_GameServerDetail k) ds)"
  using json_objects_conform [where ext = ext and k = k, OF assms] json_lists_conform [where ext = ext and k = k, OF assms]
  by simp_all

text \<open>
  The documented properties of an object's metadata are none of its JSON, where they are nested under a
  key that the document does not have.
\<close>

lemma metadata_documented_flat:
  assumes "json_GameServerBuild k b = Obj fs"
  shows "''metadata'' \<in> fst ` set fs" "''metadata'' \<notin> fst ` set doc_GameServerBuild"
    and "fst ` set fs \<inter> fst ` set doc_GameServerBuild \<subseteq> {''apiVersion'', ''kind'', ''spec'', ''status''}"
proof -
  obtain kind version where k: "kj_Type k ''GameServerBuild'' = (kind, version)" by fastforce
  have fs: "fs = omitempty ''kind'' (StrJ kind) @ omitempty ''apiVersion'' (StrJ version) @
      [(''metadata'', kj_Meta k (gsb_Meta b)), (''spec'', json_GameServerBuildSpec k (gsb_Spec b)),
       (''status'', json_GameServerBuildStatus (gsb_Status b))]"
    using assms k by (simp add: json_GameServerBuild_def json_TypeMeta_def)
  show "''metadata'' \<in> fst ` set fs" by (simp add: fs)
  show m: "''metadata'' \<notin> fst ` set doc_GameServerBuild" by (simp add: doc_GameServerBuild_def doc_Object_def)
  have keys: "K \<subseteq> {b, a, m, s, t} \<Longrightarrow> m \<notin> D \<Longrightarrow> K \<inter> D \<subseteq> {a, b, s, t}" for K D :: "string set" and a b m s t by blast
  show "fst ` set fs \<inter> fst ` set doc_GameServerBuild \<subseteq> {''apiVersion'', ''kind'', ''spec'', ''status''}"
    by (rule keys [OF _ m]) (simp add: fs omitempty_def)
qed

section \<open>Properties\<close>

definition answers_as_documented ::
    "(string \<Rightarrow> json \<Rightarrow> bool) \<Rightarrow> k8s_json \<Rightarrow> doc_operation \<Rightarrow> rest_response \<Rightarrow> bool" where
  "answers_as_documented ext k op r \<longleftrightarrow>
     (\<exists>(c, s) \<in> set (op_Responses op). c = status_code r \<and> conforms ext s (response_body k r))"

lemma documented_routes:
  "setupRouter GET (requestPath (doc_gameserverbuilds ! 0) vals) = Some ListBuilds"
  "setupRouter POST (requestPath (doc_gameserverbuilds ! 1) vals) = Some CreateBuild"
  "setupRouter GET (requestPath (doc_gameserverbuild ! 0) vals) = Some (GetBuild (vals ''namespace'') (vals ''buildName''))"
  "setupRouter DELETE (requestPath (doc_gameserverbuild ! 1) vals) = Some (DeleteBuild (vals ''namespace'') (vals ''buildName''))"
  "setupRouter PATCH (requestPath (doc_gameserverbuild ! 2) vals) = Some (PatchBuild (vals ''namespace'') (vals ''buildName''))"
  "setupRouter GET (requestPath doc_gameserverbuild_details vals) =
     Some (ListDetailsOfBuild (vals ''namespace'') (vals ''buildName''))"
  "setupRouter GET (requestPath doc_gameserverbuild_gameservers vals) =
     Some (ListServersOfBuild (vals ''namespace'') (vals ''buildName''))"
  "setupRouter GET (requestPath doc_gameserverdetail vals) =
     Some (GetBuild (vals ''namespace'') (vals ''gameServerDetailName''))"
  "setupRouter GET (requestPath doc_gameservers vals) = Some ListServers"
  "setupRouter GET (requestPath (doc_gameserver ! 0) vals) = Some (GetServer (vals ''namespace'') (vals ''gameServerName''))"
  "setupRouter DELETE (requestPath (doc_gameserver ! 1) vals) =
     Some (DeleteServer (vals ''namespace'') (vals ''gameServerName''))"
  by (simp_all add: doc_paths_defs requestPath_def setSwaggerInfo_def setupRouter_def)

text \<open>The answers of the handlers, each with the operation that documents it.\<close>

lemma answered_error:
  "(404, Anything) \<in> set (op_Responses op) \<Longrightarrow> (500, Anything) \<in> set (op_Responses op) \<Longrightarrow>
     answers_as_documented ext k op (error_response e)"
  "(c, Anything) \<in> set (op_Responses op) \<Longrightarrow> answers_as_documented ext k op (JError c x)"
  "(c, SMap SString) \<in> set (op_Responses op) \<Longrightarrow> answers_as_documented ext k op (JMessage c key x)"
  by (auto simp: answers_as_documented_def error_response_def intro!: bexI [of _ "(_, _)"])

lemma answered_reads:
  assumes "\<forall>t. ext ''v1.PodTemplateSpec'' (kj_Template k t)"
  shows "answers_as_documented ext k (doc_gameserverbuilds ! 0) (listGameServeBuilds cl w)"
    and "answers_as_documented ext k (doc_gameserverbuild ! 0) (getGameServerBuild cl ns n w)"
    and "answers_as_documented ext k doc_gameserverbuild_details (listGameServerDetailsForBuild cl ns n w)"
    and "answers_as_documented ext k doc_gameserverbuild_gameservers (listGameServersForBuild cl ns n w)"
    and "answers_as_documented ext k doc_gameservers (listGameServers cl w)"
    and "answers_as_documented ext k (doc_gameserver ! 0) (getGameServer cl ns n w)"
proof -
  note A = doc_schema_objects [where ext = ext and k = k, OF assms]
  show "answers_as_documented ext k (doc_gameserverbuilds ! 0) (listGameServeBuilds cl w)"
    by (cases "rc_listBuilds cl w")
      (simp_all add: listGameServeBuilds_def answered_error doc_gameserverbuilds_def answers_as_documented_def A del: doc_references)
  show "answers_as_documented ext k (doc_gameserverbuild ! 0) (getGameServerBuild cl ns n w)"
    by (cases "rc_getBuild cl w ns n")
      (simp_all add: getGameServerBuild_def answered_error doc_gameserverbuild_def, simp add: answers_as_documented_def A del: doc_references)
  show "answers_as_documented ext k doc_gameserverbuild_details (listGameServerDetailsForBuild cl ns n w)"
    by (cases "rc_listDetails cl w n")
      (simp_all add: listGameServerDetailsForBuild_def answered_error doc_gameserverbuild_details_def,
        simp add: answers_as_documented_def A del: doc_references)
  show "answers_as_documented ext k doc_gameserverbuild_gameservers (listGameServersForBuild cl ns n w)"
    by (cases "rc_listGameServers cl w (Some n)")
      (simp_all add: listGameServersForBuild_def answered_error doc_gameserverbuild_gameservers_def,
        simp add: answers_as_documented_def A del: doc_references)
  show "answers_as_documented ext k doc_gameservers (listGameServers cl w)"
    by (cases "rc_listGameServers cl w None")
      (simp_all add: listGameServers_def answered_error doc_gameservers_def, simp add: answers_as_documented_def A del: doc_references)
  show "answers_as_documented ext k (doc_gameserver ! 0) (getGameServer cl ns n w)"
    by (cases "rc_getGameServer cl w ns n")
      (simp_all add: getGameServer_def answered_error doc_gameserver_def, simp add: answers_as_documented_def A del: doc_references)
qed


lemma answered_writes:
  assumes "\<forall>t. ext ''v1.PodTemplateSpec'' (kj_Template k t)"
  shows "createGameServerBuild cl gsb w = (w', r) \<Longrightarrow>
      answers_as_documented ext k (doc_gameserverbuilds ! 1) r \<or> status_code r = 400 \<and> (\<exists>e. gsb = Inl e)"
    and "deleteGameServerBuild cl ns n w = (w', r) \<Longrightarrow> answers_as_documented ext k (doc_gameserverbuild ! 1) r"
    and "patchGameServerBuild cl nums ns n body w = (w', r) \<Longrightarrow> answers_as_documented ext k (doc_gameserverbuild ! 2) r"
    and "rest_deleteGameServer cl ns n w = (w', r) \<Longrightarrow> answers_as_documented ext k (doc_gameserver ! 1) r"
proof -
  note A = doc_schema_objects [where ext = ext and k = k, OF assms]
  have created: "answers_as_documented ext k (doc_gameserverbuilds ! 1) (JBuild 201 b)" for b
    by (simp add: doc_gameserverbuilds_def answers_as_documented_def A del: doc_references)
  have patched: "answers_as_documented ext k (doc_gameserverbuild ! 2) (JBuild 200 b)" for b
    by (simp add: doc_gameserverbuild_def answers_as_documented_def A del: doc_references)
  have [simp]: "answers_as_documented ext k (doc_gameserverbuilds ! 1) (JError 500 x)"
    "answers_as_documented ext k (doc_gameserverbuild ! 1) (error_response e)"
    "answers_as_documented ext k (doc_gameserverbuild ! 1) (JError 500 x)"
    "answers_as_documented ext k (doc_gameserverbuild ! 1) (JMessage 200 key x)"
    "answers_as_documented ext k (doc_gameserverbuild ! 2) (error_response e)"
    "answers_as_documented ext k (doc_gameserverbuild ! 2) (JError 400 x)"
    "answers_as_documented ext k (doc_gameserverbuild ! 2) (JError 500 x)"
    "answers_as_documented ext k (doc_gameserver ! 1) (error_response e)"
    "answers_as_documented ext k (doc_gameserver ! 1) (JMessage 200 key x)" for e x key
    by (simp_all add: answered_error doc_gameserverbuilds_def doc_gameserverbuild_def doc_gameserver_def)
  show "answers_as_documented ext k (doc_gameserverbuilds ! 1) r \<or> status_code r = 400 \<and> (\<exists>e. gsb = Inl e)"
    if "createGameServerBuild cl gsb w = (w', r)"
    using that created by (auto simp: createGameServerBuild_def simp del: One_nat_def split: sum.splits prod.splits)
  show "answers_as_documented ext k (doc_gameserverbuild ! 1) r" if "deleteGameServerBuild cl ns n w = (w', r)"
    using that by (auto simp: deleteGameServerBuild_def simp del: One_nat_def split: sum.splits prod.splits option.splits)
  show "answers_as_documented ext k (doc_gameserverbuild ! 2) r" if "patchGameServerBuild cl nums ns n body w = (w', r)"
    using that patched
    by (auto simp: patchGameServerBuild_def split: sum.splits prod.splits option.splits json_value.splits if_splits)
  show "answers_as_documented ext k (doc_gameserver ! 1) r" if "rest_deleteGameServer cl ns n w = (w', r)"
    using that by (auto simp: rest_deleteGameServer_def Let_def simp del: One_nat_def split: prod.splits option.splits)
qed

lemma doc_paths_list:
  "doc_paths =
     [doc_gameserverbuilds ! 0, doc_gameserverbuilds ! 1, doc_gameserverbuild ! 0, doc_gameserverbuild ! 1,
      doc_gameserverbuild ! 2, doc_gameserverbuild_details, doc_gameserverbuild_gameservers, doc_gameserverdetail,
      doc_gameservers, doc_gameserver ! 0, doc_gameserver ! 1]"
  by (simp add: doc_paths_def doc_gameserverbuilds_def doc_gameserverbuild_def doc_gameserver_def)

lemma doc_methods:
  "op_Method (doc_gameserverbuilds ! 0) = GET" "op_Method (doc_gameserverbuilds ! 1) = POST"
  "op_Method (doc_gameserverbuild ! 0) = GET" "op_Method (doc_gameserverbuild ! 1) = DELETE"
  "op_Method (doc_gameserverbuild ! 2) = PATCH" "op_Method doc_gameserverbuild_details = GET"
  "op_Method doc_gameserverbuild_gameservers = GET" "op_Method doc_gameserverdetail = GET"
  "op_Method doc_gameservers = GET" "op_Method (doc_gameserver ! 0) = GET" "op_Method (doc_gameserver ! 1) = DELETE"
  by (simp_all add: doc_paths_defs)

lemma documented_served:
  assumes "\<forall>t. ext ''v1.PodTemplateSpec'' (kj_Template k t)" and "op \<in> set doc_paths" "op \<noteq> doc_gameserverdetail"
  shows "\<exists>w' r. serve cl nums (op_Method op) (requestPath op vals) gsb body w = (w', Some r) \<and>
    (answers_as_documented ext k op r \<or> op = doc_gameserverbuilds ! 1 \<and> status_code r = 400 \<and> (\<exists>e. gsb = Inl e))"
proof -
  note R = answered_reads [where ext = ext and k = k, OF assms(1)]
  note W = answered_writes [where ext = ext and k = k, OF assms(1)]
  from assms(2,3) consider "op = doc_gameserverbuilds ! 0" | "op = doc_gameserverbuilds ! 1" | "op = doc_gameserverbuild ! 0"
    | "op = doc_gameserverbuild ! 1" | "op = doc_gameserverbuild ! 2" | "op = doc_gameserverbuild_details"
    | "op = doc_gameserverbuild_gameservers" | "op = doc_gameservers" | "op = doc_gameserver ! 0" | "op = doc_gameserver ! 1"
    unfolding doc_paths_list by auto
  then show ?thesis
  proof cases
    case 2
    obtain w' r where "createGameServerBuild cl gsb w = (w', r)" by fastforce
    with W(1) [OF this] 2 show ?thesis by (simp add: serve_def doc_methods documented_routes del: One_nat_def)
  next
    case 4
    obtain w' r where "deleteGameServerBuild cl (vals ''namespace'') (vals ''buildName'') w = (w', r)" by fastforce
    with W(2) [OF this] 4 show ?thesis by (simp add: serve_def doc_methods documented_routes del: One_nat_def)
  next
    case 5
    obtain w' r where "patchGameServerBuild cl nums (vals ''namespace'') (vals ''buildName'') body w = (w', r)" by fastforce
    with W(3) [OF this] 5 show ?thesis by (simp add: serve_def doc_methods documented_routes)
  next
    case 10
    obtain w' r where "rest_deleteGameServer cl (vals ''namespace'') (vals ''gameServerName'') w = (w', r)" by fastforce
    with W(4) [OF this] 10 show ?thesis by (simp add: serve_def doc_methods documented_routes del: One_nat_def)
  qed (simp_all add: serve_def doc_methods documented_routes R)
qed

text \<open>The other direction: the paths of the routes.\<close>

lemma route_cases:
  assumes "setupRouter m path = Some rt" and "\<And>ns n. rt \<noteq> GetDetail ns n" "rt \<noteq> Healthz" "\<And>p. rt \<noteq> Swagger p"
  obtains "m = GET \<or> m = POST" "path = [''api'', ''v1'', ''gameserverbuilds'']"
  | "m = GET" "path = [''api'', ''v1'', ''gameservers'']"
  | ns n where "m = GET \<or> m = DELETE \<or> m = PATCH" "path = [''api'', ''v1'', ''gameserverbuilds'', ns, n]"
  | ns n where "m = GET \<or> m = DELETE" "path = [''api'', ''v1'', ''gameservers'', ns, n]"
  | ns n where "m = GET" "path = [''api'', ''v1'', ''gameserverbuilds'', ns, n, ''gameserverdetails'']"
  | ns n where "m = GET" "path = [''api'', ''v1'', ''gameserverbuilds'', ns, n, ''gameservers'']"
  using assms unfolding setupRouter_def by (auto split: prod.splits http_method.splits list.splits if_splits)

lemma request_paths:
  "requestPath (doc_gameserverbuilds ! 0) v = [''api'', ''v1'', ''gameserverbuilds'']"
  "requestPath (doc_gameserverbuilds ! 1) v = [''api'', ''v1'', ''gameserverbuilds'']"
  "requestPath doc_gameservers v = [''api'', ''v1'', ''gameservers'']"
  "requestPath (doc_gameserverbuild ! 0) (\<lambda>x. if x = ''namespace'' then ns else n) = [''api'', ''v1'', ''gameserverbuilds'', ns, n]"
  "requestPath (doc_gameserverbuild ! 1) (\<lambda>x. if x = ''namespace'' then ns else n) = [''api'', ''v1'', ''gameserverbuilds'', ns, n]"
  "requestPath (doc_gameserverbuild ! 2) (\<lambda>x. if x = ''namespace'' then ns else n) = [''api'', ''v1'', ''gameserverbuilds'', ns, n]"
  "requestPath doc_gameserverbuild_details (\<lambda>x. if x = ''namespace'' then ns else n) =
     [''api'', ''v1'', ''gameserverbuilds'', ns, n, ''gameserverdetails'']"
  "requestPath doc_gameserverbuild_gameservers (\<lambda>x. if x = ''namespace'' then ns else n) =
     [''api'', ''v1'', ''gameserverbuilds'', ns, n, ''gameservers'']"
  "requestPath (doc_gameserver ! 0) (\<lambda>x. if x = ''namespace'' then ns else n) = [''api'', ''v1'', ''gameservers'', ns, n]"
  "requestPath (doc_gameserver ! 1) (\<lambda>x. if x = ''namespace'' then ns else n) = [''api'', ''v1'', ''gameservers'', ns, n]"
  by (simp_all add: doc_paths_defs requestPath_def setSwaggerInfo_def)

lemma route_documented:
  assumes "setupRouter m path = Some rt" and "\<And>ns n. rt \<noteq> GetDetail ns n" "rt \<noteq> Healthz" "\<And>p. rt \<noteq> Swagger p"
  shows "\<exists>op vals. op \<in> set doc_paths \<and> op_Method op = m \<and> requestPath op vals = path"
proof -
  note here = request_paths doc_methods doc_paths_list
  from assms show ?thesis
  proof (cases rule: route_cases)
    case 1
    then show ?thesis using here(1,2,11,12,22) by (metis list.set_intros)
  next
    case 2
    then show ?thesis using here(3,19,22) by (metis list.set_intros)
  next
    case (3 ns n)
    then show ?thesis using here(4,5,6,13,14,15,22) by (metis list.set_intros)
  next
    case (4 ns n)
    then show ?thesis using here(9,10,20,21,22) by (metis list.set_intros)
  next
    case (5 ns n)
    then show ?thesis using here(7,16,22) by (metis list.set_intros)
  next
    case (6 ns n)
    then show ?thesis using here(8,17,22) by (metis list.set_intros)
  qed
qed


text \<open>Kubernetes' JSON, with empty templates.\<close>

definition bare_json :: k8s_json where
  "bare_json = \<lparr>kj_Type = (\<lambda>n. (n, ''mps.playfab.com/v1alpha1'')), kj_Meta = (\<lambda>m. Obj [(''name'', StrJ (om_Name m))]),
     kj_ListMeta = Obj [], kj_Template = (\<lambda>t. Obj []), kj_Time = (\<lambda>t. [])\<rparr>"



end
