(* ===== verification/Document_Schemas.thy ===== *)
theory Document_Schemas
  imports Api_Document
begin

text \<open>
  The rest of the document of the REST service, \<open>cmd/gameserverapi/docs/docs.go\<close>: its schemas of Kubernetes' types,
  as they stand there without the descriptions, and with them what the whole document says. It is closed,
  nothing in it is unused, and with its own schemas in the place of the parameter it decides of every
  JSON whether it has a documented shape. The schemas of quantities and of ports with names are not those of the JSON that
  Kubernetes writes.
\<close>

section \<open>The schemas of Kubernetes' types\<close>

definition doc_IntOrString :: schema where
  "doc_IntOrString = SObject
     [(''intVal'', SInteger), (''strVal'', SString), (''type'', SInteger)]"

definition doc_Quantity :: schema where
  "doc_Quantity = SObject [(''Format'', SString)]"

definition doc_AWSElasticBlockStoreVolumeSource :: schema where
  "doc_AWSElasticBlockStoreVolumeSource = SObject
     [(''fsType'', SString), (''partition'', SInteger), (''readOnly'', SBoolean), (''volumeID'', SString)]"

definition doc_Affinity :: schema where
  "doc_Affinity = SObject
     [(''nodeAffinity'', SRef ''v1.NodeAffinity''), (''podAffinity'', SRef ''v1.PodAffinity''),
      (''podAntiAffinity'', SRef ''v1.PodAntiAffinity'')]"

definition doc_AzureDiskVolumeSource :: schema where
  "doc_AzureDiskVolumeSource = SObject
     [(''cachingMode'', SString), (''diskName'', SString), (''diskURI'', SString), (''fsType'', SString),
      (''kind'', SString), (''readOnly'', SBoolean)]"

definition doc_AzureFileVolumeSource :: schema where
  "doc_AzureFileVolumeSource = SObject
     [(''readOnly'', SBoolean), (''secretName'', SString), (''shareName'', SString)]"

definition doc_CSIVolumeSource :: schema where
  "doc_CSIVolumeSource = SObject
     [(''driver'', SString), (''fsType'', SString), (''nodePublishSecretRef'', SRef ''v1.LocalObjectReference''),
      (''readOnly'', SBoolean), (''volumeAttributes'', SMap SString)]"

definition doc_Capabilities :: schema where
  "doc_Capabilities = SObject
     [(''add'', SArray SString), (''drop'', SArray SString)]"

definition doc_CephFSVolumeSource :: schema where
  "doc_CephFSVolumeSource = SObject
     [(''monitors'', SArray SString), (''path'', SString), (''readOnly'', SBoolean), (''secretFile'', SString),
      (''secretRef'', SRef ''v1.LocalObjectReference''), (''user'', SString)]"

definition doc_CinderVolumeSource :: schema where
  "doc_CinderVolumeSource = SObject
     [(''fsType'', SString), (''readOnly'', SBoolean), (''secretRef'', SRef ''v1.LocalObjectReference''),
      (''volumeID'', SString)]"

definition doc_ConfigMapEnvSource :: schema where
  "doc_ConfigMapEnvSource = SObject
     [(''name'', SString), (''optional'', SBoolean)]"

definition doc_ConfigMapKeySelector :: schema where
  "doc_ConfigMapKeySelector = SObject
     [(''key'', SString), (''name'', SString), (''optional'', SBoolean)]"

definition doc_ConfigMapProjection :: schema where
  "doc_ConfigMapProjection = SObject
     [(''items'', SArray (SRef ''v1.KeyToPath'')), (''name'', SString), (''optional'', SBoolean)]"

definition doc_ConfigMapVolumeSource :: schema where
  "doc_ConfigMapVolumeSource = SObject
     [(''defaultMode'', SInteger), (''items'', SArray (SRef ''v1.KeyToPath'')), (''name'', SString),
      (''optional'', SBoolean)]"

definition doc_Container :: schema where
  "doc_Container = SObject
     [(''args'', SArray SString), (''command'', SArray SString), (''env'', SArray (SRef ''v1.EnvVar'')),
      (''envFrom'', SArray (SRef ''v1.EnvFromSource'')), (''image'', SString), (''imagePullPolicy'', SString),
      (''lifecycle'', SRef ''v1.Lifecycle''), (''livenessProbe'', SRef ''v1.Probe''), (''name'', SString),
      (''ports'', SArray (SRef ''v1.ContainerPort'')), (''readinessProbe'', SRef ''v1.Probe''),
      (''resources'', SRef ''v1.ResourceRequirements''), (''securityContext'', SRef ''v1.SecurityContext''),
      (''startupProbe'', SRef ''v1.Probe''), (''stdin'', SBoolean), (''stdinOnce'', SBoolean),
      (''terminationMessagePath'', SString), (''terminationMessagePolicy'', SString), (''tty'', SBoolean),
      (''volumeDevices'', SArray (SRef ''v1.VolumeDevice'')), (''volumeMounts'', SArray (SRef ''v1.VolumeMount'')),
      (''workingDir'', SString)]"

definition doc_ContainerPort :: schema where
  "doc_ContainerPort = SObject
     [(''containerPort'', SInteger), (''hostIP'', SString), (''hostPort'', SInteger), (''name'', SString),
      (''protocol'', SString)]"

definition doc_DownwardAPIProjection :: schema where
  "doc_DownwardAPIProjection = SObject [(''items'', SArray (SRef ''v1.DownwardAPIVolumeFile''))]"

definition doc_DownwardAPIVolumeFile :: schema where
  "doc_DownwardAPIVolumeFile = SObject
     [(''fieldRef'', SRef ''v1.ObjectFieldSelector''), (''mode'', SInteger), (''path'', SString),
      (''resourceFieldRef'', SRef ''v1.ResourceFieldSelector'')]"

definition doc_DownwardAPIVolumeSource :: schema where
  "doc_DownwardAPIVolumeSource = SObject
     [(''defaultMode'', SInteger), (''items'', SArray (SRef ''v1.DownwardAPIVolumeFile''))]"

definition doc_EmptyDirVolumeSource :: schema where
  "doc_EmptyDirVolumeSource = SObject
     [(''medium'', SString), (''sizeLimit'', SRef ''resource.Quantity'')]"

definition doc_EnvFromSource :: schema where
  "doc_EnvFromSource = SObject
     [(''configMapRef'', SRef ''v1.ConfigMapEnvSource''), (''prefix'', SString),
      (''secretRef'', SRef ''v1.SecretEnvSource'')]"

definition doc_EnvVar :: schema where
  "doc_EnvVar = SObject
     [(''name'', SString), (''value'', SString), (''valueFrom'', SRef ''v1.EnvVarSource'')]"

definition doc_EnvVarSource :: schema where
  "doc_EnvVarSource = SObject
     [(''configMapKeyRef'', SRef ''v1.ConfigMapKeySelector''), (''fieldRef'', SRef ''v1.ObjectFieldSelector''),
      (''resourceFieldRef'', SRef ''v1.ResourceFieldSelector''), (''secretKeyRef'', SRef ''v1.SecretKeySelector'')]"

definition doc_EphemeralContainer :: schema where
  "doc_EphemeralContainer = SObject
     [(''args'', SArray SString), (''command'', SArray SString), (''env'', SArray (SRef ''v1.EnvVar'')),
      (''envFrom'', SArray (SRef ''v1.EnvFromSource'')), (''image'', SString), (''imagePullPolicy'', SString),
      (''lifecycle'', SRef ''v1.Lifecycle''), (''livenessProbe'', SRef ''v1.Probe''), (''name'', SString),
      (''ports'', SArray (SRef ''v1.ContainerPort'')), (''readinessProbe'', SRef ''v1.Probe''),
      (''resources'', SRef ''v1.ResourceRequirements''), (''securityContext'', SRef ''v1.SecurityContext''),
      (''startupProbe'', SRef ''v1.Probe''), (''stdin'', SBoolean), (''stdinOnce'', SBoolean),
      (''targetContainerName'', SString), (''terminationMessagePath'', SString),
      (''terminationMessagePolicy'', SString), (''tty'', SBoolean),
      (''volumeDevices'', SArray (SRef ''v1.VolumeDevice'')), (''volumeMounts'', SArray (SRef ''v1.VolumeMount'')),
      (''workingDir'', SString)]"

definition doc_EphemeralVolumeSource :: schema where
  "doc_EphemeralVolumeSource = SObject [(''volumeClaimTemplate'', SRef ''v1.PersistentVolumeClaimTemplate'')]"

definition doc_ExecAction :: schema where
  "doc_ExecAction = SObject [(''command'', SArray SString)]"

definition doc_FCVolumeSource :: schema where
  "doc_FCVolumeSource = SObject
     [(''fsType'', SString), (''lun'', SInteger), (''readOnly'', SBoolean), (''targetWWNs'', SArray SString),
      (''wwids'', SArray SString)]"

definition doc_FieldsV1 :: schema where
  "doc_FieldsV1 = SOpen"

definition doc_FlexVolumeSource :: schema where
  "doc_FlexVolumeSource = SObject
     [(''driver'', SString), (''fsType'', SString), (''options'', SMap SString), (''readOnly'', SBoolean),
      (''secretRef'', SRef ''v1.LocalObjectReference'')]"

definition doc_FlockerVolumeSource :: schema where
  "doc_FlockerVolumeSource = SObject
     [(''datasetName'', SString), (''datasetUUID'', SString)]"

definition doc_GCEPersistentDiskVolumeSource :: schema where
  "doc_GCEPersistentDiskVolumeSource = SObject
     [(''fsType'', SString), (''partition'', SInteger), (''pdName'', SString), (''readOnly'', SBoolean)]"

definition doc_GRPCAction :: schema where
  "doc_GRPCAction = SObject
     [(''port'', SInteger), (''service'', SString)]"

definition doc_GitRepoVolumeSource :: schema where
  "doc_GitRepoVolumeSource = SObject
     [(''directory'', SString), (''repository'', SString), (''revision'', SString)]"

definition doc_GlusterfsVolumeSource :: schema where
  "doc_GlusterfsVolumeSource = SObject
     [(''endpoints'', SString), (''path'', SString), (''readOnly'', SBoolean)]"

definition doc_HTTPGetAction :: schema where
  "doc_HTTPGetAction = SObject
     [(''host'', SString), (''httpHeaders'', SArray (SRef ''v1.HTTPHeader'')), (''path'', SString),
      (''port'', SRef ''intstr.IntOrString''), (''scheme'', SString)]"

definition doc_HTTPHeader :: schema where
  "doc_HTTPHeader = SObject
     [(''name'', SString), (''value'', SString)]"

definition doc_HostAlias :: schema where
  "doc_HostAlias = SObject
     [(''hostnames'', SArray SString), (''ip'', SString)]"

definition doc_HostPathVolumeSource :: schema where
  "doc_HostPathVolumeSource = SObject
     [(''path'', SString), (''type'', SString)]"

definition doc_ISCSIVolumeSource :: schema where
  "doc_ISCSIVolumeSource = SObject
     [(''chapAuthDiscovery'', SBoolean), (''chapAuthSession'', SBoolean), (''fsType'', SString),
      (''initiatorName'', SString), (''iqn'', SString), (''iscsiInterface'', SString), (''lun'', SInteger),
      (''portals'', SArray SString), (''readOnly'', SBoolean), (''secretRef'', SRef ''v1.LocalObjectReference''),
      (''targetPortal'', SString)]"

definition doc_KeyToPath :: schema where
  "doc_KeyToPath = SObject
     [(''key'', SString), (''mode'', SInteger), (''path'', SString)]"

definition doc_LabelSelector :: schema where
  "doc_LabelSelector = SObject
     [(''matchExpressions'', SArray (SRef ''v1.LabelSelectorRequirement'')), (''matchLabels'', SMap SString)]"

definition doc_LabelSelectorRequirement :: schema where
  "doc_LabelSelectorRequirement = SObject
     [(''key'', SString), (''operator'', SString), (''values'', SArray SString)]"

definition doc_Lifecycle :: schema where
  "doc_Lifecycle = SObject
     [(''postStart'', SRef ''v1.LifecycleHandler''), (''preStop'', SRef ''v1.LifecycleHandler'')]"

definition doc_LifecycleHandler :: schema where
  "doc_LifecycleHandler = SObject
     [(''exec'', SRef ''v1.ExecAction''), (''httpGet'', SRef ''v1.HTTPGetAction''),
      (''tcpSocket'', SRef ''v1.TCPSocketAction'')]"

definition doc_LocalObjectReference :: schema where
  "doc_LocalObjectReference = SObject [(''name'', SString)]"

definition doc_ManagedFieldsEntry :: schema where
  "doc_ManagedFieldsEntry = SObject
     [(''apiVersion'', SString), (''fieldsType'', SString), (''fieldsV1'', SRef ''v1.FieldsV1''),
      (''manager'', SString), (''operation'', SString), (''subresource'', SString), (''time'', SString)]"

definition doc_NFSVolumeSource :: schema where
  "doc_NFSVolumeSource = SObject
     [(''path'', SString), (''readOnly'', SBoolean), (''server'', SString)]"

definition doc_NodeAffinity :: schema where
  "doc_NodeAffinity = SObject
     [(''preferredDuringSchedulingIgnoredDuringExecution'', SArray (SRef ''v1.PreferredSchedulingTerm'')),
      (''requiredDuringSchedulingIgnoredDuringExecution'', SRef ''v1.NodeSelector'')]"

definition doc_NodeSelector :: schema where
  "doc_NodeSelector = SObject [(''nodeSelectorTerms'', SArray (SRef ''v1.NodeSelectorTerm''))]"

definition doc_NodeSelectorRequirement :: schema where
  "doc_NodeSelectorRequirement = SObject
     [(''key'', SString), (''operator'', SString), (''values'', SArray SString)]"

definition doc_NodeSelectorTerm :: schema where
  "doc_NodeSelectorTerm = SObject
     [(''matchExpressions'', SArray (SRef ''v1.NodeSelectorRequirement'')),
      (''matchFields'', SArray (SRef ''v1.NodeSelectorRequirement''))]"

definition doc_ObjectFieldSelector :: schema where
  "doc_ObjectFieldSelector = SObject
     [(''apiVersion'', SString), (''fieldPath'', SString)]"

definition doc_OwnerReference :: schema where
  "doc_OwnerReference = SObject
     [(''apiVersion'', SString), (''blockOwnerDeletion'', SBoolean), (''controller'', SBoolean), (''kind'', SString),
      (''name'', SString), (''uid'', SString)]"

definition doc_PersistentVolumeClaimSpec :: schema where
  "doc_PersistentVolumeClaimSpec = SObject
     [(''accessModes'', SArray SString), (''dataSource'', SRef ''v1.TypedLocalObjectReference''),
      (''dataSourceRef'', SRef ''v1.TypedLocalObjectReference''), (''resources'', SRef ''v1.ResourceRequirements''),
      (''selector'', SRef ''v1.LabelSelector''), (''storageClassName'', SString), (''volumeMode'', SString),
      (''volumeName'', SString)]"

definition doc_PersistentVolumeClaimTemplate :: schema where
  "doc_PersistentVolumeClaimTemplate = SObject
     [(''annotations'', SMap SString), (''clusterName'', SString), (''creationTimestamp'', SString),
      (''deletionGracePeriodSeconds'', SInteger), (''deletionTimestamp'', SString), (''finalizers'', SArray SString),
      (''generateName'', SString), (''generation'', SInteger), (''labels'', SMap SString),
      (''managedFields'', SArray (SRef ''v1.ManagedFieldsEntry'')), (''name'', SString), (''namespace'', SString),
      (''ownerReferences'', SArray (SRef ''v1.OwnerReference'')), (''resourceVersion'', SString),
      (''selfLink'', SString), (''spec'', SRef ''v1.PersistentVolumeClaimSpec''), (''uid'', SString)]"

definition doc_PersistentVolumeClaimVolumeSource :: schema where
  "doc_PersistentVolumeClaimVolumeSource = SObject
     [(''claimName'', SString), (''readOnly'', SBoolean)]"

definition doc_PhotonPersistentDiskVolumeSource :: schema where
  "doc_PhotonPersistentDiskVolumeSource = SObject
     [(''fsType'', SString), (''pdID'', SString)]"

definition doc_PodAffinity :: schema where
  "doc_PodAffinity = SObject
     [(''preferredDuringSchedulingIgnoredDuringExecution'', SArray (SRef ''v1.WeightedPodAffinityTerm'')),
      (''requiredDuringSchedulingIgnoredDuringExecution'', SArray (SRef ''v1.PodAffinityTerm''))]"

definition doc_PodAffinityTerm :: schema where
  "doc_PodAffinityTerm = SObject
     [(''labelSelector'', SRef ''v1.LabelSelector''), (''namespaceSelector'', SRef ''v1.LabelSelector''),
      (''namespaces'', SArray SString), (''topologyKey'', SString)]"

definition doc_PodAntiAffinity :: schema where
  "doc_PodAntiAffinity = SObject
     [(''preferredDuringSchedulingIgnoredDuringExecution'', SArray (SRef ''v1.WeightedPodAffinityTerm'')),
      (''requiredDuringSchedulingIgnoredDuringExecution'', SArray (SRef ''v1.PodAffinityTerm''))]"

definition doc_PodDNSConfig :: schema where
  "doc_PodDNSConfig = SObject
     [(''nameservers'', SArray SString), (''options'', SArray (SRef ''v1.PodDNSConfigOption'')),
      (''searches'', SArray SString)]"

definition doc_PodDNSConfigOption :: schema where
  "doc_PodDNSConfigOption = SObject
     [(''name'', SString), (''value'', SString)]"

definition doc_PodOS :: schema where
  "doc_PodOS = SObject [(''name'', SString)]"

definition doc_PodReadinessGate :: schema where
  "doc_PodReadinessGate = SObject [(''conditionType'', SString)]"

definition doc_PodSecurityContext :: schema where
  "doc_PodSecurityContext = SObject
     [(''fsGroup'', SInteger), (''fsGroupChangePolicy'', SString), (''runAsGroup'', SInteger),
      (''runAsNonRoot'', SBoolean), (''runAsUser'', SInteger), (''seLinuxOptions'', SRef ''v1.SELinuxOptions''),
      (''seccompProfile'', SRef ''v1.SeccompProfile''), (''supplementalGroups'', SArray SInteger),
      (''sysctls'', SArray (SRef ''v1.Sysctl'')), (''windowsOptions'', SRef ''v1.WindowsSecurityContextOptions'')]"

definition doc_PodSpec :: schema where
  "doc_PodSpec = SObject
     [(''activeDeadlineSeconds'', SInteger), (''affinity'', SRef ''v1.Affinity''),
      (''automountServiceAccountToken'', SBoolean), (''containers'', SArray (SRef ''v1.Container'')),
      (''dnsConfig'', SRef ''v1.PodDNSConfig''), (''dnsPolicy'', SString), (''enableServiceLinks'', SBoolean),
      (''ephemeralContainers'', SArray (SRef ''v1.EphemeralContainer'')),
      (''hostAliases'', SArray (SRef ''v1.HostAlias'')), (''hostIPC'', SBoolean), (''hostNetwork'', SBoolean),
      (''hostPID'', SBoolean), (''hostname'', SString),
      (''imagePullSecrets'', SArray (SRef ''v1.LocalObjectReference'')),
      (''initContainers'', SArray (SRef ''v1.Container'')), (''nodeName'', SString),
      (''nodeSelector'', SMap SString), (''os'', SRef ''v1.PodOS''), (''overhead'', SRef ''v1.ResourceList''),
      (''preemptionPolicy'', SString), (''priority'', SInteger), (''priorityClassName'', SString),
      (''readinessGates'', SArray (SRef ''v1.PodReadinessGate'')), (''restartPolicy'', SString),
      (''runtimeClassName'', SString), (''schedulerName'', SString),
      (''securityContext'', SRef ''v1.PodSecurityContext''), (''serviceAccount'', SString),
      (''serviceAccountName'', SString), (''setHostnameAsFQDN'', SBoolean), (''shareProcessNamespace'', SBoolean),
      (''subdomain'', SString), (''terminationGracePeriodSeconds'', SInteger),
      (''tolerations'', SArray (SRef ''v1.Toleration'')),
      (''topologySpreadConstraints'', SArray (SRef ''v1.TopologySpreadConstraint'')),
      (''volumes'', SArray (SRef ''v1.Volume''))]"

definition doc_PodTemplateSpec :: schema where
  "doc_PodTemplateSpec = SObject
     [(''annotations'', SMap SString), (''clusterName'', SString), (''creationTimestamp'', SString),
      (''deletionGracePeriodSeconds'', SInteger), (''deletionTimestamp'', SString), (''finalizers'', SArray SString),
      (''generateName'', SString), (''generation'', SInteger), (''labels'', SMap SString),
      (''managedFields'', SArray (SRef ''v1.ManagedFieldsEntry'')), (''name'', SString), (''namespace'', SString),
      (''ownerReferences'', SArray (SRef ''v1.OwnerReference'')), (''resourceVersion'', SString),
      (''selfLink'', SString), (''spec'', SRef ''v1.PodSpec''), (''uid'', SString)]"

definition doc_PortworxVolumeSource :: schema where
  "doc_PortworxVolumeSource = SObject
     [(''fsType'', SString), (''readOnly'', SBoolean), (''volumeID'', SString)]"

definition doc_PreferredSchedulingTerm :: schema where
  "doc_PreferredSchedulingTerm = SObject
     [(''preference'', SRef ''v1.NodeSelectorTerm''), (''weight'', SInteger)]"

definition doc_Probe :: schema where
  "doc_Probe = SObject
     [(''exec'', SRef ''v1.ExecAction''), (''failureThreshold'', SInteger), (''grpc'', SRef ''v1.GRPCAction''),
      (''httpGet'', SRef ''v1.HTTPGetAction''), (''initialDelaySeconds'', SInteger), (''periodSeconds'', SInteger),
      (''successThreshold'', SInteger), (''tcpSocket'', SRef ''v1.TCPSocketAction''),
      (''terminationGracePeriodSeconds'', SInteger), (''timeoutSeconds'', SInteger)]"

definition doc_ProjectedVolumeSource :: schema where
  "doc_ProjectedVolumeSource = SObject
     [(''defaultMode'', SInteger), (''sources'', SArray (SRef ''v1.VolumeProjection''))]"

definition doc_QuobyteVolumeSource :: schema where
  "doc_QuobyteVolumeSource = SObject
     [(''group'', SString), (''readOnly'', SBoolean), (''registry'', SString), (''tenant'', SString),
      (''user'', SString), (''volume'', SString)]"

definition doc_RBDVolumeSource :: schema where
  "doc_RBDVolumeSource = SObject
     [(''fsType'', SString), (''image'', SString), (''keyring'', SString), (''monitors'', SArray SString),
      (''pool'', SString), (''readOnly'', SBoolean), (''secretRef'', SRef ''v1.LocalObjectReference''),
      (''user'', SString)]"

definition doc_ResourceFieldSelector :: schema where
  "doc_ResourceFieldSelector = SObject
     [(''containerName'', SString), (''divisor'', SRef ''resource.Quantity''), (''resource'', SString)]"

definition doc_ResourceList :: schema where
  "doc_ResourceList = SMap (SRef ''resource.Quantity'')"

definition doc_ResourceRequirements :: schema where
  "doc_ResourceRequirements = SObject
     [(''limits'', SRef ''v1.ResourceList''), (''requests'', SRef ''v1.ResourceList'')]"

definition doc_SELinuxOptions :: schema where
  "doc_SELinuxOptions = SObject
     [(''level'', SString), (''role'', SString), (''type'', SString), (''user'', SString)]"

definition doc_ScaleIOVolumeSource :: schema where
  "doc_ScaleIOVolumeSource = SObject
     [(''fsType'', SString), (''gateway'', SString), (''protectionDomain'', SString), (''readOnly'', SBoolean),
      (''secretRef'', SRef ''v1.LocalObjectReference''), (''sslEnabled'', SBoolean), (''storageMode'', SString),
      (''storagePool'', SString), (''system'', SString), (''volumeName'', SString)]"

definition doc_SeccompProfile :: schema where
  "doc_SeccompProfile = SObject
     [(''localhostProfile'', SString), (''type'', SString)]"

definition doc_SecretEnvSource :: schema where
  "doc_SecretEnvSource = SObject
     [(''name'', SString), (''optional'', SBoolean)]"

definition doc_SecretKeySelector :: schema where
  "doc_SecretKeySelector = SObject
     [(''key'', SString), (''name'', SString), (''optional'', SBoolean)]"

definition doc_SecretProjection :: schema where
  "doc_SecretProjection = SObject
     [(''items'', SArray (SRef ''v1.KeyToPath'')), (''name'', SString), (''optional'', SBoolean)]"

definition doc_SecretVolumeSource :: schema where
  "doc_SecretVolumeSource = SObject
     [(''defaultMode'', SInteger), (''items'', SArray (SRef ''v1.KeyToPath'')), (''optional'', SBoolean),
      (''secretName'', SString)]"

definition doc_SecurityContext :: schema where
  "doc_SecurityContext = SObject
     [(''allowPrivilegeEscalation'', SBoolean), (''capabilities'', SRef ''v1.Capabilities''),
      (''privileged'', SBoolean), (''procMount'', SString), (''readOnlyRootFilesystem'', SBoolean),
      (''runAsGroup'', SInteger), (''runAsNonRoot'', SBoolean), (''runAsUser'', SInteger),
      (''seLinuxOptions'', SRef ''v1.SELinuxOptions''), (''seccompProfile'', SRef ''v1.SeccompProfile''),
      (''windowsOptions'', SRef ''v1.WindowsSecurityContextOptions'')]"

definition doc_ServiceAccountTokenProjection :: schema where
  "doc_ServiceAccountTokenProjection = SObject
     [(''audience'', SString), (''expirationSeconds'', SInteger), (''path'', SString)]"

definition doc_StorageOSVolumeSource :: schema where
  "doc_StorageOSVolumeSource = SObject
     [(''fsType'', SString), (''readOnly'', SBoolean), (''secretRef'', SRef ''v1.LocalObjectReference''),
      (''volumeName'', SString), (''volumeNamespace'', SString)]"

definition doc_Sysctl :: schema where
  "doc_Sysctl = SObject
     [(''name'', SString), (''value'', SString)]"

definition doc_TCPSocketAction :: schema where
  "doc_TCPSocketAction = SObject
     [(''host'', SString), (''port'', SRef ''intstr.IntOrString'')]"

definition doc_Toleration :: schema where
  "doc_Toleration = SObject
     [(''effect'', SString), (''key'', SString), (''operator'', SString), (''tolerationSeconds'', SInteger),
      (''value'', SString)]"

definition doc_TopologySpreadConstraint :: schema where
  "doc_TopologySpreadConstraint = SObject
     [(''labelSelector'', SRef ''v1.LabelSelector''), (''maxSkew'', SInteger), (''minDomains'', SInteger),
      (''topologyKey'', SString), (''whenUnsatisfiable'', SString)]"

definition doc_TypedLocalObjectReference :: schema where
  "doc_TypedLocalObjectReference = SObject
     [(''apiGroup'', SString), (''kind'', SString), (''name'', SString)]"

definition doc_Volume :: schema where
  "doc_Volume = SObject
     [(''awsElasticBlockStore'', SRef ''v1.AWSElasticBlockStoreVolumeSource''),
      (''azureDisk'', SRef ''v1.AzureDiskVolumeSource''), (''azureFile'', SRef ''v1.AzureFileVolumeSource''),
      (''cephfs'', SRef ''v1.CephFSVolumeSource''), (''cinder'', SRef ''v1.CinderVolumeSource''),
      (''configMap'', SRef ''v1.ConfigMapVolumeSource''), (''csi'', SRef ''v1.CSIVolumeSource''),
      (''downwardAPI'', SRef ''v1.DownwardAPIVolumeSource''), (''emptyDir'', SRef ''v1.EmptyDirVolumeSource''),
      (''ephemeral'', SRef ''v1.EphemeralVolumeSource''), (''fc'', SRef ''v1.FCVolumeSource''),
      (''flexVolume'', SRef ''v1.FlexVolumeSource''), (''flocker'', SRef ''v1.FlockerVolumeSource''),
      (''gcePersistentDisk'', SRef ''v1.GCEPersistentDiskVolumeSource''),
      (''gitRepo'', SRef ''v1.GitRepoVolumeSource''), (''glusterfs'', SRef ''v1.GlusterfsVolumeSource''),
      (''hostPath'', SRef ''v1.HostPathVolumeSource''), (''iscsi'', SRef ''v1.ISCSIVolumeSource''),
      (''name'', SString), (''nfs'', SRef ''v1.NFSVolumeSource''),
      (''persistentVolumeClaim'', SRef ''v1.PersistentVolumeClaimVolumeSource''),
      (''photonPersistentDisk'', SRef ''v1.PhotonPersistentDiskVolumeSource''),
      (''portworxVolume'', SRef ''v1.PortworxVolumeSource''), (''projected'', SRef ''v1.ProjectedVolumeSource''),
      (''quobyte'', SRef ''v1.QuobyteVolumeSource''), (''rbd'', SRef ''v1.RBDVolumeSource''),
      (''scaleIO'', SRef ''v1.ScaleIOVolumeSource''), (''secret'', SRef ''v1.SecretVolumeSource''),
      (''storageos'', SRef ''v1.StorageOSVolumeSource''),
      (''vsphereVolume'', SRef ''v1.VsphereVirtualDiskVolumeSource'')]"

definition doc_VolumeDevice :: schema where
  "doc_VolumeDevice = SObject
     [(''devicePath'', SString), (''name'', SString)]"

definition doc_VolumeMount :: schema where
  "doc_VolumeMount = SObject
     [(''mountPath'', SString), (''mountPropagation'', SString), (''name'', SString), (''readOnly'', SBoolean),
      (''subPath'', SString), (''subPathExpr'', SString)]"

definition doc_VolumeProjection :: schema where
  "doc_VolumeProjection = SObject
     [(''configMap'', SRef ''v1.ConfigMapProjection''), (''downwardAPI'', SRef ''v1.DownwardAPIProjection''),
      (''secret'', SRef ''v1.SecretProjection''),
      (''serviceAccountToken'', SRef ''v1.ServiceAccountTokenProjection'')]"

definition doc_VsphereVirtualDiskVolumeSource :: schema where
  "doc_VsphereVirtualDiskVolumeSource = SObject
     [(''fsType'', SString), (''storagePolicyID'', SString), (''storagePolicyName'', SString),
      (''volumePath'', SString)]"

definition doc_WeightedPodAffinityTerm :: schema where
  "doc_WeightedPodAffinityTerm = SObject
     [(''podAffinityTerm'', SRef ''v1.PodAffinityTerm''), (''weight'', SInteger)]"

definition doc_WindowsSecurityContextOptions :: schema where
  "doc_WindowsSecurityContextOptions = SObject
     [(''gmsaCredentialSpec'', SString), (''gmsaCredentialSpecName'', SString), (''hostProcess'', SBoolean),
      (''runAsUserName'', SString)]"

definition k8s_definitions :: "(string \<times> schema) list" where
  "k8s_definitions =
     [(''intstr.IntOrString'', doc_IntOrString), (''resource.Quantity'', doc_Quantity),
      (''v1.AWSElasticBlockStoreVolumeSource'', doc_AWSElasticBlockStoreVolumeSource),
      (''v1.Affinity'', doc_Affinity), (''v1.AzureDiskVolumeSource'', doc_AzureDiskVolumeSource),
      (''v1.AzureFileVolumeSource'', doc_AzureFileVolumeSource), (''v1.CSIVolumeSource'', doc_CSIVolumeSource),
      (''v1.Capabilities'', doc_Capabilities), (''v1.CephFSVolumeSource'', doc_CephFSVolumeSource),
      (''v1.CinderVolumeSource'', doc_CinderVolumeSource), (''v1.ConfigMapEnvSource'', doc_ConfigMapEnvSource),
      (''v1.ConfigMapKeySelector'', doc_ConfigMapKeySelector), (''v1.ConfigMapProjection'', doc_ConfigMapProjection),
      (''v1.ConfigMapVolumeSource'', doc_ConfigMapVolumeSource), (''v1.Container'', doc_Container),
      (''v1.ContainerPort'', doc_ContainerPort), (''v1.DownwardAPIProjection'', doc_DownwardAPIProjection),
      (''v1.DownwardAPIVolumeFile'', doc_DownwardAPIVolumeFile),
      (''v1.DownwardAPIVolumeSource'', doc_DownwardAPIVolumeSource),
      (''v1.EmptyDirVolumeSource'', doc_EmptyDirVolumeSource), (''v1.EnvFromSource'', doc_EnvFromSource),
      (''v1.EnvVar'', doc_EnvVar), (''v1.EnvVarSource'', doc_EnvVarSource),
      (''v1.EphemeralContainer'', doc_EphemeralContainer), (''v1.EphemeralVolumeSource'', doc_EphemeralVolumeSource),
      (''v1.ExecAction'', doc_ExecAction), (''v1.FCVolumeSource'', doc_FCVolumeSource),
      (''v1.FieldsV1'', doc_FieldsV1), (''v1.FlexVolumeSource'', doc_FlexVolumeSource),
      (''v1.FlockerVolumeSource'', doc_FlockerVolumeSource),
      (''v1.GCEPersistentDiskVolumeSource'', doc_GCEPersistentDiskVolumeSource), (''v1.GRPCAction'', doc_GRPCAction),
      (''v1.GitRepoVolumeSource'', doc_GitRepoVolumeSource),
      (''v1.GlusterfsVolumeSource'', doc_GlusterfsVolumeSource), (''v1.HTTPGetAction'', doc_HTTPGetAction),
      (''v1.HTTPHeader'', doc_HTTPHeader), (''v1.HostAlias'', doc_HostAlias),
      (''v1.HostPathVolumeSource'', doc_HostPathVolumeSource), (''v1.ISCSIVolumeSource'', doc_ISCSIVolumeSource),
      (''v1.KeyToPath'', doc_KeyToPath), (''v1.LabelSelector'', doc_LabelSelector),
      (''v1.LabelSelectorRequirement'', doc_LabelSelectorRequirement), (''v1.Lifecycle'', doc_Lifecycle),
      (''v1.LifecycleHandler'', doc_LifecycleHandler), (''v1.LocalObjectReference'', doc_LocalObjectReference),
      (''v1.ManagedFieldsEntry'', doc_ManagedFieldsEntry), (''v1.NFSVolumeSource'', doc_NFSVolumeSource),
      (''v1.NodeAffinity'', doc_NodeAffinity), (''v1.NodeSelector'', doc_NodeSelector),
      (''v1.NodeSelectorRequirement'', doc_NodeSelectorRequirement), (''v1.NodeSelectorTerm'', doc_NodeSelectorTerm),
      (''v1.ObjectFieldSelector'', doc_ObjectFieldSelector), (''v1.OwnerReference'', doc_OwnerReference),
      (''v1.PersistentVolumeClaimSpec'', doc_PersistentVolumeClaimSpec),
      (''v1.PersistentVolumeClaimTemplate'', doc_PersistentVolumeClaimTemplate),
      (''v1.PersistentVolumeClaimVolumeSource'', doc_PersistentVolumeClaimVolumeSource),
      (''v1.PhotonPersistentDiskVolumeSource'', doc_PhotonPersistentDiskVolumeSource),
      (''v1.PodAffinity'', doc_PodAffinity), (''v1.PodAffinityTerm'', doc_PodAffinityTerm),
      (''v1.PodAntiAffinity'', doc_PodAntiAffinity), (''v1.PodDNSConfig'', doc_PodDNSConfig),
      (''v1.PodDNSConfigOption'', doc_PodDNSConfigOption), (''v1.PodOS'', doc_PodOS),
      (''v1.PodReadinessGate'', doc_PodReadinessGate), (''v1.PodSecurityContext'', doc_PodSecurityContext),
      (''v1.PodSpec'', doc_PodSpec), (''v1.PodTemplateSpec'', doc_PodTemplateSpec),
      (''v1.PortworxVolumeSource'', doc_PortworxVolumeSource),
      (''v1.PreferredSchedulingTerm'', doc_PreferredSchedulingTerm), (''v1.Probe'', doc_Probe),
      (''v1.ProjectedVolumeSource'', doc_ProjectedVolumeSource),
      (''v1.QuobyteVolumeSource'', doc_QuobyteVolumeSource), (''v1.RBDVolumeSource'', doc_RBDVolumeSource),
      (''v1.ResourceFieldSelector'', doc_ResourceFieldSelector), (''v1.ResourceList'', doc_ResourceList),
      (''v1.ResourceRequirements'', doc_ResourceRequirements), (''v1.SELinuxOptions'', doc_SELinuxOptions),
      (''v1.ScaleIOVolumeSource'', doc_ScaleIOVolumeSource), (''v1.SeccompProfile'', doc_SeccompProfile),
      (''v1.SecretEnvSource'', doc_SecretEnvSource), (''v1.SecretKeySelector'', doc_SecretKeySelector),
      (''v1.SecretProjection'', doc_SecretProjection), (''v1.SecretVolumeSource'', doc_SecretVolumeSource),
      (''v1.SecurityContext'', doc_SecurityContext),
      (''v1.ServiceAccountTokenProjection'', doc_ServiceAccountTokenProjection),
      (''v1.StorageOSVolumeSource'', doc_StorageOSVolumeSource), (''v1.Sysctl'', doc_Sysctl),
      (''v1.TCPSocketAction'', doc_TCPSocketAction), (''v1.Toleration'', doc_Toleration),
      (''v1.TopologySpreadConstraint'', doc_TopologySpreadConstraint),
      (''v1.TypedLocalObjectReference'', doc_TypedLocalObjectReference), (''v1.Volume'', doc_Volume),
      (''v1.VolumeDevice'', doc_VolumeDevice), (''v1.VolumeMount'', doc_VolumeMount),
      (''v1.VolumeProjection'', doc_VolumeProjection),
      (''v1.VsphereVirtualDiskVolumeSource'', doc_VsphereVirtualDiskVolumeSource),
      (''v1.WeightedPodAffinityTerm'', doc_WeightedPodAffinityTerm),
      (''v1.WindowsSecurityContextOptions'', doc_WindowsSecurityContextOptions)]"

lemmas k8s_schema_defs =
  doc_IntOrString_def doc_Quantity_def doc_AWSElasticBlockStoreVolumeSource_def doc_Affinity_def
  doc_AzureDiskVolumeSource_def doc_AzureFileVolumeSource_def doc_CSIVolumeSource_def doc_Capabilities_def
  doc_CephFSVolumeSource_def doc_CinderVolumeSource_def doc_ConfigMapEnvSource_def doc_ConfigMapKeySelector_def
  doc_ConfigMapProjection_def doc_ConfigMapVolumeSource_def doc_Container_def doc_ContainerPort_def
  doc_DownwardAPIProjection_def doc_DownwardAPIVolumeFile_def doc_DownwardAPIVolumeSource_def
  doc_EmptyDirVolumeSource_def doc_EnvFromSource_def doc_EnvVar_def doc_EnvVarSource_def
  doc_EphemeralContainer_def doc_EphemeralVolumeSource_def doc_ExecAction_def doc_FCVolumeSource_def
  doc_FieldsV1_def doc_FlexVolumeSource_def doc_FlockerVolumeSource_def doc_GCEPersistentDiskVolumeSource_def
  doc_GRPCAction_def doc_GitRepoVolumeSource_def doc_GlusterfsVolumeSource_def doc_HTTPGetAction_def
  doc_HTTPHeader_def doc_HostAlias_def doc_HostPathVolumeSource_def doc_ISCSIVolumeSource_def doc_KeyToPath_def
  doc_LabelSelector_def doc_LabelSelectorRequirement_def doc_Lifecycle_def doc_LifecycleHandler_def
  doc_LocalObjectReference_def doc_ManagedFieldsEntry_def doc_NFSVolumeSource_def doc_NodeAffinity_def
  doc_NodeSelector_def doc_NodeSelectorRequirement_def doc_NodeSelectorTerm_def doc_ObjectFieldSelector_def
  doc_OwnerReference_def doc_PersistentVolumeClaimSpec_def doc_PersistentVolumeClaimTemplate_def
  doc_PersistentVolumeClaimVolumeSource_def doc_PhotonPersistentDiskVolumeSource_def doc_PodAffinity_def
  doc_PodAffinityTerm_def doc_PodAntiAffinity_def doc_PodDNSConfig_def doc_PodDNSConfigOption_def doc_PodOS_def
  doc_PodReadinessGate_def doc_PodSecurityContext_def doc_PodSpec_def doc_PodTemplateSpec_def
  doc_PortworxVolumeSource_def doc_PreferredSchedulingTerm_def doc_Probe_def doc_ProjectedVolumeSource_def
  doc_QuobyteVolumeSource_def doc_RBDVolumeSource_def doc_ResourceFieldSelector_def doc_ResourceList_def
  doc_ResourceRequirements_def doc_SELinuxOptions_def doc_ScaleIOVolumeSource_def doc_SeccompProfile_def
  doc_SecretEnvSource_def doc_SecretKeySelector_def doc_SecretProjection_def doc_SecretVolumeSource_def
  doc_SecurityContext_def doc_ServiceAccountTokenProjection_def doc_StorageOSVolumeSource_def doc_Sysctl_def
  doc_TCPSocketAction_def doc_Toleration_def doc_TopologySpreadConstraint_def doc_TypedLocalObjectReference_def
  doc_Volume_def doc_VolumeDevice_def doc_VolumeMount_def doc_VolumeProjection_def
  doc_VsphereVirtualDiskVolumeSource_def doc_WeightedPodAffinityTerm_def doc_WindowsSecurityContextOptions_def

section \<open>The document as a whole\<close>

definition document :: "(string \<times> schema) list" where
  "document = k8s_definitions @ map (\<lambda>(n, ps). (n, SObject ps)) doc_definitions"

text \<open>The names that a schema refers to.\<close>

fun references :: "schema \<Rightarrow> string list" where
  "references (SRef n) = [n]"
| "references (SArray s) = references s"
| "references (SMap s) = references s"
| "references (SObject ps) = concat (map (\<lambda>(n, s). references s) ps)"
| "references s = []"

definition operation_references :: "string list" where
  "operation_references = concat (map (\<lambda>op.
     concat (map (\<lambda>(n, i, s). references s) (op_Params op)) @
     concat (map (\<lambda>(c, s). references s) (op_Responses op))) doc_paths)"

definition document_references :: "string list" where
  "document_references = operation_references @ concat (map (\<lambda>(n, s). references s) document)"

text \<open>No object names a property twice, and no definition is only another name.\<close>

fun proper_definition :: "schema \<Rightarrow> bool" where
  "proper_definition (SRef n) = False"
| "proper_definition (SObject ps) = distinct (map fst ps)"
| "proper_definition s = True"

definition is_defined :: "string \<Rightarrow> bool" where
  "is_defined n \<longleftrightarrow> n \<in> fst ` set document"

definition is_referenced :: "string \<Rightarrow> bool" where
  "is_referenced n \<longleftrightarrow> n \<in> set document_references"

text \<open>
  The names of the document one by one, so that looking one up is a rewriting step and not a search.
\<close>

lemmas document_unfold = document_def k8s_definitions_def doc_definitions_def

lemmas schema_unfold = k8s_schema_defs doc_BuildMetadataItem_def doc_GameServer_def doc_GameServerBuild_def doc_GameServerDetail_def
  doc_Object_def doc_List_def doc_GameServerBuildList_def doc_GameServerList_def doc_GameServerDetailList_def
  doc_GameServerBuildSpec_def doc_GameServerBuildStatus_def doc_GameServerDetailSpec_def doc_GameServerDetailStatus_def
  doc_GameServerSpec_def doc_GameServerStatus_def

lemma all_defined: "list_all is_defined (map fst document)"
  by (simp add: list_all_iff is_defined_def)

lemmas defined_names = all_defined [unfolded document_unfold list.map append.simps split_conv fst_conv list.pred_inject]

lemma all_referenced: "list_all is_referenced document_references"
  by (simp add: list_all_iff is_referenced_def)

lemmas references_unfold = document_references_def operation_references_def document_unfold schema_unfold doc_paths_defs

lemmas referenced_names = all_referenced [unfolded references_unfold, simplified]

lemma references_defined: "list_all is_defined document_references"
  by (simp add: references_unfold defined_names)

lemma definitions_referenced: "list_all is_referenced (map fst document)"
  by (simp add: document_unfold referenced_names)

lemma definitions_proper: "list_all (\<lambda>(n, s). proper_definition s) document"
  by (simp add: document_unfold schema_unfold)

lemma names_distinct: "distinct (map fst document)"
  by (simp add: document_unfold)

section \<open>What the document says of a value\<close>

text \<open>As \<open>conforms\<close>, with every reference looked up.\<close>

function satisfies :: "(string \<Rightarrow> schema option) \<Rightarrow> schema \<Rightarrow> json \<Rightarrow> bool" where
  "satisfies defs s j =
     (case s of
        Anything \<Rightarrow> True
      | SString \<Rightarrow> (case j of StrJ _ \<Rightarrow> True | _ \<Rightarrow> False)
      | SInteger \<Rightarrow> (case j of IntJ _ \<Rightarrow> True | _ \<Rightarrow> False)
      | SBoolean \<Rightarrow> (case j of BoolJ _ \<Rightarrow> True | _ \<Rightarrow> False)
      | SArray s' \<Rightarrow> (case j of Arr js \<Rightarrow> list_all (satisfies defs s') js | _ \<Rightarrow> False)
      | SMap s' \<Rightarrow> (case j of Obj fs \<Rightarrow> list_all (\<lambda>f. satisfies defs s' (snd f)) fs | _ \<Rightarrow> False)
      | SOpen \<Rightarrow> (case j of Obj _ \<Rightarrow> True | _ \<Rightarrow> False)
      | SObject ps \<Rightarrow>
          (case j of
             Obj fs \<Rightarrow> list_all (\<lambda>f. case map_of ps (fst f) of None \<Rightarrow> True | Some s' \<Rightarrow> satisfies defs s' (snd f)) fs
           | _ \<Rightarrow> False)
      | SRef n \<Rightarrow>
          (case defs n of
             None \<Rightarrow> False
           | Some s' \<Rightarrow> (case s' of SRef m \<Rightarrow> False | _ \<Rightarrow> satisfies defs s' j)))"
  by pat_completeness auto

termination
  by (relation "measures [\<lambda>(defs, s, j). size j, \<lambda>(defs, s, j). case s of SRef _ \<Rightarrow> 1 | _ \<Rightarrow> 0]")
    (auto simp: size_member size_element split: schema.splits)

declare satisfies.simps [simp del]

definition documented :: "schema \<Rightarrow> json \<Rightarrow> bool" where
  "documented = satisfies (map_of document)"

lemma satisfies_cases:
  "satisfies defs (SObject ps) (Obj fs) \<longleftrightarrow>
     list_all (\<lambda>f. case map_of ps (fst f) of None \<Rightarrow> True | Some s \<Rightarrow> satisfies defs s (snd f)) fs"
  "satisfies defs (SArray s) (Arr js) \<longleftrightarrow> list_all (satisfies defs s) js"
  "satisfies defs (SMap s) (Obj fs) \<longleftrightarrow> list_all (\<lambda>f. satisfies defs s (snd f)) fs"
  "defs n = Some (SObject ps) \<Longrightarrow> satisfies defs (SRef n) j \<longleftrightarrow> satisfies defs (SObject ps) j"
  "defs n = Some (SMap s) \<Longrightarrow> satisfies defs (SRef n) j \<longleftrightarrow> satisfies defs (SMap s) j"
  by (subst satisfies.simps, simp)+

lemma lookup_document:
  "map_of document n = (case map_of doc_definitions n of Some ps \<Rightarrow> Some (SObject ps) | None \<Rightarrow> map_of k8s_definitions n)"
proof -
  have own: "map_of (map (\<lambda>(n, ps). (n, SObject ps)) ds) n = map_option SObject (map_of ds n)" for ds
    by (induction ds) auto
  have "map_of k8s_definitions n = None" if "map_of doc_definitions n = Some ps" for ps
  proof -
    have "map fst (map (\<lambda>(n, ps). (n, SObject ps)) ds) = map fst ds" for ds :: "(string \<times> (string \<times> schema) list) list"
      by (induction ds) auto
    then have "distinct (map fst k8s_definitions @ map fst doc_definitions)"
      using names_distinct by (simp only: document_def map_append)
    moreover have "n \<in> fst ` set doc_definitions" using map_of_SomeD [OF that] by force
    ultimately have "n \<notin> fst ` set k8s_definitions" by auto
    then show ?thesis by (simp add: map_of_eq_None_iff)
  qed
  then show ?thesis by (auto simp: document_def own map_add_def split: option.splits)
qed

lemma definition_not_ref: "map_of document n = Some s \<Longrightarrow> s \<noteq> SRef m"
  using definitions_proper by (auto simp: list_all_iff dest!: map_of_SomeD)

text \<open>The schemas of the custom resources mean what \<open>Api_Document\<close> says, with the document's own for Kubernetes' types.\<close>

lemma conforms_documented: "conforms (\<lambda>n. documented (SRef n)) s j = documented s j"
proof (induction "\<lambda>n. documented (SRef n)" s j rule: conforms.induct)
  case (1 s j)
  show ?case
  proof (cases s)
    case (SRef n)
    show ?thesis
    proof (cases "map_of doc_definitions n")
      case None
      with SRef show ?thesis by (simp add: conforms_ext)
    next
      case (Some ps)
      then have "map_of document n = Some (SObject ps)" by (simp add: lookup_document)
      with 1 SRef Some show ?thesis by (simp add: conforms_ref documented_def satisfies_cases(4))
    qed
  next
    case (SArray s')
    with 1 show ?thesis
      by (subst conforms.simps, subst documented_def, subst satisfies.simps)
        (auto simp: documented_def [symmetric] list_all_iff split: json.splits)
  next
    case (SMap s')
    with 1 show ?thesis
      by (subst conforms.simps, subst documented_def, subst satisfies.simps)
        (auto simp: documented_def [symmetric] list_all_iff split: json.splits)
  next
    case (SObject ps)
    with 1 show ?thesis
      by (subst conforms.simps, subst documented_def, subst satisfies.simps)
        (auto simp: documented_def [symmetric] list_all_iff split: json.splits option.splits)
  qed (subst conforms.simps, subst documented_def, subst satisfies.simps, simp)+
qed

lemma documented_object:
  "documented (SObject ps) (Obj fs) \<Longrightarrow> f \<in> set fs \<Longrightarrow> map_of ps (fst f) = Some s \<Longrightarrow> documented s (snd f)"
  by (auto simp: documented_def satisfies_cases(1) list_all_iff split: option.splits)

lemma documented_array: "documented (SArray s) (Arr js) \<Longrightarrow> j \<in> set js \<Longrightarrow> documented s j"
  by (simp add: documented_def satisfies_cases(2) list_all_iff)

lemma documented_ref: "map_of document n = Some (SObject ps) \<Longrightarrow> documented (SRef n) j \<Longrightarrow> documented (SObject ps) j"
  by (simp add: documented_def satisfies_cases(4))

lemma documented_ref_map: "map_of document n = Some (SMap s) \<Longrightarrow> documented (SRef n) j \<Longrightarrow> documented (SMap s) j"
  by (simp add: documented_def satisfies_cases(5))

lemma documented_map: "documented (SMap s) (Obj fs) \<Longrightarrow> f \<in> set fs \<Longrightarrow> documented s (snd f)"
  by (simp add: documented_def satisfies_cases(3) list_all_iff)

lemma object_not_scalar: "\<not> documented (SObject ps) (StrJ x)" "\<not> documented (SObject ps) (IntJ i)"
  by (simp_all add: documented_def, (subst satisfies.simps, simp)+)

text \<open>The definitions on the way from a template to a quantity and to the port of a probe.\<close>

lemma all_looked_up: "list_all (\<lambda>(n, s). map_of document n = Some s) document"
  using names_distinct by (simp add: list_all_iff split_beta)

definition document_at :: "string \<Rightarrow> schema option" where
  "document_at n = map_of document n"

lemma all_looked_up_at: "list_all (\<lambda>(n, s). document_at n = Some s) document"
  using all_looked_up by (simp add: document_at_def)

lemmas document_at = all_looked_up_at [unfolded document_unfold list.map append.simps split_conv list.pred_inject]

lemma documented_at: "document_at n = Some (SObject ps) \<Longrightarrow> documented (SRef n) j \<Longrightarrow> documented (SObject ps) j"
  by (rule documented_ref) (simp add: document_at_def)

text \<open>A container whose JSON has a quantity, as Kubernetes writes it, or the number of a port in a probe.\<close>

definition writes_quantity :: "(string \<times> json) list \<Rightarrow> bool" where
  "writes_quantity c \<longleftrightarrow> (\<exists>r l kind n q. (''resources'', Obj r) \<in> set c \<and> (kind = ''limits'' \<or> kind = ''requests'') \<and>
     (kind, Obj l) \<in> set r \<and> (n, StrJ q) \<in> set l)"

definition probes_number :: "(string \<times> json) list \<Rightarrow> bool" where
  "probes_number c \<longleftrightarrow> (\<exists>p h probe i. (probe = ''livenessProbe'' \<or> probe = ''readinessProbe'' \<or> probe = ''startupProbe'') \<and>
     (probe, Obj p) \<in> set c \<and> (''httpGet'', Obj h) \<in> set p \<and> (''port'', IntJ i) \<in> set h)"

lemma quantity_not_documented:
  assumes "writes_quantity c" shows "\<not> documented (SRef ''v1.Container'') (Obj c)"
proof
  assume d: "documented (SRef ''v1.Container'') (Obj c)"
  from assms obtain r l kind n q where c: "(''resources'', Obj r) \<in> set c" "kind = ''limits'' \<or> kind = ''requests''"
    "(kind, Obj l) \<in> set r" "(n, StrJ q) \<in> set l" unfolding writes_quantity_def by blast
  have look: "document_at ''v1.Container'' = Some doc_Container"
    "document_at ''v1.ResourceRequirements'' = Some doc_ResourceRequirements"
    "document_at ''v1.ResourceList'' = Some doc_ResourceList" "document_at ''resource.Quantity'' = Some doc_Quantity"
    by (simp_all add: document_at)
  from documented_object [OF documented_at [OF look(1) [unfolded doc_Container_def] d] c(1), of "SRef ''v1.ResourceRequirements''"]
  have "documented (SRef ''v1.ResourceRequirements'') (Obj r)" by simp
  from documented_object [OF documented_at [OF look(2) [unfolded doc_ResourceRequirements_def] this] c(3), of "SRef ''v1.ResourceList''"]
  have "documented (SRef ''v1.ResourceList'') (Obj l)" using c(2) by auto
  with look(3) have "documented (SMap (SRef ''resource.Quantity'')) (Obj l)"
    by (auto simp: document_at_def doc_ResourceList_def intro: documented_ref_map)
  from documented_map [OF this c(4)] have "documented (SRef ''resource.Quantity'') (StrJ q)" by simp
  from documented_at [OF look(4) [unfolded doc_Quantity_def] this] show False by (simp add: object_not_scalar)
qed

lemma probe_not_documented:
  assumes "probes_number c" shows "\<not> documented (SRef ''v1.Container'') (Obj c)"
proof
  assume d: "documented (SRef ''v1.Container'') (Obj c)"
  from assms obtain p h probe i where c: "probe = ''livenessProbe'' \<or> probe = ''readinessProbe'' \<or> probe = ''startupProbe''"
    "(probe, Obj p) \<in> set c" "(''httpGet'', Obj h) \<in> set p" "(''port'', IntJ i) \<in> set h"
    unfolding probes_number_def by blast
  have look: "document_at ''v1.Container'' = Some doc_Container" "document_at ''v1.Probe'' = Some doc_Probe"
    "document_at ''v1.HTTPGetAction'' = Some doc_HTTPGetAction" "document_at ''intstr.IntOrString'' = Some doc_IntOrString"
    by (simp_all add: document_at)
  from documented_object [OF documented_at [OF look(1) [unfolded doc_Container_def] d] c(2), of "SRef ''v1.Probe''"]
  have "documented (SRef ''v1.Probe'') (Obj p)" using c(1) by auto
  from documented_object [OF documented_at [OF look(2) [unfolded doc_Probe_def] this] c(3), of "SRef ''v1.HTTPGetAction''"]
  have "documented (SRef ''v1.HTTPGetAction'') (Obj h)" by simp
  from documented_object [OF documented_at [OF look(3) [unfolded doc_HTTPGetAction_def] this] c(4), of "SRef ''intstr.IntOrString''"]
  have "documented (SRef ''intstr.IntOrString'') (IntJ i)" by simp
  from documented_at [OF look(4) [unfolded doc_IntOrString_def] this] show False by (simp add: object_not_scalar)
qed

lemma template_not_documented:
  assumes "(''spec'', Obj p) \<in> set t" and "(''containers'', Arr cs) \<in> set p" and "Obj c \<in> set cs"
    and "writes_quantity c \<or> probes_number c"
  shows "\<not> documented (SRef ''v1.PodTemplateSpec'') (Obj t)"
proof
  assume d: "documented (SRef ''v1.PodTemplateSpec'') (Obj t)"
  have look: "document_at ''v1.PodTemplateSpec'' = Some doc_PodTemplateSpec" "document_at ''v1.PodSpec'' = Some doc_PodSpec"
    by (simp_all add: document_at)
  from documented_object [OF documented_at [OF look(1) [unfolded doc_PodTemplateSpec_def] d] assms(1), of "SRef ''v1.PodSpec''"]
  have "documented (SRef ''v1.PodSpec'') (Obj p)" by simp
  from documented_object [OF documented_at [OF look(2) [unfolded doc_PodSpec_def] this] assms(2), of "SArray (SRef ''v1.Container'')"]
  have "documented (SArray (SRef ''v1.Container'')) (Arr cs)" by simp
  from documented_array [OF this assms(3)] assms(4) show False
    using quantity_not_documented probe_not_documented by blast
qed

section \<open>Properties\<close>



text \<open>Kubernetes' JSON of templates with one container that has a limit.\<close>

definition limited_container :: "(string \<times> json) list" where
  "limited_container = [(''name'', StrJ ''server''), (''resources'', Obj [(''limits'', Obj [(''cpu'', StrJ ''500m'')])])]"

definition limited_json :: k8s_json where
  "limited_json = bare_json\<lparr>kj_Template := \<lambda>t. Obj [(''spec'', Obj [(''containers'', Arr [Obj limited_container])])]\<rparr>"


end
