(* ===== verification/Latency_Server.thy ===== *)
theory Latency_Server
  imports Prelude "HOL-Library.Word"
begin

text \<open>
  The latency server of \<open>cmd/latencyserver/main.go\<close>: one round of its loop reads a datagram into
  a fresh buffer of 32 bytes, checks it and answers with the first two bytes flipped. The socket
  is a parameter: what it read, and whether the answer could be written.
\<close>

type_synonym byte = "8 word"

abbreviation bufferSize :: nat where "bufferSize \<equiv> 32"

text \<open>What \<open>ReadFromUDP\<close> leaves in a zeroed buffer: a longer datagram is cut off.\<close>

definition readInto :: "byte list \<Rightarrow> byte list \<times> nat" where
  "readInto datagram =
     (let d = take bufferSize datagram in (d @ replicate (bufferSize - length d) 0, length d))"

text \<open>The buffer is changed in place; \<open>None\<close> is the nil slice.\<close>

definition getResponse :: "byte list \<Rightarrow> nat \<Rightarrow> byte list option" where
  "getResponse buffer n =
     (if 2 < n \<and> buffer ! 0 = 0xFF \<and> buffer ! 1 = 0xFF then Some (buffer[0 := 0, 1 := 0]) else None)"

datatype loop_result = LoopError string | NoAnswer | Answered string "byte list"

definition serverLoop ::
    "string + byte list \<times> string \<Rightarrow> (byte list \<Rightarrow> string \<Rightarrow> string option) \<Rightarrow> loop_result" where
  "serverLoop received write =
     (case received of
        Inl e \<Rightarrow> LoopError e
      | Inr (datagram, remote) \<Rightarrow>
          (let (buffer, n) = readInto datagram
           in case getResponse buffer n of
                None \<Rightarrow> NoAnswer
              | Some buffer' \<Rightarrow>
                  (case write (take n buffer') remote of
                     Some e \<Rightarrow> LoopError e
                   | None \<Rightarrow> Answered remote (take n buffer'))))"

text \<open>The loop counts the successful requests per remote address.\<close>

fun latencyServer ::
    "(string + byte list \<times> string) list \<Rightarrow> (byte list \<Rightarrow> string \<Rightarrow> string option) \<Rightarrow> (string \<Rightarrow> nat) \<Rightarrow> (string \<Rightarrow> nat)" where
  "latencyServer [] write requests = requests"
| "latencyServer (r # rs) write requests =
     (case serverLoop r write of
        Answered remote _ \<Rightarrow> latencyServer rs write (requests(remote := requests remote + 1))
      | _ \<Rightarrow> latencyServer rs write requests)"

text \<open>The ports of \<open>main\<close>; \<open>None\<close> is the fatal exit.\<close>

definition latency_main :: "(string \<rightharpoonup> string) \<Rightarrow> (int \<times> int) option" where
  "latency_main env =
     (case atoi (map_get env [] ''METRICS_SERVER_PORT'') of
        None \<Rightarrow> None
      | Some metricsPort \<Rightarrow>
          (case atoi (map_get env [] ''UDP_SERVER_PORT'') of None \<Rightarrow> None | Some udpPort \<Rightarrow> Some (metricsPort, udpPort)))"

section \<open>What is answered\<close>

lemma readInto_nth:
  "i < length datagram \<Longrightarrow> i < bufferSize \<Longrightarrow> fst (readInto datagram) ! i = datagram ! i"
  by (simp add: readInto_def Let_def nth_append)

lemma readInto_take: "take (snd (readInto datagram)) (fst (readInto datagram)) = take bufferSize datagram"
  by (cases "length datagram \<le> bufferSize") (simp_all add: readInto_def Let_def)

lemma getResponse_take:
  "getResponse buffer n = Some b \<Longrightarrow> n \<le> length buffer \<Longrightarrow> take n b = 0 # 0 # drop 2 (take n buffer)"
  by (cases buffer; cases "tl buffer"; cases n; cases "n - 1")
    (auto simp: getResponse_def split: if_splits)

text \<open>
  A datagram of at least three bytes that begins with two \<open>0xFF\<close> is answered with its first 32
  bytes, the first two of them zero; nothing else is answered, in particular not the two
  bytes alone.
\<close>

lemma serverLoop_answers:
  assumes "\<And>b r. write b r = None"
  shows "serverLoop (Inr (datagram, remote)) write =
    (if 2 < length datagram \<and> datagram ! 0 = 0xFF \<and> datagram ! 1 = 0xFF
     then Answered remote (0 # 0 # drop 2 (take bufferSize datagram)) else NoAnswer)"
proof -
  obtain b n where b: "readInto datagram = (b, n)" by fastforce
  have n: "n = min bufferSize (length datagram)" "n \<le> length b" using b by (auto simp: readInto_def Let_def min_def)
  have nth: "b ! 0 = datagram ! 0 \<and> b ! 1 = datagram ! 1" if l: "2 < length datagram"
  proof -
    have "0 < length datagram" "1 < length datagram" using l by linarith+
    then show ?thesis using readInto_nth [of 0 datagram] readInto_nth [of 1 datagram] b by simp
  qed
  have t: "take n b = take bufferSize datagram" using readInto_take [of datagram] b by simp
  show ?thesis
  proof (cases "getResponse b n")
    case None
    with b n nth assms show ?thesis by (auto simp: serverLoop_def getResponse_def split: if_splits)
  next
    case (Some x)
    with getResponse_take [OF Some n(2)] b n nth assms t show ?thesis
      by (auto simp: serverLoop_def getResponse_def split: if_splits)
  qed
qed

end
