(* ===== verification/Allocation_Goroutines.thy ===== *)
theory Allocation_Goroutines
  imports Allocation_Api Goroutines
begin

text \<open>
  Allocation requests at the same time. The HTTP server of \<open>allocation_api_server.go\<close> runs
  \<open>handleAllocationRequest\<close> in a goroutine of its own for every request, beside the reconciler that feeds
  the queue. A goroutine is at one of the handler's operations on what is shared: a listing, a pop, a patch, the
  sending on the channel of events, which holds a hundred. A request alone does what
  \<open>handleAllocationRequest\<close> of \<open>Allocation_Api\<close> says. Among others it still takes a GameServer that nobody took, but
  the search for its session and the patch are no unit.
\<close>

section \<open>A request, operation by operation\<close>

text \<open>The program counter: what a request has done, and with it the variables of the handler.\<close>

datatype request =
    Arrived string string
  | Searching AllocateArgs
  | Trying AllocateArgs nat "api_error option"
  | Taken AllocateArgs nat GameServerForQueue
  | Sending AllocateArgs nat api_error GameServerForQueue
  | Granted AllocateArgs nat GameServer
  | Served AllocateArgs GameServer http_response
  | Answered http_response

definition eventsCapacity :: nat where "eventsCapacity = 100"

text \<open>The state of the service with what is in the channel.\<close>

type_synonym 'w alloc_shared = "'w alloc_state \<times> (string \<times> string) list"

definition checkRequest :: "'w alloc_api \<Rightarrow> string \<Rightarrow> string \<Rightarrow> 'w \<Rightarrow> request" where
  "checkRequest api meth reqBody w =
     (if meth = ''OPTIONS'' then Answered (respond 200 NoBody)
      else if meth \<noteq> ''POST'' \<and> meth \<noteq> ''PATCH''
      then Answered (badRequestError ''invalid method'' ''Only POST and PATCH are accepted'')
      else case al_decode api reqBody of
             Inl e \<Rightarrow> Answered (badRequestError e ''cannot deserialize json'')
           | Inr args \<Rightarrow>
               if \<not> validateAllocateArgs args
               then Answered (badRequestError ''invalid sessionID or buildID'' ''invalid arguments'')
               else case al_listBuilds api w (aa_BuildID args) of
                      Inl e \<Rightarrow> Answered (if IsNotFound e then notFoundError (err_text e) ''not found''
                                         else internalServerError (err_text e) ''error listing'')
                    | Inr builds \<Rightarrow>
                        if length builds = 0
                        then Answered (notFoundError ''GameServerBuild not found''
                          (''GameServerBuild with ID '' @ aa_BuildID args @ '' not found''))
                        else Searching args)"

definition searchSession :: "'w alloc_api \<Rightarrow> AllocateArgs \<Rightarrow> 'w \<Rightarrow> request" where
  "searchSession api args w =
     (case al_listSession api w (aa_SessionID args) (aa_BuildID args) of
        Inl e \<Rightarrow> Answered (internalServerError (err_text e) ''error listing'')
      | Inr servers \<Rightarrow>
          if 1 < length servers
          then Answered (internalServerError ''multiple servers found''
            (''Multiple servers found for sessionID '' @ aa_SessionID args))
          else if length servers = 1
          then Answered (respond 200 (AllocBody (sessionResponse (aa_SessionID args) (hd servers))))
          else Trying args 0 None)"

definition tryPop :: "AllocateArgs \<Rightarrow> nat \<Rightarrow> api_error option \<Rightarrow> 'w alloc_state \<Rightarrow> request \<times> 'w alloc_state" where
  "tryPop args i err s =
     (if \<not> i < allocationTries then (Answered (alloc_exhausted err), s)
      else case gsq_PopFromQueue (as_queue s) (aa_BuildID args) of
             (q, None) \<Rightarrow>
               (Answered (tooManyRequestsError ''not enough standingBy'' ''there are not enough standingBy servers''),
                emit [Inc Allocations429ErrorsCounter [aa_BuildID args]] (s\<lparr>as_queue := q\<rparr>))
           | (q, Some gs) \<Rightarrow> (Taken args i gs, s\<lparr>as_queue := q\<rparr>))"

definition tryPatch :: "'w alloc_api \<Rightarrow> AllocateArgs \<Rightarrow> nat \<Rightarrow> GameServerForQueue \<Rightarrow> 'w alloc_state \<Rightarrow> request \<times> 'w alloc_state" where
  "tryPatch api args i gs s =
     (case al_patchStatus api (as_world s) (alloc_base gs) (alloc_new args (al_now api) gs) of
        (w, Inl e) \<Rightarrow>
          (Sending args i e gs,
           emit [Inc (patch_error_metric e) [buildNameLabel (alloc_new args (al_now api) gs)]] (s\<lparr>as_world := w\<rparr>))
      | (w, Inr gs2) \<Rightarrow> (Granted args i gs2, s\<lparr>as_world := w\<rparr>))"

fun requestStep :: "'w alloc_api \<Rightarrow> request \<Rightarrow> 'w alloc_shared \<Rightarrow> (request \<times> 'w alloc_shared) option" where
  "requestStep api (Arrived meth reqBody) (s, ch) = Some (checkRequest api meth reqBody (as_world s), (s, ch))"
| "requestStep api (Searching args) (s, ch) = Some (searchSession api args (as_world s), (s, ch))"
| "requestStep api (Trying args i err) (s, ch) = (case tryPop args i err s of (q, s') \<Rightarrow> Some (q, (s', ch)))"
| "requestStep api (Taken args i gs) (s, ch) = (case tryPatch api args i gs s of (q, s') \<Rightarrow> Some (q, (s', ch)))"
| "requestStep api (Sending args i e gs) (s, ch) =
     (if length ch < eventsCapacity
      then Some (Trying args (Suc i) (Some e), (s\<lparr>as_events := as_events s @ [qKey gs]\<rparr>, ch @ [qKey gs]))
      else None)"
| "requestStep api (Granted args i gs2) (s, ch) =
     (case alloc_success api args i gs2 s of (s', resp) \<Rightarrow> Some (Served args gs2 resp, (s', ch)))"
| "requestStep api (Served args gs2 resp) (s, ch) = None"
| "requestStep api (Answered resp) (s, ch) = None"

fun response_of :: "request \<Rightarrow> http_response option" where
  "response_of (Served args gs resp) = Some resp"
| "response_of (Answered resp) = Some resp"
| "response_of q = None"

section \<open>A request alone\<close>

text \<open>The operations of one goroutine while nobody else moves.\<close>

fun run_alone :: "nat \<Rightarrow> 'w alloc_api \<Rightarrow> request \<Rightarrow> 'w alloc_shared \<Rightarrow> request \<times> 'w alloc_shared" where
  "run_alone 0 api q y = (q, y)"
| "run_alone (Suc n) api q y = (case requestStep api q y of None \<Rightarrow> (q, y) | Some (q', y') \<Rightarrow> run_alone n api q' y')"

lemma run_alone_answered [simp]:
  "run_alone n api (Answered r) y = (Answered r, y)" "run_alone n api (Served a g r) y = (Served a g r, y)"
  by (cases n; cases y; simp)+

lemma emit_events: "(emit es s)\<lparr>as_events := xs\<rparr> = emit es (s\<lparr>as_events := xs\<rparr>)"
  by (cases s) (simp add: emit_def)

lemma run_alone_loop:
  assumes "length ch + n \<le> eventsCapacity" and "n + i = allocationTries" and "3 * n + 1 \<le> k"
    and "allocLoop api args n i err s = (s', resp)"
  shows "\<exists>q ch'. run_alone k api (Trying args i err) (s, ch) = (q, (s', ch')) \<and> response_of q = Some resp"
  using assms
proof (induction n arbitrary: i err s ch k)
  case 0
  then obtain k' where "k = Suc k'" by (cases k) auto
  with 0 show ?case by (auto simp: tryPop_def)
next
  case (Suc n)
  have "3 \<le> k" "3 * n + 1 \<le> k - 3" using Suc.prems(3) by simp_all
  then obtain k' where k: "k = Suc (Suc (Suc k'))" "3 * n + 1 \<le> k'"
    by (metis One_nat_def Suc_eq_plus1 add.assoc le_add_diff_inverse2 numeral_3_eq_3 add_Suc_right)
  obtain q r where pop: "gsq_PopFromQueue (as_queue s) (aa_BuildID args) = (q, r)" by fastforce
  have i: "i < allocationTries" using Suc.prems(2) by simp
  show ?case
  proof (cases r)
    case None
    then show ?thesis using Suc.prems(4) pop i unfolding k(1) by (auto simp: tryPop_def)
  next
    case (Some gs)
    obtain w pr where patch: "al_patchStatus api (as_world s) (alloc_base gs) (alloc_new args (al_now api) gs) = (w, pr)"
      by fastforce
    show ?thesis
    proof (cases pr)
      case (Inl e)
      let ?s1 = "emit [Inc (patch_error_metric e) [buildNameLabel (alloc_new args (al_now api) gs)]]
        (s\<lparr>as_queue := q, as_world := w, as_events := as_events s @ [qKey gs]\<rparr>)"
      have "allocLoop api args n (Suc i) (Some e) ?s1 = (s', resp)"
        using Suc.prems(4) pop Some patch Inl by simp
      from Suc.IH [OF _ _ k(2) this, of "ch @ [qKey gs]"] Suc.prems(1,2) obtain q' ch' where
        IH: "run_alone k' api (Trying args (Suc i) (Some e)) (?s1, ch @ [qKey gs]) = (q', (s', ch'))" "response_of q' = Some resp"
        by auto
      have "run_alone k api (Trying args i err) (s, ch) = run_alone k' api (Trying args (Suc i) (Some e)) (?s1, ch @ [qKey gs])"
        using pop Some patch Inl i Suc.prems(1) unfolding k(1)
        by (simp add: tryPop_def tryPatch_def emit_events)
      with IH show ?thesis by auto
    next
      case (Inr gs2)
      have "alloc_success api args i gs2 (s\<lparr>as_queue := q, as_world := w\<rparr>) = (s', resp)"
        using Suc.prems(4) pop Some patch Inr by simp
      then have "run_alone k api (Trying args i err) (s, ch) = (Served args gs2 resp, (s', ch))"
        using pop Some patch Inr i unfolding k(1) by (simp add: tryPop_def tryPatch_def)
      then show ?thesis by simp
    qed
  qed
qed


text \<open>What a request may be after its checks and after its search.\<close>

lemma checkRequest_cases:
  obtains (rejected) r where "checkRequest api meth reqBody w = Answered r"
  | (accepted) args where "checkRequest api meth reqBody w = Searching args" "al_decode api reqBody = Inr args"
    "validateAllocateArgs args"
proof -
  have "(\<exists>r. checkRequest api meth reqBody w = Answered r) \<or>
      (\<exists>args. checkRequest api meth reqBody w = Searching args \<and> al_decode api reqBody = Inr args \<and> validateAllocateArgs args)"
    by (simp add: checkRequest_def split: sum.split if_split)
  with rejected accepted show ?thesis by blast
qed

lemma searchSession_cases:
  obtains (found) r where "searchSession api args w = Answered r"
  | (missing) "searchSession api args w = Trying args 0 None" "al_listSession api w (aa_SessionID args) (aa_BuildID args) = Inr []"
proof (cases "al_listSession api w (aa_SessionID args) (aa_BuildID args)")
  case (Inl e)
  then show ?thesis by (intro found) (simp add: searchSession_def)
next
  case (Inr gss)
  show ?thesis
  proof (cases gss)
    case Nil
    with Inr show ?thesis by (intro missing) (simp_all add: searchSession_def)
  next
    case (Cons g rest)
    with Inr show ?thesis by (cases rest) (auto intro!: found simp: searchSession_def)
  qed
qed

lemma handle_checked:
  "handleAllocationRequest api meth reqBody s =
     (case checkRequest api meth reqBody (as_world s) of
        Answered r \<Rightarrow> (s, r)
      | Searching args \<Rightarrow>
          (case searchSession api args (as_world s) of
             Answered r \<Rightarrow> (s, r)
           | q \<Rightarrow> allocLoop api args allocationTries 0 None s))"
  unfolding handleAllocationRequest_def checkRequest_def searchSession_def
  by (simp del: allocLoop.simps split: sum.split if_split)

lemma run_alone_checked:
  assumes "length ch + allocationTries \<le> eventsCapacity"
    and "handleAllocationRequest api meth reqBody s = (s', resp)"
  shows "\<exists>q ch'. run_alone 12 api (Arrived meth reqBody) (s, ch) = (q, (s', ch')) \<and> response_of q = Some resp"
proof -
  have twelve: "(12 :: nat) = Suc (Suc 10)" by simp
  show ?thesis
  proof (cases rule: checkRequest_cases [of api meth reqBody "as_world s"])
    case (rejected r)
    have two: "run_alone (Suc (Suc n)) api (Arrived meth reqBody) (s, ch) = (Answered r, (s, ch))" for n
      using rejected by simp
    show ?thesis using rejected assms(2) unfolding twelve two by (simp add: handle_checked)
  next
    case (accepted args)
    show ?thesis
    proof (cases rule: searchSession_cases [of api args "as_world s"])
      case (found r)
      have two: "run_alone (Suc (Suc n)) api (Arrived meth reqBody) (s, ch) = (Answered r, (s, ch))" for n
        using accepted found by simp
      show ?thesis using found accepted(1) assms(2) unfolding twelve two by (simp add: handle_checked)
    next
      case missing
      have two: "run_alone (Suc (Suc n)) api (Arrived meth reqBody) (s, ch) = run_alone n api (Trying args 0 None) (s, ch)" for n
        using accepted missing by simp
      have "allocLoop api args allocationTries 0 None s = (s', resp)"
        using assms(2) missing accepted(1) by (simp add: handle_checked del: allocLoop.simps)
      with run_alone_loop [of ch allocationTries 0 10] assms(1) show ?thesis unfolding twelve two by simp
    qed
  qed
qed

section \<open>Requests among others\<close>

text \<open>
  \<open>past w\<close> has every version that an object has had in the world \<open>w\<close>. A world is honest when what is stored
  is of the past and no GameServer that has been Active stands by again; the rest of the cluster may change it
  to any honest world with a longer past.
\<close>

definition later :: "('w \<Rightarrow> versions) \<Rightarrow> 'w \<Rightarrow> 'w \<Rightarrow> bool" where
  "later past w w' \<longleftrightarrow> (\<forall>k. past w k \<subseteq>\<^sub>m past w' k)"

definition was_active :: "versions \<Rightarrow> string \<times> string \<Rightarrow> bool" where
  "was_active versions k \<longleftrightarrow> (\<exists>v g. versions k v = Some g \<and> gs_State g = GameServerStateActive)"

definition honest :: "('w \<Rightarrow> gs_store) \<Rightarrow> ('w \<Rightarrow> versions) \<Rightarrow> 'w \<Rightarrow> bool" where
  "honest cur past w \<longleftrightarrow> store_consistent (past w) (cur w) \<and>
     (\<forall>k g. cur w k = Some g \<longrightarrow> gs_State g = GameServerStateStandingBy \<longrightarrow> \<not> was_active (past w) k)"

text \<open>What the API server promises of the patch of an allocation, beside \<open>optimistic_patch\<close>.\<close>

definition keeps_past :: "('w \<Rightarrow> gs_store) \<Rightarrow> ('w \<Rightarrow> versions) \<Rightarrow> 'w alloc_api \<Rightarrow> bool" where
  "keeps_past cur past api \<longleftrightarrow>
     (\<forall>w args now x w' r. honest cur past w \<longrightarrow> aa_SessionID args \<noteq> [] \<longrightarrow>
        al_patchStatus api w (alloc_base x) (alloc_new args now x) = (w', r) \<longrightarrow> honest cur past w' \<and> later past w w')"

text \<open>The reconciler, the rest of the cluster, and the controller's source, which empties the channel.\<close>

inductive alloc_others :: "('w \<Rightarrow> gs_store) \<Rightarrow> ('w \<Rightarrow> versions) \<Rightarrow> 'w alloc_shared \<Rightarrow> 'w alloc_shared \<Rightarrow> bool"
  for cur past where
  others_reconcile: "cache_read (past (as_world s)) ns n r \<Longrightarrow>
    alloc_others cur past (s, ch) (s\<lparr>as_queue := fst (alloc_Reconcile ns n r (as_queue s))\<rparr>, ch)"
| others_world: "honest cur past w \<Longrightarrow> later past (as_world s) w \<Longrightarrow>
    alloc_others cur past (s, ch) (s\<lparr>as_world := w\<rparr>, ch)"
| others_receive: "alloc_others cur past (s, k # ch) (s, ch)"

text \<open>Every request has its own clock.\<close>

definition requestWork :: "'w alloc_api \<Rightarrow> (nat \<Rightarrow> int) \<Rightarrow> (request, 'w alloc_shared) work" where
  "requestWork api clock i q y = requestStep (api\<lparr>al_now := clock i\<rparr>) q y"

abbreviation noPanic :: "request \<Rightarrow> bool" where "noPanic \<equiv> \<lambda>q. False"

definition requests :: "(string \<times> string) list \<Rightarrow> request list" where
  "requests rs = map (\<lambda>(m, b). Arrived m b) rs"

fun args_of :: "request \<Rightarrow> AllocateArgs option" where
  "args_of (Searching args) = Some args"
| "args_of (Trying args i err) = Some args"
| "args_of (Taken args i gs) = Some args"
| "args_of (Sending args i e gs) = Some args"
| "args_of (Granted args i g) = Some args"
| "args_of (Served args g resp) = Some args"
| "args_of q = None"

text \<open>The GameServer that a request got, and the one it is trying to get.\<close>

fun granted :: "request \<Rightarrow> (AllocateArgs \<times> GameServer) option" where
  "granted (Granted args i g) = Some (args, g)"
| "granted (Served args g resp) = Some (args, g)"
| "granted q = None"

fun claimed :: "request \<Rightarrow> GameServerForQueue option" where
  "claimed (Taken args i gs) = Some gs"
| "claimed (Sending args i e gs) = Some gs"
| "claimed q = None"

definition grantKey :: "request \<Rightarrow> (string \<times> string) option" where
  "grantKey q = map_option (\<lambda>(args, g). gsKey g) (granted q)"

definition asked :: "'w alloc_api \<Rightarrow> request \<Rightarrow> request \<Rightarrow> bool" where
  "asked api j q \<longleftrightarrow>
     (case j of
        Arrived m b \<Rightarrow>
          (case q of
             Arrived m' b' \<Rightarrow> q = j
           | _ \<Rightarrow> \<forall>args. args_of q = Some args \<longrightarrow> al_decode api b = Inr args \<and> validateAllocateArgs args)
      | _ \<Rightarrow> True)"

fun request_rest :: "request \<Rightarrow> nat" where
  "request_rest (Arrived m b) = 12"
| "request_rest (Searching args) = 11"
| "request_rest (Trying args i err) = 1 + 3 * (3 - i)"
| "request_rest (Taken args i gs) = 3 + 3 * (3 - Suc i)"
| "request_rest (Sending args i e gs) = 2 + 3 * (3 - Suc i)"
| "request_rest (Granted args i g) = 1"
| "request_rest (Served args g resp) = 0"
| "request_rest (Answered resp) = 0"

text \<open>What a request knows at its program counter.\<close>

definition request_knows :: "('w \<Rightarrow> versions) \<Rightarrow> request \<Rightarrow> 'w alloc_shared \<Rightarrow> bool" where
  "request_knows past q y \<longleftrightarrow>
     (\<forall>args. args_of q = Some args \<longrightarrow> aa_SessionID args \<noteq> []) \<and>
     (\<forall>args x. args_of q = Some args \<longrightarrow> claimed q = Some x \<longrightarrow>
        (\<exists>g. past (as_world (fst y)) (qKey x) (q_ResourceVersion x) = Some g \<and>
           gs_State g = GameServerStateStandingBy \<and> gss_BuildID (gs_Spec g) = aa_BuildID args)) \<and>
     (\<forall>args g. granted q = Some (args, g) \<longrightarrow>
        is_version (past (as_world (fst y))) g \<and> gs_State g = GameServerStateActive \<and>
        st_SessionID (gs_Status g) = aa_SessionID args)"

definition service_good :: "('w \<Rightarrow> gs_store) \<Rightarrow> ('w \<Rightarrow> versions) \<Rightarrow> 'w alloc_shared \<Rightarrow> bool" where
  "service_good cur past y \<longleftrightarrow> honest cur past (as_world (fst y)) \<and> alloc_inv (past (as_world (fst y))) (fst y)"

lemma later_refl [simp]: "later past w w"
  by (simp add: later_def)

lemma laterD: "later past w w' \<Longrightarrow> past w k v = Some g \<Longrightarrow> past w' k v = Some g"
  unfolding later_def by (metis domI map_le_def)

lemma queued_standing_later: "later past w w' \<Longrightarrow> queued_standing (past w) q \<Longrightarrow> queued_standing (past w') q"
  unfolding queued_standing_def by (meson laterD)

lemma request_knows_later:
  "request_knows past r (s, ch) \<Longrightarrow> later past (as_world s) (as_world s') \<Longrightarrow> request_knows past r (s', ch')"
  unfolding request_knows_def is_version_def fst_conv by (meson laterD)

text \<open>The one operation that changes a GameServer, and what it does.\<close>

definition takes :: "('w \<Rightarrow> gs_store) \<Rightarrow> int \<Rightarrow> 'w \<Rightarrow> 'w \<Rightarrow> request \<Rightarrow> request \<Rightarrow> bool" where
  "takes cur now w w' q q' \<longleftrightarrow>
     (\<exists>args i x g g'. q = Taken args i x \<and> q' = Granted args i g' \<and> cur w (qKey x) = Some g \<and> gsKey g = qKey x \<and>
        gs_State g = GameServerStateStandingBy \<and> gss_BuildID (gs_Spec g) = aa_BuildID args \<and>
        allocated args now g g' \<and> cur w' = (cur w)(qKey x \<mapsto> g'))"

lemma tryPatch_spec:
  assumes "optimistic_patch cur (al_patchStatus api)" and "keeps_past cur past api"
    and "service_good cur past (s, ch)" and "request_knows past (Taken args i x) (s, ch)"
    and "tryPatch api args i x s = (q', s')"
  shows "service_good cur past (s', ch) \<and> later past (as_world s) (as_world s') \<and> request_knows past q' (s', ch) \<and>
    ((grantKey q' = None \<and> cur (as_world s') = cur (as_world s)) \<or>
     takes cur (al_now api) (as_world s) (as_world s') (Taken args i x) q')"
proof -
  obtain w r where p: "al_patchStatus api (as_world s) (alloc_base x) (alloc_new args (al_now api) x) = (w, r)" by fastforce
  from assms(4) obtain g0 where ne: "aa_SessionID args \<noteq> []"
    and g0: "past (as_world s) (qKey x) (q_ResourceVersion x) = Some g0" "gs_State g0 = GameServerStateStandingBy"
      "gss_BuildID (gs_Spec g0) = aa_BuildID args"
    by (auto simp: request_knows_def)
  from assms(3) have hon: "honest cur past (as_world s)" and inv: "alloc_inv (past (as_world s)) s"
    by (simp_all add: service_good_def)
  from assms(2) [unfolded keeps_past_def, rule_format, OF hon ne p] have h: "honest cur past w" "later past (as_world s) w"
    by simp_all
  have sc: "store_consistent (past (as_world s)) (cur (as_world s))" using hon by (simp add: honest_def)
  note P = patch_version [OF assms(1) ne sc g0 p]
  have w: "as_world s' = w" "as_queue s' = as_queue s" using assms(5) p by (auto simp: tryPatch_def split: sum.splits)
  have good: "service_good cur past (s', ch)" "later past (as_world s) (as_world s')"
    using h inv w by (simp_all add: service_good_def alloc_inv_def queued_standing_later)
  show ?thesis
  proof (cases r)
    case (Inl e)
    then have "q' = Sending args i e x" using assms(5) p by (simp add: tryPatch_def)
    then show ?thesis
      using good P Inl w g0 ne laterD [OF h(2) g0(1)] by (auto simp: request_knows_def grantKey_def)
  next
    case (Inr g')
    then have q: "q' = Granted args i g'" using assms(5) p by (simp add: tryPatch_def)
    from P Inr obtain g where g: "cur (as_world s) (qKey x) = Some g" "gs_State g = GameServerStateStandingBy"
      "gss_BuildID (gs_Spec g) = aa_BuildID args" "gsKey g = qKey x" "allocated args (al_now api) g g'"
      "cur w = (cur (as_world s))(qKey x \<mapsto> g')" by auto
    have v: "gsKey g' = qKey x \<and> is_version (past w) g'"
      using h(1) g(6) unfolding honest_def store_consistent_def by (metis fun_upd_same)
    then have "takes cur (al_now api) (as_world s) (as_world s') (Taken args i x) q'"
      using g q w unfolding takes_def by blast
    then show ?thesis using good q g(5) v ne w by (auto simp: request_knows_def allocated_def)
  qed
qed

lemma tryPop_spec:
  assumes "service_good cur past (s, ch)" and "aa_SessionID args \<noteq> []" and "tryPop args i err s = (q', s')"
  shows "service_good cur past (s', ch) \<and> as_world s' = as_world s \<and> request_knows past q' (s', ch) \<and> grantKey q' = None"
proof -
  let ?v = "past (as_world s)"
  obtain q r where pop: "gsq_PopFromQueue (as_queue s) (aa_BuildID args) = (q, r)" by fastforce
  from assms(1) have inv: "gsq_inv (as_queue s)" "queued_standing ?v (as_queue s)" and hon: "honest cur past (as_world s)"
    by (auto simp: service_good_def alloc_inv_def)
  note p = gsq_pop [OF inv(1) pop] and qs = queued_standing_pop [OF inv pop]
  show ?thesis
  proof (cases "i < allocationTries")
    case False
    with assms show ?thesis by (auto simp: tryPop_def request_knows_def grantKey_def)
  next
    case i: True
    show ?thesis
    proof (cases r)
      case None
      then have "q' = Answered (tooManyRequestsError ''not enough standingBy'' ''there are not enough standingBy servers'')"
        "as_world s' = as_world s" "as_queue s' = q"
        using assms(3) pop i by (auto simp: tryPop_def)
      then show ?thesis using p(1) qs hon by (simp add: service_good_def alloc_inv_def request_knows_def grantKey_def)
    next
      case (Some x)
      then have e: "q' = Taken args i x" "as_world s' = as_world s" "as_queue s' = q"
        using assms(3) pop i by (auto simp: tryPop_def)
      have "x \<in># contents (as_queue s) (aa_BuildID args)" using p(5) [OF Some] by simp
      with inv(2) obtain g where "?v (qKey x) (q_ResourceVersion x) = Some g"
        "gs_State g = GameServerStateStandingBy" "gss_BuildID (gs_Spec g) = aa_BuildID args"
        unfolding queued_standing_def by blast
      then show ?thesis using e p(1) qs hon assms(2)
        by (simp add: service_good_def alloc_inv_def request_knows_def grantKey_def)
    qed
  qed
qed

lemma requestStep_spec:
  assumes "optimistic_patch cur (al_patchStatus api)" and "keeps_past cur past api"
    and "service_good cur past y" and "request_knows past q y" and "requestStep api q y = Some (q', y')"
  shows "service_good cur past y' \<and> later past (as_world (fst y)) (as_world (fst y')) \<and> request_knows past q' y' \<and>
    ((grantKey q' = grantKey q \<and> cur (as_world (fst y')) = cur (as_world (fst y))) \<or>
     takes cur (al_now api) (as_world (fst y)) (as_world (fst y')) q q')"
proof -
  obtain s ch where y: "y = (s, ch)" by fastforce
  show ?thesis
  proof (cases q)
    case (Arrived m b)
    show ?thesis
    proof (cases rule: checkRequest_cases [of api m b "as_world s"])
      case (rejected r)
      then have "q' = Answered r" "y' = y" using assms(5) Arrived y by simp_all
      then show ?thesis using assms(3) Arrived by (simp add: request_knows_def grantKey_def)
    next
      case (accepted args)
      then have "q' = Searching args" "y' = y" using assms(5) Arrived y by simp_all
      then show ?thesis using assms(3) Arrived validateAllocateArgs_session [OF accepted(3)]
        by (simp add: request_knows_def grantKey_def)
    qed
  next
    case (Searching args)
    have e: "q' = searchSession api args (as_world s)" "y' = y" using assms(5) Searching y by simp_all
    show ?thesis
    proof (cases rule: searchSession_cases [of api args "as_world s"])
      case (found r)
      with e show ?thesis using assms(3) Searching by (simp add: request_knows_def grantKey_def)
    next
      case missing
      with e show ?thesis using assms(3,4) Searching by (simp add: request_knows_def grantKey_def)
    qed
  next
    case (Trying args i err)
    obtain q1 s1 where t: "tryPop args i err s = (q1, s1)" by fastforce
    have "aa_SessionID args \<noteq> []" using assms(4) Trying by (simp add: request_knows_def)
    from tryPop_spec [OF assms(3) [unfolded y] this t] show ?thesis
      using assms(5) Trying y t by (auto simp: grantKey_def)
  next
    case (Taken args i gs)
    obtain q1 s1 where t: "tryPatch api args i gs s = (q1, s1)" by fastforce
    from tryPatch_spec [OF assms(1,2) assms(3,4) [unfolded y Taken] t] show ?thesis
      using assms(5) Taken y t by (auto simp: grantKey_def)
  next
    case (Sending args i e gs)
    then show ?thesis using assms(3-5) y
      by (auto simp: request_knows_def grantKey_def service_good_def alloc_inv_def split: if_splits)
  next
    case (Granted args i g)
    obtain s1 r where t: "alloc_success api args i g s = (s1, r)" by fastforce
    with alloc_success_simps [of api args i g s] have "as_queue s1 = as_queue s" "as_world s1 = as_world s" by simp_all
    then show ?thesis using assms(3-5) Granted y t
      by (auto simp: request_knows_def grantKey_def service_good_def alloc_inv_def)
  qed (use assms(5) y in simp_all)
qed

lemma taken_not_owned:
  assumes "service_good cur past y" and "request_knows past r y" and "cur (as_world (fst y)) k = Some g"
    and "gs_State g = GameServerStateStandingBy"
  shows "grantKey r \<noteq> Some k"
proof
  assume "grantKey r = Some k"
  then obtain args h where h: "granted r = Some (args, h)" "gsKey h = k" by (auto simp: grantKey_def)
  with assms(2) have "is_version (past (as_world (fst y))) h" "gs_State h = GameServerStateActive"
    by (simp_all add: request_knows_def)
  then have "was_active (past (as_world (fst y))) k" using h(2) by (auto simp: was_active_def is_version_def)
  with assms(1,3,4) show False unfolding service_good_def honest_def by blast
qed

lemma others_spec:
  assumes "alloc_others cur past y y'" and "service_good cur past y"
  shows "service_good cur past y' \<and> later past (as_world (fst y)) (as_world (fst y'))"
  using assms(1)
proof cases
  case (others_reconcile s ns n r ch)
  with assms(2) alloc_Reconcile_inv [of "as_queue s" "past (as_world s)" ns n r] show ?thesis
    by (simp add: service_good_def alloc_inv_def)
next
  case (others_world w s ch)
  with assms(2) show ?thesis by (simp add: service_good_def alloc_inv_def queued_standing_later)
next
  case (others_receive s k ch)
  with assms(2) show ?thesis by (simp add: service_good_def)
qed

lemma clock_api [simp]: "optimistic_patch cur (al_patchStatus (api\<lparr>al_now := t\<rparr>)) = optimistic_patch cur (al_patchStatus api)"
  "keeps_past cur past (api\<lparr>al_now := t\<rparr>) = keeps_past cur past api"
  by (simp_all add: keeps_past_def)

lemma request_knows_y: "request_knows past r y \<Longrightarrow> later past (as_world (fst y)) (as_world (fst y')) \<Longrightarrow> request_knows past r y'"
  using request_knows_later [of past r "fst y" "snd y" "fst y'" "snd y'"] by simp

text \<open>
  The service as the API server keeps its promises. Without them the steps are the same and nothing is claimed.
\<close>

definition api_keeps :: "('w \<Rightarrow> gs_store) \<Rightarrow> ('w \<Rightarrow> versions) \<Rightarrow> 'w alloc_api \<Rightarrow> bool" where
  "api_keeps cur past api \<longleftrightarrow> optimistic_patch cur (al_patchStatus api) \<and> keeps_past cur past api"

interpretation req: goroutine_assertions "requestWork api clock" noPanic "alloc_others cur past"
    "\<lambda>y. api_keeps cur past api \<and> service_good cur past y" "request_knows past" grantKey
  for api :: "'w alloc_api" and clock cur past
proof
  fix q q' r :: request and y y' :: "'w alloc_shared" and i k
  assume g: "api_keeps cur past api \<and> service_good cur past y"
  note S = requestStep_spec [of cur "api\<lparr>al_now := clock i\<rparr>" past y q q' y', unfolded clock_api]
  show "(api_keeps cur past api \<and> service_good cur past y') \<and> request_knows past q' y'"
    if "request_knows past q y" "requestWork api clock i q y = Some (q', y')"
    using S that g by (simp add: requestWork_def api_keeps_def)
  show "request_knows past r y'" if "request_knows past q y" "requestWork api clock i q y = Some (q', y')" "request_knows past r y"
    using S that g by (auto simp: requestWork_def api_keeps_def intro: request_knows_y)
  show "api_keeps cur past api \<and> service_good cur past y'" if "alloc_others cur past y y'"
    using others_spec [OF that] g by simp
  show "request_knows past r y'" if "alloc_others cur past y y'" "request_knows past r y"
    using others_spec [OF that(1)] g that(2) by (auto intro: request_knows_y)
  show "grantKey q = Some k \<or> grantKey r \<noteq> Some k"
    if "request_knows past q y" "requestWork api clock i q y = Some (q', y')" "grantKey q' = Some k" "request_knows past r y"
  proof -
    note o = that(3) and r = that(4)
    from S that g have "grantKey q' = grantKey q \<or> takes cur (clock i) (as_world (fst y)) (as_world (fst y')) q q'"
      by (auto simp: requestWork_def api_keeps_def)
    then show ?thesis
    proof
      assume "takes cur (clock i) (as_world (fst y)) (as_world (fst y')) q q'"
      then obtain g x where "cur (as_world (fst y)) (qKey x) = Some g" "gs_State g = GameServerStateStandingBy" "k = qKey x"
        using o by (auto simp: takes_def grantKey_def allocated_def)
      with taken_not_owned [OF _ r] g show ?thesis by blast
    next
      assume "grantKey q' = grantKey q"
      with o show ?thesis by simp
    qed
  qed
qed

lemma tryPop_shape:
  "tryPop args i err s = (q', s') \<Longrightarrow> (\<exists>r. q' = Answered r) \<or> (\<exists>x. q' = Taken args i x \<and> i < allocationTries)"
  by (auto simp: tryPop_def split: if_splits prod.splits option.splits)

lemma tryPatch_shape:
  "tryPatch api args i x s = (q', s') \<Longrightarrow> (\<exists>e. q' = Sending args i e x) \<or> (\<exists>g. q' = Granted args i g)"
  by (auto simp: tryPatch_def split: prod.splits sum.splits)

lemma requestStep_moves:
  assumes "requestStep api q (s, ch) = Some (q', y')"
  shows "request_rest q' < request_rest q \<and> (asked api j q \<longrightarrow> asked api j q')"
proof (cases q)
  case (Arrived m b)
  show ?thesis
  proof (cases rule: checkRequest_cases [of api m b "as_world s"])
    case (rejected r)
    then have "q' = Answered r" using assms Arrived by simp
    then show ?thesis using Arrived by (auto simp: asked_def split: request.splits)
  next
    case (accepted args)
    then have "q' = Searching args" using assms Arrived by simp
    then show ?thesis using Arrived accepted by (auto simp: asked_def split: request.splits)
  qed
next
  case (Searching args)
  then have e: "q' = searchSession api args (as_world s)" using assms by simp
  show ?thesis
  proof (cases rule: searchSession_cases [of api args "as_world s"])
    case (found r)
    with e Searching show ?thesis by (auto simp: asked_def split: request.splits)
  next
    case missing
    with e Searching show ?thesis by (auto simp: asked_def split: request.splits)
  qed
next
  case (Trying args i err)
  obtain q1 s1 where t: "tryPop args i err s = (q1, s1)" by fastforce
  from tryPop_shape [OF t] show ?thesis using assms Trying t by (auto simp: asked_def split: request.splits)
next
  case (Taken args i x)
  obtain q1 s1 where t: "tryPatch api args i x s = (q1, s1)" by fastforce
  from tryPatch_shape [OF t] show ?thesis using assms Taken t by (auto simp: asked_def split: request.splits)
next
  case (Sending args i e x)
  then show ?thesis using assms by (auto simp: asked_def split: if_splits request.splits)
next
  case (Granted args i g)
  obtain s1 r where "alloc_success api args i g s = (s1, r)" by fastforce
  with Granted show ?thesis using assms by (auto simp: asked_def split: request.splits)
qed (use assms in simp_all)

lemma clock_asked [simp]: "asked (api\<lparr>al_now := t\<rparr>) = asked api"
  by (intro ext) (simp add: asked_def split: request.split)

interpretation req_moves: goroutines "requestWork api clock" noPanic "alloc_others cur past" request_rest "asked api" "\<lambda>y. True"
  for api :: "'w alloc_api" and clock cur past
proof
  fix q q' j :: request and y y' :: "'w alloc_shared" and i
  assume w: "requestWork api clock i q y = Some (q', y')"
  obtain s ch where "y = (s, ch)" by fastforce
  with w have "requestStep (api\<lparr>al_now := clock i\<rparr>) q (s, ch) = Some (q', y')" by (simp add: requestWork_def)
  from requestStep_moves [OF this, of j]
  show "request_rest q' < request_rest q" and "asked api j q \<Longrightarrow> asked api j q'" by simp_all
qed simp_all

section \<open>Properties\<close>




section \<open>One session, twice\<close>

definition two_requests :: "request \<Rightarrow> request \<Rightarrow> 'w alloc_shared \<Rightarrow> (request, 'w alloc_shared) pool" where
  "two_requests a b y = \<lparr>waiting = [], routines = [a, b], shared = y\<rparr>"

lemma first_moves:
  "requestWork api clock 0 a y = Some (a', y') \<Longrightarrow>
   pool_runs (requestWork api clock) noPanic env ms (two_requests a' b y') p \<Longrightarrow>
   pool_runs (requestWork api clock) noPanic env (Routine 0 # ms) (two_requests a b y) p"
  using pool_more [OF pool_run [where p = "two_requests a b y" and i = 0 and work = "requestWork api clock" and env = env
        and crashed = noPanic and q = a' and s = y'], of ms p]
  by (simp add: two_requests_def)

lemma second_moves:
  "requestWork api clock 1 b y = Some (b', y') \<Longrightarrow>
   pool_runs (requestWork api clock) noPanic env ms (two_requests a b' y') p \<Longrightarrow>
   pool_runs (requestWork api clock) noPanic env (Routine 1 # ms) (two_requests a b y) p"
  using pool_more [OF pool_run [where p = "two_requests a b y" and i = 1 and work = "requestWork api clock" and env = env
        and crashed = noPanic and q = b' and s = y'], of ms p]
  by (simp add: two_requests_def)

lemma both_start:
  assumes "pool_runs work noPanic env ms (two_requests a b y) p"
  shows "pool_runs work noPanic env (Spawner # Spawner # ms) (start_pool [a, b] y) p"
proof -
  let ?p1 = "\<lparr>waiting = [b], routines = [a], shared = y\<rparr>"
  have "pool_step work noPanic env Spawner (start_pool [a, b] y) ?p1"
    using pool_spawn [where p = "start_pool [a, b] y" and crashed = noPanic and work = work and env = env and j = a and js = "[b]"]
    by (simp add: start_pool_def)
  moreover have "pool_step work noPanic env Spawner ?p1 (two_requests a b y)"
    using pool_spawn [where p = ?p1 and crashed = noPanic and work = work and env = env and j = b and js = "[]"]
    by (simp add: two_requests_def)
  ultimately show ?thesis using assms by (blast intro: pool_more)
qed

lemma both_granted:
  assumes "al_decode api b = Inr args" and "validateAllocateArgs args"
    and "al_decode api b' = Inr args'" and "validateAllocateArgs args'"
    and same: "aa_SessionID args' = aa_SessionID args" "aa_BuildID args' = aa_BuildID args"
    and "al_listBuilds api (as_world s) (aa_BuildID args) = Inr builds" and "builds \<noteq> []"
    and "al_listSession api (as_world s) (aa_SessionID args) (aa_BuildID args) = Inr []"
    and "gsq_PopFromQueue (as_queue s) (aa_BuildID args) = (q1, Some x)"
    and "gsq_PopFromQueue q1 (aa_BuildID args) = (q2, Some y)"
    and "al_patchStatus api (as_world s) (alloc_base x) (alloc_new args (clock 0) x) = (w1, Inr g)"
    and "al_patchStatus api w1 (alloc_base y) (alloc_new args' (clock 1) y) = (w2, Inr h)"
    and "\<forall>rs. al_encodeError api rs = None"
  shows "\<exists>ms p. Others \<notin> set ms \<and>
    pool_runs (requestWork api clock) noPanic env ms (start_pool (requests [(''POST'', b), (''POST'', b')]) (s, [])) p \<and>
    map response_of (routines p) = [Some (respond 200 (AllocBody (sessionResponse (aa_SessionID args) g))),
                  Some (respond 200 (AllocBody (sessionResponse (aa_SessionID args) h)))] \<and>
    map (map_option snd \<circ> granted) (routines p) = [Some g, Some h] \<and> as_world (fst (shared p)) = w2"
proof -
  let ?W = "requestWork api clock" and ?A = "Arrived ''POST'' b" and ?S = "Searching args" and ?T = "Trying args 0 None"
  let ?B = "Arrived ''POST'' b'" and ?S' = "Searching args'" and ?T' = "Trying args' 0 None"
  let ?x = "Taken args 0 x" and ?y = "Taken args' 0 y" and ?g = "Granted args 0 g" and ?h = "Granted args' 0 h"
  let ?rg = "Served args g (respond 200 (AllocBody (sessionResponse (aa_SessionID args) g)))"
  let ?rh = "Served args' h (respond 200 (AllocBody (sessionResponse (aa_SessionID args) h)))"
  let ?s1 = "s\<lparr>as_queue := q1\<rparr>" and ?s2 = "s\<lparr>as_queue := q2\<rparr>"
  let ?s3 = "?s2\<lparr>as_world := w1\<rparr>" and ?s4 = "?s2\<lparr>as_world := w2\<rparr>"
  define s5 where "s5 = fst (alloc_success api args 0 g ?s4)"
  define s6 where "s6 = fst (alloc_success api args' 0 h s5)"
  have a: "?W i ?A (t, []) = Some (?S, (t, []))" if "as_world t = as_world s" for i t
    using that assms(1,2,7,8) by (simp add: requestWork_def checkRequest_def)
  have a': "?W i ?B (t, []) = Some (?S', (t, []))" if "as_world t = as_world s" for i t
    using that assms(3,4,7,8) same by (simp add: requestWork_def checkRequest_def)
  have f: "?W i ?S (t, []) = Some (?T, (t, []))" if "as_world t = as_world s" for i t
    using that assms(9) by (simp add: requestWork_def searchSession_def)
  have f': "?W i ?S' (t, []) = Some (?T', (t, []))" if "as_world t = as_world s" for i t
    using that assms(9) same by (simp add: requestWork_def searchSession_def)
  have p0: "?W 0 ?T (s, []) = Some (?x, (?s1, []))" using assms(10) by (simp add: requestWork_def tryPop_def)
  have p1: "?W 1 ?T' (?s1, []) = Some (?y, (?s2, []))" using assms(11) same by (simp add: requestWork_def tryPop_def)
  have t0: "?W 0 ?x (?s2, []) = Some (?g, (?s3, []))" using assms(12) by (simp add: requestWork_def tryPatch_def)
  have t1: "?W 1 ?y (?s3, []) = Some (?h, (?s4, []))" using assms(13) by (simp add: requestWork_def tryPatch_def)
  have a0: "?W 0 ?g (?s4, []) = Some (?rg, (s5, []))"
    using assms(14) by (simp add: requestWork_def s5_def alloc_success_def Let_def)
  have a1: "?W 1 ?h (s5, []) = Some (?rh, (s6, []))"
    using assms(14) same by (simp add: requestWork_def s6_def alloc_success_def Let_def)
  let ?ms = "Spawner # Spawner # Routine 0 # Routine 0 # Routine 1 # Routine 1 # Routine 0 # Routine 1 #
    Routine 0 # Routine 1 # Routine 0 # Routine 1 # []"
  have run: "pool_runs ?W noPanic env ?ms (start_pool [?A, ?B] (s, [])) (two_requests ?rg ?rh (s6, []))"
    by (rule both_start, rule first_moves [OF a], simp, rule first_moves [OF f], simp, rule second_moves [OF a'], simp,
        rule second_moves [OF f'], simp, rule first_moves [OF p0], rule second_moves [OF p1], rule first_moves [OF t0],
        rule second_moves [OF t1], rule first_moves [OF a0], rule second_moves [OF a1], rule pool_stay)
  have w: "as_world s6 = w2" by (simp add: s6_def s5_def)
  show ?thesis
    using run w by (intro exI [of _ ?ms] exI [of _ "two_requests ?rg ?rh (s6, [])"]) (simp_all add: requests_def two_requests_def)
qed

text \<open>An entry of the queue that is as its GameServer is stored, and a patch that does not fail without a reason.\<close>

definition entry_current :: "('w \<Rightarrow> gs_store) \<Rightarrow> 'w \<Rightarrow> string \<Rightarrow> GameServerForQueue \<Rightarrow> bool" where
  "entry_current cur w b x \<longleftrightarrow> (\<exists>g. cur w (qKey x) = Some g \<and> om_ResourceVersion (gs_Meta g) = q_ResourceVersion x \<and>
     om_Labels (gs_Meta g) LabelBuildID = Some b)"

definition patch_available :: "('w \<Rightarrow> gs_store) \<Rightarrow> ('w \<Rightarrow> GameServer \<Rightarrow> GameServer \<Rightarrow> 'w \<times> (api_error + GameServer)) \<Rightarrow> bool" where
  "patch_available cur patch \<longleftrightarrow> (\<forall>w base new g. cur w (gsKey base) = Some g \<longrightarrow>
     om_ResourceVersion (gs_Meta g) = om_ResourceVersion (gs_Meta base) \<longrightarrow> (\<exists>w' g'. patch w base new = (w', Inr g')))"

lemma current_granted:
  assumes "optimistic_patch cur patch" and "patch_available cur patch" and "entry_current cur w b x" and "aa_SessionID args \<noteq> []"
  obtains w' g where "patch w (alloc_base x) (alloc_new args now x) = (w', Inr g)" "gsKey g = qKey x"
    "gs_State g = GameServerStateActive" "st_SessionID (gs_Status g) = aa_SessionID args"
    "om_Labels (gs_Meta g) LabelBuildID = Some b" "cur w' = (cur w)(qKey x \<mapsto> g)"
proof -
  from assms(3) obtain g0 where g0: "cur w (qKey x) = Some g0" "om_ResourceVersion (gs_Meta g0) = q_ResourceVersion x"
    "om_Labels (gs_Meta g0) LabelBuildID = Some b" unfolding entry_current_def by blast
  have "cur w (gsKey (alloc_base x)) = Some g0" "om_ResourceVersion (gs_Meta g0) = om_ResourceVersion (gs_Meta (alloc_base x))"
    using g0 by simp_all
  with assms(2) obtain w' g where p: "patch w (alloc_base x) (alloc_new args now x) = (w', Inr g)"
    unfolding patch_available_def by blast
  from assms(1) [unfolded optimistic_patch_def, rule_format, OF p] g0 have g: "gs_Spec g = gs_Spec g0"
    "om_Labels (gs_Meta g) = om_Labels (gs_Meta g0)" "gsKey g = qKey x" "cur w' = (cur w)(qKey x \<mapsto> g)"
    "gs_Status g = merge_status (gs_Status (alloc_base x)) (gs_Status (alloc_new args now x)) (gs_Status g0)" by auto
  have "gs_State g = GameServerStateActive" "st_SessionID (gs_Status g) = aa_SessionID args"
    using g(5) assms(4) by (simp_all add: merge_status_def merge_field_def alloc_base_def alloc_new_def zero_GameServer_def zero_Status_def)
  with that [OF p] g g0(3) show ?thesis by simp
qed

lemma two_pops:
  assumes "gsq_inv q" and "2 \<le> size (contents q b)"
  obtains q1 q2 x y where "gsq_PopFromQueue q b = (q1, Some x)" "gsq_PopFromQueue q1 b = (q2, Some y)"
    "qKey x \<noteq> qKey y" "x \<in># contents q b" "y \<in># contents q b"
proof -
  obtain q1 r1 where p1: "gsq_PopFromQueue q b = (q1, r1)" by fastforce
  note G1 = gsq_pop [OF assms(1) p1]
  from G1(4) assms(2) obtain x where x: "r1 = Some x" by fastforce
  then have c1: "contents q b = add_mset x (contents q1 b)" using G1(5) by blast
  obtain q2 r2 where p2: "gsq_PopFromQueue q1 b = (q2, r2)" by fastforce
  note G2 = gsq_pop [OF G1(1) p2]
  have "contents q1 b \<noteq> {#}" using c1 assms(2) by auto
  with G2(4) obtain y where y: "r2 = Some y" by blast
  then have c2: "contents q1 b = add_mset y (contents q2 b)" using G2(5) by blast
  have "q_Name x \<noteq> q_Name y" using gsq_names [OF assms(1)] c1 c2 by simp
  with that [of q1 x q2 y] p1 p2 x y c1 c2 show ?thesis by simp
qed

text \<open>A session that two stored GameServers have cannot be asked for.\<close>

lemma session_of_two:
  assumes "lists_sessions cur (al_listSession api) (as_world t)"
    and "cur (as_world t) k = Some g" and "cur (as_world t) l = Some h" and "g \<noteq> h"
    and "\<forall>x \<in> {g, h}. st_SessionID (gs_Status x) = aa_SessionID args \<and> om_Labels (gs_Meta x) LabelBuildID = Some (aa_BuildID args)"
    and "meth = ''POST'' \<or> meth = ''PATCH''" and "al_decode api c = Inr args" and "validateAllocateArgs args"
    and "al_listBuilds api (as_world t) (aa_BuildID args) = Inr builds" and "builds \<noteq> []"
  shows "handleAllocationRequest api meth c t =
      (t, internalServerError ''multiple servers found'' (''Multiple servers found for sessionID '' @ aa_SessionID args))"
proof -
  from assms(1) obtain xs where xs: "al_listSession api (as_world t) (aa_SessionID args) (aa_BuildID args) = Inr xs"
    "set xs = {g \<in> ran (cur (as_world t)). st_SessionID (gs_Status g) = aa_SessionID args \<and>
       om_Labels (gs_Meta g) LabelBuildID = Some (aa_BuildID args)}"
    unfolding lists_sessions_def by blast
  have gh: "g \<in> set xs" "h \<in> set xs"
    using xs(2) ranI [of "cur (as_world t)" k g] ranI [of "cur (as_world t)" l h] assms(2,3,5) by simp_all
  have "card {g, h} \<le> card (set xs)" by (rule card_mono) (use gh in auto)
  also have "\<dots> \<le> length xs" by (rule card_length)
  finally have "1 < length xs" using assms(4) by simp
  then show ?thesis
    using xs(1) assms(6-10) by (auto simp: handle_checked checkRequest_def searchSession_def)
qed

text \<open>
  C9: two requests with the same session at the same time can both get a GameServer. When the queue of the build has two
  GameServers that stand by as they were queued, the session is not in use and the API server does its part, there is an interleaving
  of the two requests alone in which each searches for the session before the other has patched anything: both callers are
  answered 200, with different GameServers, and both GameServers are stored as Active with the one session. From
  then on the session cannot be asked for: as long as the two are stored like this and the listing shows them, every valid request for
  it, by either method and with any cookie and players, is answered 500 and changes nothing.
\<close>

theorem same_session_twice:
  assumes "optimistic_patch cur (al_patchStatus api)" and "patch_available cur (al_patchStatus api)"
    and "gsq_inv (as_queue s)" and "2 \<le> size (contents (as_queue s) (aa_BuildID args))"
    and "\<forall>x \<in># contents (as_queue s) (aa_BuildID args). entry_current cur (as_world s) (aa_BuildID args) x"
    and "al_decode api b = Inr args" and "validateAllocateArgs args"
    and "al_decode api b' = Inr args'" and "validateAllocateArgs args'"
    and "aa_SessionID args' = aa_SessionID args" and "aa_BuildID args' = aa_BuildID args"
    and "\<forall>w. \<exists>gsb gsbs. al_listBuilds api w (aa_BuildID args) = Inr (gsb # gsbs)"
    and "al_listSession api (as_world s) (aa_SessionID args) (aa_BuildID args) = Inr []"
    and "\<forall>rs. al_encodeError api rs = None"
  shows "\<exists>ms p g h. Others \<notin> set ms \<and>
    pool_runs (requestWork api clock) noPanic env ms (start_pool (requests [(''POST'', b), (''POST'', b')]) (s, [])) p \<and>
    map response_of (routines p) = [Some (respond 200 (AllocBody (sessionResponse (aa_SessionID args) g))),
                  Some (respond 200 (AllocBody (sessionResponse (aa_SessionID args) h)))] \<and>
    gsKey g \<noteq> gsKey h \<and> cur (as_world (fst (shared p))) = (cur (as_world s))(gsKey g \<mapsto> g, gsKey h \<mapsto> h) \<and>
    (\<forall>x \<in> {g, h}. gsKey x \<in> qKey ` set_mset (contents (as_queue s) (aa_BuildID args)) \<and>
       gs_State x = GameServerStateActive \<and> st_SessionID (gs_Status x) = aa_SessionID args) \<and>
    (\<forall>t meth c args2. (\<forall>x \<in> {g, h}. cur (as_world t) (gsKey x) = Some x) \<and> lists_sessions cur (al_listSession api) (as_world t) \<and>
       (meth = ''POST'' \<or> meth = ''PATCH'') \<and> al_decode api c = Inr args2 \<and> validateAllocateArgs args2 \<and>
       aa_SessionID args2 = aa_SessionID args \<and> aa_BuildID args2 = aa_BuildID args \<longrightarrow>
       handleAllocationRequest api meth c t =
         (t, internalServerError ''multiple servers found'' (''Multiple servers found for sessionID '' @ aa_SessionID args)))"
proof -
  let ?B = "aa_BuildID args" and ?w = "as_world s"
  obtain q1 q2 x y where pops: "gsq_PopFromQueue (as_queue s) ?B = (q1, Some x)" "gsq_PopFromQueue q1 ?B = (q2, Some y)"
    "qKey x \<noteq> qKey y" "x \<in># contents (as_queue s) ?B" "y \<in># contents (as_queue s) ?B" by (rule two_pops [OF assms(3,4)])
  have ne: "aa_SessionID args \<noteq> []" "aa_SessionID args' \<noteq> []" using validateAllocateArgs_session assms(7,9) by blast+
  have ex: "entry_current cur ?w ?B x" and ey: "entry_current cur ?w ?B y" using assms(5) pops(4,5) by blast+
  obtain w1 g where g: "al_patchStatus api ?w (alloc_base x) (alloc_new args (clock 0) x) = (w1, Inr g)" "gsKey g = qKey x"
    "gs_State g = GameServerStateActive" "st_SessionID (gs_Status g) = aa_SessionID args"
    "om_Labels (gs_Meta g) LabelBuildID = Some ?B" "cur w1 = (cur ?w)(qKey x \<mapsto> g)"
    by (rule current_granted [OF assms(1,2) ex ne(1)])
  have "entry_current cur w1 ?B y" using ey g(6) pops(3) unfolding entry_current_def by (metis fun_upd_other)
  from current_granted [OF assms(1,2) this ne(2)] obtain w2 h where
    h: "al_patchStatus api w1 (alloc_base y) (alloc_new args' (clock 1) y) = (w2, Inr h)" "gsKey h = qKey y"
    "gs_State h = GameServerStateActive" "st_SessionID (gs_Status h) = aa_SessionID args'"
    "om_Labels (gs_Meta h) LabelBuildID = Some ?B" "cur w2 = (cur w1)(qKey y \<mapsto> h)" by blast
  from assms(12) obtain gsb gsbs where builds: "al_listBuilds api ?w ?B = Inr (gsb # gsbs)" by blast
  from both_granted [where clock = clock and env = env, OF assms(6-11) builds list.simps(3) assms(13) pops(1,2) g(1) h(1) assms(14)]
  obtain ms p where p: "Others \<notin> set ms"
    "pool_runs (requestWork api clock) noPanic env ms (start_pool (requests [(''POST'', b), (''POST'', b')]) (s, [])) p"
    "map response_of (routines p) = [Some (respond 200 (AllocBody (sessionResponse (aa_SessionID args) g))),
                  Some (respond 200 (AllocBody (sessionResponse (aa_SessionID args) h)))]"
    "map (map_option snd \<circ> granted) (routines p) = [Some g, Some h]" "as_world (fst (shared p)) = w2"
    by (elim exE conjE) rule
  have keys: "gsKey g \<noteq> gsKey h" using g(2) h(2) pops(3) by simp
  have stored: "cur (as_world (fst (shared p))) = (cur ?w)(gsKey g \<mapsto> g, gsKey h \<mapsto> h)" using p(5) g(2,6) h(2,6) by simp
  have "gsKey x \<in> qKey ` set_mset (contents (as_queue s) ?B)" if "x = g \<or> x = h" for x
    using that g(2) h(2) pops(4,5) by auto
  then have both: "\<forall>x \<in> {g, h}. gsKey x \<in> qKey ` set_mset (contents (as_queue s) ?B) \<and>
      gs_State x = GameServerStateActive \<and> st_SessionID (gs_Status x) = aa_SessionID args"
    using g(3,4) h(3,4) assms(10) by simp
  have "handleAllocationRequest api meth c t =
      (t, internalServerError ''multiple servers found'' (''Multiple servers found for sessionID '' @ aa_SessionID args))"
    if t: "\<forall>x \<in> {g, h}. cur (as_world t) (gsKey x) = Some x" "lists_sessions cur (al_listSession api) (as_world t)"
      "meth = ''POST'' \<or> meth = ''PATCH''" "al_decode api c = Inr args2" "validateAllocateArgs args2"
      "aa_SessionID args2 = aa_SessionID args" "aa_BuildID args2 = ?B" for t meth c args2
  proof -
    from assms(12) obtain b1 bs where b1: "al_listBuilds api (as_world t) (aa_BuildID args2) = Inr (b1 # bs)"
      using t(7) by metis
    have both: "\<forall>x \<in> {g, h}. st_SessionID (gs_Status x) = aa_SessionID args2 \<and> om_Labels (gs_Meta x) LabelBuildID = Some (aa_BuildID args2)"
      using g(4,5) h(4,5) assms(10) t(6,7) by simp
    have "cur (as_world t) (gsKey g) = Some g" "cur (as_world t) (gsKey h) = Some h" "g \<noteq> h" using t(1) keys by auto
    from session_of_two [OF t(2) this both t(3-5) b1] t(6) show ?thesis by simp
  qed
  then have later: "\<forall>t meth c args2. (\<forall>x \<in> {g, h}. cur (as_world t) (gsKey x) = Some x) \<and>
       lists_sessions cur (al_listSession api) (as_world t) \<and>
       (meth = ''POST'' \<or> meth = ''PATCH'') \<and> al_decode api c = Inr args2 \<and> validateAllocateArgs args2 \<and>
       aa_SessionID args2 = aa_SessionID args \<and> aa_BuildID args2 = ?B \<longrightarrow>
       handleAllocationRequest api meth c t =
         (t, internalServerError ''multiple servers found'' (''Multiple servers found for sessionID '' @ aa_SessionID args))"
    by blast
  show ?thesis
    by (rule exI [of _ ms], rule exI [of _ p], rule exI [of _ g], rule exI [of _ h]) (intro conjI p(1-3) keys stored both later)
qed

section \<open>A cluster with its history\<close>

text \<open>
  A store that keeps every version of every object; the version of one is its position. Its patch is that of
  \<open>mem_patch\<close>. The two GameServers of the example stand by in the same build.
\<close>

type_synonym etcd = "string \<times> string \<Rightarrow> GameServer list"

definition etcd_cur :: "etcd \<Rightarrow> gs_store" where
  "etcd_cur w k = (if w k = [] then None else Some (last (w k)))"

definition etcd_version :: "nat \<Rightarrow> string" where
  "etcd_version n = replicate n CHR ''x''"

definition etcd_past :: "etcd \<Rightarrow> versions" where
  "etcd_past w k v = (if v = etcd_version (length v) \<and> length v < length (w k) then Some (w k ! length v) else None)"

definition etcd_patch :: "etcd \<Rightarrow> GameServer \<Rightarrow> GameServer \<Rightarrow> etcd \<times> (api_error + GameServer)" where
  "etcd_patch w base new =
     (case etcd_cur w (gsKey base) of
        None \<Rightarrow> (w, Inl (NotFound ''not found''))
      | Some g \<Rightarrow>
          if om_ResourceVersion (gs_Meta g) = om_ResourceVersion (gs_Meta base)
          then (let g' = g\<lparr>gs_Meta := (gs_Meta g)\<lparr>om_Name := gs_Name base, om_Namespace := gs_Namespace base,
                        om_ResourceVersion := etcd_version (length (w (gsKey base)))\<rparr>,
                      gs_Status := merge_status (gs_Status base) (gs_Status new) (gs_Status g)\<rparr>
                in (w(gsKey base := w (gsKey base) @ [g']), Inr g'))
          else (w, Inl (Conflict ''conflict'')))"

lemma etcd_version_length [simp]: "length (etcd_version n) = n"
  by (simp add: etcd_version_def)

lemma etcd_cur_append [simp]: "etcd_cur (w(k := w k @ [g])) = (etcd_cur w)(k \<mapsto> g)"
  by (auto simp: etcd_cur_def)

lemma etcd_optimistic: "optimistic_patch etcd_cur etcd_patch"
  by (auto simp: optimistic_patch_def etcd_patch_def Let_def simp del: fun_upd_apply
      split: option.splits if_splits sum.splits)

lemma etcd_later: "later etcd_past w (w(k := w k @ [g]))"
  by (auto simp: later_def map_le_def etcd_past_def nth_append)

lemma etcd_append_honest:
  assumes "honest etcd_cur etcd_past w" and "gsKey g = k" and "om_ResourceVersion (gs_Meta g) = etcd_version (length (w k))"
    and "gs_State g = GameServerStateActive"
  shows "honest etcd_cur etcd_past (w(k := w k @ [g]))"
proof -
  let ?w = "w(k := w k @ [g])"
  have other: "etcd_past ?w j = etcd_past w j" if "j \<noteq> k" for j
    using that by (intro ext) (simp add: etcd_past_def)
  have "gsKey h = j \<and> is_version (etcd_past ?w) h" if h: "etcd_cur ?w j = Some h" for j h
  proof (cases "j = k")
    case True
    with h have "h = g" by simp
    with assms(2,3) True show ?thesis by (simp add: is_version_def etcd_past_def nth_append)
  next
    case False
    with h have "etcd_cur w j = Some h" by simp
    with assms(1) have "gsKey h = j" "is_version (etcd_past w) h"
      unfolding honest_def store_consistent_def by blast+
    with other [OF False] show ?thesis by (simp add: is_version_def)
  qed
  then have "store_consistent (etcd_past ?w) (etcd_cur ?w)" unfolding store_consistent_def by blast
  moreover have "\<not> was_active (etcd_past ?w) j"
    if h: "etcd_cur ?w j = Some h" "gs_State h = GameServerStateStandingBy" for j h
  proof -
    have "j \<noteq> k" using h assms(4) by auto
    then have "etcd_cur w j = Some h" using h(1) by simp
    then have "\<not> was_active (etcd_past w) j" using assms(1) h(2) unfolding honest_def by blast
    with other [OF \<open>j \<noteq> k\<close>] show ?thesis by (simp add: was_active_def)
  qed
  ultimately show ?thesis unfolding honest_def by blast
qed

definition etcd_gs :: "string \<Rightarrow> GameServer" where
  "etcd_gs n = standing_gs\<lparr>gs_Meta := (gs_Meta standing_gs)\<lparr>om_Name := n, om_ResourceVersion := etcd_version 0\<rparr>\<rparr>"

definition pair_api :: "etcd alloc_api" where
  "pair_api = \<lparr>al_listBuilds = \<lambda>w b. Inr [zero_GameServerBuild],
     al_listSession = \<lambda>w sid b.
       Inr (filter (\<lambda>g. st_SessionID (gs_Status g) = sid \<and> om_Labels (gs_Meta g) LabelBuildID = Some b)
         (map last (filter (\<lambda>gs. gs \<noteq> []) (map w [(''default'', ''a''), (''default'', ''b'')])))),
     al_patchStatus = etcd_patch,
     al_decode = \<lambda>b. Inr \<lparr>aa_SessionID = sample_session, aa_BuildID = sample_build_id,
       aa_SessionCookie = '''', aa_InitialPlayers = []\<rparr>,
     al_encodeError = \<lambda>_. None, al_now = 7, al_elapsed = 1\<rparr>"

definition pair_world :: etcd where
  "pair_world = (\<lambda>k. [])((''default'', ''a'') := [etcd_gs ''a''], (''default'', ''b'') := [etcd_gs ''b''])"

definition pair_state :: "etcd alloc_state" where
  "pair_state = \<lparr>as_queue = gsq_PushToQueue (gsq_PushToQueue NewGameServersQueue (forQueue (etcd_gs ''a''))) (forQueue (etcd_gs ''b'')),
     as_world = pair_world, as_events = [], as_effects = []\<rparr>"

lemma etcd_gs_simps [simp]:
  "gs_Name (etcd_gs n) = n" "gs_Namespace (etcd_gs n) = ''default''" "om_ResourceVersion (gs_Meta (etcd_gs n)) = etcd_version 0"
  "gs_State (etcd_gs n) = GameServerStateStandingBy" "gss_BuildID (gs_Spec (etcd_gs n)) = sample_build_id"
  "om_Labels (gs_Meta (etcd_gs n)) = [LabelBuildID \<mapsto> sample_build_id]"
  by (simp_all add: etcd_gs_def)

lemma etcd_version_zero [simp]: "etcd_version 0 = []"
  by (simp add: etcd_version_def)

lemma etcd_grant:
  assumes "etcd_cur w (''default'', n) = Some (etcd_gs n)" and "aa_SessionID args \<noteq> []"
  obtains g where "etcd_patch w (alloc_base (forQueue (etcd_gs n))) (alloc_new args now (forQueue (etcd_gs n))) =
      (w((''default'', n) := w (''default'', n) @ [g]), Inr g)"
    "gsKey g = (''default'', n)" "st_SessionID (gs_Status g) = aa_SessionID args" "gs_State g = GameServerStateActive"
    "om_Labels (gs_Meta g) = [LabelBuildID \<mapsto> sample_build_id]"
proof -
  let ?x = "forQueue (etcd_gs n)"
  have x: "qKey ?x = (''default'', n)" "q_ResourceVersion ?x = etcd_version 0" by (simp_all add: forQueue_def)
  let ?g = "(etcd_gs n)\<lparr>gs_Meta := (gs_Meta (etcd_gs n))\<lparr>om_Name := gs_Name (alloc_base ?x),
      om_Namespace := gs_Namespace (alloc_base ?x), om_ResourceVersion := etcd_version (length (w (''default'', n)))\<rparr>,
    gs_Status := merge_status (gs_Status (alloc_base ?x)) (gs_Status (alloc_new args now ?x)) (gs_Status (etcd_gs n))\<rparr>"
  have "etcd_patch w (alloc_base ?x) (alloc_new args now ?x) = (w((''default'', n) := w (''default'', n) @ [?g]), Inr ?g)"
    using assms(1) x by (simp add: etcd_patch_def Let_def)
  moreover have k: "gsKey ?g = (''default'', n)" "om_Labels (gs_Meta ?g) = [LabelBuildID \<mapsto> sample_build_id]" using x by simp_all
  moreover have "allocated args now (etcd_gs n) ?g"
    by (rule merge_alloc [OF assms(2), where x = ?x]) (use k in simp_all)
  ultimately show ?thesis using that [of ?g] by (simp add: allocated_def)
qed

lemma pair_keeps_past: "keeps_past etcd_cur etcd_past pair_api"
  unfolding keeps_past_def
proof (intro allI impI)
  fix w args now x w' r
  assume h: "honest etcd_cur etcd_past w" and ne: "aa_SessionID args \<noteq> []"
    and p: "al_patchStatus pair_api w (alloc_base x) (alloc_new args now x) = (w', r)"
  then have p': "etcd_patch w (alloc_base x) (alloc_new args now x) = (w', r)" by (simp add: pair_api_def)
  show "honest etcd_cur etcd_past w' \<and> later etcd_past w w'"
  proof (cases "w' = w")
    case True
    with h show ?thesis by simp
  next
    case False
    define g where "g = (last (w (qKey x)))\<lparr>gs_Meta := (gs_Meta (last (w (qKey x))))
        \<lparr>om_Name := gs_Name (alloc_base x), om_Namespace := gs_Namespace (alloc_base x),
          om_ResourceVersion := etcd_version (length (w (qKey x)))\<rparr>,
        gs_Status := merge_status (gs_Status (alloc_base x)) (gs_Status (alloc_new args now x)) (gs_Status (last (w (qKey x))))\<rparr>"
    have "w' = w(qKey x := w (qKey x) @ [g])"
      using p' False unfolding g_def by (auto simp: etcd_patch_def etcd_cur_def Let_def split: if_splits)
    moreover have "gsKey g = qKey x" unfolding g_def by simp
    ultimately have g: "w' = w(qKey x := w (qKey x) @ [g])" "gsKey g = qKey x"
      "om_ResourceVersion (gs_Meta g) = etcd_version (length (w (qKey x)))"
      "gs_Status g = merge_status (gs_Status (alloc_base x)) (gs_Status (alloc_new args now x)) (gs_Status (last (w (qKey x))))"
      by (simp_all add: g_def)
    have "gs_State g = GameServerStateActive"
      by (simp add: g(4) merge_status_def merge_field_def alloc_base_def alloc_new_def zero_GameServer_def zero_Status_def)
    from etcd_append_honest [OF h g(2,3) this] etcd_later show ?thesis by (simp add: g(1))
  qed
qed

lemma pair_honest: "honest etcd_cur etcd_past pair_world"
proof -
  have p: "etcd_past pair_world k v = Some g \<longleftrightarrow> v = [] \<and> (k = (''default'', ''a'') \<and> g = etcd_gs ''a'' \<or> k = (''default'', ''b'') \<and> g = etcd_gs ''b'')"
    for k v g
    by (auto simp: etcd_past_def pair_world_def less_Suc_eq)
  have c: "etcd_cur pair_world k = Some g \<longleftrightarrow> k = (''default'', ''a'') \<and> g = etcd_gs ''a'' \<or> k = (''default'', ''b'') \<and> g = etcd_gs ''b''" for k g
    by (auto simp: etcd_cur_def pair_world_def)
  have "store_consistent (etcd_past pair_world) (etcd_cur pair_world)"
    unfolding store_consistent_def is_version_def c p by auto
  moreover have "\<not> was_active (etcd_past pair_world) k" for k
    unfolding was_active_def p by auto
  ultimately show ?thesis by (simp add: honest_def)
qed

abbreviation pair_x :: "string \<Rightarrow> GameServerForQueue" where
  "pair_x n \<equiv> forQueue (etcd_gs n)"

lemma pair_queue:
  "gsq_inv (as_queue pair_state)" "contents (as_queue pair_state) sample_build_id = {#pair_x ''a'', pair_x ''b''#}"
  "c \<noteq> sample_build_id \<Longrightarrow> contents (as_queue pair_state) c = {#}"
  by (simp_all add: pair_state_def gsq_push forQueue_def)

lemma pair_inv: "alloc_inv (etcd_past (as_world pair_state)) pair_state"
proof -
  have "queued_standing (etcd_past pair_world) (as_queue pair_state)"
    unfolding queued_standing_def
  proof (intro allI impI)
    fix b x assume x: "x \<in># contents (as_queue pair_state) b"
    then have b: "b = sample_build_id" using pair_queue(3) [of b] by (cases "b = sample_build_id") auto
    with x pair_queue(2) have "x = pair_x ''a'' \<or> x = pair_x ''b''" by auto
    then show "\<exists>g. etcd_past pair_world (qKey x) (q_ResourceVersion x) = Some g \<and>
        gs_State g = GameServerStateStandingBy \<and> gss_BuildID (gs_Spec g) = b"
      using b by (auto simp: etcd_past_def pair_world_def forQueue_def)
  qed
  then show ?thesis using pair_queue(1) by (simp add: alloc_inv_def pair_state_def)
qed

lemma pair_pops:
  obtains q1 q2 m n where "gsq_PopFromQueue (as_queue pair_state) sample_build_id = (q1, Some (pair_x m))"
    "gsq_PopFromQueue q1 sample_build_id = (q2, Some (pair_x n))" "m \<noteq> n" "{m, n} = {''a'', ''b''}"
proof -
  obtain q1 r1 where p1: "gsq_PopFromQueue (as_queue pair_state) sample_build_id = (q1, r1)" by fastforce
  note G1 = gsq_pop [OF pair_queue(1) p1]
  have "r1 \<noteq> None" using G1(4) pair_queue(2) by auto
  then obtain x where x: "r1 = Some x" by blast
  then have c1: "{#pair_x ''a'', pair_x ''b''#} = add_mset x (contents q1 sample_build_id)" using G1(5) pair_queue(2) by simp
  obtain q2 r2 where p2: "gsq_PopFromQueue q1 sample_build_id = (q2, r2)" by fastforce
  note G2 = gsq_pop [OF G1(1) p2]
  have "contents q1 sample_build_id \<noteq> {#}" using arg_cong [OF c1, of size] by auto
  then have "r2 \<noteq> None" using G2(4) by blast
  then obtain y where y: "r2 = Some y" by blast
  then have "contents q1 sample_build_id = add_mset y (contents q2 sample_build_id)" using G2(5) by simp
  with c1 have c: "{#pair_x ''a'', pair_x ''b''#} = add_mset x (add_mset y (contents q2 sample_build_id))" by simp
  then have "size {#pair_x ''a'', pair_x ''b''#} = size (add_mset x (add_mset y (contents q2 sample_build_id)))" by simp
  then have "contents q2 sample_build_id = {#}" by simp
  with c have xy: "x = pair_x ''a'' \<and> y = pair_x ''b'' \<or> x = pair_x ''b'' \<and> y = pair_x ''a''"
    by (auto simp: add_eq_conv_ex)
  then show ?thesis
    using that [of q1 "''a''" q2 "''b''"] that [of q1 "''b''" q2 "''a''"] p1 p2 x y by auto
qed

text \<open>Two requests for one session, answered with the two GameServers.\<close>

lemma pair_run:
  obtains args q1 q2 x y w1 w2 g h where "al_decode pair_api [] = Inr args" "validateAllocateArgs args"
    "al_listBuilds pair_api (as_world pair_state) (aa_BuildID args) = Inr [zero_GameServerBuild]"
    "al_listSession pair_api (as_world pair_state) (aa_SessionID args) (aa_BuildID args) = Inr []"
    "gsq_PopFromQueue (as_queue pair_state) (aa_BuildID args) = (q1, Some x)"
    "gsq_PopFromQueue q1 (aa_BuildID args) = (q2, Some y)"
    "al_patchStatus pair_api (as_world pair_state) (alloc_base x) (alloc_new args 0 x) = (w1, Inr g)"
    "al_patchStatus pair_api w1 (alloc_base y) (alloc_new args 0 y) = (w2, Inr h)"
    "al_listSession pair_api w2 (aa_SessionID args) (aa_BuildID args) = Inr [g, h] \<or>
     al_listSession pair_api w2 (aa_SessionID args) (aa_BuildID args) = Inr [h, g]"
    "g \<noteq> h" "aa_SessionID args = sample_session"
proof -
  let ?args = "\<lparr>aa_SessionID = sample_session, aa_BuildID = sample_build_id, aa_SessionCookie = [], aa_InitialPlayers = []\<rparr>"
  obtain q1 q2 m n where p: "gsq_PopFromQueue (as_queue pair_state) sample_build_id = (q1, Some (pair_x m))"
    "gsq_PopFromQueue q1 sample_build_id = (q2, Some (pair_x n))" "m \<noteq> n" "{m, n} = {''a'', ''b''}" by (rule pair_pops)
  have mn: "m = ''a'' \<and> n = ''b'' \<or> m = ''b'' \<and> n = ''a''" using p(3,4) by (auto simp: doubleton_eq_iff)
  have cm: "etcd_cur pair_world (''default'', m) = Some (etcd_gs m)" and wn: "pair_world (''default'', n) = [etcd_gs n]"
    and wm: "pair_world (''default'', m) = [etcd_gs m]"
    using mn by (auto simp: etcd_cur_def pair_world_def)
  have ne: "aa_SessionID ?args \<noteq> []" by simp
  from etcd_grant [OF cm ne, of 0] obtain g where
    g: "etcd_patch pair_world (alloc_base (pair_x m)) (alloc_new ?args 0 (pair_x m)) =
        (pair_world((''default'', m) := pair_world (''default'', m) @ [g]), Inr g)" "gsKey g = (''default'', m)"
      "st_SessionID (gs_Status g) = sample_session" "om_Labels (gs_Meta g) = [LabelBuildID \<mapsto> sample_build_id]" by auto
  let ?w1 = "pair_world((''default'', m) := pair_world (''default'', m) @ [g])"
  have cn: "etcd_cur ?w1 (''default'', n) = Some (etcd_gs n)" using p(3) wn by (simp add: etcd_cur_def)
  from etcd_grant [OF cn ne, of 0] obtain h where
    h: "etcd_patch ?w1 (alloc_base (pair_x n)) (alloc_new ?args 0 (pair_x n)) =
        (?w1((''default'', n) := ?w1 (''default'', n) @ [h]), Inr h)" "gsKey h = (''default'', n)"
      "st_SessionID (gs_Status h) = sample_session" "om_Labels (gs_Meta h) = [LabelBuildID \<mapsto> sample_build_id]" by auto
  let ?w2 = "?w1((''default'', n) := ?w1 (''default'', n) @ [h])"
  have l: "al_listSession pair_api ?w2 sample_session sample_build_id = Inr [g, h] \<or>
      al_listSession pair_api ?w2 sample_session sample_build_id = Inr [h, g]"
    using mn g(3,4) h(3,4) by (auto simp: pair_api_def)
  have "st_SessionID (gs_Status (etcd_gs k)) = []" for k
    by (simp add: etcd_gs_def standing_gs_def zero_Status_def)
  then have "al_listSession pair_api (as_world pair_state) sample_session sample_build_id = Inr []"
    by (simp add: pair_api_def pair_state_def pair_world_def)
  moreover have "g \<noteq> h" using g(2) h(2) p(3) by auto
  ultimately show ?thesis
    using p(1,2) g(1) h(1) l sample_args_valid
    by (intro that [of ?args q1 "pair_x m" q2 "pair_x n" ?w1 g ?w2 h]) (simp_all add: pair_api_def pair_state_def)
qed

lemma etcd_available: "patch_available etcd_cur etcd_patch"
  by (auto simp: patch_available_def etcd_patch_def Let_def)

lemma pair_lists_sessions:
  assumes "\<And>k. k \<noteq> (''default'', ''a'') \<Longrightarrow> k \<noteq> (''default'', ''b'') \<Longrightarrow> w k = []"
    and "\<And>k g. etcd_cur w k = Some g \<Longrightarrow> gsKey g = k"
  shows "lists_sessions etcd_cur (al_listSession pair_api) w"
  unfolding lists_sessions_def
proof (intro allI exI conjI)
  fix sid b
  let ?P = "\<lambda>g. st_SessionID (gs_Status g) = sid \<and> om_Labels (gs_Meta g) LabelBuildID = Some b"
  let ?xs = "map last (filter (\<lambda>gs. gs \<noteq> []) (map w [(''default'', ''a''), (''default'', ''b'')]))"
  show "al_listSession pair_api w sid b = Inr (filter ?P ?xs)" by (simp add: pair_api_def)
  have "last (w (''default'', ''a'')) \<noteq> last (w (''default'', ''b''))"
    if "w (''default'', ''a'') \<noteq> []" "w (''default'', ''b'') \<noteq> []"
    using that assms(2) [of "(''default'', ''a'')"] assms(2) [of "(''default'', ''b'')"] by (auto simp: etcd_cur_def)
  then show "distinct (filter ?P ?xs)" by simp
  have "ran (etcd_cur w) = set ?xs"
  proof (intro set_eqI iffI)
    fix g assume "g \<in> ran (etcd_cur w)"
    then obtain n k where k: "etcd_cur w (n, k) = Some g" by (auto simp: ran_def)
    then have "w (n, k) \<noteq> []" "g = last (w (n, k))" by (auto simp: etcd_cur_def split: if_splits)
    with assms(1) [of "(n, k)"] show "g \<in> set ?xs" by (cases "(n, k) = (''default'', ''a'')") auto
  next
    fix g assume "g \<in> set ?xs"
    then have "etcd_cur w (''default'', ''a'') = Some g \<or> etcd_cur w (''default'', ''b'') = Some g"
      by (auto simp: etcd_cur_def split: if_splits)
    then show "g \<in> ran (etcd_cur w)" by (auto intro: ranI)
  qed
  then show "set (filter ?P ?xs) = {g \<in> ran (etcd_cur w). ?P g}" by auto
qed

theorem same_session_twice_witness:
  "\<exists>ms p g h. pool_runs (requestWork pair_api (\<lambda>i. 0)) noPanic (alloc_others etcd_cur etcd_past) ms
       (start_pool (requests [(''POST'', []), (''POST'', [])]) (pair_state, [])) p \<and>
     map response_of (routines p) = [Some (respond 200 (AllocBody (sessionResponse sample_session g))),
       Some (respond 200 (AllocBody (sessionResponse sample_session h)))] \<and> gsKey g \<noteq> gsKey h \<and>
     hr_Code (snd (handleAllocationRequest pair_api ''PATCH'' [] (fst (shared p)))) = 500"
proof -
  let ?args = "\<lparr>aa_SessionID = sample_session, aa_BuildID = sample_build_id, aa_SessionCookie = [], aa_InitialPlayers = []\<rparr>"
  have opt: "optimistic_patch etcd_cur (al_patchStatus pair_api)" "patch_available etcd_cur (al_patchStatus pair_api)"
    by (simp_all add: pair_api_def etcd_optimistic etcd_available)
  have ca: "contents (as_queue pair_state) (aa_BuildID ?args) = {#pair_x ''a'', pair_x ''b''#}" using pair_queue(2) by simp
  have sz: "2 \<le> size (contents (as_queue pair_state) (aa_BuildID ?args))" unfolding ca by simp
  have cur: "\<forall>x \<in># contents (as_queue pair_state) (aa_BuildID ?args). entry_current etcd_cur (as_world pair_state) (aa_BuildID ?args) x"
    unfolding ca by (auto simp: entry_current_def etcd_cur_def pair_state_def pair_world_def forQueue_def)
  have nosession: "st_SessionID (gs_Status (etcd_gs k)) = []" for k by (simp add: etcd_gs_def standing_gs_def zero_Status_def)
  have d: "al_decode pair_api [] = Inr ?args" "\<forall>w. \<exists>gsb gsbs. al_listBuilds pair_api w (aa_BuildID ?args) = Inr (gsb # gsbs)"
    "al_listSession pair_api (as_world pair_state) (aa_SessionID ?args) (aa_BuildID ?args) = Inr []"
    "\<forall>rs. al_encodeError pair_api rs = None"
    using nosession by (simp_all add: pair_api_def pair_state_def pair_world_def)
  from same_session_twice [where clock = "\<lambda>i. 0" and env = "alloc_others etcd_cur etcd_past",
      OF opt pair_queue(1) sz cur d(1) sample_args_valid d(1) sample_args_valid refl refl d(2-4)]
  obtain ms p g h where R: "pool_runs (requestWork pair_api (\<lambda>i. 0)) noPanic (alloc_others etcd_cur etcd_past) ms
       (start_pool (requests [(''POST'', []), (''POST'', [])]) (pair_state, [])) p"
    "map response_of (routines p) = [Some (respond 200 (AllocBody (sessionResponse (aa_SessionID ?args) g))),
       Some (respond 200 (AllocBody (sessionResponse (aa_SessionID ?args) h)))]"
    "gsKey g \<noteq> gsKey h" and W: "etcd_cur (as_world (fst (shared p))) = (etcd_cur (as_world pair_state))(gsKey g \<mapsto> g, gsKey h \<mapsto> h)"
    and K: "\<forall>x \<in> {g, h}. gsKey x \<in> qKey ` set_mset (contents (as_queue pair_state) (aa_BuildID ?args)) \<and>
       gs_State x = GameServerStateActive \<and> st_SessionID (gs_Status x) = aa_SessionID ?args"
    and D: "\<forall>t meth c args2. (\<forall>x \<in> {g, h}. etcd_cur (as_world t) (gsKey x) = Some x) \<and>
       lists_sessions etcd_cur (al_listSession pair_api) (as_world t) \<and>
       (meth = ''POST'' \<or> meth = ''PATCH'') \<and> al_decode pair_api c = Inr args2 \<and> validateAllocateArgs args2 \<and>
       aa_SessionID args2 = aa_SessionID ?args \<and> aa_BuildID args2 = aa_BuildID ?args \<longrightarrow>
       handleAllocationRequest pair_api meth c t =
         (t, internalServerError ''multiple servers found'' (''Multiple servers found for sessionID '' @ aa_SessionID ?args))"
    by (elim exE conjE) rule
  let ?t = "fst (shared p)"
  have keys: "gsKey x = (''default'', ''a'') \<or> gsKey x = (''default'', ''b'')" if "x \<in> {g, h}" for x
    using K that unfolding ca by (auto simp: forQueue_def)
  have world: "as_world pair_state = pair_world" by (simp add: pair_state_def)
  have "as_world ?t k = []" if "k \<noteq> (''default'', ''a'')" "k \<noteq> (''default'', ''b'')" for k
  proof -
    have "k \<noteq> gsKey g" "k \<noteq> gsKey h" using keys [of g] keys [of h] that by auto
    then have "etcd_cur (as_world ?t) k = etcd_cur pair_world k" unfolding W world by simp
    also have "\<dots> = None" using that by (simp add: etcd_cur_def pair_world_def)
    finally show ?thesis by (simp add: etcd_cur_def split: if_splits)
  qed
  moreover have "gsKey x = k" if "etcd_cur (as_world ?t) k = Some x" for k x
  proof (cases "k = gsKey g \<or> k = gsKey h")
    case True
    with that R(3) show ?thesis unfolding W by (auto split: if_splits)
  next
    case False
    with that have "etcd_cur pair_world k = Some x" unfolding W world by simp
    then show ?thesis by (auto simp: etcd_cur_def pair_world_def split: if_splits)
  qed
  ultimately have "lists_sessions etcd_cur (al_listSession pair_api) (as_world ?t)" by (rule pair_lists_sessions)
  moreover have "\<forall>x \<in> {g, h}. etcd_cur (as_world ?t) (gsKey x) = Some x" unfolding W using R(3) by auto
  ultimately have "handleAllocationRequest pair_api ''PATCH'' [] ?t =
      (?t, internalServerError ''multiple servers found'' (''Multiple servers found for sessionID '' @ aa_SessionID ?args))"
    using d(1) sample_args_valid by (intro D [rule_format]) auto
  then have "hr_Code (snd (handleAllocationRequest pair_api ''PATCH'' [] ?t)) = 500" by simp
  with R show ?thesis by (intro exI [of _ ms] exI [of _ p] exI [of _ g] exI [of _ h]) simp
qed


end
