(* ===== verification/Allocation_Offers.thy ===== *)
theory Allocation_Offers
  imports Allocation_Goroutines
begin

text \<open>
  No GameServer that stands by is lost. The queue has the GameServers that were standing by when the reconciler read them;
  requests take them out and, when a patch fails, send their names on the channel of events, from where the
  controller (\<open>SetupWithManager\<close> of \<open>allocation_api_server.go\<close>) has them reconciled again. Here the controller's
  list of objects that are still to be reconciled is added to the service of \<open>Allocation_Goroutines\<close>.
\<close>

section \<open>What is still to be reconciled\<close>

type_synonym 'w offer_shared = "'w alloc_shared \<times> (string \<times> string) set"

text \<open>The controller watches GameServers: every change of one is noticed, whoever made it.\<close>

definition noticed :: "('w \<Rightarrow> gs_store) \<Rightarrow> 'w \<Rightarrow> 'w \<Rightarrow> (string \<times> string) set \<Rightarrow> (string \<times> string) set" where
  "noticed cur w w' P = P \<union> {k. cur w' k \<noteq> cur w k}"

definition offerWork ::
    "('w \<Rightarrow> gs_store) \<Rightarrow> 'w alloc_api \<Rightarrow> (nat \<Rightarrow> int) \<Rightarrow> (request, 'w offer_shared) work" where
  "offerWork cur api clock i q y =
     map_option (\<lambda>(q', y'). (q', (y', noticed cur (as_world (fst (fst y))) (as_world (fst y')) (snd y))))
       (requestWork api clock i q (fst y))"

text \<open>
  A reconciliation may read any version that the cache had; one that read an old version is not the last, since the change
  that made it old is noticed too. The names of the GameServers of a build are its own, and a GameServer stays in its build.
\<close>

definition up_to_date :: "('w \<Rightarrow> gs_store) \<Rightarrow> 'w \<Rightarrow> string \<times> string \<Rightarrow> api_error + GameServer \<Rightarrow> bool" where
  "up_to_date cur w k r \<longleftrightarrow>
     (case r of Inl e \<Rightarrow> IsNotFound e \<and> cur w k = None | Inr g \<Rightarrow> cur w k = Some g)"

definition steady :: "('w \<Rightarrow> versions) \<Rightarrow> 'w \<Rightarrow> bool" where
  "steady past w \<longleftrightarrow> (\<forall>j k u v g h. past w j u = Some g \<longrightarrow> past w k v = Some h \<longrightarrow>
     (j = k \<longrightarrow> gss_BuildID (gs_Spec g) = gss_BuildID (gs_Spec h)) \<and>
     (snd j = snd k \<longrightarrow> gss_BuildID (gs_Spec g) = gss_BuildID (gs_Spec h) \<longrightarrow> j = k))"

inductive offer_others :: "('w \<Rightarrow> gs_store) \<Rightarrow> ('w \<Rightarrow> versions) \<Rightarrow> 'w offer_shared \<Rightarrow> 'w offer_shared \<Rightarrow> bool"
  for cur past where
  offer_reconcile: "k \<in> P \<Longrightarrow> cache_read (past (as_world s)) (fst k) (snd k) r \<Longrightarrow>
    offer_others cur past ((s, ch), P)
      ((s\<lparr>as_queue := fst (alloc_Reconcile (fst k) (snd k) r (as_queue s))\<rparr>, ch),
       if up_to_date cur (as_world s) k r then P - {k} else P)"
| offer_world: "honest cur past w \<Longrightarrow> steady past w \<Longrightarrow> later past (as_world s) w \<Longrightarrow>
    offer_others cur past ((s, ch), P) ((s\<lparr>as_world := w\<rparr>, ch), noticed cur (as_world s) w P)"
| offer_receive: "offer_others cur past ((s, k # ch), P) ((s, ch), insert k P)"

text \<open>The GameServers that stand by, and where one may be.\<close>

definition standing :: "('w \<Rightarrow> gs_store) \<Rightarrow> 'w offer_shared \<Rightarrow> (string \<times> string) set" where
  "standing cur y = {k. \<exists>g. cur (as_world (fst (fst y))) k = Some g \<and> gs_State g = GameServerStateStandingBy}"

definition queued :: "GameServersQueue \<Rightarrow> (string \<times> string) set" where
  "queued q = {k. \<exists>b. \<exists>x. x \<in># contents q b \<and> qKey x = k}"

definition offered :: "'w offer_shared \<Rightarrow> (string \<times> string) set" where
  "offered y = snd y \<union> queued (as_queue (fst (fst y))) \<union> set (snd (fst y))"

definition in_hand :: "request \<Rightarrow> (string \<times> string) set" where
  "in_hand q = {k. \<exists>x. claimed q = Some x \<and> qKey x = k}"

definition offer_good :: "('w \<Rightarrow> gs_store) \<Rightarrow> ('w \<Rightarrow> versions) \<Rightarrow> 'w alloc_api \<Rightarrow> 'w offer_shared \<Rightarrow> bool" where
  "offer_good cur past api y \<longleftrightarrow> (api_keeps cur past api \<and> service_good cur past (fst y)) \<and>
     steady past (as_world (fst (fst y)))"

text \<open>What the API server promises beside \<open>api_keeps\<close>.\<close>

definition keeps_steady :: "('w \<Rightarrow> gs_store) \<Rightarrow> ('w \<Rightarrow> versions) \<Rightarrow> 'w alloc_api \<Rightarrow> bool" where
  "keeps_steady cur past api \<longleftrightarrow>
     (\<forall>w args now x w' r. honest cur past w \<longrightarrow> steady past w \<longrightarrow>
        al_patchStatus api w (alloc_base x) (alloc_new args now x) = (w', r) \<longrightarrow> steady past w')"

section \<open>Every step\<close>

lemma offer_is_request:
  "offerWork cur api clock i q y = Some (q', y') \<Longrightarrow>
   requestWork api clock i q (fst y) = Some (q', fst y') \<and>
   snd y' = noticed cur (as_world (fst (fst y))) (as_world (fst (fst y'))) (snd y)"
  by (auto simp: offerWork_def)

lemma offer_is_others:
  "offer_others cur past y y' \<Longrightarrow> alloc_others cur past (fst y) (fst y')"
  by (induction rule: offer_others.induct) (auto intro: alloc_others.intros)

lemma requestStep_world:
  assumes "requestStep api q (s, ch) = Some (q', (s', ch'))"
  shows "as_world s' = as_world s \<or>
    (\<exists>args i x r. q = Taken args i x \<and>
       al_patchStatus api (as_world s) (alloc_base x) (alloc_new args (al_now api) x) = (as_world s', r))"
proof (cases q)
  case (Trying args i err)
  obtain q1 s1 where t: "tryPop args i err s = (q1, s1)" by fastforce
  then have "as_world s1 = as_world s" by (auto simp: tryPop_def split: if_splits prod.splits option.splits)
  with assms Trying t show ?thesis by simp
next
  case (Taken args i x)
  obtain w r where p: "al_patchStatus api (as_world s) (alloc_base x) (alloc_new args (al_now api) x) = (w, r)" by fastforce
  then have "as_world s' = w" using assms Taken by (auto simp: tryPatch_def split: sum.splits)
  with p Taken show ?thesis by blast
next
  case (Granted args i g)
  obtain s1 r where t: "alloc_success api args i g s = (s1, r)" by fastforce
  with alloc_success_simps(2) [of api args i g s] assms Granted show ?thesis by simp
qed (use assms in \<open>auto split: if_splits\<close>)

text \<open>What a step does to the queue, the channel and what the request holds.\<close>

lemma requestStep_places:
  assumes "requestStep api q (s, ch) = Some (q', (s', ch'))" and "gsq_inv (as_queue s)"
  shows "queued (as_queue s) \<union> set ch \<union> in_hand q \<subseteq> queued (as_queue s') \<union> set ch' \<union> in_hand q' \<or>
    (\<exists>args i x g. q = Taken args i x \<and> q' = Granted args i g \<and> as_queue s' = as_queue s \<and> ch' = ch)"
proof (cases q)
  case (Trying args i err)
  obtain q1 s1 where t: "tryPop args i err s = (q1, s1)" by fastforce
  obtain h r where pop: "gsq_PopFromQueue (as_queue s) (aa_BuildID args) = (h, r)" by fastforce
  note P = gsq_pop [OF assms(2) pop]
  have e: "q' = q1" "s' = s1" "ch' = ch" using assms(1) Trying t by simp_all
  show ?thesis
  proof (cases "i < allocationTries \<and> r \<noteq> None")
    case True
    then obtain x where x: "r = Some x" by blast
    have t1: "q1 = Taken args i x" "as_queue s1 = h" using t True pop x by (auto simp: tryPop_def)
    have c: "contents (as_queue s) (aa_BuildID args) = add_mset x (contents h (aa_BuildID args))" using P(5) [OF x] by blast
    have "k \<in> queued h \<union> {qKey x}" if k: "k \<in> queued (as_queue s)" for k
    proof -
      from k obtain b z where z: "z \<in># contents (as_queue s) b" "qKey z = k" unfolding queued_def by blast
      show ?thesis
      proof (cases "b = aa_BuildID args")
        case True
        with z c have "z = x \<or> z \<in># contents h b" by auto
        with z(2) show ?thesis unfolding queued_def by blast
      next
        case False
        then have "z \<in># contents h b" using z(1) P(2) by simp
        with z(2) show ?thesis unfolding queued_def by blast
      qed
    qed
    moreover have "in_hand q = {}" "in_hand q' = {qKey x}" using Trying e t1 by (auto simp: in_hand_def)
    ultimately show ?thesis using e t1 by auto
  next
    case False
    then have "as_queue s1 = as_queue s" using t pop P(4) by (auto simp: tryPop_def split: if_splits)
    moreover have "in_hand q = {}" using Trying by (simp add: in_hand_def)
    ultimately show ?thesis using e by auto
  qed
next
  case (Taken args i x)
  obtain q1 s1 where t: "tryPatch api args i x s = (q1, s1)" by fastforce
  then have "as_queue s1 = as_queue s" by (auto simp: tryPatch_def split: prod.splits sum.splits)
  with tryPatch_shape [OF t] assms(1) Taken t show ?thesis by (auto simp: in_hand_def)
next
  case (Sending args i e x)
  with assms(1) show ?thesis by (auto simp: in_hand_def split: if_splits)
next
  case (Granted args i g)
  obtain s1 r where t: "alloc_success api args i g s = (s1, r)" by fastforce
  with alloc_success_simps(1) [of api args i g s] assms(1) Granted show ?thesis by (simp add: in_hand_def)
qed (use assms(1) in \<open>auto simp: in_hand_def\<close>)

lemma clock_keeps_steady [simp]: "keeps_steady cur past (api\<lparr>al_now := t\<rparr>) = keeps_steady cur past api"
  by (simp add: keeps_steady_def)

lemma offer_steady:
  assumes "keeps_steady cur past api" and "offer_good cur past api y" and "offerWork cur api clock i q y = Some (q', y')"
  shows "steady past (as_world (fst (fst y')))"
proof -
  obtain s ch P where y: "y = ((s, ch), P)" by (metis prod.collapse)
  obtain s' ch' P' where y': "y' = ((s', ch'), P')" by (metis prod.collapse)
  have "requestStep (api\<lparr>al_now := clock i\<rparr>) q (s, ch) = Some (q', (s', ch'))"
    using offer_is_request [OF assms(3)] y y' by (simp add: requestWork_def)
  from requestStep_world [OF this] have "as_world s' = as_world s \<or> (\<exists>args x r.
       al_patchStatus api (as_world s) (alloc_base x) (alloc_new args (clock i) x) = (as_world s', r))" by auto
  with assms(1,2) show ?thesis
    unfolding y y' offer_good_def service_good_def keeps_steady_def by (metis fst_conv)
qed

lemma offer_cover_own:
  assumes "offer_good cur past api y" and "request_knows past q (fst y)" and "offerWork cur api clock i q y = Some (q', y')"
  shows "standing cur y' \<subseteq> standing cur y \<union> offered y' \<and>
    standing cur y' \<inter> (offered y \<union> in_hand q) \<subseteq> offered y' \<union> in_hand q'"
proof -
  obtain s ch P where y: "y = ((s, ch), P)" by (metis prod.collapse)
  obtain s' ch' P' where y': "y' = ((s', ch'), P')" by (metis prod.collapse)
  let ?w = "as_world s" and ?w' = "as_world s'"
  have st: "requestStep (api\<lparr>al_now := clock i\<rparr>) q (s, ch) = Some (q', (s', ch'))" and P': "P' = noticed cur ?w ?w' P"
    using offer_is_request [OF assms(3)] y y' by (simp_all add: requestWork_def)
  from assms(1) have g: "optimistic_patch cur (al_patchStatus api)" "keeps_past cur past api" "service_good cur past (s, ch)"
    by (simp_all add: offer_good_def api_keeps_def y)
  then have inv: "gsq_inv (as_queue s)" by (simp add: service_good_def alloc_inv_def)
  have "standing cur y' \<subseteq> standing cur y \<union> P'" unfolding P' y y' standing_def noticed_def by auto
  moreover have "standing cur y' \<inter> (offered y \<union> in_hand q) \<subseteq> offered y' \<union> in_hand q'"
    using requestStep_places [OF st inv]
  proof
    assume "queued (as_queue s) \<union> set ch \<union> in_hand q \<subseteq> queued (as_queue s') \<union> set ch' \<union> in_hand q'"
    then show ?thesis unfolding P' y y' offered_def noticed_def by auto
  next
    assume "\<exists>args i x g. q = Taken args i x \<and> q' = Granted args i g \<and> as_queue s' = as_queue s \<and> ch' = ch"
    then obtain args j x g where q: "q = Taken args j x" "q' = Granted args j g" "as_queue s' = as_queue s" "ch' = ch" by blast
    from requestStep_spec [of cur "api\<lparr>al_now := clock i\<rparr>" past, unfolded clock_api, OF g _ st] assms(2) y
    have "grantKey q' = grantKey q \<or> takes cur (clock i) ?w ?w' q q'" by auto
    then have t: "takes cur (clock i) ?w ?w' q q'" using q by (auto simp: grantKey_def)
    then have "qKey x \<notin> standing cur y'"
      using q unfolding takes_def y' standing_def by (auto simp: allocated_def)
    then show ?thesis using q unfolding P' y y' offered_def noticed_def by (auto simp: in_hand_def)
  qed
  ultimately show ?thesis by (auto simp: offered_def y')
qed

lemma queue_build:
  assumes "queued_standing versions q" and "x \<in># contents q b"
  obtains g where "versions (qKey x) (q_ResourceVersion x) = Some g" "gss_BuildID (gs_Spec g) = b"
  using assms unfolding queued_standing_def by blast

lemma offer_cover_env:
  assumes "offer_good cur past api y" and "offer_others cur past y y'"
  shows "standing cur y' \<subseteq> standing cur y \<union> offered y' \<and> standing cur y' \<inter> offered y \<subseteq> offered y'"
  using assms(2)
proof cases
  case (offer_world w s ch P)
  then show ?thesis unfolding standing_def offered_def noticed_def by auto
next
  case (offer_receive s k ch P)
  then show ?thesis unfolding standing_def offered_def by auto
next
  case (offer_reconcile k P s r ch)
  let ?q = "as_queue s" and ?w = "as_world s"
  let ?q' = "fst (alloc_Reconcile (fst k) (snd k) r ?q)"
  from assms(1) have inv: "gsq_inv ?q" "queued_standing (past ?w) ?q" and hon: "honest cur past ?w" and sted: "steady past ?w"
    by (simp_all add: offer_good_def service_good_def alloc_inv_def offer_reconcile(1))
  have keep: "j \<in> queued ?q'" if "j \<in> queued ?q" "j \<noteq> k" for j
  proof -
    from that(1) obtain b x where x: "x \<in># contents ?q b" "qKey x = j" by (auto simp: queued_def)
    have "\<not> (q_Name x = snd k \<and> q_Namespace x = fst k)" using x(2) that(2) by auto
    with gsq_remove_keeps [OF inv(1) x(1)] x gsq_push(2) [OF inv(1)] have "x \<in># contents ?q' b"
      by (cases r) (auto simp: alloc_Reconcile_def)
    with x(2) show ?thesis by (auto simp: queued_def)
  qed
  have this_one: "k \<in> queued ?q' \<or> k \<in> (if up_to_date cur ?w k r then P - {k} else P)" if k: "k \<in> standing cur y"
  proof (cases "up_to_date cur ?w k r")
    case False
    with offer_reconcile(3) show ?thesis by simp
  next
    case True
    from k obtain g where g: "cur ?w k = Some g" "gs_State g = GameServerStateStandingBy"
      by (auto simp: standing_def offer_reconcile(1))
    with True have r: "r = Inr g" by (cases r) (auto simp: up_to_date_def)
    have gv: "gsKey g = k" "is_version (past ?w) g" using hon g(1) unfolding honest_def store_consistent_def by blast+
    let ?b = "gss_BuildID (gs_Spec g)"
    have q': "?q' = gsq_PushToQueue ?q (forQueue g)" using r g(2) by (simp add: alloc_Reconcile_def)
    show ?thesis
    proof (cases "gs_Name g \<in> q_Name ` set_mset (contents ?q ?b)")
      case False
      then have "forQueue g \<in># contents ?q' ?b" unfolding q' using gsq_push(2) [OF inv(1), of "forQueue g" ?b]
        by (simp add: forQueue_def)
      moreover have "qKey (forQueue g) = k" using gv(1) by (simp add: forQueue_def)
      ultimately show ?thesis by (auto simp: queued_def)
    next
      case True
      then obtain x where x: "x \<in># contents ?q ?b" "q_Name x = gs_Name g" by auto
      from queue_build [OF inv(2) x(1)] obtain h where h: "past ?w (qKey x) (q_ResourceVersion x) = Some h" "gss_BuildID (gs_Spec h) = ?b"
        by blast
      have "snd (qKey x) = snd (gsKey g)" using x(2) by simp
      with sted h gv(2) have "qKey x = gsKey g" unfolding steady_def is_version_def by metis
      then have "qKey x = k" using gv(1) by simp
      moreover have "x \<in># contents ?q' ?b" unfolding q' using x(1) gsq_push(2) [OF inv(1), of "forQueue g" ?b] by auto
      ultimately show ?thesis by (auto simp: queued_def)
    qed
  qed
  have "standing cur y' = standing cur y" by (simp add: standing_def offer_reconcile(1,2))
  moreover have "j \<in> offered y'" if "j \<in> standing cur y" "j \<in> offered y" for j
  proof (cases "j = k")
    case True
    with this_one that(1) show ?thesis by (auto simp: offered_def offer_reconcile(2))
  next
    case False
    with keep [of j] that(2) show ?thesis by (auto simp: offered_def offer_reconcile(1,2) simp del: split_paired_All)
  qed
  ultimately show ?thesis by blast
qed

interpretation offers: goroutine_cover "offerWork cur api clock" noPanic "offer_others cur past"
    "\<lambda>y. keeps_steady cur past api \<and> offer_good cur past api y" "\<lambda>q y. request_knows past q (fst y)" grantKey
    "standing cur" offered in_hand
  for cur and api :: "'w alloc_api" and clock past
proof
  fix q q' r :: request and y y' :: "'w offer_shared" and i k
  assume g: "keeps_steady cur past api \<and> offer_good cur past api y"
  then have G: "api_keeps cur past api \<and> service_good cur past (fst y)" by (simp add: offer_good_def)
  show "(keeps_steady cur past api \<and> offer_good cur past api y') \<and> request_knows past q' (fst y')"
    if "request_knows past q (fst y)" "offerWork cur api clock i q y = Some (q', y')"
    using req.own_step [OF G that(1) conjunct1 [OF offer_is_request [OF that(2)]]] offer_steady [OF _ _ that(2)] g
    by (auto simp: offer_good_def)
  show "request_knows past r (fst y')"
    if "request_knows past q (fst y)" "offerWork cur api clock i q y = Some (q', y')" "request_knows past r (fst y)"
    by (rule req.no_interference [OF G that(1) conjunct1 [OF offer_is_request [OF that(2)]] that(3)])
  show "grantKey q = Some k \<or> grantKey r \<noteq> Some k"
    if "request_knows past q (fst y)" "offerWork cur api clock i q y = Some (q', y')" "grantKey q' = Some k"
      "request_knows past r (fst y)"
    by (rule req.owns_fresh [OF G that(1) conjunct1 [OF offer_is_request [OF that(2)]] that(3,4)])
  show "standing cur y' \<subseteq> standing cur y \<union> offered y' \<and>
      standing cur y' \<inter> (offered y \<union> in_hand q) \<subseteq> offered y' \<union> in_hand q'"
    if "request_knows past q (fst y)" "offerWork cur api clock i q y = Some (q', y')"
    using offer_cover_own [OF _ that] g by simp
  show "keeps_steady cur past api \<and> offer_good cur past api y'" if o: "offer_others cur past y y'"
  proof -
    have "steady past (as_world (fst (fst y')))"
      using o g by (cases rule: offer_others.cases) (simp_all add: offer_good_def)
    with req.env_step [OF G offer_is_others [OF o]] g show ?thesis by (simp add: offer_good_def)
  qed
  show "request_knows past r (fst y')" if "offer_others cur past y y'" "request_knows past r (fst y)"
    by (rule req.env_interference [OF G offer_is_others [OF that(1)] that(2)])
  show "standing cur y' \<subseteq> standing cur y \<union> offered y' \<and> standing cur y' \<inter> offered y \<subseteq> offered y'"
    if "offer_others cur past y y'"
    using offer_cover_env [of cur past api, OF _ that] g by simp
qed

section \<open>Properties\<close>



section \<open>The cluster of two GameServers\<close>

lemma etcd_append_steady:
  assumes "steady etcd_past w" and "w k \<noteq> []" and "gss_BuildID (gs_Spec g) = gss_BuildID (gs_Spec (last (w k)))"
  shows "steady etcd_past (w(k := w k @ [g]))"
proof -
  let ?w = "w(k := w k @ [g])"
  have old: "\<exists>u h'. etcd_past w j u = Some h' \<and> gss_BuildID (gs_Spec h') = gss_BuildID (gs_Spec h)"
    if h: "etcd_past ?w j v = Some h" for j v h
  proof (cases "etcd_past w j v = Some h")
    case False
    with h have j: "j = k" "h = g" by (auto simp: etcd_past_def nth_append split: if_splits)
    have "etcd_past w k (etcd_version (length (w k) - 1)) = Some (last (w k))"
      using assms(2) by (simp add: etcd_past_def last_conv_nth)
    with j assms(3) show ?thesis by auto
  qed blast
  show ?thesis unfolding steady_def
  proof (intro allI impI)
    fix i j u v g h
    assume a: "etcd_past ?w i u = Some g" "etcd_past ?w j v = Some h"
    from old [OF a(1)] obtain u' g' where g: "etcd_past w i u' = Some g'" "gss_BuildID (gs_Spec g') = gss_BuildID (gs_Spec g)" by blast
    from old [OF a(2)] obtain v' h' where h: "etcd_past w j v' = Some h'" "gss_BuildID (gs_Spec h') = gss_BuildID (gs_Spec h)" by blast
    from assms(1) [unfolded steady_def, rule_format, OF g(1) h(1)] g(2) h(2)
    show "(i = j \<longrightarrow> gss_BuildID (gs_Spec g) = gss_BuildID (gs_Spec h)) \<and>
        (snd i = snd j \<longrightarrow> gss_BuildID (gs_Spec g) = gss_BuildID (gs_Spec h) \<longrightarrow> i = j)" by simp
  qed
qed

lemma pair_keeps_steady: "keeps_steady etcd_cur etcd_past pair_api"
  unfolding keeps_steady_def
proof (intro allI impI)
  fix w args now x w' r
  assume s: "steady etcd_past w" and p: "al_patchStatus pair_api w (alloc_base x) (alloc_new args now x) = (w', r)"
  show "steady etcd_past w'"
  proof (cases "w' = w")
    case False
    with p obtain g where "w (qKey x) \<noteq> []" "w' = w(qKey x := w (qKey x) @ [g])"
      "gss_BuildID (gs_Spec g) = gss_BuildID (gs_Spec (last (w (qKey x))))"
      by (auto simp: pair_api_def etcd_patch_def etcd_cur_def Let_def split: if_splits)
    with etcd_append_steady [OF s] show ?thesis by blast
  qed (use s in simp)
qed

lemma pair_steady: "steady etcd_past pair_world"
  by (auto simp: steady_def etcd_past_def pair_world_def)

text \<open>The reconciler queues the two, and a request takes one of them.\<close>

definition two_pool :: "request \<Rightarrow> GameServersQueue \<Rightarrow> (string \<times> string) set \<Rightarrow> (request, etcd offer_shared) pool" where
  "two_pool q h P = \<lparr>waiting = [], routines = [q], shared = ((pair_state\<lparr>as_queue := h\<rparr>, []), P)\<rparr>"

lemma two_pool_run:
  assumes "requestWork pair_api (\<lambda>i. 0) 0 q (pair_state\<lparr>as_queue := h\<rparr>, []) = Some (q', (pair_state\<lparr>as_queue := h'\<rparr>, []))"
  shows "pool_step (offerWork etcd_cur pair_api (\<lambda>i. 0)) noPanic (offer_others etcd_cur etcd_past) (Routine 0)
    (two_pool q h P) (two_pool q' h' P)"
proof -
  have "offerWork etcd_cur pair_api (\<lambda>i. 0) 0 q (shared (two_pool q h P)) = Some (q', shared (two_pool q' h' P))"
    using assms by (simp add: offerWork_def two_pool_def noticed_def)
  from pool_run [where p = "two_pool q h P" and i = 0 and crashed = noPanic and q = q' and s = "shared (two_pool q' h' P)"
      and work = "offerWork etcd_cur pair_api (\<lambda>i. 0)" and env = "offer_others etcd_cur etcd_past"] this
  show ?thesis
    by (simp add: two_pool_def)
qed

lemma two_pool_reconcile:
  assumes "n = ''a'' \<or> n = ''b''"
  shows "pool_step (offerWork etcd_cur pair_api (\<lambda>i. 0)) noPanic (offer_others etcd_cur etcd_past) Others
    (two_pool q h (insert (''default'', n) P))
    (two_pool q (gsq_PushToQueue h (pair_x n)) (P - {(''default'', n)}))"
proof -
  let ?s = "pair_state\<lparr>as_queue := h\<rparr>" and ?k = "(''default'', n)"
  have r: "fst (alloc_Reconcile ''default'' n (Inr (etcd_gs n)) h) = gsq_PushToQueue h (pair_x n)"
    by (simp add: alloc_Reconcile_def)
  have "cache_read (etcd_past (as_world ?s)) (fst ?k) (snd ?k) (Inr (etcd_gs n))"
    using assms by (auto simp: cache_read_def is_version_def etcd_past_def pair_state_def pair_world_def)
  moreover have "up_to_date etcd_cur (as_world ?s) ?k (Inr (etcd_gs n))"
    using assms by (auto simp: up_to_date_def etcd_cur_def pair_state_def pair_world_def)
  ultimately have "offer_others etcd_cur etcd_past (shared (two_pool q h (insert ?k P)))
      (shared (two_pool q (gsq_PushToQueue h (pair_x n)) (P - {?k})))"
    using offer_reconcile [of ?k "insert ?k P" etcd_past ?s "Inr (etcd_gs n)" etcd_cur "[]"] r by (simp add: two_pool_def)
  from pool_others [where p = "two_pool q h (insert ?k P)" and crashed = noPanic and env = "offer_others etcd_cur etcd_past"
      and s = "shared (two_pool q (gsq_PushToQueue h (pair_x n)) (P - {?k}))"] this
  show ?thesis
    by (simp add: two_pool_def)
qed


end
