(* ===== verification/Spec2Isabelle.thy ===== *)
theory Spec2Isabelle
  imports Operator_Main Allocation_Api Init_Container Webhooks Build_Rounds Lost_Creations Build_Goroutines
    Scale_Down_Races GameServer_Controller Deep_Copy Node_Agent Heartbeat_Loop Server_Lifecycle Forecaster
    Forecaster_Main Load_Simulator Rest_Api Document_Schemas Latency_Server Config_File Allocation_Offers
begin

text \<open>
  Thundernetes runs game servers on Kubernetes. A user declares a GameServerBuild; the operator makes
  GameServers for it, each with one pod, and hands a GameServer that stands by to whoever asks for
  a session. In the pod an init container writes the configuration that the game process reads, and
  the process sends heartbeats to the agent of its node, which reports them on the GameServer. This
  is a model of that program: data as records and datatypes with the fields of the source,
  each operation and handler as an executable definition with its branches, and the API server,
  the clock, the disk and the libraries as parameters.

  \<^bold>\<open>The parts, and the files under \<open>src/\<close> that they model.\<close>

  \<^item> \<open>Prelude\<close>: 32-bit integers, Go maps, \<open>strconv\<close> and \<open>strings\<close>, API errors, and the locale
    \<open>invariant_system\<close>, by which every invariant below is shown to hold in all reachable states.
  \<^item> \<open>Api_Types\<close> (\<open>pkg/operator/api/v1alpha1/*_types.go\<close>): the custom resources. \<open>Webhooks\<close>
    (\<open>*_webhook.go\<close>): what is admitted. \<open>Deep_Copy\<close> (\<open>zz_generated.deepcopy.go\<close>): their copies in
    memory; the locale \<open>deep_copier\<close> is what a copy promises, and is put together as the types are.
  \<^item> \<open>Port_Registry\<close> (\<open>controllers/port_registry.go\<close>): the host ports that GameServers hold.
    Its locale \<open>port_allocator\<close> is the contract that the constructors of GameServers rely on.
  \<^item> \<open>Node_Utils\<close>, \<open>Controller_Utils\<close> (\<open>controllers/controller_utils.go\<close>): nodes, and the GameServer
    and the pod that the operator makes. \<open>Metrics\<close> (\<open>metrics.go\<close>): the observable effects.
  \<^item> \<open>Go_Heap\<close>, \<open>GameServer_Queue\<close> (\<open>controllers/gameserverqueue.go\<close>): the queue of GameServers
    that stand by, a heap per build. The locale \<open>min_queue\<close> is the contract of \<open>container/heap\<close>.
  \<^item> \<open>Allocation_Api\<close> (\<open>allocation_api_server.go\<close>, \<open>allocation_utils.go\<close>): the allocation service
    and its controller.
  \<^item> \<open>Expectations\<close> (\<open>gameserver_expectations.go\<close>), \<open>Build_Controller\<close>, \<open>Build_Rounds\<close> and
    \<open>Lost_Creations\<close> (\<open>gameserverbuild_controller.go\<close>): the controller of builds, one round and
    sequences of rounds. \<open>Goroutines\<close> has the goroutines that a loop starts and waits for, in any
    interleaving; its locales \<open>goroutine_ledger\<close>, \<open>goroutine_claims\<close>, \<open>goroutine_assertions\<close> and \<open>goroutine_cover\<close>
    carry what does not depend on it. \<open>Build_Goroutines\<close> instantiates them with the creations and deletions of a round,
    \<open>Allocation_Goroutines\<close> with the requests to the allocation service, \<open>Allocation_Offers\<close> adds what
    its controller has still to reconcile, and \<open>Scale_Down_Races\<close> sets the deletions against allocations.
  \<^item> \<open>GameServer_Controller\<close> (\<open>gameserver_controller.go\<close>): the controller of GameServers and pods.
  \<^item> \<open>Cert_Watcher\<close> (\<open>cert_watcher.go\<close>), \<open>Operator_Main\<close> (\<open>pkg/operator/main.go\<close>, \<open>config.go\<close>): the
    start of the operator and its TLS certificate.
  \<^item> \<open>Init_Container\<close> (\<open>cmd/initcontainer\<close>): the environment and the configuration file. The locale
    \<open>entry_codec\<close> is what the operator's encoding and the init container's parsing share.
  \<^item> \<open>Node_Agent_Utils\<close>, \<open>Node_Agent\<close> (\<open>cmd/nodeagent\<close>): heartbeats, watches and timeouts, and
    \<open>Heartbeat_Loop\<close> the checks over time. \<open>Server_Lifecycle\<close>
    (its \<open>main.go\<close>, and \<open>Start\<close> of \<open>allocation_api_server.go\<close>): how the servers end.
  \<^item> \<open>Rest_Api\<close>, \<open>Api_Document\<close> and \<open>Document_Schemas\<close> (\<open>cmd/gameserverapi\<close>, its \<open>docs\<close>), \<open>Forecaster\<close> and
    \<open>Forecaster_Main\<close> (\<open>cmd/standby-forecaster\<close>), \<open>Load_Simulator\<close> (\<open>cmd/server-load-simulator\<close>), \<open>Latency_Server\<close>
    (\<open>cmd/latencyserver\<close>), \<open>Config_File\<close> (\<open>pkg/config\<close>, \<open>pkg/log\<close>): the services beside it.

  \<^bold>\<open>How they interact.\<close> The controllers share no memory but the port registry; all else goes
  through the API server. A handler takes an abstract world and the functions of a record such as
  \<open>build_api\<close> that read and change it, and returns the new world, its own state, and the calls and
  metrics in order. What it relies on of the API server is a named predicate: \<open>optimistic_patch\<close> for
  the allocation (a patch with an old version fails and changes nothing) and the memory
  servers of the witnesses meet it. Code that runs under a lock is one step; where handlers
  interleave, an inductive relation (\<open>port_step\<close>, \<open>q_step\<close>, \<open>alloc_step\<close>, \<open>agent_step\<close>,
  \<open>build_step\<close>, \<open>unseen_step\<close>, \<open>pool_step\<close>, \<open>start_step\<close>, \<open>life_step\<close>) has them in any order and with any arguments.

  \<^bold>\<open>What is shown.\<close> The accounting of ports holds in every reachable state, requests are answered
  exactly when they can be, and releasing undoes a request. The queue refines a map from builds to
  bags with a minimum. An allocation patches a GameServer that stands by and was not changed since, and
  loses none; requests at the same time never get the same one, though two with one session may each get one.
  Meanwhile every GameServer that stands by is queued, in the hands of a request or still to be reconciled.
  A round of the build controller deletes no Active GameServer, creates what is
  missing within its limits, and rounds reach the declared number; with its goroutines in any interleaving
  a round makes the same calls, counts and expectations up to their order, and ends. A GameServer gets one pod.
  The copies that patches start from share nothing with their originals. The
  admission rules are kept by updates, and admitted builds give admitted GameServers. The init
  container reads back what the operator encoded. The agent keeps to the state machine of the GSDK,
  answers each heartbeat with the operation that is due, and marks the silent in bounded time. A certificate
  rotation is served from the next poll on. The REST service answers as its document says, and the document is closed. Several theorems show the conditions under which the code does
  something else than it means to. The sections below span components: the ports that one
  controller takes for a GameServer and the other returns, a restarted agent that offers an
  allocated GameServer a second time, and the way of an allocation to the game process.

  \<^bold>\<open>Bounds and fuel.\<close> Ports and ages are \<open>int32\<close> and wrap (\<open>wrap32\<close>); Go's 64-bit \<open>int\<close> is unbounded,
  for counts far below \<open>2\<^sup>6\<^sup>3\<close>, but for \<open>Atoi\<close>, which rejects what does not fit. The start-up loop of the
  registry is a \<open>while_option\<close>, since it does not end for the largest port, and the search for a port has
  as fuel the number of ports in the range, the bound of the source's loop. The retries of an
  allocation are the source's three; the operations of a request alone are at most twelve, the fuel of
  \<open>run_alone\<close>. Other recursion is on the data or has a measure.

  \<^bold>\<open>Not modelled.\<close> The registration of types; the HTTP, TLS and UDP servers, informers, caches and the work
  queue of controller-runtime, which appear as the order of the steps; logs, contexts and timeouts of calls; the
  decoding of JSON and YAML, whose result is an input; floating-point arithmetic and the forecasting
  libraries, which are parameters (the load simulator has real numbers); Kubernetes' own JSON of its types and the descriptions in the
  document of the REST service; the end-to-end tests.
\<close>

section \<open>The ports of a GameServer between two controllers\<close>

text \<open>
  The build controller and the controller of GameServers share the port registry. The key of what
  a creation takes is the name that the build controller made up.
\<close>

abbreviation createdName :: "'w build_api \<Rightarrow> GameServerBuild \<Rightarrow> nat \<Rightarrow> string" where
  "createdName api gsb i \<equiv> generateName (ba_rng api i) (gsb_Name gsb)"

lemma createOne_ports:
  assumes "createOne api gsb i s = Some (s1, es)"
  obtains (no_ports) e where "es = [PortErr e]"
      "GetNewPorts (b_ports s) (gsb_Namespace gsb) (createdName api gsb i)
         (int (length (bs_PortsToExpose (gsb_Spec gsb)))) = (b_ports s1, Inl e)"
  | (ports) hs where "es = [] \<or> (\<exists>e. es = [ApiErr e])"
      "GetNewPorts (b_ports s) (gsb_Namespace gsb) (createdName api gsb i)
         (int (length (bs_PortsToExpose (gsb_Spec gsb)))) = (b_ports s1, Inr hs)"
proof -
  obtain pr q where g: "GetNewPorts (b_ports s) (gsb_Namespace gsb) (createdName api gsb i)
      (int (length (bs_PortsToExpose (gsb_Spec gsb)))) = (pr, q)" by fastforce
  show ?thesis
  proof (cases q)
    case (Inl e)
    with assms g have "es = [PortErr e] \<and> b_ports s1 = pr"
      by (auto simp: createOne_def NewGameServerForGameServerBuild_def Let_def)
    with g Inl no_ports show ?thesis by simp
  next
    case (Inr hs)
    with assms g have "(es = [] \<or> (\<exists>e. es = [ApiErr e])) \<and> b_ports s1 = pr"
      by (auto simp: createOne_def NewGameServerForGameServerBuild_def Let_def log_effects_def expectCreation_def
          split: option.splits prod.splits)
    with g Inr ports show ?thesis by simp
  qed
qed

lemma gone_deregisters:
  "ga_getGS api (g_world t) ns n = Inl (NotFound e) \<Longrightarrow> DeregisterPorts (g_ports t) ns n = (pr, q) \<Longrightarrow>
   gs_Reconcile api ns n t = (t\<lparr>g_ports := pr\<rparr>, GDone)"
  by (simp add: gs_Reconcile_def)


text \<open>A cluster without GameServers, and a controller of GameServers that shares a registry.\<close>

definition gone_gs_api :: "unit gs_api" where
  "gone_gs_api =
    \<lparr>ga_getGS = \<lambda>w ns n. Inl (NotFound ''not found''), ga_getPod = \<lambda>w ns n. Inl (NotFound ''not found''),
     ga_getNode = \<lambda>w n. Inl (NotFound ''not found''), ga_now = \<lambda>w. 0, ga_createPod = \<lambda>w p. (w, None),
     ga_patchStatus = \<lambda>w a b. (w, Inr b), ga_patchLabels = \<lambda>w a b. (w, Inr b), ga_patchPod = \<lambda>w a b. (w, Inr b),
     ga_imageLinux = [], ga_imageWin = []\<rparr>"

definition sharing :: "PortRegistry \<Rightarrow> unit gs_state" where
  "sharing pr = \<lparr>g_world = (), podsUnderCreation = {}, g_ports = pr, g_events = [], g_calls = []\<rparr>"


section \<open>A GameServer between the operator and a node agent\<close>

text \<open>
  The object that the watch of a node agent reports for a GameServer whose status has been set, and
  the GameServer after a status patch, with the version the API server gave it.
\<close>

definition watched :: "string \<Rightarrow> GameServer \<Rightarrow> gs_object" where
  "watched uid gs =
     \<lparr>uo_Name = gs_Name gs, uo_Namespace = gs_Namespace gs, uo_UID = uid,
      uo_BuildName = (case om_Labels (gs_Meta gs) LabelBuildName of Some b \<Rightarrow> Value b | None \<Rightarrow> Missing),
      uo_State = Value (gs_State gs), uo_Health = Value (st_Health (gs_Status gs)),
      uo_SessionID = Value (st_SessionID (gs_Status gs)),
      uo_SessionCookie = Value (st_SessionCookie (gs_Status gs)),
      uo_InitialPlayers = Value (st_InitialPlayers (gs_Status gs))\<rparr>"

definition patchedGameServer :: "status_payload \<Rightarrow> string \<Rightarrow> GameServer \<Rightarrow> GameServer" where
  "patchedGameServer p version gs =
     gs\<lparr>gs_Meta := (gs_Meta gs)\<lparr>om_ResourceVersion := version\<rparr>,
        gs_Status := merge_status_payload p (gs_Status gs)\<rparr>"

definition patchesOf :: "agent_call list \<Rightarrow> (string \<times> string \<times> status_payload) list" where
  "patchesOf cs = concat (map (\<lambda>c. case c of PatchGameServer ns n p _ \<Rightarrow> [(ns, n, p)] | _ \<Rightarrow> []) cs)"

lemma patchesOf_append [simp]: "patchesOf (xs @ ys) = patchesOf xs @ patchesOf ys"
  by (simp add: patchesOf_def)

text \<open>What a new agent, which knows no GameServer, remembers of one that is Active and healthy.\<close>

lemma new_agent_entry:
  assumes "gs_State gs = GameServerStateActive" and "st_Health (gs_Status gs) = GameServerHealthy"
  obtains g where "gameServerMap (gameServerCreatedOrUpdated api (watched uid gs) (new_agent w)) (gs_Name gs) = Some g"
    "PreviousGameState g = []" "GameServerNamespace g = gs_Namespace gs" "IsActive g"
    "SessionID g = st_SessionID (gs_Status gs)"
    "patchesOf (ag_calls (gameServerCreatedOrUpdated api (watched uid gs) (new_agent w))) = []"
proof -
  let ?obj = "watched uid gs"
  let ?build = "case parseBuildName ?obj of Inr b \<Rightarrow> b | Inl e \<Rightarrow> []"
  let ?g = "activated ?obj (freshInfo ?obj (aa_nowFunc api w) ?build)"
  have sh: "parseStateHealth ?obj = Inr (GameStateActive, GameServerHealthy)"
    using assms by (simp add: parseStateHealth_def watched_def)
  have m: "gameServerMap (gameServerCreatedOrUpdated api ?obj (new_agent w)) (gs_Name gs) = Some ?g"
    and c: "patchesOf (ag_calls (gameServerCreatedOrUpdated api ?obj (new_agent w))) = []"
    by (simp_all add: gameServerCreatedOrUpdated_def sh Let_def new_agent_def createGameServerDetails_def
        patchesOf_def put_info_def add_effect_def freshInfo_def split: prod.split) (simp_all add: watched_def)
  show ?thesis
    by (rule that [OF m _ _ _ _ c]) (simp_all add: activated_def freshInfo_def parseSessionDetails_def watched_def)
qed

lemma heartbeatHandler_entry:
  assumes "match_path ''/v1/sessionHosts/'' ''/heartbeats'' uri = Some name" and "gameServerMap s name = Some g"
    and "CurrentGameState hb \<noteq> []" and "CurrentGameHealth hb \<noteq> []"
  shows "heartbeatHandler api cfg uri (Inr hb) s = handleHeartbeat api cfg hb name g s"
  using assms by (simp add: heartbeatHandler_def validateHeartbeatRequest_def)

lemma remembered_standby_no_call:
  assumes "CurrentGameState hb = GameStateStandingBy" "CurrentGameHealth hb = GameServerHealthy"
    and "PreviousGameState g = GameStateStandingBy" "PreviousGameHealth g = GameServerHealthy"
  shows "ag_calls (fst (handleHeartbeat api cfg hb name g s)) = ag_calls s"
proof -
  let ?g = "g\<lparr>LastHeartbeatTime := aa_nowFunc api (ag_world s)\<rparr>"
  let ?hb = "if ignoreHealthFromHeartbeat cfg then hb\<lparr>CurrentGameHealth := GameServerHealthy\<rparr> else hb"
  have hb: "CurrentGameState ?hb = GameStateStandingBy" "CurrentGameHealth ?hb = PreviousGameHealth ?g"
    using assms by simp_all
  have u: "updateHealthAndStateIfNeeded api ?hb name ?g s = (s, ?g, None)"
    by (rule remembered_standby_silent) (use hb assms(3) in simp_all)
  have p: "updateConnectedPlayersIfNeeded api ?hb name ?g s = (s, ?g, None)"
    unfolding updateConnectedPlayersIfNeeded_def hb by simp
  show ?thesis unfolding handleHeartbeat_def Let_def u by (simp add: p)
qed

text \<open>A GameServer whose state is StandingBy enters the queue of its build.\<close>

lemma Reconcile_queues:
  assumes "gsq_inv q" and "gs_State gs = GameServerStateStandingBy"
    and "gs_Name gs \<notin> q_Name ` set_mset (contents q (gss_BuildID (gs_Spec gs)))"
  shows "contents (fst (alloc_Reconcile ns name (Inr gs) q)) (gss_BuildID (gs_Spec gs)) =
    add_mset (forQueue gs) (contents q (gss_BuildID (gs_Spec gs)))"
  using gsq_push(2) [OF assms(1), of "forQueue gs" "gss_BuildID (gs_Spec gs)"] assms(2,3)
  by (simp add: alloc_Reconcile_def forQueue_def)

text \<open>
  C21: an allocated GameServer is offered again when the node agent restarts at the wrong moment.
  The GameServer has just been allocated, and the game process, which learns of it from the answer to its next
  heartbeat, still reports StandingBy. A new agent remembers no state, so it reports that
  heartbeat: its one patch makes the GameServer StandingBy again and leaves its session in place, and the
  allocation controller then puts it back into the queue of its build. An agent that remembers
  StandingBy sends nothing.
\<close>

theorem restart_offers_active_server_again:
  fixes api :: "'w agent_api"
  assumes "gs_State gs = GameServerStateActive" and "st_Health (gs_Status gs) = GameServerHealthy"
    and "CurrentGameState hb = GameStateStandingBy" and "CurrentGameHealth hb = GameServerHealthy"
    and "match_path ''/v1/sessionHosts/'' ''/heartbeats'' uri = Some (gs_Name gs)"
    and "heartbeatHandler api cfg uri (Inr hb) (gameServerCreatedOrUpdated api (watched uid gs) (new_agent w)) = (s', r)"
    and "gsq_inv q" and "gs_Name gs \<notin> q_Name ` set_mset (contents q (gss_BuildID (gs_Spec gs)))"
  shows "(\<exists>p. patchesOf (ag_calls s') = [(gs_Namespace gs, gs_Name gs, p)] \<and>
      gs_State (patchedGameServer p v gs) = GameServerStateStandingBy \<and>
      st_SessionID (gs_Status (patchedGameServer p v gs)) = st_SessionID (gs_Status gs) \<and>
      contents (fst (alloc_Reconcile (gs_Namespace gs) (gs_Name gs) (Inr (patchedGameServer p v gs)) q))
          (gss_BuildID (gs_Spec gs)) =
        add_mset (forQueue (patchedGameServer p v gs)) (contents q (gss_BuildID (gs_Spec gs)))) \<and>
    (\<forall>t g. gameServerMap t (gs_Name gs) = Some g \<and> PreviousGameState g = GameStateStandingBy \<and>
      PreviousGameHealth g = GameServerHealthy \<longrightarrow>
      ag_calls (fst (heartbeatHandler api cfg uri (Inr hb) t)) = ag_calls t)"
proof (intro conjI allI impI)
  let ?s = "gameServerCreatedOrUpdated api (watched uid gs) (new_agent w)"
  obtain g where g: "gameServerMap ?s (gs_Name gs) = Some g" "PreviousGameState g = []"
    "GameServerNamespace g = gs_Namespace gs" "patchesOf (ag_calls ?s) = []"
    using new_agent_entry [OF assms(1,2)] by metis
  have h: "handleHeartbeat api cfg hb (gs_Name gs) g ?s = (s', r)"
    using heartbeatHandler_entry [OF assms(5) g(1), of hb] assms(3,4,6) by simp
  obtain p e where p: "ag_calls s' = ag_calls ?s @ [PatchGameServer (gs_Namespace gs) (gs_Name gs) p e]"
    "\<forall>st. \<exists>now. merge_status_payload p st =
       st\<lparr>st_State := GameServerStateStandingBy, st_Health := GameServerHealthy, st_ReachedStandingByOn := Some now\<rparr>"
    using first_standby_reported [OF h assms(3,4) g(2)] g(3) by metis
  obtain now where m: "merge_status_payload p (gs_Status gs) = (gs_Status gs)
      \<lparr>st_State := GameServerStateStandingBy, st_Health := GameServerHealthy, st_ReachedStandingByOn := Some now\<rparr>"
    using p(2) by blast
  have "gs_State (patchedGameServer p v gs) = GameServerStateStandingBy"
    and "st_SessionID (gs_Status (patchedGameServer p v gs)) = st_SessionID (gs_Status gs)"
    and "gs_Name (patchedGameServer p v gs) = gs_Name gs" and "gs_Spec (patchedGameServer p v gs) = gs_Spec gs"
    by (simp_all add: patchedGameServer_def m)
  moreover have "patchesOf (ag_calls s') = [(gs_Namespace gs, gs_Name gs, p)]"
    using p(1) g(4) by (simp add: patchesOf_def)
  ultimately show "\<exists>p. patchesOf (ag_calls s') = [(gs_Namespace gs, gs_Name gs, p)] \<and>
      gs_State (patchedGameServer p v gs) = GameServerStateStandingBy \<and>
      st_SessionID (gs_Status (patchedGameServer p v gs)) = st_SessionID (gs_Status gs) \<and>
      contents (fst (alloc_Reconcile (gs_Namespace gs) (gs_Name gs) (Inr (patchedGameServer p v gs)) q))
          (gss_BuildID (gs_Spec gs)) =
        add_mset (forQueue (patchedGameServer p v gs)) (contents q (gss_BuildID (gs_Spec gs)))"
    using Reconcile_queues [OF assms(7), of "patchedGameServer p v gs"] assms(8) by auto
next
  fix t :: "'w agent" and g
  assume "gameServerMap t (gs_Name gs) = Some g \<and> PreviousGameState g = GameStateStandingBy \<and>
    PreviousGameHealth g = GameServerHealthy"
  then show "ag_calls (fst (heartbeatHandler api cfg uri (Inr hb) t)) = ag_calls t"
    using heartbeatHandler_entry [OF assms(5), of t g hb] assms(3,4) remembered_standby_no_call [of hb g] by simp
qed

definition playing_server :: GameServer where
  "playing_server = standing_gs\<lparr>gs_Status := (gs_Status standing_gs)\<lparr>st_State := GameServerStateActive,
     st_Health := GameServerHealthy, st_SessionID := sample_session\<rparr>\<rparr>"

theorem restart_offers_active_server_again_witness:
  "\<exists>s r p. heartbeatHandler calm_api calm_config ''/v1/sessionHosts/gs/heartbeats'' (Inr standby_heartbeat)
       (gameServerCreatedOrUpdated calm_api (watched ''uid'' playing_server) (new_agent 0)) = (s, r) \<and>
     patchesOf (ag_calls s) = [(''default'', ''gs'', p)] \<and>
     gs_State (patchedGameServer p ''9'' playing_server) = GameServerStateStandingBy"
proof -
  let ?s = "gameServerCreatedOrUpdated calm_api (watched ''uid'' playing_server) (new_agent 0)"
  obtain s r where h: "heartbeatHandler calm_api calm_config ''/v1/sessionHosts/gs/heartbeats'' (Inr standby_heartbeat) ?s = (s, r)"
    by fastforce
  have gs: "gs_Name playing_server = ''gs''" "gs_Namespace playing_server = ''default''"
    "gs_State playing_server = GameServerStateActive" "st_Health (gs_Status playing_server) = GameServerHealthy"
    by (simp_all add: playing_server_def)
  have hb: "CurrentGameState standby_heartbeat = GameStateStandingBy" "CurrentGameHealth standby_heartbeat = GameServerHealthy"
    by (simp_all add: standby_heartbeat_def)
  have m: "match_path ''/v1/sessionHosts/'' ''/heartbeats'' ''/v1/sessionHosts/gs/heartbeats'' = Some (gs_Name playing_server)"
    by (simp add: match_path_def gs)
  show ?thesis
    using restart_offers_active_server_again [OF gs(3,4) hb m h gsq_new(1), of "''9''"] h gs(1,2) by auto
qed

text \<open>A heartbeat that says again what the agent remembers, from a GameServer that stands by, is answered without a call.\<close>

lemma remembered_standby_answer:
  assumes "CurrentGameState hb = GameStateStandingBy" "CurrentGameHealth hb = GameServerHealthy"
    and "PreviousGameState g = GameStateStandingBy" "PreviousGameHealth g = GameServerHealthy"
  shows "\<exists>g'. handleHeartbeat api cfg hb name g s = (put_info name g' s, HeartbeatOk (heartbeatResponse hb g))"
proof -
  let ?g = "g\<lparr>LastHeartbeatTime := aa_nowFunc api (ag_world s)\<rparr>"
  let ?hb = "if ignoreHealthFromHeartbeat cfg then hb\<lparr>CurrentGameHealth := GameServerHealthy\<rparr> else hb"
  have hb: "CurrentGameState ?hb = GameStateStandingBy" "CurrentGameHealth ?hb = PreviousGameHealth ?g"
    using assms by simp_all
  have u: "updateHealthAndStateIfNeeded api ?hb name ?g s = (s, ?g, None)"
    by (rule remembered_standby_silent) (use hb assms(3) in simp_all)
  have p: "updateConnectedPlayersIfNeeded api ?hb name ?g s = (s, ?g, None)"
    unfolding updateConnectedPlayersIfNeeded_def hb by simp
  have "heartbeatResponse ?hb ?g = heartbeatResponse hb g" by (simp add: heartbeatResponse_def)
  then show ?thesis unfolding handleHeartbeat_def Let_def u by (auto simp: p)
qed

text \<open>What an agent that knows a GameServer makes of the event that it is Active.\<close>

lemma active_event_entry:
  assumes "gameServerMap a (gs_Name gs) = Some i" and "gs_State gs = GameServerStateActive"
  shows "gameServerMap (gameServerCreatedOrUpdated api (watched uid gs) a) (gs_Name gs) =
    Some (if gs_Health gs = GameServerHealthy then activated (watched uid gs) i else i)"
proof -
  have sh: "parseStateHealth (watched uid gs) = Inr (GameStateActive, gs_Health gs)"
    using assms(2) by (simp add: parseStateHealth_def watched_def)
  have n: "uo_Name (watched uid gs) = gs_Name gs" by (simp add: watched_def)
  show ?thesis
    using assms(1)
    by (simp add: gameServerCreatedOrUpdated_def sh n Let_def put_info_def split: prod.split)
qed


text \<open>The agent of the node of the sample GameServer, before and after its allocation.\<close>

definition standing_info :: GameServerInfo where
  "standing_info = quiet_info\<lparr>IsActive := False, PreviousGameState := GameStateStandingBy, PreviousGameHealth := GameServerHealthy\<rparr>"


end
